(* ===== verification/Laterite_Prelude.thy ===== *)
theory Laterite_Prelude
  imports Main "HOL-Library.Word"
begin

text \<open>
  Shared vocabulary of the development: JavaScript's arithmetic on \<open>bigint\<close> (division and
  remainder truncate towards zero), saturating subtraction, results that carry a thrown error,
  little-endian reads of byte arrays, optional list access, and the interface
  \<open>steady_until\<close> of a time-dependent quantity that keeps its value up to a known instant.
\<close>

unbundle bit_operations_syntax

named_theorems js_arith \<open>JavaScript arithmetic read as HOL arithmetic\<close>
named_theorems result_simps \<open>inversion of results that may carry a thrown error\<close>
named_theorems byte_simps \<open>lengths and reads of byte arrays\<close>

section \<open>Integers\<close>

type_synonym bigint = int
type_synonym u8 = "8 word"
type_synonym bytes = "u8 list"

text \<open>The operators \<open>/\<close> and \<open>%\<close> of \<open>bigint\<close>, for a divisor that is not 0.\<close>

definition js_div :: "int \<Rightarrow> int \<Rightarrow> int" where
  "js_div a b = sgn a * sgn b * (\<bar>a\<bar> div \<bar>b\<bar>)"

definition js_mod :: "int \<Rightarrow> int \<Rightarrow> int" where
  "js_mod a b = a - js_div a b * b"

definition saturatingSub :: "int \<Rightarrow> int \<Rightarrow> int" where
  "saturatingSub a b = (if a > b then a - b else 0)"

lemma js_div_nonneg [js_arith]: "0 \<le> a \<Longrightarrow> 0 \<le> b \<Longrightarrow> js_div a b = a div b"
  by (cases "a = 0"; cases "b = 0") (simp_all add: js_div_def)

lemma js_mod_nonneg [js_arith]: "0 \<le> a \<Longrightarrow> 0 \<le> b \<Longrightarrow> js_mod a b = a mod b"
  by (simp add: js_mod_def js_div_nonneg minus_div_mult_eq_mod)

lemma js_mod_bounds: "0 < b \<Longrightarrow> - b < js_mod a b \<and> js_mod a b < b"
proof (cases "0 \<le> a")
  case True
  moreover assume "0 < b"
  ultimately have "0 \<le> js_mod a b" "js_mod a b < b" by (simp_all add: js_mod_nonneg)
  with \<open>0 < b\<close> show ?thesis by linarith
next
  case False
  assume b: "0 < b"
  from False b have "js_mod a b = - ((- a) mod b)"
    using minus_div_mult_eq_mod [of "- a" b] by (simp add: js_mod_def js_div_def)
  with b pos_mod_bound [of b "- a"] pos_mod_sign [of b "- a"] show ?thesis by linarith
qed

lemma js_div_mod: "js_div a b * b + js_mod a b = a"
  by (simp add: js_mod_def)

lemma js_mod_cong: "0 < b \<Longrightarrow> js_mod a b mod b = a mod b"
proof -
  have "js_mod a b = a + (- js_div a b) * b" by (simp add: js_mod_def)
  then show ?thesis by (metis mod_mult_self1)
qed

text \<open>The idiom \<open>((a % b) + b) % b\<close> is the mathematical remainder.\<close>

lemma js_mod_euclid [js_arith]: "0 < b \<Longrightarrow> js_mod (js_mod a b + b) b = a mod b"
proof -
  assume b: "0 < b"
  with js_mod_bounds [OF b, of a] have "js_mod (js_mod a b + b) b = (js_mod a b + b) mod b"
    by (intro js_mod_nonneg) linarith+
  also have "\<dots> = a mod b" using b by (simp add: js_mod_cong)
  finally show ?thesis .
qed

lemma saturatingSub_nonneg [simp, intro]: "0 \<le> saturatingSub a b"
  by (simp add: saturatingSub_def)

lemma saturatingSub_max: "saturatingSub a b = max 0 (a - b)"
  by (auto simp: saturatingSub_def)

lemma saturatingSub_mono: "a \<le> a' \<Longrightarrow> saturatingSub a b \<le> saturatingSub a' b"
  by (auto simp: saturatingSub_def)

lemma div_bucket_iff: "0 < (p::int) \<Longrightarrow> (t div p = q) = (q * p \<le> t \<and> t < (q + 1) * p)"
proof
  assume p: "0 < p" and "t div p = q"
  then show "q * p \<le> t \<and> t < (q + 1) * p"
    using pos_mod_bound [OF p, of t] pos_mod_sign [OF p, of t] div_mult_mod_eq [of t p]
    by (auto simp: algebra_simps)
next
  assume p: "0 < p" and b: "q * p \<le> t \<and> t < (q + 1) * p"
  then have "0 \<le> t - q * p" "t - q * p < p" by (simp_all add: algebra_simps)
  then show "t div p = q" by (intro int_div_pos_eq [where r = "t - q * p"]) (simp_all add: algebra_simps)
qed

lemma div_same_bucket:
  "0 < (p::int) \<Longrightarrow> now \<le> t \<Longrightarrow> t < (now div p + 1) * p \<Longrightarrow> t div p = now div p"
  using div_bucket_iff [of p now "now div p"] by (simp add: div_bucket_iff)

lemma div_le_bucket: "0 < (p::int) \<Longrightarrow> t < (q + 1) * p \<Longrightarrow> t div p \<le> q"
proof (rule ccontr)
  assume p: "0 < p" and t: "t < (q + 1) * p" and "\<not> t div p \<le> q"
  then have "(q + 1) * p \<le> (t div p) * p" by (intro mult_right_mono) simp_all
  also have "\<dots> \<le> t" using div_bucket_iff [OF p, of t "t div p"] by simp
  finally show False using t by simp
qed

text \<open>Stepping back over a multiple is the only step that changes the quotient.\<close>

lemma div_pred:
  assumes k: "0 < (k::int)"
  shows "(y - 1) div k = y div k - (if k dvd y then 1 else 0)"
proof -
  have "(y div k) * k \<le> y" "y < (y div k + 1) * k" using div_bucket_iff [OF k, of y "y div k"] by auto
  moreover have "k dvd y \<longleftrightarrow> (y div k) * k = y" by (metis dvd_div_mult_self dvd_triv_right)
  ultimately show ?thesis using k by (subst div_bucket_iff) (auto simp: algebra_simps)
qed

section \<open>Results that may carry a thrown error\<close>

definition res_bind :: "'e + 'a \<Rightarrow> ('a \<Rightarrow> 'e + 'b) \<Rightarrow> 'e + 'b" where
  "res_bind r f = (case r of Inl e \<Rightarrow> Inl e | Inr x \<Rightarrow> f x)"

definition res_guard :: "bool \<Rightarrow> 'e \<Rightarrow> 'e + 'b \<Rightarrow> 'e + 'b" where
  "res_guard bad e r = (if bad then Inl e else r)"

lemma res_bind_simps [simp]:
  "res_bind (Inl e) f = Inl e"
  "res_bind (Inr x) f = f x"
  by (simp_all add: res_bind_def)

lemma res_bind_Inr_iff [result_simps]:
  "(res_bind r f = Inr y) = (\<exists>x. r = Inr x \<and> f x = Inr y)"
  by (cases r) simp_all

lemma res_bind_Inl_iff [result_simps]:
  "(res_bind r f = Inl e) = (r = Inl e \<or> (\<exists>x. r = Inr x \<and> f x = Inl e))"
  by (cases r) simp_all

lemma res_guard_Inr_iff [result_simps]: "(res_guard bad e r = Inr y) = (\<not> bad \<and> r = Inr y)"
  by (simp add: res_guard_def)

lemma res_guard_Inl_iff [result_simps]:
  "(res_guard bad e r = Inl e') = (bad \<and> e = e' \<or> \<not> bad \<and> r = Inl e')"
  by (auto simp: res_guard_def)

lemma res_guard_simps [simp]:
  "res_guard True e r = Inl e"
  "res_guard False e r = r"
  by (simp_all add: res_guard_def)

section \<open>Lists\<close>

definition nth_opt :: "'a list \<Rightarrow> int \<Rightarrow> 'a option" where
  "nth_opt xs i = (if 0 \<le> i \<and> i < int (length xs) then Some (xs ! nat i) else None)"

lemma nth_opt_Some_iff: "(nth_opt xs i = Some x) = (0 \<le> i \<and> i < int (length xs) \<and> xs ! nat i = x)"
  by (auto simp: nth_opt_def)

lemma nth_opt_Cons_0 [simp]: "nth_opt (x # xs) 0 = Some x"
  by (simp add: nth_opt_def)

lemma nth_opt_Cons_1 [simp]: "nth_opt (x # y # xs) 1 = Some y"
  by (simp add: nth_opt_def)

lemma nth_opt_in_set: "nth_opt xs i = Some x \<Longrightarrow> x \<in> set xs"
  by (auto simp: nth_opt_def split: if_splits)

text \<open>\<open>array.slice(start, end)\<close> with both bounds within or past the array.\<close>

definition js_slice :: "nat \<Rightarrow> nat \<Rightarrow> 'a list \<Rightarrow> 'a list" where
  "js_slice i j xs = take (j - i) (drop i xs)"

lemma js_slice_append_middle [byte_simps]:
  "length xs = i \<Longrightarrow> j = i + length ys \<Longrightarrow> js_slice i j (xs @ ys @ zs) = ys"
  by (simp add: js_slice_def)

section \<open>Little-endian integers\<close>

fun le_uint :: "bytes \<Rightarrow> int" where
  "le_uint [] = 0"
| "le_uint (b # bs) = uint b + 256 * le_uint bs"

fun le_bytes :: "nat \<Rightarrow> int \<Rightarrow> bytes" where
  "le_bytes 0 x = []"
| "le_bytes (Suc n) x = word_of_int x # le_bytes n (x div 256)"

text \<open>A two's-complement read of \<open>n\<close> bytes.\<close>

definition le_sint :: "bytes \<Rightarrow> int" where
  "le_sint bs = (let v = le_uint bs; w = 256 ^ length bs in if 2 * v \<ge> w then v - w else v)"

lemma length_le_bytes [simp]: "length (le_bytes n x) = n"
  by (induction n arbitrary: x) auto

lemma uint_byte_bounds: "0 \<le> uint (b :: u8)" "uint (b :: u8) < 256"
  using uint_lt2p [of b] by auto

lemma le_uint_bounds: "0 \<le> le_uint bs \<and> le_uint bs < 256 ^ length bs"
proof (induction bs)
  case Nil
  then show ?case by simp
next
  case (Cons b bs)
  have "uint b < 256" "0 \<le> uint b" by (simp_all add: uint_byte_bounds)
  with Cons show ?case by simp
qed

lemma le_uint_le_bytes: "le_uint (le_bytes n x) = x mod 256 ^ n"
proof (induction n arbitrary: x)
  case 0
  then show ?case by simp
next
  case (Suc n)
  have "x mod (256 * 256 ^ n) = 256 * (x div 256 mod 256 ^ n) + x mod 256"
    by (rule zmod_zmult2_eq) simp
  with Suc show ?case by (simp add: uint_word_of_int)
qed

lemma le_uint_le_bytes_small: "0 \<le> x \<Longrightarrow> x < 256 ^ n \<Longrightarrow> le_uint (le_bytes n x) = x"
  by (simp add: le_uint_le_bytes)

lemma le_sint_le_bytes:
  assumes "n > 0" "- (256 ^ n) \<le> 2 * x" "2 * x < 256 ^ n"
  shows "le_sint (le_bytes n x) = x"
proof (cases "0 \<le> x")
  case True
  with assms show ?thesis by (simp add: le_sint_def le_uint_le_bytes)
next
  case False
  with assms have "0 \<le> x + 256 ^ n" "x + 256 ^ n < 256 ^ n" by linarith+
  then have "x mod 256 ^ n = x + 256 ^ n"
    by (metis mod_add_self2 mod_pos_pos_trivial)
  with assms False show ?thesis by (simp add: le_sint_def le_uint_le_bytes)
qed

lemma le_bytes_inject:
  "0 \<le> x \<Longrightarrow> x < 256 ^ n \<Longrightarrow> 0 \<le> y \<Longrightarrow> y < 256 ^ n \<Longrightarrow> le_bytes n x = le_bytes n y \<Longrightarrow> x = y"
  by (metis le_uint_le_bytes_small)

lemma unat_byte_of_nat [byte_simps]: "n < 256 \<Longrightarrow> unat (word_of_nat n :: u8) = n"
  by (simp add: unat_of_nat)

section \<open>Quantities that change only at known instants\<close>

text \<open>The minimum of a non-empty list, as \<open>reduce\<close> computes it.\<close>

definition earliest :: "int list \<Rightarrow> int" where
  "earliest bs = foldl (\<lambda>next b. if b < next then b else next) (hd bs) (tl bs)"

lemma foldl_min_le:
  "foldl (\<lambda>next b. if b < next then b else next) (x :: int) bs \<le> x
   \<and> (\<forall>b \<in> set bs. foldl (\<lambda>next b. if b < next then b else next) x bs \<le> b)"
proof (induction bs arbitrary: x)
  case Nil
  then show ?case by simp
next
  case (Cons c bs)
  show ?case using Cons.IH [of x] Cons.IH [of c] by (simp; linarith)
qed

lemma earliest_le: "b \<in> set bs \<Longrightarrow> earliest bs \<le> b"
  using foldl_min_le by (cases bs) (auto simp: earliest_def)

lemma foldl_min_in:
  "foldl (\<lambda>next b. if b < next then b else next) (x :: int) bs \<in> insert x (set bs)"
  by (induction bs arbitrary: x) fastforce+

lemma earliest_in: "bs \<noteq> [] \<Longrightarrow> earliest bs \<in> set bs"
  using foldl_min_in by (cases bs) (auto simp: earliest_def)

text \<open>
  A function of the clock together with the instants at which it may change. The sweep relies on
  this contract for every part of its amount: the UTC day, the user's week, the trading session and
  the subscription's period each provide one, and two of them provide their pair.
\<close>

locale steady_until =
  fixes valid :: "'s \<Rightarrow> int \<Rightarrow> bool"
    and quantity :: "'s \<Rightarrow> int \<Rightarrow> 'q"
    and boundaries :: "'s \<Rightarrow> int \<Rightarrow> int list"
  assumes steady: "valid s now \<Longrightarrow> now \<le> t \<Longrightarrow> (\<And>b. b \<in> set (boundaries s now) \<Longrightarrow> t < b)
                   \<Longrightarrow> quantity s t = quantity s now"
begin

lemma steady_before_earliest:
  assumes "valid s now" "now \<le> t" "set (boundaries s now) \<subseteq> set bs" "t < earliest bs"
  shows "quantity s t = quantity s now"
proof (rule steady [OF assms(1,2)])
  fix b assume "b \<in> set (boundaries s now)"
  with assms(3) have "earliest bs \<le> b" by (blast intro: earliest_le)
  with assms(4) show "t < b" by linarith
qed

end

locale steady_pair =
  one: steady_until valid1 quantity1 boundaries1 + two: steady_until valid2 quantity2 boundaries2
  for valid1 :: "'s \<Rightarrow> int \<Rightarrow> bool" and quantity1 :: "'s \<Rightarrow> int \<Rightarrow> 'p" and boundaries1
    and valid2 :: "'r \<Rightarrow> int \<Rightarrow> bool" and quantity2 :: "'r \<Rightarrow> int \<Rightarrow> 'q" and boundaries2

sublocale steady_pair \<subseteq> both: steady_until
  "\<lambda>(s, r) now. valid1 s now \<and> valid2 r now"
  "\<lambda>(s, r) t. (quantity1 s t, quantity2 r t)"
  "\<lambda>(s, r) now. boundaries1 s now @ boundaries2 r now"
  by unfold_locales (auto intro!: one.steady two.steady)

end
