(* ===== verification/Laterite_Types.thy ===== *)
theory Laterite_Types
  imports Laterite_Prelude
begin

text \<open>
  The on-chain account data the TypeScript client reads (\<open>clients/typescript/src/generated\<close>),
  its constants (\<open>constants.ts\<close>) and its errors (\<open>errors.ts\<close>). A \<open>bigint\<close> and a \<open>number\<close>
  that holds an integer are \<open>int\<close>; the widths the accounts give them are the
  well-formedness predicates. An \<open>Address\<close> is its base58 string.
\<close>

section \<open>Constants (constants.ts)\<close>

type_synonym address = string

definition TIERS :: "int list" where "TIERS = [10000000, 25000000]"
definition TRIAL_CAP :: int where "TRIAL_CAP = 5000000"
definition DAY_SECONDS :: int where "DAY_SECONDS = 86400"
definition WEEK_SECONDS :: int where "WEEK_SECONDS = 7 * DAY_SECONDS"
definition TRIAL_SECONDS :: int where "TRIAL_SECONDS = WEEK_SECONDS"
definition PLAN_PERIOD_HOURS :: int where "PLAN_PERIOD_HOURS = 168"
definition PLAN_IDS_PER_TOKEN :: int where "PLAN_IDS_PER_TOKEN = 2"
definition PAYMENT_TOKEN_COUNT :: nat where "PAYMENT_TOKEN_COUNT = 2"
definition INCOME_SHARE_BPS :: int where "INCOME_SHARE_BPS = 1000"
definition INCOME_MIN :: int where "INCOME_MIN = 50000000"
definition CHANGE_STEP :: int where "CHANGE_STEP = 1000000"
definition CHANGE_MIN :: int where "CHANGE_MIN = 500000"
definition MAX_PRICE_AGE_SECONDS :: int where "MAX_PRICE_AGE_SECONDS = 60"
definition MAX_CONFIDENCE_BPS :: int where "MAX_CONFIDENCE_BPS = 50"
definition SLIPPAGE_BPS :: int where "SLIPPAGE_BPS = 55"
definition USD_DECIMALS :: int where "USD_DECIMALS = 6"
definition U64_MAX :: int where "U64_MAX = 2 ^ 64 - 1"
definition U128_MAX :: int where "U128_MAX = 2 ^ 128 - 1"

lemma day_week_seconds [simp]:
  "DAY_SECONDS = 86400" "WEEK_SECONDS = 604800" "TRIAL_SECONDS = 604800"
  by (simp_all add: DAY_SECONDS_def WEEK_SECONDS_def TRIAL_SECONDS_def)

section \<open>Account data (generated/types, generated/accounts)\<close>

datatype engine = Daily | Weekly

datatype user_status = Active | Paused | Exited

record market_calendar =
  firstDay :: int
  validThrough :: int
  holidays :: bytes
  earlyCloses :: bytes

record asset_entry =
  asset_mint :: address
  asset_tokenProgram :: address
  asset_decimals :: int
  pythFeedId :: int

record payment_token_entry =
  token_mint :: address
  token_tokenProgram :: address
  token_decimals :: int
  usdFeedId :: int

record config =
  cfg_admin :: address
  cfg_pendingAdmin :: address
  cfg_paused :: bool
  cfg_router :: address
  cfg_attestor :: address
  cfg_sponsor :: address
  userWeeklyCap :: int
  maxUsers :: int
  userCount :: int
  cfg_assets :: "asset_entry list"
  cfg_paymentTokens :: "payment_token_entry list"
  marketCalendar :: market_calendar
  genesisHash :: bytes

record user_config =
  uc_user :: address
  uc_tier :: int
  uc_paymentTokens :: int
  uc_asset :: int
  uc_engine :: engine
  uc_engineAmount :: int
  uc_incomeRule :: bool
  uc_changeMultiplier :: int
  uc_cushions :: "int list"
  uc_enrolledAt :: int
  uc_goalAmount :: int
  uc_goalLabel :: bytes
  uc_bump :: int
  uc_week :: int
  uc_weekSpent :: int
  uc_engineRanAt :: int
  uc_pending :: int
  uc_status :: user_status
  uc_attestableFrom :: int
  uc_lastSweepDay :: "int list"

record enroll_params =
  ep_tier :: int
  ep_paymentTokens :: int
  ep_asset :: int
  ep_engine :: engine
  ep_engineAmount :: int
  ep_incomeRule :: bool
  ep_changeMultiplier :: int
  ep_cushions :: "int list"
  ep_goalAmount :: int
  ep_goalLabel :: bytes

text \<open>What decoding an account guarantees: every field within its width, two entries per table.\<close>

definition u16_ok :: "int \<Rightarrow> bool" where "u16_ok n = (0 \<le> n \<and> n < 2 ^ 16)"
definition u32_ok :: "int \<Rightarrow> bool" where "u32_ok n = (0 \<le> n \<and> n < 2 ^ 32)"
definition u64_ok :: "int \<Rightarrow> bool" where "u64_ok n = (0 \<le> n \<and> n < 2 ^ 64)"
definition i64_ok :: "int \<Rightarrow> bool" where "i64_ok n = (- (2 ^ 63) \<le> n \<and> n < 2 ^ 63)"

definition user_config_ok :: "user_config \<Rightarrow> bool" where
  "user_config_ok u =
     (u64_ok (uc_engineAmount u) \<and> u64_ok (uc_weekSpent u) \<and> u64_ok (uc_pending u)
      \<and> u32_ok (uc_week u) \<and> i64_ok (uc_enrolledAt u) \<and> i64_ok (uc_engineRanAt u)
      \<and> length (uc_cushions u) = 2 \<and> list_all u64_ok (uc_cushions u)
      \<and> length (uc_lastSweepDay u) = 2 \<and> list_all u32_ok (uc_lastSweepDay u))"

section \<open>Errors (errors.ts, generated/errors)\<close>

datatype laterite_error =
    NotUpgradeAuthority | Unauthorized | NotPendingAdmin | InvalidRouter | InvalidAttestor
  | InvalidCap | InvalidAsset | InvalidPaymentToken | InvalidSponsor | ProgramPaused | BetaFull
  | UnknownPaymentToken | InvalidTier | CapAboveBetaLimit | UnknownAsset | NoPaymentToken
  | InvalidRules | SubscriptionMismatch | NotSponsor | CalendarNotAscending
  | ImplausibleMarketDay | InvalidPriceUpdate | PriceUnavailable | StalePrice | PriceUncertain
  | AmountTooSmall | InvalidGenesisHash | InvalidAttestationSignature | InvalidAttestation
  | UserNotActive | AttestationExpired | NothingToInvest | AttestationNotExpired | AlreadySwept
  | NothingToSweep | InvalidTokenAccount | SwapAccountChanged | SlippageExceeded
  | PlanChangeRequired | PendingIncrease | UserNotPaused | UserNotExited

datatype restore_reason = ByAuthority | ByDelegate | ByFrozen | BySubscription

text \<open>What the client's functions throw; \<open>PlainError\<close> is a JavaScript \<open>Error\<close> with its message.\<close>

datatype js_error =
    LateriteCheckError laterite_error
  | RestoreRequiredError restore_reason address
  | RecordedPayerRequiredError address address
  | SwapAuthorityAccountsRequiredError "(address \<times> address \<times> address) list"
  | PlainError string
  | RangeError
  | TypeError

type_synonym 'a outcome = "js_error + 'a"

definition entry :: "'a list \<Rightarrow> int \<Rightarrow> 'a outcome" where
  "entry xs i = (case nth_opt xs i of None \<Rightarrow> Inl TypeError | Some x \<Rightarrow> Inr x)"

end
