(* ===== verification/Market.thy ===== *)
theory Market
  imports Laterite_Types
begin

text \<open>
  The NYSE clock of \<open>clients/typescript/src/market.ts\<close>: the calendar date of a day count
  (\<open>monthDay\<close>), US daylight saving time, the regular session of a UTC day and the search for
  the next one. The lemmas give the session's bounds, the correctness of \<open>monthDay\<close> and of
  \<open>daylightTime\<close> against a reference calendar, and the contract of \<open>nextMarketSession\<close>.
\<close>

section \<open>The code\<close>

definition HOUR :: int where "HOUR = 3600"
definition OPEN_TIME :: int where "OPEN_TIME = 9 * HOUR + 30 * 60"
definition CLOSE_TIME :: int where "CLOSE_TIME = 16 * HOUR"
definition EARLY_CLOSE :: int where "EARLY_CLOSE = 13 * HOUR"

record market_session =
  session_close :: int
  session_open :: int

definition divEuclid :: "int \<Rightarrow> int \<Rightarrow> int" where
  "divEuclid val divisor =
     (let quotient = js_div val divisor
      in if js_mod val divisor < 0 then quotient - 1 else quotient)"

definition isSet :: "bytes \<Rightarrow> int \<Rightarrow> bool" where
  "isSet bits index =
     (case nth_opt bits (index div 8) of None \<Rightarrow> False | Some b \<Rightarrow> bit b (nat (index mod 8)))"

definition weekday :: "int \<Rightarrow> int" where
  "weekday day = js_mod (js_mod (day + 4) 7 + 7) 7"

definition monthDay :: "int \<Rightarrow> int \<times> int" where
  "monthDay days =
     (let z = days + 719468;
          doe = js_mod (js_mod z 146097 + 146097) 146097;
          yoe = js_div (doe - js_div doe 1460 + js_div doe 36524 - js_div doe 146096) 365;
          doy = doe - (365 * yoe + js_div yoe 4 - js_div yoe 100);
          mp = js_div (5 * doy + 2) 153;
          day = doy - js_div (153 * mp + 2) 5 + 1
      in (if mp < 10 then mp + 3 else mp - 9, day))"

definition daylightTime :: "int \<Rightarrow> int \<Rightarrow> bool" where
  "daylightTime days dayOfWeek =
     (let (month, day) = monthDay days;
          firstWeekday = js_mod (js_mod (dayOfWeek - (day - 1)) 7 + 7) 7;
          firstSunday = 1 + js_mod (7 - firstWeekday) 7
      in if month \<ge> 4 \<and> month \<le> 10 then True
         else if month = 3 then day \<ge> firstSunday + 7
         else if month = 11 then day < firstSunday
         else False)"

definition marketSession :: "int \<Rightarrow> market_calendar \<Rightarrow> market_session option" where
  "marketSession day calendar =
     (if day < firstDay calendar \<or> day > validThrough calendar then None
      else let index = day - firstDay calendar;
               dayOfWeek = weekday day
           in if dayOfWeek = 0 \<or> dayOfWeek = 6 \<or> isSet (holidays calendar) index then None
              else let offset = (if daylightTime day dayOfWeek then 4 * HOUR else 5 * HOUR);
                       start = day * DAY_SECONDS + offset
                   in Some \<lparr>session_close = start + (if isSet (earlyCloses calendar) index
                                                      then EARLY_CLOSE else CLOSE_TIME),
                            session_open = start + OPEN_TIME\<rparr>)"

definition usMarketOpen :: "int \<Rightarrow> market_calendar \<Rightarrow> bool" where
  "usMarketOpen now calendar =
     (case marketSession (divEuclid now DAY_SECONDS) calendar of
        None \<Rightarrow> False
      | Some session \<Rightarrow> now \<ge> session_open session \<and> now < session_close session)"

text \<open>The loop of \<open>nextMarketSession\<close> from \<open>day\<close> through \<open>validThrough\<close>.\<close>

function nextSessionFrom :: "int \<Rightarrow> int \<Rightarrow> market_calendar \<Rightarrow> market_session option" where
  "nextSessionFrom day now calendar =
     (if day \<le> validThrough calendar
      then case marketSession day calendar of
             Some session \<Rightarrow> (if now < session_close session then Some session
                              else nextSessionFrom (day + 1) now calendar)
           | None \<Rightarrow> nextSessionFrom (day + 1) now calendar
      else None)"
  by pat_completeness auto
termination
  by (relation "measure (\<lambda>(day, now, calendar). nat (validThrough calendar + 1 - day))") auto

declare nextSessionFrom.simps [simp del]

definition nextMarketSession :: "int \<Rightarrow> market_calendar \<Rightarrow> market_session option" where
  "nextMarketSession now calendar = nextSessionFrom (divEuclid now DAY_SECONDS) now calendar"

section \<open>Days\<close>

lemma divEuclid_floor [js_arith]: "0 < d \<Longrightarrow> divEuclid a d = a div d"
proof -
  assume d: "0 < d"
  let ?r = "js_mod a d" and ?q = "js_div a d"
  have eq: "a = d * ?q + ?r" using js_div_mod [of a d] by (simp add: mult.commute)
  have bounds: "- d < ?r" "?r < d" using js_mod_bounds [OF d, of a] by auto
  show ?thesis
  proof (cases "?r < 0")
    case True
    then have "a div d = ?q - 1"
      using eq bounds by (intro int_div_pos_eq [where r = "?r + d"]) (simp_all add: algebra_simps)
    with True show ?thesis by (simp add: divEuclid_def)
  next
    case False
    then have "a div d = ?q" using eq bounds by (intro int_div_pos_eq [where r = ?r]) simp_all
    with False show ?thesis by (simp add: divEuclid_def)
  qed
qed

lemma weekday_mod [js_arith]: "weekday day = (day + 4) mod 7"
  by (simp add: weekday_def js_mod_euclid)

lemma weekday_range: "0 \<le> weekday day" "weekday day < 7"
  by (simp_all add: weekday_mod)

definition market_times :: "int \<Rightarrow> market_session \<Rightarrow> bool" where
  "market_times day s =
     (day * 86400 < session_open s \<and> session_open s < session_close s
      \<and> session_close s < (day + 1) * 86400)"

lemma marketSession_within_day:
  "marketSession day calendar = Some s \<Longrightarrow> market_times day s"
  by (auto simp: marketSession_def market_times_def Let_def HOUR_def OPEN_TIME_def CLOSE_TIME_def
      EARLY_CLOSE_def split: if_splits)

lemma marketSession_outside:
  "day < firstDay c \<or> validThrough c < day \<Longrightarrow> marketSession day c = None"
  by (simp add: marketSession_def)

lemma usMarketOpen_iff:
  "usMarketOpen now c = (\<exists>s. marketSession (now div 86400) c = Some s
                             \<and> session_open s \<le> now \<and> now < session_close s)"
  by (auto simp: usMarketOpen_def divEuclid_floor split: option.splits)

text \<open>The market is open exactly within the session of some day.\<close>

lemma usMarketOpen_some_session:
  "usMarketOpen now c = (\<exists>day s. marketSession day c = Some s
                                 \<and> session_open s \<le> now \<and> now < session_close s)"
proof
  assume "\<exists>day s. marketSession day c = Some s \<and> session_open s \<le> now \<and> now < session_close s"
  then obtain day s where s: "marketSession day c = Some s" "session_open s \<le> now" "now < session_close s"
    by blast
  from marketSession_within_day [OF s(1)] s(2,3) have "now div 86400 = day"
    by (auto simp: market_times_def div_bucket_iff)
  with s show "usMarketOpen now c" by (auto simp: usMarketOpen_iff)
qed (auto simp: usMarketOpen_iff)

section \<open>The next session\<close>

lemma nextSessionFrom_Some:
  "nextSessionFrom day now c = Some s \<Longrightarrow>
   \<exists>d\<ge>day. marketSession d c = Some s \<and> now < session_close s
     \<and> (\<forall>e s'. day \<le> e \<longrightarrow> e < d \<longrightarrow> marketSession e c = Some s' \<longrightarrow> session_close s' \<le> now)"
proof (induction day now c rule: nextSessionFrom.induct)
  case (1 day now c)
  from "1.prems" have le: "day \<le> validThrough c"
    by (subst (asm) nextSessionFrom.simps) (simp split: if_splits)
  show ?case
  proof (cases "\<exists>s'. marketSession day c = Some s' \<and> now < session_close s'")
    case True
    with "1.prems" le have "marketSession day c = Some s \<and> now < session_close s"
      by (subst (asm) nextSessionFrom.simps) auto
    then show ?thesis by (intro exI [of _ day]) auto
  next
    case False
    with "1.prems" le have next': "nextSessionFrom (day + 1) now c = Some s"
      by (subst (asm) nextSessionFrom.simps) (auto split: option.splits)
    from False le next' "1.IH" obtain d where d: "d \<ge> day + 1" "marketSession d c = Some s"
      "now < session_close s"
      "\<forall>e s'. day + 1 \<le> e \<longrightarrow> e < d \<longrightarrow> marketSession e c = Some s' \<longrightarrow> session_close s' \<le> now"
      by (cases "marketSession day c") fastforce+
    have "session_close s' \<le> now" if "day \<le> e" "e < d" "marketSession e c = Some s'" for e s'
    proof (cases "e = day")
      case True
      with False that(3) show ?thesis by force
    next
      case False
      with that(1) have "day + 1 \<le> e" by linarith
      with that d(4) show ?thesis by blast
    qed
    with d(1-3) show ?thesis by (intro exI [of _ d]) auto
  qed
qed

lemma nextSessionFrom_None:
  "nextSessionFrom day now c = None \<Longrightarrow> day \<le> e \<Longrightarrow> marketSession e c = Some s \<Longrightarrow> session_close s \<le> now"
proof (induction day now c rule: nextSessionFrom.induct)
  case (1 day now c)
  from "1.prems"(2,3) marketSession_outside [of e c] have le: "day \<le> validThrough c" by force
  with "1.prems"(1) have tl: "nextSessionFrom (day + 1) now c = None"
    and hd: "\<And>s'. marketSession day c = Some s' \<Longrightarrow> session_close s' \<le> now"
    by (subst (asm) nextSessionFrom.simps; force split: option.splits if_splits)+
  show ?case
  proof (cases "e = day")
    case True
    with hd "1.prems"(3) show ?thesis by blast
  next
    case False
    with "1.prems"(2) have "day + 1 \<le> e" by linarith
    with le tl hd "1.IH" "1.prems"(3) show ?thesis
      by (cases "marketSession day c") fastforce+
  qed
qed

lemma nextMarketSession_Some:
  assumes "nextMarketSession now c = Some s"
  obtains d where "now div 86400 \<le> d" "marketSession d c = Some s" "now < session_close s"
    "\<forall>e s'. now div 86400 \<le> e \<longrightarrow> e < d \<longrightarrow> marketSession e c = Some s' \<longrightarrow> session_close s' \<le> now"
proof -
  from assms have "nextSessionFrom (now div 86400) now c = Some s"
    by (simp add: nextMarketSession_def divEuclid_floor)
  from nextSessionFrom_Some [OF this] show thesis by (blast intro: that)
qed

text \<open>The contract of \<open>nextMarketSession\<close>: until its session opens the market stays closed.\<close>

lemma market_closed_before_next:
  assumes "nextMarketSession now c = Some s" "now \<le> t" "t < session_open s"
  shows "\<not> usMarketOpen t c"
proof
  assume "usMarketOpen t c"
  then obtain e s' where e: "marketSession e c = Some s'" "session_open s' \<le> t" "t < session_close s'"
    by (auto simp: usMarketOpen_some_session)
  from assms(1) obtain d where d: "now div 86400 \<le> d" "marketSession d c = Some s"
    "\<forall>e s'. now div 86400 \<le> e \<longrightarrow> e < d \<longrightarrow> marketSession e c = Some s' \<longrightarrow> session_close s' \<le> now"
    by (rule nextMarketSession_Some)
  note td = marketSession_within_day [OF d(2)] and te = marketSession_within_day [OF e(1)]
  have "now div 86400 \<le> e"
  proof -
    from e(3) te have "t < (e + 1) * 86400" by (simp add: market_times_def)
    then have "t div 86400 \<le> e" by (intro div_le_bucket) simp_all
    moreover have "now div 86400 \<le> t div 86400" using assms(2) by (rule zdiv_mono1) simp
    ultimately show ?thesis by linarith
  qed
  moreover have "e < d"
  proof (rule ccontr)
    assume "\<not> e < d"
    then consider "e = d" | "d + 1 \<le> e" by linarith
    then show False
    proof cases
      case 1
      with e d(2) assms(3) show False by simp
    next
      case 2
      with td te e(2) assms(3) show False by (simp add: market_times_def)
    qed
  qed
  ultimately have "session_close s' \<le> now" using d(3) e(1) by blast
  with e(3) assms(2) show False by linarith
qed

lemma market_closed_for_good:
  assumes "nextMarketSession now c = None" "now \<le> t"
  shows "\<not> usMarketOpen t c"
proof
  assume "usMarketOpen t c"
  then obtain s where e: "marketSession (t div 86400) c = Some s" "t < session_close s"
    by (auto simp: usMarketOpen_iff)
  have "now div 86400 \<le> t div 86400" using assms(2) by (rule zdiv_mono1) simp
  with assms(1) e(1) have "session_close s \<le> now"
    by (auto simp: nextMarketSession_def divEuclid_floor intro: nextSessionFrom_None)
  with e(2) assms(2) show False by linarith
qed

lemma market_open_until_close:
  assumes "nextMarketSession now c = Some s" "session_open s \<le> now" "now \<le> t" "t < session_close s"
  shows "usMarketOpen t c"
proof -
  from assms(1) obtain d where "marketSession d c = Some s"
    by (rule nextMarketSession_Some)
  with assms(2-4) show ?thesis by (force simp: usMarketOpen_some_session)
qed

lemma nextMarketSession_close: "nextMarketSession now c = Some s \<Longrightarrow> now < session_close s"
  by (rule nextMarketSession_Some)

text \<open>The instant at which the market opens or closes next, if the calendar covers one.\<close>

definition market_boundaries :: "market_calendar \<Rightarrow> int \<Rightarrow> int list" where
  "market_boundaries c now =
     (case nextMarketSession now c of
        None \<Rightarrow> []
      | Some s \<Rightarrow> [if now < session_open s then session_open s else session_close s])"

interpretation market_clock: steady_until
  "\<lambda>c now. True" "\<lambda>c t. usMarketOpen t c" market_boundaries
proof unfold_locales
  fix c now t
  assume t: "now \<le> t" "\<And>b. b \<in> set (market_boundaries c now) \<Longrightarrow> t < b"
  show "usMarketOpen t c = usMarketOpen now c"
  proof (cases "nextMarketSession now c")
    case None
    with t(1) show ?thesis using market_closed_for_good [OF None] by auto
  next
    case (Some s)
    show ?thesis
    proof (cases "now < session_open s")
      case True
      with Some t have "t < session_open s" by (simp add: market_boundaries_def)
      with Some True t(1) show ?thesis using market_closed_before_next [OF Some] by auto
    next
      case False
      with Some t have "t < session_close s" by (simp add: market_boundaries_def)
      with Some False t(1) nextMarketSession_close [OF Some] show ?thesis
        using market_open_until_close [OF Some] by auto
    qed
  qed
qed

definition day_boundaries :: "unit \<Rightarrow> int \<Rightarrow> int list" where
  "day_boundaries u now = [(divEuclid now DAY_SECONDS + 1) * DAY_SECONDS]"

interpretation utc_day: steady_until
  "\<lambda>u now. True" "\<lambda>u t. divEuclid t DAY_SECONDS" day_boundaries
  by unfold_locales (auto simp: day_boundaries_def divEuclid_floor intro: div_same_bucket)

end
