(* ===== verification/Civil_Calendar.thy ===== *)
theory Civil_Calendar
  imports Market
begin

text \<open>
  A reference calendar, independent of the code: leap years, month lengths and the day count of a
  date since 1970-01-01. The code's \<open>monthDay\<close> inverts it, and \<open>daylightTime\<close> is the rule
  "second Sunday in March to first Sunday in November" stated on it.
\<close>

section \<open>The reference\<close>

definition leap_year :: "int \<Rightarrow> bool" where
  "leap_year y = (4 dvd y \<and> (\<not> 100 dvd y \<or> 400 dvd y))"

definition month_length :: "int \<Rightarrow> int \<Rightarrow> int" where
  "month_length y m =
     (if m = 2 then (if leap_year y then 29 else 28)
      else if m = 4 \<or> m = 6 \<or> m = 9 \<or> m = 11 then 30 else 31)"

definition leaps_through :: "int \<Rightarrow> int" where
  "leaps_through y = y div 4 - y div 100 + y div 400"

definition year_start :: "int \<Rightarrow> int" where
  "year_start y = 365 * (y - 1970) + leaps_through (y - 1) - leaps_through 1969"

definition month_start :: "int \<Rightarrow> int \<Rightarrow> int" where
  "month_start y m = sum_list (map (month_length y) [1 .. m - 1])"

definition day_number :: "int \<Rightarrow> int \<Rightarrow> int \<Rightarrow> int" where
  "day_number y m d = year_start y + month_start y m + d - 1"

definition valid_date :: "int \<Rightarrow> int \<Rightarrow> int \<Rightarrow> bool" where
  "valid_date y m d = (1 \<le> m \<and> m \<le> 12 \<and> 1 \<le> d \<and> d \<le> month_length y m)"

text \<open>The first Sunday on or after a day; day 3 of the count is Sunday 1970-01-04.\<close>

definition sunday_from :: "int \<Rightarrow> int" where
  "sunday_from n = n + (3 - n) mod 7"

text \<open>The reference is a calendar: day 0 is 1970-01-01 and every year has 365 or 366 days.\<close>

lemma day_number_epoch: "day_number 1970 1 1 = 0"
  by (simp add: day_number_def year_start_def month_start_def)

lemma year_start_step: "year_start (y + 1) = year_start y + (if leap_year y then 366 else 365)"
proof -
  have "100 dvd y \<Longrightarrow> 4 dvd y" by (rule dvd_trans [of _ 100]) simp_all
  moreover have "400 dvd y \<Longrightarrow> 100 dvd y" by (rule dvd_trans [of _ 400]) simp_all
  ultimately show ?thesis
    by (auto simp: year_start_def leaps_through_def leap_year_def div_pred)
qed

text \<open>Case analysis over the twelve months.\<close>

lemma month_cases [consumes 2, case_names Jan Feb Mar Apr May Jun Jul Aug Sep Oct Nov Dec]:
  assumes "1 \<le> (m::int)" "m \<le> 12"
  obtains "m = 1" | "m = 2" | "m = 3" | "m = 4" | "m = 5" | "m = 6" | "m = 7" | "m = 8"
    | "m = 9" | "m = 10" | "m = 11" | "m = 12"
proof -
  from assms have "m \<in> set [1 .. 12]" by simp
  then have "m \<in> {1, 2, 3, 4, 5, 6, 7, 8, 9, 10, 11, 12}" by (simp add: upto.simps)
  with that show thesis by blast
qed

lemma month_start_explicit:
  "1 \<le> m \<Longrightarrow> m \<le> 12 \<Longrightarrow> month_start y m =
     (if m = 1 then 0 else if m = 2 then 31
      else (if leap_year y then 1 else 0) +
        (if m = 3 then 59 else if m = 4 then 90 else if m = 5 then 120 else if m = 6 then 151
         else if m = 7 then 181 else if m = 8 then 212 else if m = 9 then 243
         else if m = 10 then 273 else if m = 11 then 304 else 334))"
  by (cases m rule: month_cases) (simp_all add: month_start_def month_length_def upto.simps)

section \<open>monthDay inverts the reference\<close>

text \<open>
  Years counted from March: \<open>march_year\<close>, and the day within it. A leap day is then the last
  day of its year.
\<close>

definition march_year :: "int \<Rightarrow> int \<Rightarrow> int" where
  "march_year y m = (if m \<le> 2 then y - 1 else y)"

definition march_month :: "int \<Rightarrow> int" where
  "march_month m = (if m \<le> 2 then m + 9 else m - 3)"

definition march_day :: "int \<Rightarrow> int \<Rightarrow> int" where
  "march_day m d = (153 * march_month m + 2) div 5 + d - 1"

lemma day_number_march:
  assumes "valid_date y m d"
  shows "day_number y m d + 719468 = 365 * march_year y m + leaps_through (march_year y m) + march_day m d"
proof -
  have y: "leaps_through y = leaps_through (y - 1) + (if leap_year y then 1 else 0)"
    using year_start_step [of y] by (simp add: year_start_def split: if_splits)
  from assms have "1 \<le> m" "m \<le> 12" by (auto simp: valid_date_def)
  then show ?thesis
    by (cases rule: month_cases) (simp_all add: day_number_def march_year_def march_day_def march_month_def
        month_start_explicit year_start_def y, simp_all add: leaps_through_def)
qed

lemma march_day_range:
  assumes "valid_date y m d"
  shows "0 \<le> march_day m d" "march_day m d \<le> 364 \<or> march_day m d = 365 \<and> leap_year (march_year y m + 1)"
    "(5 * march_day m d + 2) div 153 = march_month m"
proof -
  from assms have d: "1 \<le> d" "d \<le> month_length y m" by (auto simp: valid_date_def)
  from assms have "1 \<le> m" "m \<le> 12" by (auto simp: valid_date_def)
  then have "0 \<le> march_day m d
     \<and> (march_day m d \<le> 364 \<or> march_day m d = 365 \<and> leap_year (march_year y m + 1))
     \<and> (5 * march_day m d + 2) div 153 = march_month m"
    using d by (cases rule: month_cases) (auto simp: march_day_def march_month_def march_year_def month_length_def
        div_bucket_iff split: if_splits)
  then show "0 \<le> march_day m d" "march_day m d \<le> 364 \<or> march_day m d = 365 \<and> leap_year (march_year y m + 1)"
    "(5 * march_day m d + 2) div 153 = march_month m" by auto
qed

text \<open>The year of the era is recovered from the day of the era.\<close>

lemma year_of_era:
  fixes n doy :: int
  assumes n: "0 \<le> n" "n < 400" and doy: "0 \<le> doy" "doy \<le> 364 \<or> doy = 365 \<and> leap_year (n + 1)"
  defines "doe \<equiv> 365 * n + n div 4 - n div 100 + doy"
  shows "(doe - doe div 1460 + doe div 36524 - doe div 146096) div 365 = n"
    and "0 \<le> doe" "doe < 146097"
proof -
  define a b r where "a = n div 4" and "b = n div 100" and "r = n mod 4"
  have nr: "n = 4 * a + r" "0 \<le> r" "r < 4" by (simp_all add: a_def r_def)
  have ab: "0 \<le> b" "b \<le> 3" "25 * b \<le> a" "a \<le> 25 * b + 24"
    using n by (simp_all add: a_def b_def)
  have leap: "doy = 365 \<Longrightarrow> r = 3 \<and> (a \<noteq> 25 * b + 24 \<or> b = 3)"
  proof -
    assume "doy = 365"
    with doy have l: "leap_year (n + 1)" by simp
    then have "4 dvd n + 1" by (simp add: leap_year_def)
    with nr have r3: "r = 3" by presburger
    moreover have "b = 3" if "a = 25 * b + 24"
    proof -
      from that r3 nr have "n + 1 = 100 * (b + 1)" by simp
      with l have "400 dvd 100 * (b + 1)" by (auto simp: leap_year_def)
      then obtain j where "100 * (b + 1) = 400 * j" by (elim dvdE)
      then have "b + 1 = 4 * j" by simp
      with ab(1,2) show "b = 3" by presburger
    qed
    ultimately show ?thesis by blast
  qed
  have doe: "doe = 1461 * a + 365 * r - b + doy"
  proof -
    have "doe = 365 * n + a - b + doy" by (simp add: doe_def a_def b_def)
    with nr(1) show ?thesis by simp
  qed
  show range: "0 \<le> doe" "doe < 146097" using doe nr ab doy leap by linarith+
  define e where "e = doe div 146096"
  have e: "e = (if doe = 146096 then 1 else 0)" using range by (simp add: e_def div_bucket_iff)
  have c: "doe div 36524 = b + e"
    using doe nr ab doy leap e by (cases "doe = 146096") (auto simp: div_bucket_iff)
  define x where "x = a + 365 * r - b + doy"
  have "doe div 1460 = a + x div 1460" 
  proof -
    have "doe = x + a * 1460" by (simp add: doe x_def)
    then show ?thesis by (metis add.commute div_mult_self1 zero_neq_numeral)
  qed
  moreover have x: "0 \<le> x" "x < 2920" "x \<ge> 1460 \<Longrightarrow> 1 \<le> doy" "x < 1460 \<Longrightarrow> doy \<le> 364"
    using nr ab doy leap by (auto simp: x_def)
  moreover have "x div 1460 = (if x \<ge> 1460 then 1 else 0)" using x by (auto simp: div_bucket_iff)
  ultimately have "365 * n \<le> doe - doe div 1460 + b \<and> doe - doe div 1460 + b < 365 * (n + 1)"
    using doe nr doy by auto
  then show "(doe - doe div 1460 + doe div 36524 - doe div 146096) div 365 = n"
    unfolding c e_def [symmetric] by (subst div_bucket_iff) (simp_all add: algebra_simps)
qed

text \<open>Four centuries are one era of 146097 days.\<close>

lemma leaps_through_era: "leaps_through (n + 400 * k) = leaps_through n + 97 * k"
proof -
  have "(n + 400 * k) div 4 = n div 4 + 100 * k" "(n + 400 * k) div 100 = n div 100 + 4 * k"
    "(n + 400 * k) div 400 = n div 400 + k"
    using div_mult_self2 [of 4 n "100 * k"] div_mult_self2 [of 100 n "4 * k"] by simp_all
  then show ?thesis by (simp add: leaps_through_def)
qed

lemma leap_year_era: "leap_year (n + 400 * k) = leap_year n"
proof -
  have "4 dvd 400 * k" "100 dvd 400 * k" "400 dvd 400 * k" by auto
  then show ?thesis by (simp add: leap_year_def dvd_add_left_iff)
qed

lemma monthDay_day_number:
  assumes "valid_date y m d"
  shows "monthDay (day_number y m d) = (m, d)"
proof -
  define n where "n = march_year y m mod 400"
  define k where "k = march_year y m div 400"
  define doy where "doy = march_day m d"
  have my: "march_year y m = n + 400 * k" by (simp add: n_def k_def)
  have n: "0 \<le> n" "n < 400" by (simp_all add: n_def)
  note r = march_day_range [OF assms, folded doy_def]
  have leap: "leap_year (march_year y m + 1) = leap_year (n + 1)"
    using leap_year_era [of "n + 1" k] by (simp add: my algebra_simps)
  define doe where "doe = 365 * n + n div 4 - n div 100 + doy"
  note era = year_of_era [OF n r(1) r(2) [unfolded leap], folded doe_def]
  have "leaps_through n = n div 4 - n div 100" using n by (simp add: leaps_through_def)
  then have "day_number y m d + 719468 = doe + k * 146097"
    unfolding day_number_march [OF assms] my by (simp add: leaps_through_era doe_def doy_def)
  then have doe: "js_mod (js_mod (day_number y m d + 719468) 146097 + 146097) 146097 = doe"
    using era(2,3) by (simp add: js_mod_euclid)
  have yoe: "js_div (doe - js_div doe 1460 + js_div doe 36524 - js_div doe 146096) 365 = n"
  proof -
    have "0 \<le> doe - doe div 1460 + doe div 36524 - doe div 146096" using era(1) n(1)
      by (metis div_neg_pos_less0 linorder_not_less zero_less_numeral)
    then show ?thesis using era by (simp add: js_div_nonneg)
  qed
  have doy': "doe - (365 * n + js_div n 4 - js_div n 100) = doy" using n by (simp add: doe_def js_div_nonneg)
  have mp: "js_div (5 * doy + 2) 153 = march_month m" using r by (simp add: js_div_nonneg)
  have day: "doy - js_div (153 * march_month m + 2) 5 + 1 = d"
    using assms by (simp add: doy_def march_day_def js_div_nonneg march_month_def valid_date_def)
  have month: "(if march_month m < 10 then march_month m + 3 else march_month m - 9) = m"
    using assms by (auto simp: march_month_def valid_date_def)
  show ?thesis
    by (simp only: monthDay_def Let_def doe yoe doy' mp day month)
qed

section \<open>Daylight saving time\<close>

lemma sunday_from_bounds: "n \<le> sunday_from n" "sunday_from n < n + 7"
  by (simp_all add: sunday_from_def)

lemma sunday_from_is_sunday: "weekday (sunday_from n) = 0"
  unfolding weekday_mod sunday_from_def by presburger

text \<open>The day of the month the code computes is that of the month's first Sunday.\<close>

lemma first_sunday_of_month:
  "1 + js_mod (7 - js_mod (js_mod (weekday n - (d - 1)) 7 + 7) 7) 7 = sunday_from (n - d + 1) - (n - d)"
proof -
  have w: "js_mod (js_mod (weekday n - (d - 1)) 7 + 7) 7 = (n - d + 5) mod 7"
  proof -
    have "js_mod (js_mod (weekday n - (d - 1)) 7 + 7) 7 = ((n + 4) mod 7 - (d - 1)) mod 7"
      unfolding weekday_mod by (rule js_mod_euclid) simp
    also have "\<dots> = (n + 4 - (d - 1)) mod 7" by (rule mod_diff_left_eq)
    finally show ?thesis by (simp add: algebra_simps)
  qed
  have "js_mod (7 - (n - d + 5) mod 7) 7 = (7 - (n - d + 5) mod 7) mod 7"
    using pos_mod_bound [of 7 "n - d + 5"] by (intro js_mod_nonneg) linarith+
  also have "\<dots> = (7 - (n - d + 5)) mod 7" by (rule mod_diff_right_eq)
  also have "\<dots> = (3 - (n - d + 1)) mod 7"
    using mod_add_self1 [of 7 "3 - (n - d + 1) - 1"] by (simp add: algebra_simps)
  finally show ?thesis by (simp add: w sunday_from_def)
qed

lemma daylightTime_us_rule:
  assumes "valid_date y m d"
  defines "n \<equiv> day_number y m d"
  shows "daylightTime n (weekday n)
     \<longleftrightarrow> sunday_from (day_number y 3 8) \<le> n \<and> n < sunday_from (day_number y 11 1)"
proof -
  define fs where "fs = sunday_from (n - d + 1) - (n - d)"
  have code: "daylightTime n (weekday n) =
      (4 \<le> m \<and> m \<le> 10 \<or> m = 3 \<and> d \<ge> fs + 7 \<or> m = 11 \<and> d < fs)"
    using monthDay_day_number [OF assms(1)]
    by (auto simp: daylightTime_def Let_def n_def [symmetric] first_sunday_of_month fs_def)
  have week: "sunday_from (k + 7) = sunday_from k + 7" for k
    using mod_diff_right_eq [of 3 "k + 7" 7] mod_diff_right_eq [of 3 k 7] by (simp add: sunday_from_def)
  have first: "n - d + 1 = day_number y m 1" by (simp add: n_def day_number_def)
  from assms(1) have m: "1 \<le> m" "m \<le> 12" and d: "1 \<le> d" "d \<le> month_length y m"
    by (auto simp: valid_date_def)
  note b = sunday_from_bounds [of "day_number y 3 8"] sunday_from_bounds [of "day_number y 11 1"]
    sunday_from_bounds [of "n - d + 1"]
  have march: "sunday_from (day_number y 3 8) = sunday_from (day_number y 3 1) + 7"
    using week [of "day_number y 3 1"] by (simp add: day_number_def flip: add.assoc) (simp add: ac_simps)
  from m show ?thesis
  proof (cases rule: month_cases)
    case Mar
    with code b d first march show ?thesis
      by (simp add: fs_def n_def day_number_def month_start_explicit month_length_def) linarith
  next
    case Nov
    with code b d first march show ?thesis
      by (simp add: fs_def n_def day_number_def month_start_explicit month_length_def) linarith
  qed (use code b d in \<open>simp_all add: n_def day_number_def month_start_explicit month_length_def split: if_splits\<close>)
qed

end
