(* ===== verification/Amount.thy ===== *)
theory Amount
  imports Market
begin

text \<open>
  The amount engine of \<open>clients/typescript/src/amount.ts\<close>: what one sweep of a payment token may
  pull. The lemmas determine the pull's total, its bounds (the week's remaining cap, the cushion,
  the engine's and the pending amounts), how it grows with the balance, and until when its
  time-dependent parts stay as they are.
\<close>

section \<open>The code\<close>

record pull_amount =
  pull_engine :: int
  pull_pending :: int

text \<open>The fields of a \<open>SubscriptionDelegation\<close> of \<open>@solana/subscriptions\<close> the client reads.\<close>

record subscription =
  sub_delegatee :: address
  sub_payer :: address
  sub_initId :: int
  sub_amount :: int
  sub_periodHours :: int
  sub_amountPulledInPeriod :: int
  sub_currentPeriodStartTs :: int
  sub_expiresAtTs :: int

definition pullTotal :: "pull_amount \<Rightarrow> int" where
  "pullTotal p = pull_engine p + pull_pending p"

definition cappedPull :: "pull_amount \<Rightarrow> int \<Rightarrow> pull_amount" where
  "cappedPull p limit =
     (let engine = min (pull_engine p) limit
      in \<lparr>pull_engine = engine, pull_pending = min (pull_pending p) (limit - engine)\<rparr>)"

definition incomeShare :: "user_config \<Rightarrow> int \<Rightarrow> int" where
  "incomeShare u income =
     (if uc_incomeRule u \<and> income \<ge> INCOME_MIN then js_div (income * INCOME_SHARE_BPS) 10000 else 0)"

definition change :: "user_config \<Rightarrow> int \<Rightarrow> int" where
  "change u payment =
     (let roundUp = js_mod (CHANGE_STEP - js_mod payment CHANGE_STEP) CHANGE_STEP
      in (if roundUp > CHANGE_MIN then roundUp else CHANGE_MIN) * uc_changeMultiplier u)"

definition weekAt :: "user_config \<Rightarrow> int \<Rightarrow> int" where
  "weekAt u now =
     (let elapsed = now - uc_enrolledAt u
      in js_div (if elapsed > 0 then elapsed else 0) WEEK_SECONDS mod 2 ^ 32)"

definition weeklyCap :: "user_config \<Rightarrow> int \<Rightarrow> int \<Rightarrow> int" where
  "weeklyCap u betaCap now =
     (let cap = (if now < uc_enrolledAt u + TRIAL_SECONDS then TRIAL_CAP
                 else case nth_opt TIERS (uc_tier u) of Some c \<Rightarrow> c | None \<Rightarrow> 0)
      in min cap betaCap)"

definition spentAt :: "user_config \<Rightarrow> int \<Rightarrow> int" where
  "spentAt u now = (if weekAt u now = uc_week u then uc_weekSpent u else 0)"

definition engineDue :: "user_config \<Rightarrow> market_calendar \<Rightarrow> int \<Rightarrow> bool" where
  "engineDue u calendar now =
     (let ran = uc_engineRanAt u \<ge> uc_enrolledAt u
      in if uc_engine u = Daily
         then \<not> ran \<or> divEuclid now DAY_SECONDS > divEuclid (uc_engineRanAt u) DAY_SECONDS
         else (\<not> ran \<or> weekAt u now > weekAt u (uc_engineRanAt u)) \<and> usMarketOpen now calendar)"

definition pull_room :: "user_config \<Rightarrow> int \<Rightarrow> int \<Rightarrow> int \<Rightarrow> int \<Rightarrow> int" where
  "pull_room u paymentToken balance betaCap now =
     (let cushion = (case nth_opt (uc_cushions u) paymentToken of Some c \<Rightarrow> c | None \<Rightarrow> U64_MAX)
      in min (saturatingSub (weeklyCap u betaCap now) (spentAt u now)) (saturatingSub balance cushion))"

definition pull ::
    "user_config \<Rightarrow> int \<Rightarrow> int \<Rightarrow> int \<Rightarrow> market_calendar \<Rightarrow> int \<Rightarrow> pull_amount" where
  "pull u paymentToken balance betaCap calendar now =
     (if uc_status u \<noteq> Active then \<lparr>pull_engine = 0, pull_pending = 0\<rparr>
      else let room = pull_room u paymentToken balance betaCap now;
               engine = (if engineDue u calendar now then min (uc_engineAmount u) room else 0)
           in \<lparr>pull_engine = engine, pull_pending = min (uc_pending u) (room - engine)\<rparr>)"

definition nativeRemaining :: "subscription option \<Rightarrow> int \<Rightarrow> int" where
  "nativeRemaining subscription now =
     (case subscription of
        None \<Rightarrow> 0
      | Some s \<Rightarrow>
          if sub_expiresAtTs s \<noteq> 0 \<and> now \<ge> sub_expiresAtTs s then 0
          else let period = min (sub_periodHours s * 3600) U64_MAX;
                   elapsed = now - sub_currentPeriodStartTs s
               in if elapsed \<ge> 0 \<and> elapsed \<ge> period then sub_amount s
                  else saturatingSub (sub_amount s) (sub_amountPulledInPeriod s))"

section \<open>The pull's total and bounds\<close>

text \<open>What the rules would invest at \<open>now\<close> with unlimited room.\<close>

definition wanted :: "user_config \<Rightarrow> market_calendar \<Rightarrow> int \<Rightarrow> int" where
  "wanted u calendar now =
     (if uc_status u = Active
      then (if engineDue u calendar now then uc_engineAmount u else 0) + uc_pending u else 0)"

definition amounts_ok :: "user_config \<Rightarrow> bool" where
  "amounts_ok u = (0 \<le> uc_engineAmount u \<and> 0 \<le> uc_pending u)"

lemma user_config_ok_amounts: "user_config_ok u \<Longrightarrow> amounts_ok u"
  by (simp add: user_config_ok_def amounts_ok_def u64_ok_def)

lemma pull_room_nonneg [simp]: "0 \<le> pull_room u p b cap now"
  by (simp add: pull_room_def Let_def)

lemma pullTotal_pull:
  assumes "amounts_ok u"
  shows "pullTotal (pull u p b cap c now) = min (wanted u c now) (pull_room u p b cap now)"
  using assms pull_room_nonneg [of u p b cap now]
  by (auto simp: pull_def pullTotal_def wanted_def amounts_ok_def Let_def)

lemma pull_parts:
  assumes "amounts_ok u"
  shows "0 \<le> pull_engine (pull u p b cap c now)" "0 \<le> pull_pending (pull u p b cap c now)"
    "pull_engine (pull u p b cap c now) \<le> uc_engineAmount u"
    "pull_pending (pull u p b cap c now) \<le> uc_pending u"
    "pull_engine (pull u p b cap c now) > 0 \<Longrightarrow> engineDue u c now"
  using assms pull_room_nonneg [of u p b cap now]
  by (auto simp: pull_def amounts_ok_def Let_def split: if_splits)

text \<open>The engine is served before the pending amount.\<close>

lemma pull_engine_first:
  assumes "amounts_ok u" "uc_status u = Active" "engineDue u c now"
  shows "pull_engine (pull u p b cap c now) = min (uc_engineAmount u) (pull_room u p b cap now)"
  using assms by (simp add: pull_def Let_def)

lemma pull_room_mono: "b \<le> b' \<Longrightarrow> pull_room u p b cap now \<le> pull_room u p b' cap now"
  unfolding pull_room_def Let_def by (intro min.mono order_refl saturatingSub_mono)

lemma pull_room_le_cap: "pull_room u p b cap now \<le> saturatingSub (weeklyCap u cap now) (spentAt u now)"
  by (simp add: pull_room_def Let_def)

lemma pullTotal_mono:
  "amounts_ok u \<Longrightarrow> b \<le> b' \<Longrightarrow> pullTotal (pull u p b cap c now) \<le> pullTotal (pull u p b' cap c now)"
  unfolding pullTotal_pull by (intro min.mono order_refl pull_room_mono)

lemma pullTotal_nonneg: "amounts_ok u \<Longrightarrow> 0 \<le> pullTotal (pull u p b cap c now)"
  using pull_parts(1,2) [of u p b cap c now] by (simp add: pullTotal_def)

lemma pull_leaves_cushion:
  assumes "amounts_ok u" "nth_opt (uc_cushions u) p = Some cushion"
    "0 < pullTotal (pull u p b cap c now)"
  shows "cushion \<le> b - pullTotal (pull u p b cap c now)"
  using assms by (auto simp: pullTotal_pull pull_room_def saturatingSub_def min_def split: if_splits)

lemma pull_within_week:
  assumes "amounts_ok u" "0 < pullTotal (pull u p b cap c now)"
  shows "spentAt u now + pullTotal (pull u p b cap c now) \<le> weeklyCap u cap now"
  using assms by (auto simp: pullTotal_pull pull_room_def saturatingSub_def min_def Let_def split: if_splits)

lemma weeklyCap_le_beta: "weeklyCap u cap now \<le> cap"
  by (simp add: weeklyCap_def Let_def)

lemma weeklyCap_le_top_tier: "weeklyCap u cap now \<le> 25000000"
  by (auto simp: weeklyCap_def Let_def TRIAL_CAP_def TIERS_def nth_opt_def nth_Cons' min_def
      split: if_splits)

section \<open>Limiting a pull\<close>

lemma cappedPull_total:
  "0 \<le> pull_engine p \<Longrightarrow> 0 \<le> pull_pending p \<Longrightarrow> 0 \<le> limit \<Longrightarrow>
   pullTotal (cappedPull p limit) = min (pullTotal p) limit"
  by (auto simp: cappedPull_def pullTotal_def Let_def min_def)

lemma cappedPull_parts:
  "0 \<le> pull_engine p \<Longrightarrow> 0 \<le> pull_pending p \<Longrightarrow> 0 \<le> limit \<Longrightarrow>
   0 \<le> pull_engine (cappedPull p limit) \<and> pull_engine (cappedPull p limit) \<le> pull_engine p
   \<and> 0 \<le> pull_pending (cappedPull p limit) \<and> pull_pending (cappedPull p limit) \<le> pull_pending p"
  by (auto simp: cappedPull_def Let_def min_def)

lemma cappedPull_engine_first:
  "pull_engine (cappedPull p limit) = min (pull_engine p) limit"
  by (simp add: cappedPull_def Let_def)

lemma nativeRemaining_bounds:
  "(\<And>s. subscription = Some s \<Longrightarrow> 0 \<le> sub_amount s \<and> 0 \<le> sub_amountPulledInPeriod s) \<Longrightarrow>
   0 \<le> nativeRemaining subscription now"
  "subscription = Some s \<Longrightarrow> 0 \<le> sub_amount s \<Longrightarrow> 0 \<le> sub_amountPulledInPeriod s \<Longrightarrow>
   nativeRemaining subscription now \<le> sub_amount s"
  by (auto simp: nativeRemaining_def Let_def saturatingSub_def split: option.splits)

section \<open>Income and change\<close>

lemma incomeShare_bounds:
  "0 \<le> income \<Longrightarrow> 0 \<le> incomeShare u income \<and> 10 * incomeShare u income \<le> income"
  by (auto simp: incomeShare_def js_div_nonneg INCOME_SHARE_BPS_def)

lemma change_rounds_up:
  assumes "0 \<le> payment" "0 \<le> uc_changeMultiplier u"
  obtains r where "change u payment = max r CHANGE_MIN * uc_changeMultiplier u"
    "0 \<le> r" "r < CHANGE_STEP" "CHANGE_STEP dvd payment + r"
proof -
  define r where "r = (CHANGE_STEP - payment mod CHANGE_STEP) mod CHANGE_STEP"
  have "js_mod (CHANGE_STEP - js_mod payment CHANGE_STEP) CHANGE_STEP = r"
    using assms pos_mod_bound [of CHANGE_STEP payment]
    by (simp add: r_def js_mod_nonneg CHANGE_STEP_def)
  then have "change u payment = max r CHANGE_MIN * uc_changeMultiplier u"
    by (auto simp: change_def Let_def max_def)
  moreover have "0 \<le> r" "r < CHANGE_STEP" by (simp_all add: r_def CHANGE_STEP_def)
  moreover have "CHANGE_STEP dvd payment + r"
    by (simp add: r_def mod_0_imp_dvd mod_simps)
  ultimately show thesis by (rule that)
qed

section \<open>When the amounts change\<close>

lemma weekAt_floor: "weekAt u now = (max 0 (now - uc_enrolledAt u) div 604800) mod 2 ^ 32"
  by (auto simp: weekAt_def js_div_nonneg max_def Let_def)

definition week_boundaries :: "user_config \<Rightarrow> int \<Rightarrow> int list" where
  "week_boundaries u now =
     [if now < uc_enrolledAt u then uc_enrolledAt u
      else uc_enrolledAt u + (weekAt u now + 1) * WEEK_SECONDS]"

text \<open>Before the boundary the elapsed weeks are the same, even if \<open>weekAt\<close> has wrapped around.\<close>

lemma elapsed_weeks_steady:
  assumes "now \<le> t" "\<And>b. b \<in> set (week_boundaries u now) \<Longrightarrow> t < b"
  shows "max 0 (t - uc_enrolledAt u) div 604800 = max 0 (now - uc_enrolledAt u) div 604800"
    and "(t < uc_enrolledAt u + 604800) = (now < uc_enrolledAt u + 604800)"
proof -
  let ?e = "uc_enrolledAt u" and ?w = "(now - uc_enrolledAt u) div 604800"
  have "max 0 (t - ?e) div 604800 = max 0 (now - ?e) div 604800
        \<and> (t < ?e + 604800) = (now < ?e + 604800)"
  proof (cases "now < ?e")
    case True
    with assms have "t < ?e" by (simp add: week_boundaries_def)
    with True show ?thesis by simp
  next
    case False
    then have now: "weekAt u now = ?w mod 2 ^ 32" "0 \<le> ?w" by (auto simp: weekAt_floor)
    from now(2) have "?w mod 2 ^ 32 \<le> ?w" by (simp add: zmod_le_nonneg_dividend)
    moreover from False assms(2) have "t < ?e + (?w mod 2 ^ 32 + 1) * 604800"
      by (simp add: week_boundaries_def now(1))
    ultimately have "t - ?e < (?w + 1) * 604800" by simp
    with assms(1) have "(t - ?e) div 604800 = ?w" by (intro div_same_bucket) simp_all
    moreover have "(x < ?e + 604800) = ((x - ?e) div 604800 = 0)" if "?e \<le> x" for x
      using that by (subst div_bucket_iff) auto
    ultimately show ?thesis using False assms(1) by (simp add: max_def)
  qed
  then show "max 0 (t - ?e) div 604800 = max 0 (now - ?e) div 604800"
    "(t < ?e + 604800) = (now < ?e + 604800)" by auto
qed

interpretation user_week: steady_until
  "\<lambda>u now. True" "\<lambda>u t. (weekAt u t, t < uc_enrolledAt u + TRIAL_SECONDS)" week_boundaries
  by unfold_locales (simp add: weekAt_floor elapsed_weeks_steady)

definition native_boundaries :: "subscription option \<Rightarrow> int \<Rightarrow> int list" where
  "native_boundaries subscription now =
     (case subscription of
        None \<Rightarrow> []
      | Some s \<Rightarrow>
          (if sub_expiresAtTs s > now then [sub_expiresAtTs s] else []) @
          (let period = sub_periodHours s * 3600; start = sub_currentPeriodStartTs s
           in if period > 0 \<and> now \<ge> start
              then [start + (js_div (now - start) period + 1) * period] else []))"

text \<open>
  A period that has begun, within \<open>u64\<close> seconds: what Subscriptions' accounts hold, since a
  period starts at the clock's time.
\<close>

definition period_begun :: "subscription option \<Rightarrow> int \<Rightarrow> bool" where
  "period_begun subscription now =
     (case subscription of
        None \<Rightarrow> True
      | Some s \<Rightarrow> sub_currentPeriodStartTs s \<le> now \<and> 0 \<le> sub_periodHours s
                  \<and> sub_periodHours s * 3600 \<le> U64_MAX)"

lemma native_period_steady:
  assumes "sub_currentPeriodStartTs s \<le> now" "0 \<le> sub_periodHours s" "now \<le> t"
    "\<And>b. b \<in> set (native_boundaries (Some s) now) \<Longrightarrow> t < b"
  shows "(sub_periodHours s * 3600 \<le> t - sub_currentPeriodStartTs s)
       = (sub_periodHours s * 3600 \<le> now - sub_currentPeriodStartTs s)"
proof (cases "sub_periodHours s = 0")
  case True
  with assms show ?thesis by simp
next
  case False
  let ?p = "sub_periodHours s * 3600" and ?x = "now - sub_currentPeriodStartTs s"
  from False assms(2) have p: "0 < ?p" by simp
  with assms have "t < sub_currentPeriodStartTs s + (?x div ?p + 1) * ?p"
    by (simp add: native_boundaries_def js_div_nonneg Let_def)
  then have "(t - sub_currentPeriodStartTs s) div ?p = ?x div ?p"
    using assms(3) p by (intro div_same_bucket) simp_all
  moreover have "(?p \<le> y) = (0 < y div ?p)" for y
    using p by (simp add: pos_imp_zdiv_pos_iff)
  ultimately show ?thesis by simp
qed

interpretation native_period: steady_until
  period_begun
  "\<lambda>subscription t. (nativeRemaining subscription t,
     \<forall>s. subscription = Some s \<longrightarrow> sub_expiresAtTs s = 0 \<or> sub_expiresAtTs s > t)"
  native_boundaries
proof unfold_locales
  fix sub now t
  assume v: "period_begun sub now" and t: "now \<le> t" "\<And>b. b \<in> set (native_boundaries sub now) \<Longrightarrow> t < b"
  show "(nativeRemaining sub t, \<forall>s. sub = Some s \<longrightarrow> sub_expiresAtTs s = 0 \<or> sub_expiresAtTs s > t)
      = (nativeRemaining sub now, \<forall>s. sub = Some s \<longrightarrow> sub_expiresAtTs s = 0 \<or> sub_expiresAtTs s > now)"
  proof (cases sub)
    case None
    then show ?thesis by (simp add: nativeRemaining_def)
  next
    case (Some s)
    have "t < sub_expiresAtTs s" if "now < sub_expiresAtTs s"
      using that t(2) [of "sub_expiresAtTs s"] Some by (simp add: native_boundaries_def)
    with t(1) have "(t < sub_expiresAtTs s) = (now < sub_expiresAtTs s)" by auto
    moreover have "(sub_periodHours s * 3600 \<le> t - sub_currentPeriodStartTs s)
       = (sub_periodHours s * 3600 \<le> now - sub_currentPeriodStartTs s)"
      using v t Some by (intro native_period_steady) (auto simp: period_begun_def)
    ultimately show ?thesis using v t(1) Some
      by (auto simp: nativeRemaining_def period_begun_def Let_def)
  qed
qed

end
