(* ===== verification/Kit.thy ===== *)
theory Kit
  imports Amount
begin

text \<open>
  What the code takes from \<open>@solana/kit\<close>, \<open>@solana/subscriptions\<close> and \<open>@solana-program/token\<close>: the
  record \<open>lib\<close> of address derivations, encoders and decoders, an argument of every definition that
  calls them, with the documented behaviour of the encoders as the predicate \<open>kit_encoders\<close>.
\<close>

section \<open>Libraries\<close>

record encoded_account =
  acc_programAddress :: address
  acc_data :: bytes

text \<open>The fields of the decoded accounts the code reads.\<close>

record token_account_state =
  ta_amount :: int
  ta_delegate :: "address option"
  ta_delegatedAmount :: int
  ta_frozen :: bool

record subscription_authority =
  sa_payer :: address
  sa_initId :: int

record plan_data =
  plan_mint :: address
  plan_amount :: int
  plan_createdAt :: int
  plan_periodHours :: int
  plan_endTs :: int

datatype account_role = Readonly | Writable | ReadonlySigner | WritableSigner

record account_meta =
  meta_address :: address
  meta_role :: account_role

text \<open>
  The libraries: \<open>encodeUint n\<close> stands for \<open>getU8Encoder\<close>, \<open>getU16Encoder\<close>, \<open>getU32Encoder\<close> and
  \<open>getU64Encoder\<close> at their widths of \<open>n\<close> bytes, \<open>encodeSint n\<close> for \<open>getI16Encoder\<close> and
  \<open>getI64Encoder\<close>, and the decoders alike.
\<close>

record lib =
  getProgramDerivedAddress :: "address \<Rightarrow> bytes list \<Rightarrow> address"
  findAssociatedTokenPda :: "address \<Rightarrow> address \<Rightarrow> address \<Rightarrow> address"
  findPlanPda :: "address \<Rightarrow> int \<Rightarrow> address"
  findSubscriptionDelegationPda :: "address \<Rightarrow> address \<Rightarrow> address"
  findSubscriptionAuthorityPda :: "address \<Rightarrow> address \<Rightarrow> address"
  encodeAddress :: "address \<Rightarrow> bytes"
  decodeAddress :: "bytes \<Rightarrow> address"
  encodeUint :: "nat \<Rightarrow> int \<Rightarrow> bytes"
  decodeUint :: "nat \<Rightarrow> bytes \<Rightarrow> int"
  encodeSint :: "nat \<Rightarrow> int \<Rightarrow> bytes"
  decodeSint :: "nat \<Rightarrow> bytes \<Rightarrow> int"
  downgradeRoleToNonSigner :: "account_role \<Rightarrow> account_role"
  decodeToken :: "bytes \<Rightarrow> token_account_state outcome"
  decodeSubscriptionAuthority :: "bytes \<Rightarrow> subscription_authority outcome"
  decodeSubscriptionDelegation :: "bytes \<Rightarrow> subscription outcome"
  decodePlan :: "bytes \<Rightarrow> plan_data outcome"
  decodeClock :: "bytes \<Rightarrow> int outcome"
  subscriptionsEventAuthorityPda :: address
  UNKNOWN_INIT_ID :: int
  SUBSCRIPTIONS_PROGRAM_ADDRESS :: address
  SYSVAR_CLOCK_ADDRESS :: address

text \<open>
  An address is a string that names 32 bytes. The documented behaviour of \<open>@solana/kit\<close> the
  byte-level lemmas rely on: every 32 bytes are an address, integers encode to little-endian bytes
  of their width.
\<close>

definition is_address :: "lib \<Rightarrow> address \<Rightarrow> bool" where
  "is_address L a = (length (encodeAddress L a) = 32 \<and> decodeAddress L (encodeAddress L a) = a)"

definition kit_encoders :: "lib \<Rightarrow> bool" where
  "kit_encoders L =
     ((\<forall>bs. length bs = 32 \<longrightarrow> encodeAddress L (decodeAddress L bs) = bs)
      \<and> (\<forall>n x. 0 \<le> x \<longrightarrow> x < 256 ^ n \<longrightarrow> encodeUint L n x = le_bytes n x)
      \<and> (\<forall>bs. decodeUint L (length bs) bs = le_uint bs)
      \<and> (\<forall>n x. - (256 ^ n) \<le> 2 * x \<longrightarrow> 2 * x < 256 ^ n \<longrightarrow> encodeSint L n x = le_bytes n x)
      \<and> (\<forall>bs. decodeSint L (length bs) bs = le_sint bs))"

lemma kit_encoders_rules:
  "kit_encoders L \<Longrightarrow> length bs = 32 \<Longrightarrow> encodeAddress L (decodeAddress L bs) = bs"
  "kit_encoders L \<Longrightarrow> 0 \<le> x \<Longrightarrow> x < 256 ^ n \<Longrightarrow> encodeUint L n x = le_bytes n x"
  "kit_encoders L \<Longrightarrow> decodeUint L (length bs) bs = le_uint bs"
  "kit_encoders L \<Longrightarrow> - (256 ^ n) \<le> 2 * x \<Longrightarrow> 2 * x < 256 ^ n \<Longrightarrow> encodeSint L n x = le_bytes n x"
  "kit_encoders L \<Longrightarrow> decodeSint L (length bs) bs = le_sint bs"
  by (simp_all add: kit_encoders_def)

lemma is_address_inject: "is_address L a \<Longrightarrow> is_address L b \<Longrightarrow> encodeAddress L a = encodeAddress L b \<Longrightarrow> a = b"
  unfolding is_address_def by metis

type_synonym cluster = "address \<Rightarrow> encoded_account option"

end
