(* ===== verification/Codecs.thy ===== *)
theory Codecs
  imports Kit
begin

text \<open>
  The Borsh codecs of the program's data (\<open>generated/types\<close>, \<open>generated/accounts\<close>): structs encoded
  field after field in the source's order. A decoder reads a value off the front of the bytes and
  returns the rest, or throws when there are too few. The round trips show that every account the
  program writes with the encoder's layout is read back unchanged.
\<close>

section \<open>Field readers\<close>

type_synonym 'a reader = "bytes \<Rightarrow> ('a \<times> bytes) outcome"

definition rdBytes :: "nat \<Rightarrow> bytes reader" where
  "rdBytes n bs = (if length bs < n then Inl RangeError else Inr (take n bs, drop n bs))"

definition rdMap :: "('a \<Rightarrow> 'b) \<Rightarrow> 'a reader \<Rightarrow> 'b reader" where
  "rdMap f r bs = res_bind (r bs) (\<lambda>(x, rest). Inr (f x, rest))"

definition rdUint :: "lib \<Rightarrow> nat \<Rightarrow> int reader" where "rdUint L n = rdMap (decodeUint L n) (rdBytes n)"
definition rdSint :: "lib \<Rightarrow> nat \<Rightarrow> int reader" where "rdSint L n = rdMap (decodeSint L n) (rdBytes n)"
definition rdAddress :: "lib \<Rightarrow> address reader" where "rdAddress L = rdMap (decodeAddress L) (rdBytes 32)"
definition rdBool :: "lib \<Rightarrow> bool reader" where "rdBool L = rdMap (\<lambda>n. n = 1) (rdUint L 1)"

text \<open>An enum is the index of its variant in one byte; another index throws.\<close>

definition rdEnum :: "lib \<Rightarrow> 'a list \<Rightarrow> 'a reader" where
  "rdEnum L variants bs = res_bind (rdUint L 1 bs) (\<lambda>(n, rest).
     case nth_opt variants n of None \<Rightarrow> Inl RangeError | Some v \<Rightarrow> Inr (v, rest))"

text \<open>\<open>getArrayDecoder(item, \{ size: 2 \})\<close>\<close>

definition rdPair :: "'a reader \<Rightarrow> 'a list reader" where
  "rdPair r bs = res_bind (r bs) (\<lambda>(x, rest). res_bind (r rest) (\<lambda>(y, rest'). Inr ([x, y], rest')))"

definition encBool :: "lib \<Rightarrow> bool \<Rightarrow> bytes" where "encBool L b = encodeUint L 1 (if b then 1 else 0)"
definition encPair :: "('a \<Rightarrow> bytes) \<Rightarrow> 'a list \<Rightarrow> bytes" where "encPair e xs = concat (map e xs)"

text \<open>A reader reads \<open>x\<close> from \<open>enc\<close>, whatever follows it.\<close>

definition reads :: "'a reader \<Rightarrow> bytes \<Rightarrow> 'a \<Rightarrow> bool" where
  "reads r enc x = (\<forall>rest. r (enc @ rest) = Inr (x, rest))"

lemma readsD: "reads r enc x \<Longrightarrow> r (enc @ rest) = Inr (x, rest)"
  by (simp add: reads_def)

lemma reads_rdBytes: "length bs = n \<Longrightarrow> reads (rdBytes n) bs bs"
  by (simp add: reads_def rdBytes_def)

lemma reads_rdMap: "reads r enc x \<Longrightarrow> y = f x \<Longrightarrow> reads (rdMap f r) enc y"
  by (simp add: reads_def rdMap_def)

lemma reads_rdUint:
  assumes "kit_encoders L" "0 \<le> x" "x < 256 ^ n"
  shows "reads (rdUint L n) (encodeUint L n x) x"
  unfolding rdUint_def
proof (rule reads_rdMap [OF reads_rdBytes])
  show "length (encodeUint L n x) = n" using assms by (simp add: kit_encoders_rules)
  then show "x = decodeUint L n (encodeUint L n x)"
    using assms kit_encoders_rules(3) [OF assms(1), of "encodeUint L n x"]
    by (simp add: kit_encoders_rules(2) le_uint_le_bytes_small)
qed

lemma reads_rdSint:
  assumes "kit_encoders L" "0 < n" "- (256 ^ n) \<le> 2 * x" "2 * x < 256 ^ n"
  shows "reads (rdSint L n) (encodeSint L n x) x"
  unfolding rdSint_def
proof (rule reads_rdMap [OF reads_rdBytes])
  show "length (encodeSint L n x) = n" using assms by (simp add: kit_encoders_rules)
  then show "x = decodeSint L n (encodeSint L n x)"
    using assms kit_encoders_rules(5) [OF assms(1), of "encodeSint L n x"]
    by (simp add: kit_encoders_rules(4) le_sint_le_bytes)
qed

lemma reads_rdAddress: "is_address L a \<Longrightarrow> reads (rdAddress L) (encodeAddress L a) a"
  unfolding rdAddress_def by (rule reads_rdMap [OF reads_rdBytes]) (simp_all add: is_address_def)

lemma reads_rdBool: "kit_encoders L \<Longrightarrow> reads (rdBool L) (encBool L b) b"
  unfolding rdBool_def encBool_def by (rule reads_rdMap [OF reads_rdUint]) simp_all

lemma reads_rdEnum:
  assumes "kit_encoders L" "nth_opt variants n = Some v" "0 \<le> n" "n < 256"
  shows "reads (rdEnum L variants) (encodeUint L 1 n) v"
  using reads_rdUint [OF assms(1,3), of 1] assms by (simp add: reads_def rdEnum_def)

lemma reads_rdPair:
  assumes "length xs = 2" "\<And>x. x \<in> set xs \<Longrightarrow> reads r (e x) x"
  shows "reads (rdPair r) (encPair e xs) xs"
proof -
  from assms(1) obtain x y where xs: "xs = [x, y]" by (auto simp: length_Suc_conv numeral_2_eq_2)
  with assms(2) show ?thesis by (simp add: reads_def rdPair_def encPair_def)
qed

section \<open>The structs of the program\<close>

datatype event_kind = Income | Payment

record attestation =
  at_kind :: event_kind
  at_user :: address
  at_paymentToken :: int
  at_amount :: int
  at_eventTime :: int
  at_signature :: bytes
  at_transferIndex :: int

definition CONFIG_DISCRIMINATOR :: bytes where
  "CONFIG_DISCRIMINATOR = [155, 12, 170, 224, 30, 250, 204, 130]"

definition USER_CONFIG_DISCRIMINATOR :: bytes where
  "USER_CONFIG_DISCRIMINATOR = [58, 201, 49, 59, 232, 236, 180, 75]"

definition encEngine :: "lib \<Rightarrow> engine \<Rightarrow> bytes" where
  "encEngine L e = encodeUint L 1 (case e of Daily \<Rightarrow> 0 | Weekly \<Rightarrow> 1)"

definition encStatus :: "lib \<Rightarrow> user_status \<Rightarrow> bytes" where
  "encStatus L s = encodeUint L 1 (case s of Active \<Rightarrow> 0 | Paused \<Rightarrow> 1 | Exited \<Rightarrow> 2)"

definition encKind :: "lib \<Rightarrow> event_kind \<Rightarrow> bytes" where
  "encKind L k = encodeUint L 1 (case k of Income \<Rightarrow> 0 | Payment \<Rightarrow> 1)"

definition encAsset :: "lib \<Rightarrow> asset_entry \<Rightarrow> bytes" where
  "encAsset L a =
     encodeAddress L (asset_mint a)
     @ encodeAddress L (asset_tokenProgram a)
     @ encodeUint L 1 (asset_decimals a)
     @ encodeUint L 4 (pythFeedId a)"

definition rdAsset :: "lib \<Rightarrow> asset_entry reader" where
  "rdAsset L bs =
     res_bind (rdAddress L bs) (\<lambda>(v_asset_mint, bs).
     res_bind (rdAddress L bs) (\<lambda>(v_asset_tokenProgram, bs).
     res_bind (rdUint L 1 bs) (\<lambda>(v_asset_decimals, bs).
     res_bind (rdUint L 4 bs) (\<lambda>(v_pythFeedId, bs).
     Inr (\<lparr>asset_mint = v_asset_mint, asset_tokenProgram = v_asset_tokenProgram, asset_decimals = v_asset_decimals, pythFeedId = v_pythFeedId\<rparr>, bs)))))"

definition encPaymentToken :: "lib \<Rightarrow> payment_token_entry \<Rightarrow> bytes" where
  "encPaymentToken L t =
     encodeAddress L (token_mint t)
     @ encodeAddress L (token_tokenProgram t)
     @ encodeUint L 1 (token_decimals t)
     @ encodeUint L 4 (usdFeedId t)"

definition rdPaymentToken :: "lib \<Rightarrow> payment_token_entry reader" where
  "rdPaymentToken L bs =
     res_bind (rdAddress L bs) (\<lambda>(v_token_mint, bs).
     res_bind (rdAddress L bs) (\<lambda>(v_token_tokenProgram, bs).
     res_bind (rdUint L 1 bs) (\<lambda>(v_token_decimals, bs).
     res_bind (rdUint L 4 bs) (\<lambda>(v_usdFeedId, bs).
     Inr (\<lparr>token_mint = v_token_mint, token_tokenProgram = v_token_tokenProgram, token_decimals = v_token_decimals, usdFeedId = v_usdFeedId\<rparr>, bs)))))"

definition encMarketCalendar :: "lib \<Rightarrow> market_calendar \<Rightarrow> bytes" where
  "encMarketCalendar L c =
     encodeUint L 2 (firstDay c)
     @ encodeUint L 2 (validThrough c)
     @ holidays c
     @ earlyCloses c"

definition rdMarketCalendar :: "lib \<Rightarrow> market_calendar reader" where
  "rdMarketCalendar L bs =
     res_bind (rdUint L 2 bs) (\<lambda>(v_firstDay, bs).
     res_bind (rdUint L 2 bs) (\<lambda>(v_validThrough, bs).
     res_bind (rdBytes 183 bs) (\<lambda>(v_holidays, bs).
     res_bind (rdBytes 183 bs) (\<lambda>(v_earlyCloses, bs).
     Inr (\<lparr>firstDay = v_firstDay, validThrough = v_validThrough, holidays = v_holidays, earlyCloses = v_earlyCloses\<rparr>, bs)))))"

definition encodeConfig :: "lib \<Rightarrow> config \<Rightarrow> bytes" where
  "encodeConfig L c =
     CONFIG_DISCRIMINATOR
     @ encodeAddress L (cfg_admin c)
     @ encodeAddress L (cfg_pendingAdmin c)
     @ encBool L (cfg_paused c)
     @ encodeAddress L (cfg_router c)
     @ encodeAddress L (cfg_attestor c)
     @ encodeAddress L (cfg_sponsor c)
     @ encodeUint L 8 (userWeeklyCap c)
     @ encodeUint L 4 (maxUsers c)
     @ encodeUint L 4 (userCount c)
     @ encPair (encAsset L) (cfg_assets c)
     @ encPair (encPaymentToken L) (cfg_paymentTokens c)
     @ encMarketCalendar L (marketCalendar c)
     @ genesisHash c"

definition rdConfig :: "lib \<Rightarrow> config reader" where
  "rdConfig L bs =
     res_bind (rdBytes 8 bs) (\<lambda>(_, bs).
     res_bind (rdAddress L bs) (\<lambda>(v_cfg_admin, bs).
     res_bind (rdAddress L bs) (\<lambda>(v_cfg_pendingAdmin, bs).
     res_bind (rdBool L bs) (\<lambda>(v_cfg_paused, bs).
     res_bind (rdAddress L bs) (\<lambda>(v_cfg_router, bs).
     res_bind (rdAddress L bs) (\<lambda>(v_cfg_attestor, bs).
     res_bind (rdAddress L bs) (\<lambda>(v_cfg_sponsor, bs).
     res_bind (rdUint L 8 bs) (\<lambda>(v_userWeeklyCap, bs).
     res_bind (rdUint L 4 bs) (\<lambda>(v_maxUsers, bs).
     res_bind (rdUint L 4 bs) (\<lambda>(v_userCount, bs).
     res_bind (rdPair (rdAsset L) bs) (\<lambda>(v_cfg_assets, bs).
     res_bind (rdPair (rdPaymentToken L) bs) (\<lambda>(v_cfg_paymentTokens, bs).
     res_bind (rdMarketCalendar L bs) (\<lambda>(v_marketCalendar, bs).
     res_bind (rdBytes 32 bs) (\<lambda>(v_genesisHash, bs).
     Inr (\<lparr>cfg_admin = v_cfg_admin, cfg_pendingAdmin = v_cfg_pendingAdmin, cfg_paused = v_cfg_paused, cfg_router = v_cfg_router, cfg_attestor = v_cfg_attestor, cfg_sponsor = v_cfg_sponsor, userWeeklyCap = v_userWeeklyCap, maxUsers = v_maxUsers, userCount = v_userCount, cfg_assets = v_cfg_assets, cfg_paymentTokens = v_cfg_paymentTokens, marketCalendar = v_marketCalendar, genesisHash = v_genesisHash\<rparr>, bs)))))))))))))))"

definition encodeUserConfig :: "lib \<Rightarrow> user_config \<Rightarrow> bytes" where
  "encodeUserConfig L u =
     USER_CONFIG_DISCRIMINATOR
     @ encodeAddress L (uc_user u)
     @ encodeUint L 1 (uc_tier u)
     @ encodeUint L 1 (uc_paymentTokens u)
     @ encodeUint L 1 (uc_asset u)
     @ encEngine L (uc_engine u)
     @ encodeUint L 8 (uc_engineAmount u)
     @ encBool L (uc_incomeRule u)
     @ encodeUint L 1 (uc_changeMultiplier u)
     @ encPair (encodeUint L 8) (uc_cushions u)
     @ encodeSint L 8 (uc_enrolledAt u)
     @ encodeUint L 8 (uc_goalAmount u)
     @ uc_goalLabel u
     @ encodeUint L 1 (uc_bump u)
     @ encodeUint L 4 (uc_week u)
     @ encodeUint L 8 (uc_weekSpent u)
     @ encodeSint L 8 (uc_engineRanAt u)
     @ encodeUint L 8 (uc_pending u)
     @ encStatus L (uc_status u)
     @ encodeSint L 8 (uc_attestableFrom u)
     @ encPair (encodeUint L 4) (uc_lastSweepDay u)"

definition rdUserConfig :: "lib \<Rightarrow> user_config reader" where
  "rdUserConfig L bs =
     res_bind (rdBytes 8 bs) (\<lambda>(_, bs).
     res_bind (rdAddress L bs) (\<lambda>(v_uc_user, bs).
     res_bind (rdUint L 1 bs) (\<lambda>(v_uc_tier, bs).
     res_bind (rdUint L 1 bs) (\<lambda>(v_uc_paymentTokens, bs).
     res_bind (rdUint L 1 bs) (\<lambda>(v_uc_asset, bs).
     res_bind (rdEnum L [Daily, Weekly] bs) (\<lambda>(v_uc_engine, bs).
     res_bind (rdUint L 8 bs) (\<lambda>(v_uc_engineAmount, bs).
     res_bind (rdBool L bs) (\<lambda>(v_uc_incomeRule, bs).
     res_bind (rdUint L 1 bs) (\<lambda>(v_uc_changeMultiplier, bs).
     res_bind (rdPair (rdUint L 8) bs) (\<lambda>(v_uc_cushions, bs).
     res_bind (rdSint L 8 bs) (\<lambda>(v_uc_enrolledAt, bs).
     res_bind (rdUint L 8 bs) (\<lambda>(v_uc_goalAmount, bs).
     res_bind (rdBytes 32 bs) (\<lambda>(v_uc_goalLabel, bs).
     res_bind (rdUint L 1 bs) (\<lambda>(v_uc_bump, bs).
     res_bind (rdUint L 4 bs) (\<lambda>(v_uc_week, bs).
     res_bind (rdUint L 8 bs) (\<lambda>(v_uc_weekSpent, bs).
     res_bind (rdSint L 8 bs) (\<lambda>(v_uc_engineRanAt, bs).
     res_bind (rdUint L 8 bs) (\<lambda>(v_uc_pending, bs).
     res_bind (rdEnum L [Active, Paused, Exited] bs) (\<lambda>(v_uc_status, bs).
     res_bind (rdSint L 8 bs) (\<lambda>(v_uc_attestableFrom, bs).
     res_bind (rdPair (rdUint L 4) bs) (\<lambda>(v_uc_lastSweepDay, bs).
     Inr (\<lparr>uc_user = v_uc_user, uc_tier = v_uc_tier, uc_paymentTokens = v_uc_paymentTokens, uc_asset = v_uc_asset, uc_engine = v_uc_engine, uc_engineAmount = v_uc_engineAmount, uc_incomeRule = v_uc_incomeRule, uc_changeMultiplier = v_uc_changeMultiplier, uc_cushions = v_uc_cushions, uc_enrolledAt = v_uc_enrolledAt, uc_goalAmount = v_uc_goalAmount, uc_goalLabel = v_uc_goalLabel, uc_bump = v_uc_bump, uc_week = v_uc_week, uc_weekSpent = v_uc_weekSpent, uc_engineRanAt = v_uc_engineRanAt, uc_pending = v_uc_pending, uc_status = v_uc_status, uc_attestableFrom = v_uc_attestableFrom, uc_lastSweepDay = v_uc_lastSweepDay\<rparr>, bs))))))))))))))))))))))"

definition encEnrollParams :: "lib \<Rightarrow> enroll_params \<Rightarrow> bytes" where
  "encEnrollParams L p =
     encodeUint L 1 (ep_tier p)
     @ encodeUint L 1 (ep_paymentTokens p)
     @ encodeUint L 1 (ep_asset p)
     @ encEngine L (ep_engine p)
     @ encodeUint L 8 (ep_engineAmount p)
     @ encBool L (ep_incomeRule p)
     @ encodeUint L 1 (ep_changeMultiplier p)
     @ encPair (encodeUint L 8) (ep_cushions p)
     @ encodeUint L 8 (ep_goalAmount p)
     @ ep_goalLabel p"

definition rdEnrollParams :: "lib \<Rightarrow> enroll_params reader" where
  "rdEnrollParams L bs =
     res_bind (rdUint L 1 bs) (\<lambda>(v_ep_tier, bs).
     res_bind (rdUint L 1 bs) (\<lambda>(v_ep_paymentTokens, bs).
     res_bind (rdUint L 1 bs) (\<lambda>(v_ep_asset, bs).
     res_bind (rdEnum L [Daily, Weekly] bs) (\<lambda>(v_ep_engine, bs).
     res_bind (rdUint L 8 bs) (\<lambda>(v_ep_engineAmount, bs).
     res_bind (rdBool L bs) (\<lambda>(v_ep_incomeRule, bs).
     res_bind (rdUint L 1 bs) (\<lambda>(v_ep_changeMultiplier, bs).
     res_bind (rdPair (rdUint L 8) bs) (\<lambda>(v_ep_cushions, bs).
     res_bind (rdUint L 8 bs) (\<lambda>(v_ep_goalAmount, bs).
     res_bind (rdBytes 32 bs) (\<lambda>(v_ep_goalLabel, bs).
     Inr (\<lparr>ep_tier = v_ep_tier, ep_paymentTokens = v_ep_paymentTokens, ep_asset = v_ep_asset, ep_engine = v_ep_engine, ep_engineAmount = v_ep_engineAmount, ep_incomeRule = v_ep_incomeRule, ep_changeMultiplier = v_ep_changeMultiplier, ep_cushions = v_ep_cushions, ep_goalAmount = v_ep_goalAmount, ep_goalLabel = v_ep_goalLabel\<rparr>, bs)))))))))))"

definition encAttestation :: "lib \<Rightarrow> attestation \<Rightarrow> bytes" where
  "encAttestation L a =
     encKind L (at_kind a)
     @ encodeAddress L (at_user a)
     @ encodeUint L 1 (at_paymentToken a)
     @ encodeUint L 8 (at_amount a)
     @ encodeSint L 8 (at_eventTime a)
     @ at_signature a
     @ encodeUint L 2 (at_transferIndex a)"

definition rdAttestation :: "lib \<Rightarrow> attestation reader" where
  "rdAttestation L bs =
     res_bind (rdEnum L [Income, Payment] bs) (\<lambda>(v_at_kind, bs).
     res_bind (rdAddress L bs) (\<lambda>(v_at_user, bs).
     res_bind (rdUint L 1 bs) (\<lambda>(v_at_paymentToken, bs).
     res_bind (rdUint L 8 bs) (\<lambda>(v_at_amount, bs).
     res_bind (rdSint L 8 bs) (\<lambda>(v_at_eventTime, bs).
     res_bind (rdBytes 64 bs) (\<lambda>(v_at_signature, bs).
     res_bind (rdUint L 2 bs) (\<lambda>(v_at_transferIndex, bs).
     Inr (\<lparr>at_kind = v_at_kind, at_user = v_at_user, at_paymentToken = v_at_paymentToken, at_amount = v_at_amount, at_eventTime = v_at_eventTime, at_signature = v_at_signature, at_transferIndex = v_at_transferIndex\<rparr>, bs))))))))"

definition decodeWith :: "'a reader \<Rightarrow> bytes \<Rightarrow> 'a outcome" where
  "decodeWith r bs = res_bind (r bs) (\<lambda>(x, _). Inr x)"

definition decodeConfig :: "lib \<Rightarrow> bytes \<Rightarrow> config outcome" where
  "decodeConfig L = decodeWith (rdConfig L)"

definition decodeUserConfig :: "lib \<Rightarrow> bytes \<Rightarrow> user_config outcome" where
  "decodeUserConfig L = decodeWith (rdUserConfig L)"

section \<open>Round trips\<close>

text \<open>What each encoder accepts: every field within its width.\<close>

definition u8_ok :: "int \<Rightarrow> bool" where "u8_ok n = (0 \<le> n \<and> n < 2 ^ 8)"

definition asset_ok :: "lib \<Rightarrow> asset_entry \<Rightarrow> bool" where
  "asset_ok L a =
     (is_address L (asset_mint a)
      \<and> is_address L (asset_tokenProgram a)
      \<and> u8_ok (asset_decimals a)
      \<and> u32_ok (pythFeedId a))"

definition payment_token_ok :: "lib \<Rightarrow> payment_token_entry \<Rightarrow> bool" where
  "payment_token_ok L t =
     (is_address L (token_mint t)
      \<and> is_address L (token_tokenProgram t)
      \<and> u8_ok (token_decimals t)
      \<and> u32_ok (usdFeedId t))"

definition calendar_ok :: "market_calendar \<Rightarrow> bool" where
  "calendar_ok c =
     (u16_ok (firstDay c)
      \<and> u16_ok (validThrough c)
      \<and> length (holidays c) = 183
      \<and> length (earlyCloses c) = 183)"

definition config_fields_ok :: "lib \<Rightarrow> config \<Rightarrow> bool" where
  "config_fields_ok L c =
     (is_address L (cfg_admin c)
      \<and> is_address L (cfg_pendingAdmin c)
      \<and> is_address L (cfg_router c)
      \<and> is_address L (cfg_attestor c)
      \<and> is_address L (cfg_sponsor c)
      \<and> u64_ok (userWeeklyCap c)
      \<and> u32_ok (maxUsers c)
      \<and> u32_ok (userCount c)
      \<and> length (cfg_assets c) = 2 \<and> list_all (asset_ok L) (cfg_assets c)
      \<and> length (cfg_paymentTokens c) = 2 \<and> list_all (payment_token_ok L) (cfg_paymentTokens c)
      \<and> calendar_ok (marketCalendar c)
      \<and> length (genesisHash c) = 32)"

definition user_fields_ok :: "lib \<Rightarrow> user_config \<Rightarrow> bool" where
  "user_fields_ok L u =
     (is_address L (uc_user u)
      \<and> u8_ok (uc_tier u)
      \<and> u8_ok (uc_paymentTokens u)
      \<and> u8_ok (uc_asset u)
      \<and> u64_ok (uc_engineAmount u)
      \<and> u8_ok (uc_changeMultiplier u)
      \<and> length (uc_cushions u) = 2 \<and> list_all u64_ok (uc_cushions u)
      \<and> i64_ok (uc_enrolledAt u)
      \<and> u64_ok (uc_goalAmount u)
      \<and> length (uc_goalLabel u) = 32
      \<and> u8_ok (uc_bump u)
      \<and> u32_ok (uc_week u)
      \<and> u64_ok (uc_weekSpent u)
      \<and> i64_ok (uc_engineRanAt u)
      \<and> u64_ok (uc_pending u)
      \<and> i64_ok (uc_attestableFrom u)
      \<and> length (uc_lastSweepDay u) = 2 \<and> list_all u32_ok (uc_lastSweepDay u))"

definition enroll_fields_ok :: "lib \<Rightarrow> enroll_params \<Rightarrow> bool" where
  "enroll_fields_ok L p =
     (u8_ok (ep_tier p)
      \<and> u8_ok (ep_paymentTokens p)
      \<and> u8_ok (ep_asset p)
      \<and> u64_ok (ep_engineAmount p)
      \<and> u8_ok (ep_changeMultiplier p)
      \<and> length (ep_cushions p) = 2 \<and> list_all u64_ok (ep_cushions p)
      \<and> u64_ok (ep_goalAmount p)
      \<and> length (ep_goalLabel p) = 32)"

definition attestation_ok :: "lib \<Rightarrow> attestation \<Rightarrow> bool" where
  "attestation_ok L a =
     (is_address L (at_user a)
      \<and> u8_ok (at_paymentToken a)
      \<and> u64_ok (at_amount a)
      \<and> i64_ok (at_eventTime a)
      \<and> length (at_signature a) = 64
      \<and> u16_ok (at_transferIndex a))"

lemma reads_widths:
  "kit_encoders L \<Longrightarrow> u8_ok x \<Longrightarrow> rdUint L 1 (encodeUint L 1 x @ rest) = Inr (x, rest)"
  "kit_encoders L \<Longrightarrow> u16_ok x \<Longrightarrow> rdUint L 2 (encodeUint L 2 x @ rest) = Inr (x, rest)"
  "kit_encoders L \<Longrightarrow> u32_ok x \<Longrightarrow> rdUint L 4 (encodeUint L 4 x @ rest) = Inr (x, rest)"
  "kit_encoders L \<Longrightarrow> u64_ok x \<Longrightarrow> rdUint L 8 (encodeUint L 8 x @ rest) = Inr (x, rest)"
  "kit_encoders L \<Longrightarrow> i64_ok y \<Longrightarrow> rdSint L 8 (encodeSint L 8 y @ rest) = Inr (y, rest)"
  by (auto intro!: readsD reads_rdUint reads_rdSint simp: u8_ok_def u16_ok_def u32_ok_def u64_ok_def i64_ok_def)

lemma reads_enums:
  "kit_encoders L \<Longrightarrow> rdEnum L [Daily, Weekly] (encEngine L e @ rest) = Inr (e, rest)"
  "kit_encoders L \<Longrightarrow> rdEnum L [Active, Paused, Exited] (encStatus L s @ rest) = Inr (s, rest)"
  "kit_encoders L \<Longrightarrow> rdEnum L [Income, Payment] (encKind L k @ rest) = Inr (k, rest)"
proof -
  assume kit: "kit_encoders L"
  show "rdEnum L [Daily, Weekly] (encEngine L e @ rest) = Inr (e, rest)"
    unfolding encEngine_def by (rule readsD [OF reads_rdEnum [OF kit]]) (cases e; simp add: nth_opt_def)+
  show "rdEnum L [Active, Paused, Exited] (encStatus L s @ rest) = Inr (s, rest)"
    unfolding encStatus_def by (rule readsD [OF reads_rdEnum [OF kit]]) (cases s; simp add: nth_opt_def)+
  show "rdEnum L [Income, Payment] (encKind L k @ rest) = Inr (k, rest)"
    unfolding encKind_def by (rule readsD [OF reads_rdEnum [OF kit]]) (cases k; simp add: nth_opt_def)+
qed

lemma reads_fixed:
  "is_address L a \<Longrightarrow> rdAddress L (encodeAddress L a @ rest) = Inr (a, rest)"
  "kit_encoders L \<Longrightarrow> rdBool L (encBool L b @ rest) = Inr (b, rest)"
  "length bs = n \<Longrightarrow> rdBytes n (bs @ rest) = Inr (bs, rest)"
  by (simp_all add: readsD [OF reads_rdAddress] readsD [OF reads_rdBool] readsD [OF reads_rdBytes])

lemma length_discriminators:
  "length CONFIG_DISCRIMINATOR = 8" "length USER_CONFIG_DISCRIMINATOR = 8"
  by (simp_all add: CONFIG_DISCRIMINATOR_def USER_CONFIG_DISCRIMINATOR_def)

lemmas codec_simps = reads_widths reads_enums reads_fixed

lemma rdAsset_roundtrip: "kit_encoders L \<Longrightarrow> asset_ok L a \<Longrightarrow> reads (rdAsset L) (encAsset L a) a"
  by (simp del: One_nat_def add: reads_def rdAsset_def encAsset_def asset_ok_def codec_simps)

lemma rdPaymentToken_roundtrip:
  "kit_encoders L \<Longrightarrow> payment_token_ok L t \<Longrightarrow> reads (rdPaymentToken L) (encPaymentToken L t) t"
  by (simp del: One_nat_def add: reads_def rdPaymentToken_def encPaymentToken_def payment_token_ok_def codec_simps)

lemma rdMarketCalendar_roundtrip:
  "kit_encoders L \<Longrightarrow> calendar_ok c \<Longrightarrow> reads (rdMarketCalendar L) (encMarketCalendar L c) c"
  by (simp del: One_nat_def add: reads_def rdMarketCalendar_def encMarketCalendar_def calendar_ok_def codec_simps)

lemma pair_simps:
  "kit_encoders L \<Longrightarrow> length xs = 2 \<Longrightarrow> list_all u64_ok xs \<Longrightarrow>
     rdPair (rdUint L 8) (encPair (encodeUint L 8) xs @ rest) = Inr (xs, rest)"
  "kit_encoders L \<Longrightarrow> length xs = 2 \<Longrightarrow> list_all u32_ok xs \<Longrightarrow>
     rdPair (rdUint L 4) (encPair (encodeUint L 4) xs @ rest) = Inr (xs, rest)"
  "kit_encoders L \<Longrightarrow> length as = 2 \<Longrightarrow> list_all (asset_ok L) as \<Longrightarrow>
     rdPair (rdAsset L) (encPair (encAsset L) as @ rest) = Inr (as, rest)"
  "kit_encoders L \<Longrightarrow> length ts = 2 \<Longrightarrow> list_all (payment_token_ok L) ts \<Longrightarrow>
     rdPair (rdPaymentToken L) (encPair (encPaymentToken L) ts @ rest) = Inr (ts, rest)"
  by (auto intro!: readsD reads_rdPair reads_rdUint rdAsset_roundtrip rdPaymentToken_roundtrip
      simp: list_all_iff u64_ok_def u32_ok_def)

lemma rdConfig_roundtrip: "kit_encoders L \<Longrightarrow> config_fields_ok L c \<Longrightarrow> reads (rdConfig L) (encodeConfig L c) c"
  by (simp del: One_nat_def add: reads_def rdConfig_def encodeConfig_def config_fields_ok_def codec_simps pair_simps
      readsD [OF rdMarketCalendar_roundtrip] length_discriminators)

lemma rdUserConfig_roundtrip:
  "kit_encoders L \<Longrightarrow> user_fields_ok L u \<Longrightarrow> reads (rdUserConfig L) (encodeUserConfig L u) u"
  by (simp del: One_nat_def add: reads_def rdUserConfig_def encodeUserConfig_def user_fields_ok_def codec_simps pair_simps
      length_discriminators)

lemma rdEnrollParams_roundtrip:
  "kit_encoders L \<Longrightarrow> enroll_fields_ok L p \<Longrightarrow> reads (rdEnrollParams L) (encEnrollParams L p) p"
  by (simp del: One_nat_def add: reads_def rdEnrollParams_def encEnrollParams_def enroll_fields_ok_def codec_simps pair_simps)

lemma rdAttestation_roundtrip:
  "kit_encoders L \<Longrightarrow> attestation_ok L a \<Longrightarrow> reads (rdAttestation L) (encAttestation L a) a"
  by (simp del: One_nat_def add: reads_def rdAttestation_def encAttestation_def attestation_ok_def codec_simps)

section \<open>What a decoded account guarantees\<close>

lemma rdBytes_Inr: "rdBytes n bs = Inr (x, rest) \<Longrightarrow> length x = n"
  by (auto simp: rdBytes_def split: if_splits)

lemma rdUint_Inr:
  assumes "kit_encoders L" "rdUint L n bs = Inr (x, rest)"
  shows "0 \<le> x \<and> x < 256 ^ n"
proof -
  from assms(2) obtain b where "rdBytes n bs = Inr (b, rest)" "x = decodeUint L n b"
    by (auto simp: rdUint_def rdMap_def result_simps)
  with rdBytes_Inr kit_encoders_rules(3) [OF assms(1), of b] have "x = le_uint b" "length b = n" by auto
  then show ?thesis using le_uint_bounds [of b] by auto
qed

lemma rdSint_Inr:
  assumes "kit_encoders L" "rdSint L n bs = Inr (x, rest)"
  shows "- (256 ^ n) \<le> 2 * x \<and> 2 * x < 256 ^ n"
proof -
  from assms(2) obtain b where "rdBytes n bs = Inr (b, rest)" "x = decodeSint L n b"
    by (auto simp: rdSint_def rdMap_def result_simps)
  with rdBytes_Inr kit_encoders_rules(5) [OF assms(1), of b] have "x = le_sint b" "length b = n" by auto
  then show ?thesis using le_uint_bounds [of b] by (auto simp: le_sint_def Let_def)
qed

lemma rd_widths:
  "kit_encoders L \<Longrightarrow> rdUint L 4 bs = Inr (x, rest) \<Longrightarrow> u32_ok x"
  "kit_encoders L \<Longrightarrow> rdUint L 8 bs = Inr (x, rest) \<Longrightarrow> u64_ok x"
  "kit_encoders L \<Longrightarrow> rdSint L 8 bs = Inr (x, rest) \<Longrightarrow> i64_ok x"
  using rdUint_Inr [of L 4] rdUint_Inr [of L 8] rdSint_Inr [of L 8]
  by (fastforce simp: u32_ok_def u64_ok_def i64_ok_def)+

lemma rdPair_Inr: "rdPair r bs = Inr (xs, rest) \<Longrightarrow> (\<And>bs x rest. r bs = Inr (x, rest) \<Longrightarrow> Q x) \<Longrightarrow> length xs = 2 \<and> list_all Q xs"
  by (auto simp: rdPair_def result_simps)

lemma decodeUserConfig_ok:
  assumes "kit_encoders L" "decodeUserConfig L bs = Inr u"
  shows "user_config_ok u"
proof -
  note pairs = rdPair_Inr [of "rdUint L 8" _ _ _ u64_ok, OF _ rd_widths(2) [OF assms(1)]]
    rdPair_Inr [of "rdUint L 4" _ _ _ u32_ok, OF _ rd_widths(1) [OF assms(1)]]
  from assms(2) show ?thesis
    by (auto simp: decodeUserConfig_def decodeWith_def rdUserConfig_def user_config_ok_def result_simps
        dest: rd_widths [OF assms(1)] pairs)
qed

section \<open>Lengths\<close>

lemma codec_lengths:
  "kit_encoders L \<Longrightarrow> u8_ok x \<Longrightarrow> length (encodeUint L 1 x) = 1"
  "kit_encoders L \<Longrightarrow> u16_ok x \<Longrightarrow> length (encodeUint L 2 x) = 2"
  "kit_encoders L \<Longrightarrow> u32_ok x \<Longrightarrow> length (encodeUint L 4 x) = 4"
  "kit_encoders L \<Longrightarrow> u64_ok x \<Longrightarrow> length (encodeUint L 8 x) = 8"
  "kit_encoders L \<Longrightarrow> i64_ok y \<Longrightarrow> length (encodeSint L 8 y) = 8"
  "is_address L a \<Longrightarrow> length (encodeAddress L a) = 32"
  "kit_encoders L \<Longrightarrow> length (encBool L b) = 1"
  "kit_encoders L \<Longrightarrow> length (encEngine L e) = 1"
  "kit_encoders L \<Longrightarrow> length (encStatus L s) = 1"
  "kit_encoders L \<Longrightarrow> length (encKind L k) = 1"
  by (auto simp: kit_encoders_rules u8_ok_def u16_ok_def u32_ok_def u64_ok_def i64_ok_def is_address_def
      encBool_def encEngine_def encStatus_def encKind_def split: engine.splits user_status.splits event_kind.splits)

lemma encPair_length:
  assumes "length xs = 2" "\<And>x. x \<in> set xs \<Longrightarrow> length (e x) = n"
  shows "length (encPair e xs) = 2 * n"
proof -
  from assms(1) obtain x y where "xs = [x, y]" by (auto simp: length_Suc_conv numeral_2_eq_2)
  with assms(2) show ?thesis by (simp add: encPair_def)
qed

lemma encodeUserConfig_length:
  assumes "kit_encoders L" "user_fields_ok L u"
  shows "length (encodeUserConfig L u) = 164"
proof -
  have "length (encPair (encodeUint L 8) (uc_cushions u)) = 2 * 8"
    "length (encPair (encodeUint L 4) (uc_lastSweepDay u)) = 2 * 4"
    using assms by (intro encPair_length codec_lengths; simp add: user_fields_ok_def list_all_iff)+
  with assms show ?thesis
    by (simp del: One_nat_def add: encodeUserConfig_def user_fields_ok_def codec_lengths length_discriminators)
qed

lemma encAttestation_length:
  "kit_encoders L \<Longrightarrow> attestation_ok L a \<Longrightarrow> length (encAttestation L a) = 116"
  by (simp del: One_nat_def add: encAttestation_def attestation_ok_def codec_lengths)

lemma encAttestation_inject:
  assumes "kit_encoders L" "attestation_ok L a" "attestation_ok L b" "encAttestation L a = encAttestation L b"
  shows "a = b"
proof -
  from assms have "rdAttestation L (encAttestation L a @ []) = Inr (a, [])"
    "rdAttestation L (encAttestation L a @ []) = Inr (b, [])"
    by (metis readsD rdAttestation_roundtrip)+
  then show ?thesis by simp
qed

end
