(* ===== verification/User_State.thy ===== *)
theory User_State
  imports Codecs
begin

text \<open>
  Addresses and account state: \<open>addresses.ts\<close> and \<open>user-state.ts\<close> of the client. The cluster's
  accounts the code reads are an argument (\<open>address \<Rightarrow> encoded_account option\<close>). An instruction is
  the builder call that makes it.
\<close>

section \<open>Addresses (addresses.ts)\<close>

definition LATERITE_PROGRAM_ADDRESS :: address where
  "LATERITE_PROGRAM_ADDRESS = ''LatBPQotoZgdg8rsyBrCiy6qyqeALs185Z4pjkFTfZf''"

definition VAULT_SEED :: bytes where "VAULT_SEED = [118, 97, 117, 108, 116]"
definition SWAP_SEED :: bytes where "SWAP_SEED = [115, 119, 97, 112]"
definition CONFIG_SEED :: bytes where "CONFIG_SEED = [99, 111, 110, 102, 105, 103]"
definition USER_CONFIG_SEED :: bytes where "USER_CONFIG_SEED = [117, 115, 101, 114]"

text \<open>The UTF-8 bytes of \<open>__event_authority\<close>.\<close>

definition EVENT_AUTHORITY_SEED :: bytes where
  "EVENT_AUTHORITY_SEED =
     [95, 95, 101, 118, 101, 110, 116, 95, 97, 117, 116, 104, 111, 114, 105, 116, 121]"

definition findVaultPda :: "lib \<Rightarrow> address" where
  "findVaultPda L = getProgramDerivedAddress L LATERITE_PROGRAM_ADDRESS [VAULT_SEED]"

definition findSwapAuthorityPda :: "lib \<Rightarrow> address" where
  "findSwapAuthorityPda L = getProgramDerivedAddress L LATERITE_PROGRAM_ADDRESS [SWAP_SEED]"

definition findEventAuthorityPda :: "lib \<Rightarrow> address" where
  "findEventAuthorityPda L = getProgramDerivedAddress L LATERITE_PROGRAM_ADDRESS [EVENT_AUTHORITY_SEED]"

definition findConfigPda :: "lib \<Rightarrow> address" where
  "findConfigPda L = getProgramDerivedAddress L LATERITE_PROGRAM_ADDRESS [CONFIG_SEED]"

definition findUserConfigPda :: "lib \<Rightarrow> address \<Rightarrow> address" where
  "findUserConfigPda L user =
     getProgramDerivedAddress L LATERITE_PROGRAM_ADDRESS [USER_CONFIG_SEED, encodeAddress L user]"

definition planId :: "int \<Rightarrow> int \<Rightarrow> int" where
  "planId paymentToken tier = paymentToken * PLAN_IDS_PER_TOKEN + tier + 1"

definition findPlanAddress :: "lib \<Rightarrow> int \<Rightarrow> int \<Rightarrow> address" where
  "findPlanAddress L paymentToken tier = findPlanPda L (findVaultPda L) (planId paymentToken tier)"

definition findSubscriptionAddress :: "lib \<Rightarrow> address \<Rightarrow> int \<Rightarrow> int \<Rightarrow> address" where
  "findSubscriptionAddress L user paymentToken tier =
     findSubscriptionDelegationPda L (findPlanAddress L paymentToken tier) user"

definition findSubscriptionAuthorityAddress :: "lib \<Rightarrow> address \<Rightarrow> address \<Rightarrow> address" where
  "findSubscriptionAuthorityAddress L user mint = findSubscriptionAuthorityPda L mint user"

text \<open>Bit \<open>token\<close> of a payment-token mask, as \<open>mask & (1 << token)\<close> tests it.\<close>

definition hasToken :: "int \<Rightarrow> int \<Rightarrow> bool" where
  "hasToken m token = (m AND push_bit (nat token) 1 \<noteq> 0)"

definition enabledPaymentTokens :: "int \<Rightarrow> int list" where
  "enabledPaymentTokens paymentTokens = filter (hasToken paymentTokens) [0, 1]"

lemma hasToken_bit: "hasToken m token = bit m (nat token)"
proof -
  have "m AND push_bit (nat token) 1 = (if bit m (nat token) then push_bit (nat token) 1 else 0)"
    by (rule bit_eqI) (auto simp: bit_simps)
  then show ?thesis by (simp add: hasToken_def)
qed

lemma hasToken_0 [simp]: "hasToken m 0 = odd m"
  by (simp add: hasToken_bit bit_0)

lemma hasToken_1 [simp]: "hasToken m 1 = odd (m div 2)"
  using bit_Suc [of m 0] by (simp add: hasToken_bit bit_0)

lemma enabled_in_01: "t \<in> set (enabledPaymentTokens m) \<Longrightarrow> t = 0 \<or> t = 1"
  by (auto simp: enabledPaymentTokens_def split: if_splits)

lemma enabled_iff: "t \<in> set (enabledPaymentTokens m) \<longleftrightarrow> (t = 0 \<or> t = 1) \<and> hasToken m t"
  by (auto simp: enabledPaymentTokens_def)

lemma enabled_distinct [simp]: "distinct (enabledPaymentTokens m)"
  by (simp add: enabledPaymentTokens_def)

lemma planId_inject:
  assumes "planId p t = planId p' t'" "t = 0 \<or> t = 1" "t' = 0 \<or> t' = 1"
  shows "p = p' \<and> t = t'"
  using assms by (auto simp: planId_def PLAN_IDS_PER_TOKEN_def) presburger+

section \<open>Instructions\<close>

text \<open>An instruction, by the builder that makes it and the arguments given to the builder.\<close>

datatype instruction =
    RawInstruction address "account_meta list" bytes
  | CreateAssociatedTokenIdempotent (ata_mint: address) (ata_owner: address) (ata_payer: address)
      (ata_tokenProgram: address)
  | InitSubscriptionAuthority (isa_owner: address) (isa_payer: address) (isa_tokenMint: address)
      (isa_tokenProgram: address) (isa_userAta: address)
  | RevokeSubscriptionAuthority (rsa_receiver: address) (rsa_tokenMint: address)
      (rsa_tokenProgram: address) (rsa_user: address)
  | RevokeSubscription (rs_authority: address) (rs_plan: address) (rs_receiver: address)
      (rs_subscription: address)
  | RevokeAbandonedSubscription (ras_payer: address) (ras_plan: address)
      (ras_subscription: address) (ras_authority: address)
  | ResumeSubscription (res_expectedExpiresAtTs: int) (res_plan: address) (res_subscriber: address)
      (res_subscription: address) (res_tokenMint: address)
  | Subscribe (s_expectedAmount: int) (s_expectedCreatedAt: int) (s_expectedPeriodHours: int)
      (s_expectedInitId: int) (s_merchant: address) (s_payer: address) (s_planId: int)
      (s_subscriber: address) (s_tokenMint: address)
  | CancelSubscription (cs_plan: address) (cs_subscriber: address) (cs_subscription: address)
  | EnrollIx (en_params: enroll_params) (en_payer: address) (en_user: address)
  | ReactivateIx (re_params: enroll_params) (re_sponsor: address) (re_user: address)
  | UpdateSettingsIx (us_params: enroll_params) (us_user: address)
  | SetUserPausedIx (sup_paused: bool) (sup_user: address)
  | LowerPendingIx (lp_pending: int) (lp_user: address)
  | ChangeTierIx (ct_tier: int) (ct_user: address) (ct_userConfig: address)
  | ChangePaymentTokensIx (cpt_paymentTokens: int) (cpt_user: address) (cpt_userConfig: address)
  | ExitIx (ex_user: address) (ex_userConfig: address)
  | WithRemainingAccounts (wra_instruction: instruction) (wra_accounts: "account_meta list")

definition withRemainingAccounts :: "instruction \<Rightarrow> account_meta list \<Rightarrow> instruction" where
  "withRemainingAccounts i accounts = WithRemainingAccounts i accounts"

definition readonly :: "address \<Rightarrow> account_meta" where
  "readonly a = \<lparr>meta_address = a, meta_role = Readonly\<rparr>"

definition writable :: "address \<Rightarrow> account_meta" where
  "writable a = \<lparr>meta_address = a, meta_role = Writable\<rparr>"

section \<open>A user's accounts (user-state.ts)\<close>

definition ownedBySubscriptions :: "lib \<Rightarrow> encoded_account option \<Rightarrow> bool" where
  "ownedBySubscriptions L account =
     (case account of None \<Rightarrow> False | Some a \<Rightarrow> acc_programAddress a = SUBSCRIPTIONS_PROGRAM_ADDRESS L)"

definition decodeTokenAccountState ::
    "lib \<Rightarrow> encoded_account option \<Rightarrow> address \<Rightarrow> token_account_state option outcome" where
  "decodeTokenAccountState L account tokenProgram =
     (case account of
        None \<Rightarrow> Inr None
      | Some a \<Rightarrow>
          if acc_programAddress a \<noteq> tokenProgram then Inr None
          else res_bind (decodeToken L (js_slice 0 165 (acc_data a))) (\<lambda>t. Inr (Some t)))"

record token_state =
  ts_account :: address
  ts_accountState :: "token_account_state option"
  ts_authority :: address
  ts_authorityState :: "subscription_authority option"
  ts_mint :: address
  ts_paymentToken :: int
  ts_tokenProgram :: address

record plan_state =
  ps_paymentToken :: int
  ps_plan :: address
  ps_planState :: plan_data
  ps_subscription :: address
  ps_subscriptionState :: "subscription option"
  ps_tier :: int

record user_state =
  ust_assets :: "(address \<times> bool) list"
  ust_now :: int
  ust_plans :: "plan_state list"
  ust_tokens :: "token_state list"
  ust_userConfig :: "user_config option"
  ust_userConfigAddress :: address

definition PLANS :: "(int \<times> int) list" where
  "PLANS = [(0, 0), (0, 1), (1, 0), (1, 1)]"

text \<open>\<open>xs.map(f)\<close> where \<open>f\<close> may throw: the first error in order wins.\<close>

fun res_map :: "('a \<Rightarrow> 'e + 'b) \<Rightarrow> 'a list \<Rightarrow> 'e + 'b list" where
  "res_map f [] = Inr []"
| "res_map f (x # xs) = res_bind (f x) (\<lambda>y. res_bind (res_map f xs) (\<lambda>ys. Inr (y # ys)))"

lemma res_map_Inr: "res_map f xs = Inr ys \<Longrightarrow> length ys = length xs \<and> (\<forall>i < length xs. f (xs ! i) = Inr (ys ! i))"
proof (induction xs arbitrary: ys)
  case Nil
  then show ?case by simp
next
  case (Cons x xs)
  then obtain y ys' where "f x = Inr y" "res_map f xs = Inr ys'" "ys = y # ys'"
    by (auto simp: result_simps)
  with Cons.IH [of ys'] show ?case by (auto simp: nth_Cons split: nat.splits)
qed

definition decodeOwned :: "lib \<Rightarrow> (bytes \<Rightarrow> 'a outcome) \<Rightarrow> encoded_account option \<Rightarrow> 'a option outcome" where
  "decodeOwned L dec account =
     (if ownedBySubscriptions L account
      then res_bind (dec (acc_data (the account))) (\<lambda>x. Inr (Some x)) else Inr None)"

definition fetchToken ::
    "lib \<Rightarrow> cluster \<Rightarrow> address \<Rightarrow> payment_token_entry \<times> int \<Rightarrow> token_state outcome" where
  "fetchToken L C user = (\<lambda>(token, paymentToken).
     let account = findAssociatedTokenPda L (token_mint token) user (token_tokenProgram token);
         authority = findSubscriptionAuthorityAddress L user (token_mint token)
     in res_bind (decodeTokenAccountState L (C account) (token_tokenProgram token)) (\<lambda>accountState.
        res_bind (decodeOwned L (decodeSubscriptionAuthority L) (C authority)) (\<lambda>authorityState.
        Inr \<lparr>ts_account = account, ts_accountState = accountState, ts_authority = authority,
             ts_authorityState = authorityState, ts_mint = token_mint token,
             ts_paymentToken = paymentToken, ts_tokenProgram = token_tokenProgram token\<rparr>)))"

definition fetchPlan :: "lib \<Rightarrow> cluster \<Rightarrow> address \<Rightarrow> int \<times> int \<Rightarrow> plan_state outcome" where
  "fetchPlan L C user = (\<lambda>(paymentToken, tier).
     let plan = findPlanAddress L paymentToken tier;
         subscription = findSubscriptionDelegationPda L plan user
     in if \<not> ownedBySubscriptions L (C plan) then Inl (PlainError (''Plan '' @ plan @ '' does not exist''))
        else res_bind (decodePlan L (acc_data (the (C plan)))) (\<lambda>planState.
          if nth_opt TIERS tier \<noteq> Some (plan_amount planState)
          then Inl (PlainError (''Plan '' @ plan @ '' is not tier ''))
          else res_bind (decodeOwned L (decodeSubscriptionDelegation L) (C subscription)) (\<lambda>subState.
            Inr \<lparr>ps_paymentToken = paymentToken, ps_plan = plan, ps_planState = planState,
                 ps_subscription = subscription, ps_subscriptionState = subState, ps_tier = tier\<rparr>)))"

definition fetchUserState :: "lib \<Rightarrow> cluster \<Rightarrow> config \<Rightarrow> address \<Rightarrow> user_state outcome" where
  "fetchUserState L C cfg user =
     (let userConfigAddress = findUserConfigPda L user
      in case C (SYSVAR_CLOCK_ADDRESS L) of
           None \<Rightarrow> Inl (PlainError ''The cluster returned no clock'')
         | Some clock \<Rightarrow>
             let assets = map (\<lambda>a. let account = findAssociatedTokenPda L (asset_mint a) user (asset_tokenProgram a)
                                   in (account, case C account of None \<Rightarrow> False
                                                | Some acc \<Rightarrow> acc_programAddress acc = asset_tokenProgram a))
                          (cfg_assets cfg)
             in res_bind (res_map (fetchToken L C user)
                            (zip (cfg_paymentTokens cfg) (map int [0..<length (cfg_paymentTokens cfg)]))) (\<lambda>tokens.
                res_bind (res_map (fetchPlan L C user) PLANS) (\<lambda>plans.
                res_bind (decodeClock L (acc_data clock)) (\<lambda>now.
                res_bind (case C userConfigAddress of
                            None \<Rightarrow> Inr None
                          | Some a \<Rightarrow> if acc_programAddress a = LATERITE_PROGRAM_ADDRESS
                                      then res_bind (decodeUserConfig L (acc_data a)) (\<lambda>u. Inr (Some u))
                                      else Inr None) (\<lambda>userConfig.
                Inr \<lparr>ust_assets = assets, ust_now = now, ust_plans = plans, ust_tokens = tokens,
                     ust_userConfig = userConfig, ust_userConfigAddress = userConfigAddress\<rparr>)))))"

definition planState :: "user_state \<Rightarrow> int \<Rightarrow> int \<Rightarrow> plan_state outcome" where
  "planState state paymentToken tier =
     (case find (\<lambda>e. ps_paymentToken e = paymentToken \<and> ps_tier e = tier) (ust_plans state) of
        None \<Rightarrow> Inl (PlainError ''No plan for payment token and tier'')
      | Some plan \<Rightarrow> Inr plan)"

definition isRunning :: "subscription option \<Rightarrow> int \<Rightarrow> bool" where
  "isRunning subscription now =
     (case subscription of None \<Rightarrow> False | Some s \<Rightarrow> sub_expiresAtTs s = 0 \<or> sub_expiresAtTs s > now)"

definition closeSubscriptionInstruction :: "address \<Rightarrow> plan_state \<Rightarrow> instruction outcome" where
  "closeSubscriptionInstruction user plan =
     (case ps_subscriptionState plan of
        None \<Rightarrow> Inl (PlainError (''No subscription at '' @ ps_subscription plan))
      | Some s \<Rightarrow> Inr (RevokeSubscription user (ps_plan plan) (sub_payer s) (ps_subscription plan)))"

definition revokeAuthorityInstruction :: "address \<Rightarrow> token_state \<Rightarrow> instruction outcome" where
  "revokeAuthorityInstruction user token =
     (case ts_authorityState token of
        None \<Rightarrow> Inl (PlainError (''No subscription authority at '' @ ts_authority token))
      | Some a \<Rightarrow> Inr (RevokeSubscriptionAuthority (sa_payer a) (ts_mint token) (ts_tokenProgram token) user))"

section \<open>A live subscription (subscriptionInstructions)\<close>

record subscription_input =
  si_now :: int
  si_payers :: "address list"
  si_plan :: plan_state
  si_sponsor :: address
  si_token :: token_state
  si_user :: address

definition approveInstruction :: "subscription_input \<Rightarrow> instruction" where
  "approveInstruction i =
     InitSubscriptionAuthority (si_user i) (si_sponsor i) (ts_mint (si_token i))
       (ts_tokenProgram (si_token i)) (ts_account (si_token i))"

definition subscribeInstruction :: "lib \<Rightarrow> subscription_input \<Rightarrow> instruction" where
  "subscribeInstruction L i =
     (let terms = ps_planState (si_plan i)
      in Subscribe (plan_amount terms) (plan_createdAt terms) (plan_periodHours terms)
           (case ts_authorityState (si_token i) of Some a \<Rightarrow> sa_initId a | None \<Rightarrow> UNKNOWN_INIT_ID L)
           (findVaultPda L) (si_sponsor i)
           (planId (ps_paymentToken (si_plan i)) (ps_tier (si_plan i)))
           (si_user i) (ts_mint (si_token i)))"

definition approvedToken :: "token_state \<Rightarrow> bool" where
  "approvedToken token =
     (ts_authorityState token \<noteq> None
      \<and> (case ts_accountState token of None \<Rightarrow> False
           | Some a \<Rightarrow> ta_delegate a = Some (ts_authority token)))"

definition boundTo :: "subscription \<Rightarrow> token_state \<Rightarrow> bool" where
  "boundTo s token =
     (case ts_authorityState token of None \<Rightarrow> False | Some a \<Rightarrow> sub_initId s = sa_initId a)"

definition subscriptionInstructions :: "lib \<Rightarrow> subscription_input \<Rightarrow> instruction list outcome" where
  "subscriptionInstructions L i =
     (let token = si_token i; plan = si_plan i;
          approve = (if approvedToken token then [] else [approveInstruction i])
      in case ts_accountState token of
           None \<Rightarrow> Inl (PlainError (si_user i @ '' has no account in '' @ ts_mint token))
         | Some account \<Rightarrow>
             if ta_frozen account then Inl (RestoreRequiredError ByFrozen (ts_account token))
             else
               case ps_subscriptionState plan of
                 None \<Rightarrow> Inr (approve @ [subscribeInstruction L i])
               | Some s \<Rightarrow>
                   if sub_expiresAtTs s \<noteq> 0 \<and> sub_expiresAtTs s \<le> si_now i
                   then res_bind (closeSubscriptionInstruction (si_user i) plan) (\<lambda>close.
                          Inr (close # approve @ [subscribeInstruction L i]))
                   else if \<not> boundTo s token
                   then (case find (\<lambda>signer. signer = sub_payer s) (si_sponsor i # si_payers i) of
                           None \<Rightarrow> Inl (RecordedPayerRequiredError (sub_payer s) (ps_subscription plan))
                         | Some payer \<Rightarrow>
                             Inr (RevokeAbandonedSubscription payer (ps_plan plan) (ps_subscription plan)
                                    (ts_authority token) # approve @ [subscribeInstruction L i]))
                   else if sub_expiresAtTs s = 0 then Inr approve
                   else Inr (approve @ [ResumeSubscription (sub_expiresAtTs s) (ps_plan plan)
                                          (si_user i) (ps_subscription plan) (ts_mint token)]))"

text \<open>The state of a token a sweep can pull through, as far as its subscription and approval go.\<close>

definition liveToken :: "subscription_input \<Rightarrow> bool" where
  "liveToken i =
     (isRunning (ps_subscriptionState (si_plan i)) (si_now i)
      \<and> (\<exists>s. ps_subscriptionState (si_plan i) = Some s \<and> boundTo s (si_token i)))"

lemma find_eq_mem: "find (\<lambda>x. x = a) xs = (if a \<in> set xs then Some a else None)"
  by (induction xs) auto

text \<open>
  Exactly when the instructions exist: the user's account exists and is not frozen, and a running
  subscription bound to an authority that is gone was paid for by a signer at hand.
\<close>

lemma subscriptionInstructions_defined:
  "(\<exists>is. subscriptionInstructions L i = Inr is) \<longleftrightarrow>
     (\<exists>a. ts_accountState (si_token i) = Some a \<and> \<not> ta_frozen a)
     \<and> (\<forall>s. ps_subscriptionState (si_plan i) = Some s \<longrightarrow> isRunning (Some s) (si_now i)
            \<longrightarrow> \<not> boundTo s (si_token i) \<longrightarrow> sub_payer s \<in> set (si_sponsor i # si_payers i))"
  by (auto simp: subscriptionInstructions_def closeSubscriptionInstruction_def isRunning_def
      find_eq_mem Let_def split: option.splits)

text \<open>Their shape: at most one close, then at most one approval, then at most one subscription.\<close>

lemma subscriptionInstructions_shape:
  assumes "subscriptionInstructions L i = Inr is"
  obtains close approve final where "is = close @ approve @ final"
    "length close \<le> 1" "length approve \<le> 1" "length final \<le> 1"
    "set approve \<subseteq> {approveInstruction i}" "approve = [] \<longleftrightarrow> approvedToken (si_token i)"
    "liveToken i \<Longrightarrow> close = [] \<and> subscribeInstruction L i \<notin> set final"
    "\<not> liveToken i \<Longrightarrow> final = [subscribeInstruction L i]"
    "\<not> liveToken i \<Longrightarrow> close = [] \<longleftrightarrow> ps_subscriptionState (si_plan i) = None"
proof -
  let ?approve = "if approvedToken (si_token i) then [] else [approveInstruction i]"
  have not_sub: "subscribeInstruction L i \<noteq> ResumeSubscription e p u s m" for e p u s m
    by (simp add: subscribeInstruction_def Let_def)
  from assms consider
    (fresh) "ps_subscriptionState (si_plan i) = None" "is = [] @ ?approve @ [subscribeInstruction L i]"
  | (closed) s c where "ps_subscriptionState (si_plan i) = Some s" "\<not> liveToken i"
      "is = [c] @ ?approve @ [subscribeInstruction L i]"
  | (live) s where "ps_subscriptionState (si_plan i) = Some s" "liveToken i" "is = [] @ ?approve @ []"
  | (resumed) s where "ps_subscriptionState (si_plan i) = Some s" "liveToken i"
      "is = [] @ ?approve @ [ResumeSubscription (sub_expiresAtTs s) (ps_plan (si_plan i))
                               (si_user i) (ps_subscription (si_plan i)) (ts_mint (si_token i))]"
    by (fastforce simp: subscriptionInstructions_def closeSubscriptionInstruction_def isRunning_def
        liveToken_def Let_def split: option.splits if_splits)
  then show thesis
  proof cases
    case fresh
    then have "\<not> liveToken i" by (simp add: liveToken_def)
    with fresh show thesis by (intro that [of "[]" ?approve "[subscribeInstruction L i]"]) auto
  next
    case closed
    then show thesis by (intro that [of "[c]" ?approve "[subscribeInstruction L i]"]) auto
  next
    case live
    then show thesis by (intro that [of "[]" ?approve "[]"]) auto
  next
    case resumed
    with not_sub show thesis
      by (intro that [of "[]" ?approve "[ResumeSubscription (sub_expiresAtTs s) (ps_plan (si_plan i))
                               (si_user i) (ps_subscription (si_plan i)) (ts_mint (si_token i))]"]) auto
  qed
qed

text \<open>Nothing to do means the token is live and approved.\<close>

lemma subscriptionInstructions_Nil:
  assumes "subscriptionInstructions L i = Inr []"
  shows "liveToken i" "approvedToken (si_token i)"
    "\<exists>a. ts_accountState (si_token i) = Some a \<and> \<not> ta_frozen a"
    "\<exists>s. ps_subscriptionState (si_plan i) = Some s \<and> sub_expiresAtTs s = 0"
  using assms
  by (auto simp: subscriptionInstructions_def liveToken_def isRunning_def closeSubscriptionInstruction_def
      Let_def split: option.splits if_splits)

end
