(* ===== verification/Demo_Cluster.thy ===== *)
theory Demo_Cluster
  imports User_State
begin

text \<open>
  A concrete instance of the libraries and of a cluster, on which the hypotheses of the properties are
  discharged: readable derived addresses, little-endian encoders and one-byte account data. A user
  pays with both tokens at tier 0, the first subscription running, the second ended outside Laterite.
\<close>

definition demoAscii :: "bytes \<Rightarrow> string" where
  "demoAscii bs = map (\<lambda>b. char_of (uint b)) bs"

definition demoBytes :: "string \<Rightarrow> bytes" where
  "demoBytes s = map (\<lambda>c. word_of_int (of_char c)) s"

text \<open>The program's own address is the 32 zero bytes here.\<close>

definition demoEncode :: "address \<Rightarrow> bytes" where
  "demoEncode a = (if a = LATERITE_PROGRAM_ADDRESS then replicate 32 0 else demoBytes a)"

definition demoDecode :: "bytes \<Rightarrow> address" where
  "demoDecode bs = (if bs = replicate 32 0 then LATERITE_PROGRAM_ADDRESS else demoAscii bs)"

definition demoPlan :: "bytes \<Rightarrow> plan_data outcome" where
  "demoPlan d =
     (case d of [mint, tier] \<Rightarrow>
        Inr \<lparr>plan_mint = (if mint = 0 then ''USDC'' else ''USDT''),
             plan_amount = (if tier = 0 then 10000000 else 25000000),
             plan_createdAt = 500, plan_periodHours = 168, plan_endTs = 0\<rparr>
      | _ \<Rightarrow> Inl (PlainError ''decode''))"

definition demoSubscription :: "bytes \<Rightarrow> subscription outcome" where
  "demoSubscription d =
     (case d of [initId, expires] \<Rightarrow>
        Inr \<lparr>sub_delegatee = ''P'', sub_payer = ''S'', sub_initId = uint initId, sub_amount = 10000000,
             sub_periodHours = 168, sub_amountPulledInPeriod = 3000000, sub_currentPeriodStartTs = 1000,
             sub_expiresAtTs = uint expires * 100\<rparr>
      | _ \<Rightarrow> Inl (PlainError ''decode''))"

definition demoUser :: user_config where
  "demoUser = \<lparr>uc_user = ''UUUUUUUUUUUUUUUUUUUUUUUUUUUUUUUU'', uc_tier = 0, uc_paymentTokens = 3, uc_asset = 0, uc_engine = Daily,
     uc_engineAmount = 2000000, uc_incomeRule = True, uc_changeMultiplier = 1, uc_cushions = [1000000, 0],
     uc_enrolledAt = 1000, uc_goalAmount = 0, uc_goalLabel = replicate 32 0, uc_bump = 255, uc_week = 0,
     uc_weekSpent = 3000000, uc_engineRanAt = 1500, uc_pending = 9000000, uc_status = Active,
     uc_attestableFrom = 1000, uc_lastSweepDay = [0, 0]\<rparr>"

definition demoConfig :: config where
  "demoConfig = \<lparr>cfg_admin = ''A'', cfg_pendingAdmin = ''0'', cfg_paused = False, cfg_router = ''R'',
     cfg_attestor = ''T'', cfg_sponsor = ''S'', userWeeklyCap = 25000000, maxUsers = 100, userCount = 1,
     cfg_assets = [\<lparr>asset_mint = ''SPYX'', asset_tokenProgram = ''T22'', asset_decimals = 8, pythFeedId = 7\<rparr>,
                   \<lparr>asset_mint = ''QQQX'', asset_tokenProgram = ''T22'', asset_decimals = 8, pythFeedId = 9\<rparr>],
     cfg_paymentTokens = [\<lparr>token_mint = ''USDC'', token_tokenProgram = ''TOK'', token_decimals = 6, usdFeedId = 0\<rparr>,
                          \<lparr>token_mint = ''USDT'', token_tokenProgram = ''TOK'', token_decimals = 6, usdFeedId = 8\<rparr>],
     marketCalendar = \<lparr>firstDay = 0, validThrough = 100, holidays = [], earlyCloses = []\<rparr>, genesisHash = []\<rparr>"

definition demoLib :: lib where
  "demoLib =
     \<lparr>getProgramDerivedAddress = (\<lambda>program seeds. CHR ''@'' # demoAscii (concat seeds)),
      findAssociatedTokenPda = (\<lambda>mint owner tokenProgram. owner @ ''/'' @ mint),
      findPlanPda = (\<lambda>vault id. ''PLAN'' @ (if id = 1 then ''1'' else if id = 2 then ''2'' else if id = 3 then ''3'' else ''4'')),
      findSubscriptionDelegationPda = (\<lambda>plan user. plan @ '':'' @ user),
      findSubscriptionAuthorityPda = (\<lambda>mint user. ''AUTH'' @ mint @ '':'' @ user),
      encodeAddress = demoEncode,
      decodeAddress = demoDecode,
      encodeUint = le_bytes,
      decodeUint = (\<lambda>n. le_uint),
      encodeSint = le_bytes,
      decodeSint = (\<lambda>n. le_sint),
      downgradeRoleToNonSigner = (\<lambda>r. case r of WritableSigner \<Rightarrow> Writable | ReadonlySigner \<Rightarrow> Readonly | _ \<Rightarrow> r),
      decodeToken = (\<lambda>d. Inr \<lparr>ta_amount = 20000000, ta_delegate = (if d = [] then None else Some (demoAscii d)),
                              ta_delegatedAmount = 9000000000, ta_frozen = False\<rparr>),
      decodeSubscriptionAuthority = (\<lambda>d. Inr \<lparr>sa_payer = ''S'', sa_initId = le_uint d\<rparr>),
      decodeSubscriptionDelegation = demoSubscription,
      decodePlan = demoPlan,
      decodeClock = (\<lambda>d. Inr 2000),
      subscriptionsEventAuthorityPda = ''SEA'',
      UNKNOWN_INIT_ID = 0,
      SUBSCRIPTIONS_PROGRAM_ADDRESS = ''SUBS'',
      SYSVAR_CLOCK_ADDRESS = ''CLOCK''\<rparr>"

definition demoCluster :: cluster where
  "demoCluster = map_of
     [(''CLOCK'', \<lparr>acc_programAddress = ''SYS'', acc_data = []\<rparr>),
      (''@userU'', \<lparr>acc_programAddress = LATERITE_PROGRAM_ADDRESS, acc_data = encodeUserConfig demoLib demoUser\<rparr>),
      (''U/USDC'', \<lparr>acc_programAddress = ''TOK'', acc_data = demoBytes ''AUTHUSDC:U''\<rparr>),
      (''U/USDT'', \<lparr>acc_programAddress = ''TOK'', acc_data = []\<rparr>),
      (''AUTHUSDC:U'', \<lparr>acc_programAddress = ''SUBS'', acc_data = [4]\<rparr>),
      (''AUTHUSDT:U'', \<lparr>acc_programAddress = ''SUBS'', acc_data = [5]\<rparr>),
      (''PLAN1'', \<lparr>acc_programAddress = ''SUBS'', acc_data = [0, 0]\<rparr>),
      (''PLAN2'', \<lparr>acc_programAddress = ''SUBS'', acc_data = [0, 1]\<rparr>),
      (''PLAN3'', \<lparr>acc_programAddress = ''SUBS'', acc_data = [1, 0]\<rparr>),
      (''PLAN4'', \<lparr>acc_programAddress = ''SUBS'', acc_data = [1, 1]\<rparr>),
      (''PLAN1:U'', \<lparr>acc_programAddress = ''SUBS'', acc_data = [4, 0]\<rparr>)]"

lemmas demo_defs = demoLib_def demoCluster_def demoConfig_def demoUser_def demoPlan_def demoSubscription_def


text \<open>The instance has the documented behaviour of the encoders.\<close>

lemma demoBytes_demoAscii [simp]: "demoBytes (demoAscii bs) = bs"
proof -
  have "uint b mod 256 = uint b" for b :: u8 using uint_byte_bounds [of b] by simp
  then show ?thesis by (simp add: demoBytes_def demoAscii_def comp_def of_char_of)
qed

lemma demoEncode_demoDecode: "length bs = 32 \<Longrightarrow> demoEncode (demoDecode bs) = bs"
proof -
  assume "length bs = 32"
  then have "length (demoAscii bs) \<noteq> length LATERITE_PROGRAM_ADDRESS"
    by (simp add: demoAscii_def LATERITE_PROGRAM_ADDRESS_def)
  then show ?thesis by (auto simp: demoEncode_def demoDecode_def)
qed

lemma demo_kit_encoders: "kit_encoders demoLib"
  by (simp add: kit_encoders_def demoLib_def le_uint_le_bytes_small demoEncode_demoDecode)

text \<open>What the client reads of it.\<close>

definition demoToken :: "int \<Rightarrow> token_state" where
  "demoToken t =
     (let mint = (if t = 0 then ''USDC'' else ''USDT'')
      in \<lparr>ts_account = ''U/'' @ mint,
          ts_accountState = Some \<lparr>ta_amount = 20000000,
            ta_delegate = (if t = 0 then Some ''AUTHUSDC:U'' else None), ta_delegatedAmount = 9000000000, ta_frozen = False\<rparr>,
          ts_authority = ''AUTH'' @ mint @ '':U'',
          ts_authorityState = Some \<lparr>sa_payer = ''S'', sa_initId = 4 + t\<rparr>,
          ts_mint = mint, ts_paymentToken = t, ts_tokenProgram = ''TOK''\<rparr>)"

definition demoPlanState :: "int \<Rightarrow> int \<Rightarrow> plan_state" where
  "demoPlanState t tier =
     (let plan = ''PLAN'' @ (if t = 0 then if tier = 0 then ''1'' else ''2'' else if tier = 0 then ''3'' else ''4'')
      in \<lparr>ps_paymentToken = t, ps_plan = plan,
          ps_planState = \<lparr>plan_mint = (if t = 0 then ''USDC'' else ''USDT''),
             plan_amount = (if tier = 0 then 10000000 else 25000000),
             plan_createdAt = 500, plan_periodHours = 168, plan_endTs = 0\<rparr>,
          ps_subscription = plan @ '':U'',
          ps_subscriptionState = (if t = 0 \<and> tier = 0
             then Some \<lparr>sub_delegatee = ''P'', sub_payer = ''S'', sub_initId = 4, sub_amount = 10000000,
                sub_periodHours = 168, sub_amountPulledInPeriod = 3000000, sub_currentPeriodStartTs = 1000,
                sub_expiresAtTs = 0\<rparr> else None),
          ps_tier = tier\<rparr>)"

definition demoState :: user_state where
  "demoState =
     \<lparr>ust_assets = [(''U/SPYX'', False), (''U/QQQX'', False)], ust_now = 2000,
      ust_plans = [demoPlanState 0 0, demoPlanState 0 1, demoPlanState 1 0, demoPlanState 1 1],
      ust_tokens = [demoToken 0, demoToken 1], ust_userConfig = Some demoUser,
      ust_userConfigAddress = ''@userU''\<rparr>"

lemma demo_fetched: "fetchUserState demoLib demoCluster demoConfig ''U'' = Inr demoState"
  by code_simp

end
