(* ===== verification/Pyth.thy ===== *)
theory Pyth
  imports User_State
begin

text \<open>
  Pyth Pro updates (\<open>clients/typescript/src/pyth.ts\<close>): the byte reader, the Solana-format
  envelope, the search for a feed in a payload, the checked quote and the least output of a swap.
  The lemmas give the parser's round trip against a reference encoder, what a returned quote
  guarantees, and how close \<open>minOut\<close> is to the exact amount.
\<close>

section \<open>The code: Reader\<close>

definition invalidUpdate :: js_error where
  "invalidUpdate = LateriteCheckError InvalidPriceUpdate"

text \<open>A reader is the bytes it has not consumed.\<close>

definition rd_take :: "nat \<Rightarrow> bytes \<Rightarrow> (bytes \<times> bytes) outcome" where
  "rd_take n bs = (if length bs < n then Inl invalidUpdate else Inr (take n bs, drop n bs))"

definition rd_skip :: "nat \<Rightarrow> bytes \<Rightarrow> bytes outcome" where
  "rd_skip n bs = res_bind (rd_take n bs) (\<lambda>(_, rest). Inr rest)"

definition rd_uint :: "nat \<Rightarrow> bytes \<Rightarrow> (int \<times> bytes) outcome" where
  "rd_uint n bs = res_bind (rd_take n bs) (\<lambda>(v, rest). Inr (le_uint v, rest))"

definition rd_sint :: "nat \<Rightarrow> bytes \<Rightarrow> (int \<times> bytes) outcome" where
  "rd_sint n bs = res_bind (rd_take n bs) (\<lambda>(v, rest). Inr (le_sint v, rest))"

definition rd_nonzero :: "bytes \<Rightarrow> (int option \<times> bytes) outcome" where
  "rd_nonzero bs =
     res_bind (rd_sint 8 bs) (\<lambda>(v, rest). Inr (if v = 0 then None else Some v, rest))"

definition rd_optional :: "bytes \<Rightarrow> (int option \<times> bytes) outcome" where
  "rd_optional bs = res_bind (rd_uint 1 bs) (\<lambda>(flag, rest).
     if flag = 0 then Inr (None, rest)
     else if flag = 1 then res_bind (rd_uint 8 rest) (\<lambda>(v, rest'). Inr (Some v, rest'))
     else Inl invalidUpdate)"

section \<open>The code: updates, feeds, quotes\<close>

definition SOLANA_FORMAT_MAGIC :: int where "SOLANA_FORMAT_MAGIC = 2182742457"
definition PAYLOAD_FORMAT_MAGIC :: int where "PAYLOAD_FORMAT_MAGIC = 2479346549"
definition ENVELOPE :: nat where "ENVELOPE = 4 + 64 + 32 + 2"

record pyth_update =
  pu_payload :: bytes
  pu_publicKey :: address
  pu_signature :: bytes

definition parsePythUpdate :: "lib \<Rightarrow> bytes \<Rightarrow> pyth_update outcome" where
  "parsePythUpdate L message =
     res_bind (rd_uint 4 message) (\<lambda>(magic, r).
     res_guard (magic \<noteq> SOLANA_FORMAT_MAGIC) invalidUpdate (
     res_bind (rd_skip 96 r) (\<lambda>r.
     res_bind (rd_uint 2 r) (\<lambda>(size, r).
     res_guard (size \<noteq> int (length r)) invalidUpdate (
     Inr \<lparr>pu_payload = drop ENVELOPE message,
          pu_publicKey = decodeAddress L (js_slice 68 100 message),
          pu_signature = js_slice 4 68 message\<rparr>)))))"

record feed =
  fd_confidence :: "int option"
  fd_exponent :: "int option"
  fd_price :: "int option"
  fd_updatedAt :: "int option"

definition emptyFeed :: feed where
  "emptyFeed = \<lparr>fd_confidence = None, fd_exponent = None, fd_price = None, fd_updatedAt = None\<rparr>"

text \<open>One property of a feed, from its tag.\<close>

definition readProperty :: "feed \<Rightarrow> bytes \<Rightarrow> (feed \<times> bytes) outcome" where
  "readProperty f r = res_bind (rd_uint 1 r) (\<lambda>(property, r).
     if property = 0 then res_bind (rd_nonzero r) (\<lambda>(v, r). Inr (f\<lparr>fd_price := v\<rparr>, r))
     else if property = 4 then res_bind (rd_sint 2 r) (\<lambda>(v, r). Inr (f\<lparr>fd_exponent := Some v\<rparr>, r))
     else if property = 5 then res_bind (rd_nonzero r) (\<lambda>(v, r). Inr (f\<lparr>fd_confidence := v\<rparr>, r))
     else if property = 12 then res_bind (rd_optional r) (\<lambda>(v, r). Inr (f\<lparr>fd_updatedAt := v\<rparr>, r))
     else if property \<in> {1, 2, 10, 11} then res_bind (rd_skip 8 r) (\<lambda>r. Inr (f, r))
     else if property = 3 \<or> property = 9 then res_bind (rd_skip 2 r) (\<lambda>r. Inr (f, r))
     else if property \<ge> 6 \<and> property \<le> 8 then res_bind (rd_optional r) (\<lambda>(_, r). Inr (f, r))
     else Inl invalidUpdate)"

fun readProperties :: "nat \<Rightarrow> feed \<Rightarrow> bytes \<Rightarrow> (feed \<times> bytes) outcome" where
  "readProperties 0 f r = Inr (f, r)"
| "readProperties (Suc n) f r = res_bind (readProperty f r) (\<lambda>(f, r). readProperties n f r)"

fun readFeeds :: "nat \<Rightarrow> int \<Rightarrow> bytes \<Rightarrow> feed option outcome" where
  "readFeeds 0 feedId r = Inr None"
| "readFeeds (Suc n) feedId r =
     res_bind (rd_uint 4 r) (\<lambda>(id, r).
     res_bind (rd_uint 1 r) (\<lambda>(properties, r).
     res_bind (readProperties (nat properties) emptyFeed r) (\<lambda>(f, r).
       if id = feedId then Inr (Some f) else readFeeds n feedId r)))"

definition findFeed :: "bytes \<Rightarrow> int \<Rightarrow> feed option outcome" where
  "findFeed payload feedId =
     res_bind (rd_uint 4 payload) (\<lambda>(magic, r).
     res_guard (magic \<noteq> PAYLOAD_FORMAT_MAGIC) invalidUpdate (
     res_bind (rd_skip 9 r) (\<lambda>r.
     res_bind (rd_uint 1 r) (\<lambda>(feeds, r). readFeeds (nat feeds) feedId r))))"

definition hasFeed :: "lib \<Rightarrow> bytes \<Rightarrow> int \<Rightarrow> bool" where
  "hasFeed L message feedId =
     (case res_bind (parsePythUpdate L message) (\<lambda>u. findFeed (pu_payload u) feedId) of
        Inr (Some f) \<Rightarrow> True | _ \<Rightarrow> False)"

definition feedUpdatedAt :: "lib \<Rightarrow> bytes \<Rightarrow> int \<Rightarrow> int option outcome" where
  "feedUpdatedAt L message feedId =
     res_bind (parsePythUpdate L message) (\<lambda>u.
     res_bind (findFeed (pu_payload u) feedId) (\<lambda>f.
       Inr (case f of None \<Rightarrow> None
            | Some f \<Rightarrow> map_option (\<lambda>t. js_div t 1000000) (fd_updatedAt f))))"

record quote_data =
  q_confidence :: int
  q_exponent :: int
  q_price :: int

definition DOLLAR_QUOTE :: quote_data where
  "DOLLAR_QUOTE = \<lparr>q_confidence = 0, q_exponent = 0, q_price = 1\<rparr>"

definition checkedQuote :: "feed \<Rightarrow> int \<Rightarrow> int \<Rightarrow> quote_data outcome" where
  "checkedQuote f now maxAgeSeconds =
     (case (fd_confidence f, fd_exponent f, fd_price f, fd_updatedAt f) of
        (Some confidence, Some exponent, Some price, Some updatedAt) \<Rightarrow>
          res_guard (price < 0 \<or> confidence < 0) (LateriteCheckError PriceUnavailable) (
          res_guard (now - js_div updatedAt 1000000 > maxAgeSeconds) (LateriteCheckError StalePrice) (
          res_guard (confidence * 10000 > price * MAX_CONFIDENCE_BPS) (LateriteCheckError PriceUncertain) (
          Inr \<lparr>q_confidence = confidence, q_exponent = exponent, q_price = price\<rparr>)))
      | _ \<Rightarrow> Inl (LateriteCheckError PriceUnavailable))"

definition quote :: "lib \<Rightarrow> bytes \<Rightarrow> int \<Rightarrow> int \<Rightarrow> int \<Rightarrow> quote_data outcome" where
  "quote L message feedId now maxAgeSeconds =
     (if feedId = 0
      then res_guard (message \<noteq> []) invalidUpdate (Inr DOLLAR_QUOTE)
      else res_bind (parsePythUpdate L message) (\<lambda>u.
           res_bind (findFeed (pu_payload u) feedId) (\<lambda>found.
             case found of
               None \<Rightarrow> Inl (LateriteCheckError PriceUnavailable)
             | Some f \<Rightarrow> checkedQuote f now maxAgeSeconds)))"

definition minOut :: "int \<Rightarrow> quote_data \<Rightarrow> int \<Rightarrow> quote_data \<Rightarrow> int \<Rightarrow> int outcome" where
  "minOut amount payment paymentDecimals asset assetDecimals =
     (let worth = amount * (if q_price payment > q_confidence payment
                            then q_price payment - q_confidence payment else 0);
          assetPrice = q_price asset + q_confidence asset;
          scale = q_exponent payment - q_exponent asset + assetDecimals - paymentDecimals;
          factor = 10 ^ nat \<bar>scale\<bar>
      in res_guard (factor > U128_MAX) invalidUpdate (
         let (numerator, denominator) = (if scale \<ge> 0 then (worth * factor, assetPrice)
                                         else (worth, assetPrice * factor))
         in res_guard (numerator > U128_MAX \<or> denominator > U128_MAX \<or> denominator = 0) invalidUpdate (
            let scaled = js_div numerator denominator * (10000 - SLIPPAGE_BPS)
            in res_guard (scaled > U128_MAX) invalidUpdate (
               let out = js_div scaled 10000
               in res_guard (out = 0 \<and> amount \<noteq> 0) (LateriteCheckError AmountTooSmall) (
                  res_guard (out > U64_MAX) invalidUpdate (Inr out))))))"

record pyth_storage =
  st_singleUpdateFeeInLamports :: int
  st_topAuthority :: address
  st_treasury :: address
  st_trustedSigners :: "(int \<times> address) list"

text \<open>The trust check of \<open>verifyPythUpdate\<close>; the ed25519 verification is the argument \<open>verified\<close>.\<close>

definition verifyPythUpdate ::
    "lib \<Rightarrow> (address \<Rightarrow> bytes \<Rightarrow> bytes \<Rightarrow> bool) \<Rightarrow> bytes \<Rightarrow> pyth_storage \<Rightarrow> int \<Rightarrow> pyth_update outcome" where
  "verifyPythUpdate L verified message storage now =
     res_bind (parsePythUpdate L message) (\<lambda>u.
     res_guard (\<not> list_ex (\<lambda>(expiresAt, pubkey). pubkey = pu_publicKey u \<and> expiresAt > now)
                  (st_trustedSigners storage))
       (PlainError (''Pyth Pro does not trust the update's signer '' @ pu_publicKey u)) (
     res_guard (\<not> verified (pu_publicKey u) (pu_signature u) (pu_payload u))
       (PlainError ''The update's signature does not verify'') (Inr u)))"

section \<open>The reader\<close>

lemma rd_take_append [simp]: "length xs = n \<Longrightarrow> rd_take n (xs @ ys) = Inr (xs, ys)"
  by (simp add: rd_take_def)

lemma rd_uint_le_bytes [byte_simps]:
  "0 \<le> x \<Longrightarrow> x < 256 ^ n \<Longrightarrow> rd_uint n (le_bytes n x @ r) = Inr (x, r)"
  by (simp add: rd_uint_def le_uint_le_bytes)

lemma rd_sint_le_bytes [byte_simps]:
  "0 < n \<Longrightarrow> - (256 ^ n) \<le> 2 * x \<Longrightarrow> 2 * x < 256 ^ n \<Longrightarrow> rd_sint n (le_bytes n x @ r) = Inr (x, r)"
  by (simp add: rd_sint_def le_sint_le_bytes)

lemma rd_skip_append [byte_simps]: "length xs = n \<Longrightarrow> rd_skip n (xs @ r) = Inr r"
  by (simp add: rd_skip_def)

lemma rd_tag [byte_simps]: "rd_uint (Suc 0) (b # r) = Inr (uint b, r)"
  by (simp add: rd_uint_def rd_take_def)

section \<open>A reference encoder\<close>

datatype property =
    Price int | Exponent int | Confidence int | UpdatedAt "int option"
  | Eight int bytes | Two int bytes | Maybe int "int option"

definition enc_optional :: "int option \<Rightarrow> bytes" where
  "enc_optional v = (case v of None \<Rightarrow> [0] | Some x \<Rightarrow> 1 # le_bytes 8 x)"

fun enc_property :: "property \<Rightarrow> bytes" where
  "enc_property (Price p) = 0 # le_bytes 8 p"
| "enc_property (Exponent e) = 4 # le_bytes 2 e"
| "enc_property (Confidence c) = 5 # le_bytes 8 c"
| "enc_property (UpdatedAt t) = 12 # enc_optional t"
| "enc_property (Eight tag bs) = word_of_int tag # bs"
| "enc_property (Two tag bs) = word_of_int tag # bs"
| "enc_property (Maybe tag v) = word_of_int tag # enc_optional v"

fun property_ok :: "property \<Rightarrow> bool" where
  "property_ok (Price p) = i64_ok p"
| "property_ok (Exponent e) = (- (2 ^ 15) \<le> e \<and> e < 2 ^ 15)"
| "property_ok (Confidence c) = i64_ok c"
| "property_ok (UpdatedAt t) = (case t of None \<Rightarrow> True | Some x \<Rightarrow> u64_ok x)"
| "property_ok (Eight tag bs) = (tag \<in> {1, 2, 10, 11} \<and> length bs = 8)"
| "property_ok (Two tag bs) = (tag \<in> {3, 9} \<and> length bs = 2)"
| "property_ok (Maybe tag v) = (tag \<in> {6, 7, 8} \<and> (case v of None \<Rightarrow> True | Some x \<Rightarrow> u64_ok x))"

text \<open>What a property says of its feed; 0 stands for an absent price or confidence.\<close>

fun with_property :: "property \<Rightarrow> feed \<Rightarrow> feed" where
  "with_property (Price p) f = f\<lparr>fd_price := (if p = 0 then None else Some p)\<rparr>"
| "with_property (Exponent e) f = f\<lparr>fd_exponent := Some e\<rparr>"
| "with_property (Confidence c) f = f\<lparr>fd_confidence := (if c = 0 then None else Some c)\<rparr>"
| "with_property (UpdatedAt t) f = f\<lparr>fd_updatedAt := t\<rparr>"
| "with_property _ f = f"

definition feed_of :: "property list \<Rightarrow> feed" where
  "feed_of ps = fold with_property ps emptyFeed"

definition enc_feed :: "int \<times> property list \<Rightarrow> bytes" where
  "enc_feed = (\<lambda>(id, ps). le_bytes 4 id @ le_bytes 1 (int (length ps)) @ concat (map enc_property ps))"

definition enc_payload :: "bytes \<Rightarrow> (int \<times> property list) list \<Rightarrow> bytes" where
  "enc_payload stamp feeds =
     le_bytes 4 PAYLOAD_FORMAT_MAGIC @ stamp @ le_bytes 1 (int (length feeds)) @ concat (map enc_feed feeds)"

definition payload_ok :: "bytes \<Rightarrow> (int \<times> property list) list \<Rightarrow> bool" where
  "payload_ok stamp feeds =
     (length stamp = 9 \<and> length feeds < 256
      \<and> (\<forall>(id, ps) \<in> set feeds. 0 \<le> id \<and> id < 2 ^ 32 \<and> length ps < 256 \<and> list_all property_ok ps))"

lemma rd_optional_enc [byte_simps]:
  "(case v of None \<Rightarrow> True | Some x \<Rightarrow> u64_ok x) \<Longrightarrow> rd_optional (enc_optional v @ r) = Inr (v, r)"
  by (auto simp: rd_optional_def enc_optional_def u64_ok_def byte_simps split: option.splits)

lemma rd_nonzero_enc [byte_simps]:
  "i64_ok p \<Longrightarrow> rd_nonzero (le_bytes 8 p @ r) = Inr (if p = 0 then None else Some p, r)"
  by (simp add: rd_nonzero_def i64_ok_def byte_simps)

lemma readProperty_enc:
  "property_ok p \<Longrightarrow> readProperty f (enc_property p @ r) = Inr (with_property p f, r)"
  by (cases p) (auto simp: readProperty_def byte_simps)

lemma readProperties_enc:
  "list_all property_ok ps \<Longrightarrow>
   readProperties (length ps) f (concat (map enc_property ps) @ r) = Inr (fold with_property ps f, r)"
  by (induction ps arbitrary: f) (simp_all add: readProperty_enc)

lemma readFeeds_enc:
  assumes "\<forall>(id, ps) \<in> set feeds. 0 \<le> id \<and> id < 2 ^ 32 \<and> length ps < 256 \<and> list_all property_ok ps"
  shows "readFeeds (length feeds) feedId (concat (map enc_feed feeds) @ r)
       = Inr (map_option feed_of (map_of feeds feedId))"
  using assms
proof (induction feeds)
  case Nil
  then show ?case by simp
next
  case (Cons x feeds)
  obtain id ps where x: "x = (id, ps)" by force
  with Cons.prems have ok: "0 \<le> id" "id < 2 ^ 32" "int (length ps) < 256" "list_all property_ok ps"
    by auto
  have "enc_feed x = le_bytes 4 id @ le_bytes 1 (int (length ps)) @ concat (map enc_property ps)"
    by (simp add: x enc_feed_def)
  with ok Cons show ?case by (simp add: x byte_simps readProperties_enc feed_of_def)
qed

text \<open>Round trip: the parser finds exactly what a well-formed payload says of the first entry of a feed.\<close>

lemma findFeed_encoded:
  "payload_ok stamp feeds \<Longrightarrow>
   findFeed (enc_payload stamp feeds) feedId = Inr (map_option feed_of (map_of feeds feedId))"
  using readFeeds_enc [of feeds feedId "[]"]
  by (simp add: findFeed_def enc_payload_def payload_ok_def byte_simps PAYLOAD_FORMAT_MAGIC_def)

section \<open>The envelope\<close>

definition enc_update :: "bytes \<Rightarrow> bytes \<Rightarrow> bytes \<Rightarrow> bytes" where
  "enc_update signature publicKey payload =
     le_bytes 4 SOLANA_FORMAT_MAGIC @ signature @ publicKey @ le_bytes 2 (int (length payload)) @ payload"

definition update_ok :: "bytes \<Rightarrow> bytes \<Rightarrow> bytes \<Rightarrow> bool" where
  "update_ok signature publicKey payload =
     (length signature = 64 \<and> length publicKey = 32 \<and> length payload < 2 ^ 16)"

lemma parsePythUpdate_encoded:
  assumes "update_ok signature publicKey payload"
  shows "parsePythUpdate L (enc_update signature publicKey payload) =
     Inr \<lparr>pu_payload = payload, pu_publicKey = decodeAddress L publicKey, pu_signature = signature\<rparr>"
proof -
  have len: "length signature = 64" "length publicKey = 32" "length payload < 65536"
    using assms by (simp_all add: update_ok_def)
  let ?magic = "le_bytes 4 SOLANA_FORMAT_MAGIC" and ?size = "le_bytes 2 (int (length payload))"
  have "rd_skip 96 ((signature @ publicKey) @ ?size @ payload) = Inr (?size @ payload)"
    using len by (intro rd_skip_append) simp
  then have skip: "rd_skip 96 (signature @ publicKey @ ?size @ payload) = Inr (?size @ payload)"
    by simp
  have sig: "js_slice 4 68 (?magic @ signature @ publicKey @ ?size @ payload) = signature"
    using len by (intro js_slice_append_middle) simp_all
  have "js_slice 68 100 ((?magic @ signature) @ publicKey @ ?size @ payload) = publicKey"
    using len by (intro js_slice_append_middle) simp_all
  then have key: "js_slice 68 100 (?magic @ signature @ publicKey @ ?size @ payload) = publicKey"
    by simp
  have payload: "drop ENVELOPE (?magic @ signature @ publicKey @ ?size @ payload) = payload"
    unfolding ENVELOPE_def using len by simp
  have magic: "rd_uint 4 (?magic @ r) = Inr (SOLANA_FORMAT_MAGIC, r)" for r
    by (simp add: rd_uint_le_bytes SOLANA_FORMAT_MAGIC_def)
  have size: "rd_uint 2 (?size @ r) = Inr (int (length payload), r)" for r
    using len by (simp add: rd_uint_le_bytes)
  show ?thesis
    unfolding parsePythUpdate_def enc_update_def
    by (simp add: magic skip size sig key payload del: drop_append)
qed

text \<open>A parsed update is one the encoder makes: nothing else is accepted.\<close>

lemma parsePythUpdate_length:
  assumes "parsePythUpdate L message = Inr u"
  shows "length message = ENVELOPE + length (pu_payload u)" "length (pu_signature u) = 64"
    "length (pu_payload u) < 2 ^ 16" "le_uint (take 4 message) = SOLANA_FORMAT_MAGIC"
proof -
  from assms have l: "102 \<le> length message"
    and size: "le_uint (take 2 (drop 100 message)) = int (length message - 102)"
    and u: "pu_payload u = drop ENVELOPE message" "pu_signature u = js_slice 4 68 message"
    and magic: "le_uint (take 4 message) = SOLANA_FORMAT_MAGIC"
    by (auto simp: parsePythUpdate_def rd_uint_def rd_skip_def rd_take_def result_simps
        split: if_splits)
  have "le_uint (take 2 (drop 100 message)) < 256 ^ length (take 2 (drop 100 message))"
    using le_uint_bounds by blast
  with l size have "length message - 102 < 2 ^ 16" by simp
  with l u magic show "length message = ENVELOPE + length (pu_payload u)"
    "length (pu_signature u) = 64" "length (pu_payload u) < 2 ^ 16"
    "le_uint (take 4 message) = SOLANA_FORMAT_MAGIC"
    by (simp_all add: ENVELOPE_def js_slice_def)
qed

section \<open>What a quote guarantees\<close>

definition sound_quote :: "quote_data \<Rightarrow> bool" where
  "sound_quote q = (0 < q_price q \<and> 0 \<le> q_confidence q
     \<and> q_confidence q * 10000 \<le> q_price q * MAX_CONFIDENCE_BPS)"

lemma checkedQuote_sound:
  assumes "checkedQuote f now maxAge = Inr q" "fd_price f \<noteq> Some 0"
  shows "sound_quote q" "\<exists>t. fd_updatedAt f = Some t \<and> now - js_div t 1000000 \<le> maxAge"
  using assms
  by (auto simp: checkedQuote_def sound_quote_def result_simps split: option.splits)

text \<open>The reader never stores a price or confidence of 0, which encodes an absent one.\<close>

lemma readProperty_price:
  "readProperty f r = Inr (f', r') \<Longrightarrow> fd_price f \<noteq> Some 0 \<Longrightarrow> fd_price f' \<noteq> Some 0"
  by (auto simp: readProperty_def rd_nonzero_def result_simps split: if_splits)

lemma readProperties_price:
  "readProperties n f r = Inr (f', r') \<Longrightarrow> fd_price f \<noteq> Some 0 \<Longrightarrow> fd_price f' \<noteq> Some 0"
  by (induction n arbitrary: f r) (auto simp: result_simps dest: readProperty_price)

lemma readFeeds_price: "readFeeds n feedId r = Inr (Some f) \<Longrightarrow> fd_price f \<noteq> Some 0"
  by (induction n arbitrary: r)
    (auto simp: result_simps emptyFeed_def dest: readProperties_price split: if_splits)

lemma findFeed_price: "findFeed payload feedId = Inr (Some f) \<Longrightarrow> fd_price f \<noteq> Some 0"
  by (auto simp: findFeed_def result_simps dest: readFeeds_price)

lemma quote_cases:
  assumes "quote L message feedId now maxAge = Inr q"
  obtains (dollar) "feedId = 0" "message = []" "q = DOLLAR_QUOTE"
  | (priced) u f where "feedId \<noteq> 0" "parsePythUpdate L message = Inr u"
      "findFeed (pu_payload u) feedId = Inr (Some f)" "checkedQuote f now maxAge = Inr q"
  using assms by (auto simp: quote_def result_simps split: if_splits option.splits)

lemma quote_sound:
  assumes "quote L message feedId now maxAge = Inr q"
  shows "sound_quote q"
  using assms
proof (cases rule: quote_cases)
  case dollar
  then show ?thesis by (simp add: sound_quote_def DOLLAR_QUOTE_def MAX_CONFIDENCE_BPS_def)
next
  case priced
  then show ?thesis by (auto intro: checkedQuote_sound findFeed_price dest: findFeed_price)
qed

lemma quote_fresh:
  assumes "quote L message feedId now maxAge = Inr q" "feedId \<noteq> 0"
  obtains u f t where "parsePythUpdate L message = Inr u" "findFeed (pu_payload u) feedId = Inr (Some f)"
    "fd_updatedAt f = Some t" "now - js_div t 1000000 \<le> maxAge"
  using assms(1)
proof (cases rule: quote_cases)
  case dollar
  with assms(2) show ?thesis by simp
next
  case (priced u f)
  from checkedQuote_sound(2) [OF priced(4) findFeed_price [OF priced(3)]] priced
  show ?thesis by (auto intro: that)
qed

text \<open>A stricter age bound only refuses more: what the crank accepts, the program's bound accepts.\<close>

lemma checkedQuote_age_mono:
  "checkedQuote f now maxAge = Inr q \<Longrightarrow> maxAge \<le> maxAge' \<Longrightarrow> checkedQuote f now maxAge' = Inr q"
  by (auto simp: checkedQuote_def result_simps split: option.splits)

lemma quote_age_mono:
  assumes "quote L message feedId now maxAge = Inr q" "maxAge \<le> maxAge'"
  shows "quote L message feedId now maxAge' = Inr q"
  using assms(1)
proof (cases rule: quote_cases)
  case dollar
  then show ?thesis by (simp add: quote_def)
next
  case (priced u f)
  then show ?thesis using checkedQuote_age_mono [OF priced(4) assms(2)] by (simp add: quote_def)
qed

section \<open>The least output of a swap\<close>

definition out_numerator :: "int \<Rightarrow> quote_data \<Rightarrow> int \<Rightarrow> quote_data \<Rightarrow> int \<Rightarrow> int" where
  "out_numerator amount payment pd asset ad =
     amount * max 0 (q_price payment - q_confidence payment)
       * 10 ^ nat (q_exponent payment - q_exponent asset + ad - pd)"

definition out_denominator :: "quote_data \<Rightarrow> int \<Rightarrow> quote_data \<Rightarrow> int \<Rightarrow> int" where
  "out_denominator payment pd asset ad =
     (q_price asset + q_confidence asset)
       * 10 ^ nat (- (q_exponent payment - q_exponent asset + ad - pd))"

text \<open>
  Where \<open>minOut\<close> returns, it returns the floor of the floor of the fair output (at the payment's lowest
  and the asset's highest price) less 55 basis points.
\<close>

lemma minOut_Inr:
  assumes "minOut amount payment pd asset ad = Inr out" "0 \<le> amount"
    "0 \<le> q_price asset + q_confidence asset"
  shows "0 < out_denominator payment pd asset ad"
    "out = (out_numerator amount payment pd asset ad div out_denominator payment pd asset ad) * 9945 div 10000"
    "0 \<le> out" "out \<le> U64_MAX" "out = 0 \<longrightarrow> amount = 0"
proof -
  let ?scale = "q_exponent payment - q_exponent asset + ad - pd"
  let ?worth = "amount * (if q_price payment > q_confidence payment
                          then q_price payment - q_confidence payment else 0)"
  let ?N = "out_numerator amount payment pd asset ad" and ?D = "out_denominator payment pd asset ad"
  have worth: "?worth = amount * max 0 (q_price payment - q_confidence payment)" by (simp add: max_def)
  have ND: "(if ?scale \<ge> 0 then (?worth * 10 ^ nat \<bar>?scale\<bar>, q_price asset + q_confidence asset)
             else (?worth, (q_price asset + q_confidence asset) * 10 ^ nat \<bar>?scale\<bar>)) = (?N, ?D)"
    unfolding worth by (auto simp: out_numerator_def out_denominator_def)
  have nonneg: "0 \<le> ?N" "0 \<le> ?D"
    using assms(2,3) by (simp_all add: out_numerator_def out_denominator_def)
  define scaled where "scaled = js_div ?N ?D * (10000 - SLIPPAGE_BPS)"
  define res where "res = js_div scaled 10000"
  from assms(1) have r: "?D \<noteq> 0" "out = res" "res \<le> U64_MAX" "\<not> (res = 0 \<and> amount \<noteq> 0)"
    unfolding minOut_def Let_def ND prod.case
    by (simp_all add: result_simps scaled_def res_def)
  from r(1) nonneg show pos: "0 < ?D" by simp
  have scaled: "scaled = ?N div ?D * 9945" "0 \<le> scaled"
    using nonneg pos by (simp_all add: scaled_def js_div_nonneg SLIPPAGE_BPS_def pos_imp_zdiv_nonneg_iff)
  then have res: "res = scaled div 10000" "0 \<le> res" by (simp_all add: res_def js_div_nonneg)
  from r res scaled show "out = ?N div ?D * 9945 div 10000" "0 \<le> out" "out \<le> U64_MAX" "out = 0 \<longrightarrow> amount = 0"
    by simp_all
qed

text \<open>The two roundings lose less than two units: \<open>out\<close> is at most 99.45\% of the fair output and above it less two.\<close>

lemma floor_share_bounds:
  fixes N D out :: int
  assumes "0 < D" "out = (N div D) * 9945 div 10000"
  shows "out * 10000 * D \<le> N * 9945" "N * 9945 < (out + 2) * 10000 * D"
proof -
  define q where "q = N div D"
  have q: "q * D \<le> N" "N < (q + 1) * D" using assms(1) div_bucket_iff [of D N q] by (auto simp: q_def)
  have o: "out * 10000 \<le> q * 9945" "q * 9945 < (out + 1) * 10000"
    using assms(2) div_bucket_iff [of 10000 "q * 9945" out] by (auto simp: q_def)
  from o(1) assms(1) have "out * 10000 * D \<le> q * 9945 * D" by (intro mult_right_mono) auto
  also have "\<dots> \<le> N * 9945" using q(1) by simp
  finally show "out * 10000 * D \<le> N * 9945" .
  have "N * 9945 < (q + 1) * D * 9945" using q(2) by simp
  also have "(q + 1) * D * 9945 = (q * 9945 + 9945) * D" by (simp add: algebra_simps)
  also have "\<dots> \<le> ((out + 2) * 10000) * D" using o(2) assms(1) by (intro mult_right_mono) auto
  finally show "N * 9945 < (out + 2) * 10000 * D" by simp
qed

text \<open>More pulled never lowers the required output.\<close>

lemma minOut_mono:
  assumes "minOut amount payment pd asset ad = Inr out" "minOut amount' payment pd asset ad = Inr out'"
    "0 \<le> amount" "amount \<le> amount'" "0 \<le> q_price asset + q_confidence asset"
  shows "out \<le> out'"
proof -
  let ?D = "out_denominator payment pd asset ad"
  note a = minOut_Inr [OF assms(1,3,5)] and b = minOut_Inr [OF assms(2) order_trans [OF assms(3,4)] assms(5)]
  have "out_numerator amount payment pd asset ad \<le> out_numerator amount' payment pd asset ad"
    using assms(4) by (auto simp: out_numerator_def intro!: mult_right_mono)
  then have "out_numerator amount payment pd asset ad div ?D \<le> out_numerator amount' payment pd asset ad div ?D"
    using a(1) by (rule zdiv_mono1)
  with a(2) b(2) show ?thesis by (simp add: zdiv_mono1)
qed

end
