(* ===== verification/Ed25519.thy ===== *)
theory Ed25519
  imports Pyth
begin

text \<open>
  The ed25519 precompile's instructions (\<open>ed25519.ts\<close>), the data of the \<open>sweep\<close> instruction they
  point into (\<open>generated/instructions/sweep.ts\<close>) and the reader of posted updates
  (\<open>node/kamino.ts\<close>). The lemmas show that every offset names the bytes it should and that the
  reader recovers the update the precompile was built for.
\<close>

section \<open>The code: ed25519.ts\<close>

definition ED25519_PROGRAM_ADDRESS :: address where
  "ED25519_PROGRAM_ADDRESS = ''Ed25519SigVerify111111111111111111111111111''"

definition ED25519_THIS_INSTRUCTION :: int where "ED25519_THIS_INSTRUCTION = 65535"

record ed25519_offsets =
  messageDataOffset :: int
  messageDataSize :: int
  messageInstructionIndex :: int
  publicKeyInstructionIndex :: int
  publicKeyOffset :: int
  signatureInstructionIndex :: int
  signatureOffset :: int

definition encodeOffsets :: "lib \<Rightarrow> ed25519_offsets \<Rightarrow> bytes" where
  "encodeOffsets L e = concat (map (encodeUint L 2)
     [signatureOffset e, signatureInstructionIndex e, publicKeyOffset e, publicKeyInstructionIndex e,
      messageDataOffset e, messageDataSize e, messageInstructionIndex e])"

definition getEd25519Instruction :: "lib \<Rightarrow> ed25519_offsets list \<Rightarrow> bytes \<Rightarrow> instruction" where
  "getEd25519Instruction L entries inline =
     (let header = encodeUint L 1 (int (length entries)) @ encodeUint L 1 0
                   @ concat (map (encodeOffsets L) entries)
      in RawInstruction ED25519_PROGRAM_ADDRESS [] (header @ inline))"

definition getEd25519SignatureInstruction :: "lib \<Rightarrow> bytes \<Rightarrow> address \<Rightarrow> bytes \<Rightarrow> instruction" where
  "getEd25519SignatureInstruction L message publicKey signature =
     (let publicKeyOffset = 16;
          signatureOffset = publicKeyOffset + 32;
          messageDataOffset = signatureOffset + 64;
          inline = encodeAddress L publicKey @ signature @ message;
          entry = \<lparr>messageDataOffset = messageDataOffset, messageDataSize = int (length message),
                   messageInstructionIndex = ED25519_THIS_INSTRUCTION,
                   publicKeyInstructionIndex = ED25519_THIS_INSTRUCTION,
                   publicKeyOffset = publicKeyOffset,
                   signatureInstructionIndex = ED25519_THIS_INSTRUCTION,
                   signatureOffset = signatureOffset\<rparr>
      in getEd25519Instruction L [entry] inline)"

record pyth_pointer =
  pp_instructionIndex :: int
  pp_message :: bytes
  pp_offset :: int

definition pythOffsets :: "pyth_pointer \<Rightarrow> ed25519_offsets" where
  "pythOffsets u =
     \<lparr>messageDataOffset = pp_offset u + 102, messageDataSize = int (length (pp_message u)) - 102,
      messageInstructionIndex = pp_instructionIndex u, publicKeyInstructionIndex = pp_instructionIndex u,
      publicKeyOffset = pp_offset u + 68, signatureInstructionIndex = pp_instructionIndex u,
      signatureOffset = pp_offset u + 4\<rparr>"

definition getPythEd25519Instruction :: "lib \<Rightarrow> pyth_pointer list \<Rightarrow> instruction" where
  "getPythEd25519Instruction L updates = getEd25519Instruction L (map pythOffsets updates) []"

section \<open>The code: the sweep's data\<close>

definition SWEEP_DISCRIMINATOR :: bytes where
  "SWEEP_DISCRIMINATOR = [40, 23, 234, 175, 14, 61, 154, 177]"

record sweep_data =
  sd_assetMessage :: bytes
  sd_paymentMessage :: bytes
  sd_ed25519Index :: int
  sd_paymentToken :: int
  sd_route :: bytes

definition sizePrefixed :: "lib \<Rightarrow> bytes \<Rightarrow> bytes" where
  "sizePrefixed L bs = encodeUint L 4 (int (length bs)) @ bs"

definition getSweepInstructionData :: "lib \<Rightarrow> sweep_data \<Rightarrow> bytes" where
  "getSweepInstructionData L d =
     SWEEP_DISCRIMINATOR @ sizePrefixed L (sd_assetMessage d) @ sizePrefixed L (sd_paymentMessage d)
     @ encodeUint L 2 (sd_ed25519Index d) @ encodeUint L 1 (sd_paymentToken d) @ sizePrefixed L (sd_route d)"

section \<open>The code: node/kamino.ts\<close>

text \<open>\<open>(data[offset] ?? 0) | ((data[offset + 1] ?? 0) << 8)\<close>\<close>

definition byteAt :: "bytes \<Rightarrow> nat \<Rightarrow> int" where
  "byteAt bs i = (if i < length bs then uint (bs ! i) else 0)"

definition readU16 :: "bytes \<Rightarrow> nat \<Rightarrow> int" where
  "readU16 data offset = byteAt data offset OR push_bit 8 (byteAt data (offset + 1))"

text \<open>An instruction of a decoded transaction: its program's address and its data.\<close>

type_synonym compiled_instruction = "address \<times> bytes"

definition updateAt :: "compiled_instruction list \<Rightarrow> nat \<Rightarrow> bytes option" where
  "updateAt instructions index =
     (let (program, data) = instructions ! index
      in if program \<noteq> ED25519_PROGRAM_ADDRESS then None
         else if byteAt data 0 \<noteq> 1 then None
         else let signatureOffset = readU16 data 2; signatureIndex = readU16 data 4;
                  publicKeyOffset = readU16 data 6; publicKeyIndex = readU16 data 8;
                  messageOffset = readU16 data 10; messageSize = readU16 data 12;
                  messageIndex = readU16 data 14;
                  source = (if messageIndex = ED25519_THIS_INSTRUCTION then int index else messageIndex);
                  start = signatureOffset - 4;
                  valid = (signatureIndex = messageIndex \<and> publicKeyIndex = messageIndex
                           \<and> publicKeyOffset = signatureOffset + 64
                           \<and> messageOffset = signatureOffset + 98 \<and> start \<ge> 0)
              in case nth_opt instructions source of
                   None \<Rightarrow> None
                 | Some (_, carrier) \<Rightarrow>
                     if \<not> valid \<or> int (length carrier) < messageOffset + messageSize then None
                     else Some (js_slice (nat start) (nat (messageOffset + messageSize)) carrier))"

fun firstUpdate :: "compiled_instruction list \<Rightarrow> nat list \<Rightarrow> bytes option" where
  "firstUpdate instructions [] = None"
| "firstUpdate instructions (i # is) =
     (case updateAt instructions i of Some u \<Rightarrow> Some u | None \<Rightarrow> firstUpdate instructions is)"

definition getPythUpdateFromTransaction :: "compiled_instruction list \<Rightarrow> bytes option" where
  "getPythUpdateFromTransaction instructions = firstUpdate instructions [0..<length instructions]"

text \<open>
  \<open>fetchLatestKaminoUpdates\<close>, its loop over Scope's signatures: a signature Pyth's list does not
  verify is skipped, \<open>update\<close> reads a transaction, \<open>has\<close> is \<open>hasFeed\<close> on its message; the loop
  stops once every feed has its latest post.
\<close>

fun latestUpdates ::
    "('sig \<Rightarrow> 'u option) \<Rightarrow> ('u \<Rightarrow> int \<Rightarrow> bool) \<Rightarrow> 'sig set \<Rightarrow> int list \<Rightarrow> 'sig list
     \<Rightarrow> (int \<times> 'u) list \<Rightarrow> (int \<times> 'u) list" where
  "latestUpdates update has verified feedIds [] latest = latest"
| "latestUpdates update has verified feedIds (signature # rest) latest =
     (if length latest = length feedIds then latest
      else if signature \<notin> verified then latestUpdates update has verified feedIds rest latest
      else case update signature of
             None \<Rightarrow> latestUpdates update has verified feedIds rest latest
           | Some u \<Rightarrow>
               latestUpdates update has verified feedIds rest
                 (foldl (\<lambda>acc feedId. if map_of acc feedId = None \<and> has u feedId
                                       then acc @ [(feedId, u)] else acc) latest feedIds))"

section \<open>Offsets name what they should\<close>

definition instructionData :: "instruction \<Rightarrow> bytes" where
  "instructionData i = (case i of RawInstruction _ _ d \<Rightarrow> d | _ \<Rightarrow> [])"

lemma encodeOffsets_length:
  "kit_encoders L \<Longrightarrow>
   (\<forall>x \<in> {signatureOffset e, signatureInstructionIndex e, publicKeyOffset e, publicKeyInstructionIndex e,
      messageDataOffset e, messageDataSize e, messageInstructionIndex e}. u16_ok x) \<Longrightarrow>
   encodeOffsets L e = concat (map (le_bytes 2)
     [signatureOffset e, signatureInstructionIndex e, publicKeyOffset e, publicKeyInstructionIndex e,
      messageDataOffset e, messageDataSize e, messageInstructionIndex e])"
  by (simp add: encodeOffsets_def kit_encoders_rules u16_ok_def)

text \<open>The single-signature layout: the three parts are where the entry says.\<close>

lemma getEd25519SignatureInstruction_layout:
  fixes publicKey :: address
  assumes "kit_encoders L" "length signature = 64" "length message < 2 ^ 16" "is_address L publicKey"
  defines "d \<equiv> instructionData (getEd25519SignatureInstruction L message publicKey signature)"
  shows "js_slice 16 48 d = encodeAddress L publicKey"
    and "js_slice 48 112 d = signature"
    and "js_slice 112 (112 + length message) d = message"
    and "length d = 112 + length message"
proof -
  let ?e = "\<lparr>messageDataOffset = 112, messageDataSize = int (length message),
       messageInstructionIndex = 65535, publicKeyInstructionIndex = 65535, publicKeyOffset = 16,
       signatureInstructionIndex = 65535, signatureOffset = 48\<rparr>"
  define h where "h = encodeUint L 1 1 @ encodeUint L 1 0 @ encodeOffsets L ?e"
  have h: "length h = 16"
    using assms(1,3) by (simp add: h_def encodeOffsets_length kit_encoders_rules u16_ok_def)
  have k: "length (encodeAddress L publicKey) = 32" using assms(4) by (simp add: is_address_def)
  have d: "d = h @ encodeAddress L publicKey @ signature @ message"
    by (simp add: d_def getEd25519SignatureInstruction_def getEd25519Instruction_def Let_def
        ED25519_THIS_INSTRUCTION_def instructionData_def h_def)
  show "js_slice 16 48 d = encodeAddress L publicKey" unfolding d
    using h k by (intro js_slice_append_middle) simp_all
  have "js_slice 48 112 ((h @ encodeAddress L publicKey) @ signature @ message) = signature"
    using h k assms(2) by (intro js_slice_append_middle) simp_all
  then show "js_slice 48 112 d = signature" by (simp add: d)
  have "js_slice 112 (112 + length message)
      ((h @ encodeAddress L publicKey @ signature) @ message @ []) = message"
    using h k assms(2) by (intro js_slice_append_middle) simp_all
  then show "js_slice 112 (112 + length message) d = message" by (simp add: d)
  show "length d = 112 + length message" using h k assms(2) by (simp add: d)
qed

text \<open>The updates' positions in the sweep's data: 12, and 16 past the asset update's length.\<close>

lemma sweep_data_positions:
  assumes "kit_encoders L" "length (sd_assetMessage d) < 2 ^ 32" "length (sd_paymentMessage d) < 2 ^ 32"
  shows "js_slice 12 (12 + length (sd_assetMessage d)) (getSweepInstructionData L d) = sd_assetMessage d"
    and "js_slice (16 + length (sd_assetMessage d))
           (16 + length (sd_assetMessage d) + length (sd_paymentMessage d)) (getSweepInstructionData L d)
         = sd_paymentMessage d"
proof -
  let ?a = "encodeUint L 4 (int (length (sd_assetMessage d)))"
  let ?p = "encodeUint L 4 (int (length (sd_paymentMessage d)))"
  define tail where "tail = encodeUint L 2 (sd_ed25519Index d) @ encodeUint L 1 (sd_paymentToken d)
     @ sizePrefixed L (sd_route d)"
  have l: "length ?a = 4" "length ?p = 4" "length SWEEP_DISCRIMINATOR = 8"
    using assms by (simp_all add: kit_encoders_rules SWEEP_DISCRIMINATOR_def)
  have "js_slice 12 (12 + length (sd_assetMessage d))
     ((SWEEP_DISCRIMINATOR @ ?a) @ sd_assetMessage d @ ?p @ sd_paymentMessage d @ tail) = sd_assetMessage d"
    using l by (intro js_slice_append_middle) simp_all
  then show "js_slice 12 (12 + length (sd_assetMessage d)) (getSweepInstructionData L d) = sd_assetMessage d"
    by (simp add: getSweepInstructionData_def sizePrefixed_def tail_def)
  have "js_slice (16 + length (sd_assetMessage d))
      (16 + length (sd_assetMessage d) + length (sd_paymentMessage d))
     ((SWEEP_DISCRIMINATOR @ ?a @ sd_assetMessage d @ ?p) @ sd_paymentMessage d @ tail) = sd_paymentMessage d"
    using l by (intro js_slice_append_middle) simp_all
  then show "js_slice (16 + length (sd_assetMessage d))
           (16 + length (sd_assetMessage d) + length (sd_paymentMessage d)) (getSweepInstructionData L d)
         = sd_paymentMessage d"
    by (simp add: getSweepInstructionData_def sizePrefixed_def tail_def)
qed

section \<open>Reading a posted update back\<close>

lemma byteAt_0_Cons [byte_simps]: "byteAt (b # bs) 0 = uint b"
  by (simp add: byteAt_def)

lemma readU16_le_bytes:
  assumes "length xs = k" "u16_ok x"
  shows "readU16 (xs @ le_bytes 2 x @ ys) k = x"
proof -
  have x: "0 \<le> x" "x < 65536" using assms(2) by (simp_all add: u16_ok_def)
  have "readU16 (xs @ le_bytes 2 x @ ys) k = uint (word_of_int x :: u8) OR push_bit 8 (uint (word_of_int (x div 256) :: u8))"
    using assms(1) by (simp add: readU16_def byteAt_def nth_append numeral_2_eq_2)
  also have "\<dots> = take_bit 8 x OR push_bit 8 (take_bit 8 (drop_bit 8 x))"
    by (simp add: uint_word_of_int take_bit_eq_mod drop_bit_eq_div)
  also have "\<dots> = take_bit 16 x"
    by (rule bit_eqI) (auto simp: bit_simps)
  also have "\<dots> = x" using x by (simp add: take_bit_int_eq_self)
  finally show ?thesis .
qed

definition pointer_ok :: "pyth_pointer \<Rightarrow> bool" where
  "pointer_ok u = (u16_ok (pp_instructionIndex u) \<and> 0 \<le> pp_offset u
     \<and> pp_offset u + int (length (pp_message u)) < 2 ^ 16 \<and> 102 \<le> length (pp_message u))"

lemma pythEd25519_data:
  assumes "kit_encoders L" "pointer_ok u"
  shows "instructionData (getPythEd25519Instruction L [u]) = [1, 0] @ concat (map (le_bytes 2)
     [pp_offset u + 4, pp_instructionIndex u, pp_offset u + 68, pp_instructionIndex u,
      pp_offset u + 102, int (length (pp_message u)) - 102, pp_instructionIndex u])"
proof -
  have "encodeOffsets L (pythOffsets u) = concat (map (le_bytes 2)
     [pp_offset u + 4, pp_instructionIndex u, pp_offset u + 68, pp_instructionIndex u,
      pp_offset u + 102, int (length (pp_message u)) - 102, pp_instructionIndex u])"
    using assms by (subst encodeOffsets_length) (auto simp: pythOffsets_def pointer_ok_def u16_ok_def)
  with assms(1) show ?thesis
    by (simp add: getPythEd25519Instruction_def getEd25519Instruction_def instructionData_def
        kit_encoders_rules)
qed

text \<open>Round trip: the update an ed25519 instruction points into is the one read back.\<close>

lemma getPythUpdateFromTransaction_roundtrip:
  assumes kit: "kit_encoders L" and ok: "pointer_ok u"
    and carrier: "nth_opt instructions (pp_instructionIndex u) = Some (program, carrier)"
    and not_self: "pp_instructionIndex u \<noteq> ED25519_THIS_INSTRUCTION"
    and at: "js_slice (nat (pp_offset u)) (nat (pp_offset u) + length (pp_message u)) carrier = pp_message u"
    and first: "instructions ! 0 = (ED25519_PROGRAM_ADDRESS, instructionData (getPythEd25519Instruction L [u]))"
  shows "getPythUpdateFromTransaction instructions = Some (pp_message u)"
proof -
  let ?o = "pp_offset u" and ?i = "pp_instructionIndex u" and ?n = "int (length (pp_message u))"
  let ?d = "instructionData (getPythEd25519Instruction L [u])"
  have b: "u16_ok (?o + 4)" "u16_ok ?i" "u16_ok (?o + 68)" "u16_ok (?o + 102)" "u16_ok (?n - 102)" "0 \<le> ?o"
    using ok by (auto simp: pointer_ok_def u16_ok_def)
  define f where "f = (\<lambda>k. concat (map (le_bytes 2) (take k [?o + 4, ?i, ?o + 68, ?i, ?o + 102, ?n - 102, ?i])))"
  have d: "?d = [1, 0] @ concat (map (le_bytes 2) [?o + 4, ?i, ?o + 68, ?i, ?o + 102, ?n - 102, ?i])"
    by (rule pythEd25519_data [OF kit ok])
  have reads: "readU16 ?d 2 = ?o + 4" "readU16 ?d 4 = ?i" "readU16 ?d 6 = ?o + 68" "readU16 ?d 8 = ?i"
    "readU16 ?d 10 = ?o + 102" "readU16 ?d 12 = ?n - 102" "readU16 ?d 14 = ?i" "byteAt ?d 0 = 1"
    using b
      readU16_le_bytes [of "[1, 0]" 2 "?o + 4" "concat (map (le_bytes 2) [?i, ?o + 68, ?i, ?o + 102, ?n - 102, ?i])"]
      readU16_le_bytes [of "[1, 0] @ le_bytes 2 (?o + 4)" 4 ?i "concat (map (le_bytes 2) [?o + 68, ?i, ?o + 102, ?n - 102, ?i])"]
      readU16_le_bytes [of "[1, 0] @ le_bytes 2 (?o + 4) @ le_bytes 2 ?i" 6 "?o + 68" "concat (map (le_bytes 2) [?i, ?o + 102, ?n - 102, ?i])"]
      readU16_le_bytes [of "[1, 0] @ le_bytes 2 (?o + 4) @ le_bytes 2 ?i @ le_bytes 2 (?o + 68)" 8 ?i "concat (map (le_bytes 2) [?o + 102, ?n - 102, ?i])"]
      readU16_le_bytes [of "[1, 0] @ le_bytes 2 (?o + 4) @ le_bytes 2 ?i @ le_bytes 2 (?o + 68) @ le_bytes 2 ?i" 10 "?o + 102" "concat (map (le_bytes 2) [?n - 102, ?i])"]
      readU16_le_bytes [of "[1, 0] @ le_bytes 2 (?o + 4) @ le_bytes 2 ?i @ le_bytes 2 (?o + 68) @ le_bytes 2 ?i @ le_bytes 2 (?o + 102)" 12 "?n - 102" "le_bytes 2 ?i"]
      readU16_le_bytes [of "[1, 0] @ le_bytes 2 (?o + 4) @ le_bytes 2 ?i @ le_bytes 2 (?o + 68) @ le_bytes 2 ?i @ le_bytes 2 (?o + 102) @ le_bytes 2 (?n - 102)" 14 ?i "[]"]
    unfolding d by (simp_all add: byteAt_def)
  have len: "int (length carrier) \<ge> ?o + ?n"
  proof -
    from at have "length (pp_message u) \<le> length carrier - nat ?o"
      by (metis diff_add_inverse js_slice_def length_drop length_take min.cobounded1)
    moreover have "0 < length (pp_message u)" using ok by (auto simp: pointer_ok_def)
    ultimately show ?thesis using b by linarith
  qed
  have slice: "js_slice (nat ?o) (nat (?o + 102 + (?n - 102))) carrier = pp_message u"
    using at b(6) by (simp add: nat_add_distrib)
  have "updateAt instructions 0 = Some (pp_message u)"
    unfolding updateAt_def first prod.case Let_def reads
    using carrier not_self b(6) len slice by simp
  moreover have "instructions \<noteq> []" using carrier by (auto simp: nth_opt_def split: if_splits)
  ultimately show ?thesis
    by (simp add: getPythUpdateFromTransaction_def upt_conv_Cons)
qed

end
