(* ===== verification/Sweep_Builder.thy ===== *)
theory Sweep_Builder
  imports Ed25519
begin

text \<open>
  Building a sweep (\<open>clients/typescript/src/sweep.ts\<close>): the state it depends on, the exact pull
  with every refusal in the program's order, the seconds until the pull can change, and the
  \<open>[ed25519, sweep]\<close> pair. The lemmas characterise the pull, show that it cannot change before the
  computed boundary, and that the built instructions point into the sweep's own data.
\<close>

section \<open>The code: the state and the pull\<close>

definition SWEEP_BOUNDARY_MARGIN_SECONDS :: int where "SWEEP_BOUNDARY_MARGIN_SECONDS = 15"

record sweep_state =
  ss_authority :: address
  ss_authorityState :: "subscription_authority option"
  ss_config :: config
  ss_now :: int
  ss_paymentAccount :: address
  ss_paymentAccountState :: "token_account_state option"
  ss_paymentToken :: int
  ss_subscription :: "subscription option"
  ss_user :: address
  ss_userConfig :: user_config

definition fetchSweepState ::
    "lib \<Rightarrow> cluster \<Rightarrow> config \<Rightarrow> int \<Rightarrow> address \<Rightarrow> sweep_state outcome" where
  "fetchSweepState L C cfg paymentToken user =
     (case nth_opt (cfg_paymentTokens cfg) paymentToken of
        None \<Rightarrow> Inl (LateriteCheckError UnknownPaymentToken)
      | Some token \<Rightarrow>
          let account = findAssociatedTokenPda L (token_mint token) user (token_tokenProgram token);
              authority = findSubscriptionAuthorityAddress L user (token_mint token);
              subscriptions = map (findSubscriptionAddress L user paymentToken) [0, 1]
          in case (C (SYSVAR_CLOCK_ADDRESS L), C (findConfigPda L)) of
               (Some clock, Some configAccount) \<Rightarrow>
                 (case C (findUserConfigPda L user) of
                    None \<Rightarrow> Inl (PlainError (user @ '' is not enrolled''))
                  | Some userConfigAccount \<Rightarrow>
                      res_bind (decodeUserConfig L (acc_data userConfigAccount)) (\<lambda>userConfig.
                      res_bind (decodeOwned L (decodeSubscriptionAuthority L) (C authority)) (\<lambda>authorityState.
                      res_bind (decodeConfig L (acc_data configAccount)) (\<lambda>config.
                      res_bind (decodeClock L (acc_data clock)) (\<lambda>now.
                      res_bind (decodeTokenAccountState L (C account) (token_tokenProgram token)) (\<lambda>accountState.
                      res_bind (case nth_opt subscriptions (uc_tier userConfig) of
                                  None \<Rightarrow> Inr None
                                | Some a \<Rightarrow> decodeOwned L (decodeSubscriptionDelegation L) (C a)) (\<lambda>sub.
                      Inr \<lparr>ss_authority = authority, ss_authorityState = authorityState, ss_config = config,
                           ss_now = now, ss_paymentAccount = account, ss_paymentAccountState = accountState,
                           ss_paymentToken = paymentToken, ss_subscription = sub, ss_user = user,
                           ss_userConfig = userConfig\<rparr>)))))))
             | _ \<Rightarrow> Inl (PlainError ''The cluster returned no clock or config''))"

definition todayU32 :: "int \<Rightarrow> int" where
  "todayU32 now = divEuclid now DAY_SECONDS mod 2 ^ 32"

text \<open>The pull before the subscription's limit, at the state's clock.\<close>

definition enginePull :: "sweep_state \<Rightarrow> pull_amount" where
  "enginePull s =
     (let balance = (case ss_paymentAccountState s of Some a \<Rightarrow> ta_amount a | None \<Rightarrow> 0)
      in pull (ss_userConfig s) (ss_paymentToken s) balance (userWeeklyCap (ss_config s))
           (marketCalendar (ss_config s)) (ss_now s))"

definition getSweepPull :: "sweep_state \<Rightarrow> pull_amount outcome" where
  "getSweepPull s =
     (let config = ss_config s; now = ss_now s; token = ss_paymentToken s; u = ss_userConfig s;
          p = enginePull s; restore = (\<lambda>reason. RestoreRequiredError reason (ss_paymentAccount s))
      in res_guard (cfg_paused config) (LateriteCheckError ProgramPaused) (
         res_guard (nth_opt (cfg_paymentTokens config) token = None) (LateriteCheckError UnknownPaymentToken) (
         res_guard (case nth_opt (uc_lastSweepDay u) token of None \<Rightarrow> False | Some d \<Rightarrow> todayU32 now \<le> d)
           (LateriteCheckError AlreadySwept) (
         res_guard (uc_engine u = Weekly \<and> \<not> usMarketOpen now (marketCalendar config))
           (LateriteCheckError NothingToSweep) (
         res_guard (pullTotal p = 0) (LateriteCheckError NothingToSweep) (
         res_guard (\<not> hasToken (uc_paymentTokens u) token) (LateriteCheckError UnknownPaymentToken) (
         res_guard (\<not> isRunning (ss_subscription s) now) (restore BySubscription) (
         res_guard (map_option sa_initId (ss_authorityState s) \<noteq> map_option sub_initId (ss_subscription s))
           (restore ByAuthority) (
         res_guard (case ss_paymentAccountState s of None \<Rightarrow> False | Some a \<Rightarrow> ta_frozen a) (restore ByFrozen) (
         let capped = cappedPull p (nativeRemaining (ss_subscription s) now)
         in res_guard (pullTotal capped = 0) (LateriteCheckError NothingToSweep) (
            res_guard (case ss_paymentAccountState s of None \<Rightarrow> True
                       | Some a \<Rightarrow> ta_delegate a \<noteq> Some (ss_authority s)
                                   \<or> ta_delegatedAmount a < pullTotal capped)
              (restore ByDelegate) (
            Inr capped))))))))))))"

definition sweepBoundaries :: "sweep_state \<Rightarrow> int list" where
  "sweepBoundaries s =
     (let u = ss_userConfig s; now = ss_now s
      in [(divEuclid now DAY_SECONDS + 1) * DAY_SECONDS]
         @ [if now < uc_enrolledAt u then uc_enrolledAt u
            else uc_enrolledAt u + (weekAt u now + 1) * WEEK_SECONDS]
         @ (if uc_engine u = Weekly
            then case nextMarketSession now (marketCalendar (ss_config s)) of
                   None \<Rightarrow> []
                 | Some session \<Rightarrow> [if now < session_open session then session_open session
                                   else session_close session]
            else [])
         @ (case ss_subscription s of
              None \<Rightarrow> []
            | Some sub \<Rightarrow>
                (if sub_expiresAtTs sub > now then [sub_expiresAtTs sub] else [])
                @ (let period = sub_periodHours sub * 3600; start = sub_currentPeriodStartTs sub
                   in if period > 0 \<and> now \<ge> start
                      then [start + (js_div (now - start) period + 1) * period] else [])))"

definition secondsToNextSweepBoundary :: "sweep_state \<Rightarrow> int" where
  "secondsToNextSweepBoundary s = earliest (sweepBoundaries s) - ss_now s"

section \<open>The code: the instructions\<close>

definition PYTH_STORAGE_ADDRESS :: address where
  "PYTH_STORAGE_ADDRESS = ''3rdJbqfnagQ4yx9HXJViD4zc4xpiSqmFsKpPuSCQVyQL''"

definition PYTH_PRO_PROGRAM_ADDRESS :: address where
  "PYTH_PRO_PROGRAM_ADDRESS = ''pytd2yyk641x7ak7mkaasSJVXh6YYZnC7wTmtgAyxPt''"

text \<open>The accounts of \<open>getSweepInstruction\<close>, in order; the defaults are the generated addresses.\<close>

definition sweepAccounts ::
    "lib \<Rightarrow> sweep_state \<Rightarrow> payment_token_entry \<Rightarrow> asset_entry \<Rightarrow> address \<Rightarrow> address \<Rightarrow> account_meta list" where
  "sweepAccounts L s token asset crank pythTreasury =
     (let user = ss_user s; tier = uc_tier (ss_userConfig s); p = ss_paymentToken s;
          swapAuthority = findSwapAuthorityPda L
      in [\<lparr>meta_address = crank, meta_role = WritableSigner\<rparr>,
          readonly ''58g622en8DoEgWarYgZZWgzAQhZQhVqUx3YYg2H8mEF5'',
          writable (findUserConfigPda L user),
          readonly ''3F5hEKJ6nuechsanXLQHiWvVJe1YxeekBYWkpQebhmv7'',
          writable (findSubscriptionAddress L user p tier),
          readonly (findPlanAddress L p tier),
          readonly (findSubscriptionAuthorityAddress L user (token_mint token)),
          writable (findAssociatedTokenPda L (token_mint token) user (token_tokenProgram token)),
          writable (findAssociatedTokenPda L (token_mint token) swapAuthority (token_tokenProgram token)),
          writable (findAssociatedTokenPda L (asset_mint asset) user (asset_tokenProgram asset)),
          readonly (token_mint token),
          readonly (token_tokenProgram token),
          readonly ''De1egAFMkMWZSN5rYXRj9CAdheBamobVNubTsi9avR44'',
          readonly ''3Hnj4BYoDgtpBuqXfiy7Y8cNa3jXaNd4oqgSXBzkMcH7'',
          readonly ''EkYduV3gUV9ZbNPcvfCWvmAviF5NkYypQSfu8XZvxQce'',
          readonly (cfg_router (ss_config s)),
          readonly PYTH_PRO_PROGRAM_ADDRESS,
          readonly PYTH_STORAGE_ADDRESS,
          writable pythTreasury,
          readonly ''Sysvar1nstructions1111111111111111111111111'',
          readonly ''11111111111111111111111111111111'',
          readonly (findEventAuthorityPda L),
          readonly LATERITE_PROGRAM_ADDRESS])"

record route_instruction =
  route_programAddress :: address
  route_accounts :: "account_meta list"
  route_data :: bytes

record sweep_input =
  in_assetUpdate :: bytes
  in_boundaryMarginSeconds :: int
  in_crank :: address
  in_paymentUpdate :: bytes
  in_pythTreasury :: address
  in_route :: route_instruction
  in_state :: sweep_state

record built_sweep =
  bs_instructions :: "instruction list"
  bs_minOut :: int
  bs_pull :: pull_amount
  bs_size :: int

text \<open>\<open>sizeOf\<close> is kit's size of the version 1 message, an error when it exceeds the limit.\<close>

definition getSweepInstructions ::
    "lib \<Rightarrow> (instruction list \<Rightarrow> int outcome) \<Rightarrow> sweep_input \<Rightarrow> built_sweep outcome" where
  "getSweepInstructions L sizeOf i =
     (let s = in_state i; config = ss_config s; now = ss_now s; u = ss_userConfig s;
          paymentUpdate = in_paymentUpdate i; route = in_route i
      in res_bind (getSweepPull s) (\<lambda>p.
         res_guard (secondsToNextSweepBoundary s < in_boundaryMarginSeconds i)
           (PlainError ''A boundary that changes the pull is too close; build after it'') (
         res_guard (route_programAddress route \<noteq> cfg_router config) (LateriteCheckError InvalidRouter) (
         case (nth_opt (cfg_paymentTokens config) (ss_paymentToken s), nth_opt (cfg_assets config) (uc_asset u)) of
           (Some token, Some asset) \<Rightarrow>
             res_bind (quote L (in_assetUpdate i) (pythFeedId asset) now MAX_PRICE_AGE_SECONDS) (\<lambda>assetQuote.
             res_bind (quote L paymentUpdate (usdFeedId token) now MAX_PRICE_AGE_SECONDS) (\<lambda>paymentQuote.
             res_bind (minOut (pullTotal p) paymentQuote USD_DECIMALS assetQuote (asset_decimals asset)) (\<lambda>minimum.
             let sweepData = getSweepInstructionData L
                   \<lparr>sd_assetMessage = in_assetUpdate i, sd_paymentMessage = paymentUpdate,
                    sd_ed25519Index = 0, sd_paymentToken = ss_paymentToken s, sd_route = route_data route\<rparr>;
                 routeAccounts = map (\<lambda>m. m\<lparr>meta_role := downgradeRoleToNonSigner L (meta_role m)\<rparr>)
                                   (route_accounts route);
                 updates = \<lparr>pp_instructionIndex = 1, pp_message = in_assetUpdate i, pp_offset = 12\<rparr>
                   # (if length paymentUpdate > 0
                      then [\<lparr>pp_instructionIndex = 1, pp_message = paymentUpdate,
                             pp_offset = 16 + int (length (in_assetUpdate i))\<rparr>] else []);
                 instructions =
                   [getPythEd25519Instruction L updates,
                    RawInstruction LATERITE_PROGRAM_ADDRESS
                      (sweepAccounts L s token asset (in_crank i) (in_pythTreasury i) @ routeAccounts) sweepData]
             in res_bind (sizeOf instructions) (\<lambda>n.
                Inr \<lparr>bs_instructions = instructions, bs_minOut = minimum, bs_pull = p, bs_size = n\<rparr>))))
         | (_, None) \<Rightarrow> Inl (LateriteCheckError UnknownAsset)
         | (None, _) \<Rightarrow> Inl RangeError))))"

section \<open>The pull, characterised\<close>

lemma getSweepPull_Inr:
  assumes "getSweepPull s = Inr p"
  shows "\<not> cfg_paused (ss_config s)"
    and "p = cappedPull (enginePull s) (nativeRemaining (ss_subscription s) (ss_now s))"
    and "pullTotal (enginePull s) \<noteq> 0" "pullTotal p \<noteq> 0"
    and "hasToken (uc_paymentTokens (ss_userConfig s)) (ss_paymentToken s)"
    and "isRunning (ss_subscription s) (ss_now s)"
    and "\<And>d. nth_opt (uc_lastSweepDay (ss_userConfig s)) (ss_paymentToken s) = Some d \<Longrightarrow> d < todayU32 (ss_now s)"
    and "uc_engine (ss_userConfig s) = Weekly \<Longrightarrow> usMarketOpen (ss_now s) (marketCalendar (ss_config s))"
    and "\<exists>a. ss_paymentAccountState s = Some a \<and> \<not> ta_frozen a \<and> ta_delegate a = Some (ss_authority s)
           \<and> pullTotal p \<le> ta_delegatedAmount a"
    and "map_option sa_initId (ss_authorityState s) = map_option sub_initId (ss_subscription s)"
    and "\<exists>t. nth_opt (cfg_paymentTokens (ss_config s)) (ss_paymentToken s) = Some t"
  using assms
  by (auto simp: getSweepPull_def Let_def result_simps split: option.splits)

definition sweep_state_ok :: "sweep_state \<Rightarrow> bool" where
  "sweep_state_ok s =
     (amounts_ok (ss_userConfig s)
      \<and> (\<forall>sub. ss_subscription s = Some sub \<longrightarrow> 0 \<le> sub_amount sub \<and> 0 \<le> sub_amountPulledInPeriod sub))"

lemma enginePull_parts:
  "sweep_state_ok s \<Longrightarrow> 0 \<le> pull_engine (enginePull s) \<and> 0 \<le> pull_pending (enginePull s)"
  by (simp add: enginePull_def Let_def sweep_state_ok_def pull_parts)

text \<open>
  The refusals in order: the first check that fails decides the error. This is the whole table, so
  two states that agree on these facts get the same answer.
\<close>

lemma getSweepPull_total:
  assumes "sweep_state_ok s" "getSweepPull s = Inr p"
  shows "pullTotal p = min (pullTotal (enginePull s)) (nativeRemaining (ss_subscription s) (ss_now s))"
    "0 < pullTotal p"
proof -
  have n: "0 \<le> nativeRemaining (ss_subscription s) (ss_now s)"
    using assms(1) by (intro nativeRemaining_bounds(1)) (auto simp: sweep_state_ok_def)
  note e = enginePull_parts [OF assms(1)]
  from getSweepPull_Inr(2) [OF assms(2)] e n
  show eq: "pullTotal p = min (pullTotal (enginePull s)) (nativeRemaining (ss_subscription s) (ss_now s))"
    by (simp add: cappedPull_total)
  moreover have "0 \<le> pullTotal (enginePull s)" using e by (simp add: pullTotal_def)
  ultimately show "0 < pullTotal p" using n getSweepPull_Inr(4) [OF assms(2)] by linarith
qed

section \<open>Nothing changes before the boundary\<close>

text \<open>The boundaries the code pushes are those of the four contracts.\<close>

lemma sweepBoundaries_parts:
  "sweepBoundaries s = day_boundaries () (ss_now s) @ week_boundaries (ss_userConfig s) (ss_now s)
     @ (if uc_engine (ss_userConfig s) = Weekly
        then market_boundaries (marketCalendar (ss_config s)) (ss_now s) else [])
     @ native_boundaries (ss_subscription s) (ss_now s)"
  by (simp add: sweepBoundaries_def day_boundaries_def week_boundaries_def market_boundaries_def
      native_boundaries_def Let_def split: option.splits)

lemma sweepBoundaries_nonempty [simp]: "sweepBoundaries s \<noteq> []"
  by (simp add: sweepBoundaries_def Let_def)

text \<open>The user's week and the UTC day are steady together.\<close>

interpretation user_clock: steady_pair
  "\<lambda>u now. True" "\<lambda>u t. (weekAt u t, t < uc_enrolledAt u + TRIAL_SECONDS)" week_boundaries
  "\<lambda>u now. True" "\<lambda>u t. divEuclid t DAY_SECONDS" day_boundaries ..

text \<open>The time-dependent facts the pull is made of.\<close>

lemma pull_parts_steady:
  assumes "now \<le> t" "t < now + secondsToNextSweepBoundary s" "ss_now s = now"
    "period_begun (ss_subscription s) now"
  shows "divEuclid t DAY_SECONDS = divEuclid now DAY_SECONDS"
    and "weekAt (ss_userConfig s) t = weekAt (ss_userConfig s) now"
    and "(t < uc_enrolledAt (ss_userConfig s) + TRIAL_SECONDS) = (now < uc_enrolledAt (ss_userConfig s) + TRIAL_SECONDS)"
    and "uc_engine (ss_userConfig s) = Weekly \<Longrightarrow>
         usMarketOpen t (marketCalendar (ss_config s)) = usMarketOpen now (marketCalendar (ss_config s))"
    and "nativeRemaining (ss_subscription s) t = nativeRemaining (ss_subscription s) now"
    and "isRunning (ss_subscription s) t = isRunning (ss_subscription s) now"
proof -
  have t: "now \<le> t" "t < earliest (sweepBoundaries s)"
    using assms by (simp_all add: secondsToNextSweepBoundary_def)
  have "((weekAt (ss_userConfig s) t, t < uc_enrolledAt (ss_userConfig s) + TRIAL_SECONDS), divEuclid t DAY_SECONDS)
      = ((weekAt (ss_userConfig s) now, now < uc_enrolledAt (ss_userConfig s) + TRIAL_SECONDS), divEuclid now DAY_SECONDS)"
    using user_clock.both.steady_before_earliest [of "(ss_userConfig s, ())" now t "sweepBoundaries s"] t assms(3)
    by (auto simp: sweepBoundaries_parts)
  then show "divEuclid t DAY_SECONDS = divEuclid now DAY_SECONDS"
    "weekAt (ss_userConfig s) t = weekAt (ss_userConfig s) now"
    "(t < uc_enrolledAt (ss_userConfig s) + TRIAL_SECONDS) = (now < uc_enrolledAt (ss_userConfig s) + TRIAL_SECONDS)"
    by simp_all
  show "usMarketOpen t (marketCalendar (ss_config s)) = usMarketOpen now (marketCalendar (ss_config s))"
    if "uc_engine (ss_userConfig s) = Weekly"
    using t assms(3) that by (intro market_clock.steady_before_earliest [of _ _ _ "sweepBoundaries s"])
      (auto simp: sweepBoundaries_parts)
  have n: "(nativeRemaining (ss_subscription s) t,
      \<forall>x. ss_subscription s = Some x \<longrightarrow> sub_expiresAtTs x = 0 \<or> sub_expiresAtTs x > t)
    = (nativeRemaining (ss_subscription s) now,
      \<forall>x. ss_subscription s = Some x \<longrightarrow> sub_expiresAtTs x = 0 \<or> sub_expiresAtTs x > now)"
    using t assms(3,4) by (intro native_period.steady_before_earliest [of _ _ _ "sweepBoundaries s"])
      (auto simp: sweepBoundaries_parts)
  then show "nativeRemaining (ss_subscription s) t = nativeRemaining (ss_subscription s) now" by simp
  from n show "isRunning (ss_subscription s) t = isRunning (ss_subscription s) now"
    by (auto simp: isRunning_def split: option.splits)
qed

lemma enginePull_steady:
  assumes "now \<le> t" "t < now + secondsToNextSweepBoundary s" "ss_now s = now"
    "period_begun (ss_subscription s) now"
  shows "enginePull (s\<lparr>ss_now := t\<rparr>) = enginePull s"
proof -
  note p = pull_parts_steady [OF assms]
  have "engineDue (ss_userConfig s) (marketCalendar (ss_config s)) t
      = engineDue (ss_userConfig s) (marketCalendar (ss_config s)) now"
    using p(1,2,4) by (cases "uc_engine (ss_userConfig s)") (simp_all add: engineDue_def Let_def)
  moreover have "pull_room (ss_userConfig s) (ss_paymentToken s) b cap t
      = pull_room (ss_userConfig s) (ss_paymentToken s) b cap now" for b cap
    using p(2,3) by (simp add: pull_room_def weeklyCap_def spentAt_def Let_def)
  ultimately show ?thesis using assms(3) by (simp add: enginePull_def pull_def Let_def)
qed

text \<open>
  C1: What a sweep pulls, or the refusal it gets, is the same at every instant from the state's clock
  until the boundary \<open>secondsToNextSweepBoundary\<close> computes: a sweep built now and landing before
  that boundary pulls exactly the amount it was built for.
\<close>

theorem getSweepPull_steady:
  assumes "ss_now s \<le> t" "t < ss_now s + secondsToNextSweepBoundary s"
    "period_begun (ss_subscription s) (ss_now s)"
  shows "getSweepPull (s\<lparr>ss_now := t\<rparr>) = getSweepPull s"
proof -
  note p = pull_parts_steady [OF assms(1,2) refl assms(3)]
  note e = enginePull_steady [OF assms(1,2) refl assms(3)]
  have day: "todayU32 t = todayU32 (ss_now s)" by (simp only: todayU32_def p(1))
  have market: "(uc_engine (ss_userConfig s) = Weekly \<and> \<not> usMarketOpen t (marketCalendar (ss_config s)))
     = (uc_engine (ss_userConfig s) = Weekly \<and> \<not> usMarketOpen (ss_now s) (marketCalendar (ss_config s)))"
    using p(4) by auto
  show ?thesis
    unfolding getSweepPull_def Let_def e by (simp add: day market p(5,6) cong: option.case_cong)
qed

text \<open>A daily user of the first tier on a running subscription, at noon of their second week.\<close>

definition exampleUser :: user_config where
  "exampleUser = \<lparr>uc_user = ''U'', uc_tier = 0, uc_paymentTokens = 1, uc_asset = 0, uc_engine = Daily,
     uc_engineAmount = 2000000, uc_incomeRule = True, uc_changeMultiplier = 1, uc_cushions = [1000000, 0],
     uc_enrolledAt = 1000000, uc_goalAmount = 0, uc_goalLabel = [], uc_bump = 255, uc_week = 1,
     uc_weekSpent = 3000000, uc_engineRanAt = 1500000, uc_pending = 9000000, uc_status = Active,
     uc_attestableFrom = 1000000, uc_lastSweepDay = [0, 0]\<rparr>"

definition exampleConfig :: config where
  "exampleConfig = \<lparr>cfg_admin = ''A'', cfg_pendingAdmin = ''0'', cfg_paused = False, cfg_router = ''R'',
     cfg_attestor = ''T'', cfg_sponsor = ''S'', userWeeklyCap = 25000000, maxUsers = 100, userCount = 1,
     cfg_assets = [\<lparr>asset_mint = ''X'', asset_tokenProgram = ''P'', asset_decimals = 8, pythFeedId = 7\<rparr>],
     cfg_paymentTokens = [\<lparr>token_mint = ''C'', token_tokenProgram = ''P'', token_decimals = 6, usdFeedId = 0\<rparr>],
     marketCalendar = \<lparr>firstDay = 0, validThrough = 100, holidays = [], earlyCloses = []\<rparr>, genesisHash = []\<rparr>"

definition exampleState :: sweep_state where
  "exampleState = \<lparr>ss_authority = ''AU'', ss_authorityState = Some \<lparr>sa_payer = ''S'', sa_initId = 4\<rparr>,
     ss_config = exampleConfig, ss_now = 1684800, ss_paymentAccount = ''ACC'',
     ss_paymentAccountState = Some \<lparr>ta_amount = 20000000, ta_delegate = Some ''AU'',
        ta_delegatedAmount = 18446744073709551615, ta_frozen = False\<rparr>,
     ss_paymentToken = 0,
     ss_subscription = Some \<lparr>sub_delegatee = ''PL'', sub_payer = ''S'', sub_initId = 4, sub_amount = 10000000,
        sub_periodHours = 168, sub_amountPulledInPeriod = 3000000, sub_currentPeriodStartTs = 1604800,
        sub_expiresAtTs = 0\<rparr>,
     ss_user = ''U'', ss_userConfig = exampleUser\<rparr>"

lemmas example_defs = exampleUser_def exampleConfig_def exampleState_def

lemma example_boundary: "secondsToNextSweepBoundary exampleState = 43200"
  by (simp add: secondsToNextSweepBoundary_def sweepBoundaries_def example_defs divEuclid_floor
      weekAt_floor js_div_nonneg earliest_def)

lemma example_pull: "getSweepPull exampleState = Inr \<lparr>pull_engine = 2000000, pull_pending = 5000000\<rparr>"
  by (simp add: getSweepPull_def enginePull_def pull_def pull_room_def weeklyCap_def spentAt_def
      engineDue_def cappedPull_def nativeRemaining_def pullTotal_def isRunning_def saturatingSub_def
      todayU32_def example_defs divEuclid_floor weekAt_floor TIERS_def U64_MAX_def Let_def)

theorem getSweepPull_steady_witness:
  "getSweepPull (exampleState\<lparr>ss_now := 1684800 + 43199\<rparr>)
     = Inr \<lparr>pull_engine = 2000000, pull_pending = 5000000\<rparr>"
proof -
  have "getSweepPull (exampleState\<lparr>ss_now := 1684800 + 43199\<rparr>) = getSweepPull exampleState"
    by (rule getSweepPull_steady)
      (simp_all add: example_boundary, simp_all add: example_defs period_begun_def U64_MAX_def)
  then show ?thesis by (simp add: example_pull)
qed

text \<open>
  C2: A sweep is allowed only within every limit at once: it pulls a positive amount that keeps the
  week's spending within the user's weekly cap (never above the beta's cap or $25), is within what
  the subscription's period still allows and the account's approval, and leaves the cushion.
\<close>

theorem sweep_within_limits:
  assumes "sweep_state_ok s" "getSweepPull s = Inr p"
  shows "0 < pullTotal p
    \<and> spentAt (ss_userConfig s) (ss_now s) + pullTotal p
        \<le> min (min (userWeeklyCap (ss_config s)) 25000000)
              (weeklyCap (ss_userConfig s) (userWeeklyCap (ss_config s)) (ss_now s))
    \<and> pullTotal p \<le> nativeRemaining (ss_subscription s) (ss_now s)
    \<and> (\<exists>a. ss_paymentAccountState s = Some a \<and> pullTotal p \<le> ta_delegatedAmount a
         \<and> (\<forall>cushion. nth_opt (uc_cushions (ss_userConfig s)) (ss_paymentToken s) = Some cushion
              \<longrightarrow> cushion \<le> ta_amount a - pullTotal p))"
proof -
  note total = getSweepPull_total [OF assms] and facts = getSweepPull_Inr [OF assms(2)]
  have ok: "amounts_ok (ss_userConfig s)" using assms(1) by (simp add: sweep_state_ok_def)
  from facts(9) obtain a where a: "ss_paymentAccountState s = Some a" "pullTotal p \<le> ta_delegatedAmount a"
    by blast
  let ?e = "pull (ss_userConfig s) (ss_paymentToken s) (ta_amount a) (userWeeklyCap (ss_config s))
              (marketCalendar (ss_config s)) (ss_now s)"
  have e: "enginePull s = ?e" using a(1) by (simp add: enginePull_def)
  have le: "pullTotal p \<le> pullTotal ?e" and pos: "0 < pullTotal ?e" using total e by auto
  have week: "spentAt (ss_userConfig s) (ss_now s) + pullTotal p
      \<le> weeklyCap (ss_userConfig s) (userWeeklyCap (ss_config s)) (ss_now s)"
    using pull_within_week [OF ok pos] le by linarith
  have "cushion \<le> ta_amount a - pullTotal p"
    if "nth_opt (uc_cushions (ss_userConfig s)) (ss_paymentToken s) = Some cushion" for cushion
    using pull_leaves_cushion [OF ok that pos] le by linarith
  with week total a show ?thesis
    using weeklyCap_le_beta weeklyCap_le_top_tier
    by (intro conjI exI [of _ a]) (auto intro: order_trans)
qed

theorem sweep_within_limits_witness:
  "spentAt exampleUser 1684800 + 7000000 \<le> weeklyCap exampleUser 25000000 1684800"
  using sweep_within_limits [OF _ example_pull]
  by (simp add: sweep_state_ok_def amounts_ok_def pullTotal_def example_defs)

section \<open>What a built sweep holds\<close>

lemma getSweepInstructions_Inr:
  assumes "getSweepInstructions L sizeOf i = Inr b"
  obtains token asset assetQuote paymentQuote where
    "getSweepPull (in_state i) = Inr (bs_pull b)"
    "in_boundaryMarginSeconds i \<le> secondsToNextSweepBoundary (in_state i)"
    "route_programAddress (in_route i) = cfg_router (ss_config (in_state i))"
    "nth_opt (cfg_paymentTokens (ss_config (in_state i))) (ss_paymentToken (in_state i)) = Some token"
    "nth_opt (cfg_assets (ss_config (in_state i))) (uc_asset (ss_userConfig (in_state i))) = Some asset"
    "quote L (in_assetUpdate i) (pythFeedId asset) (ss_now (in_state i)) MAX_PRICE_AGE_SECONDS = Inr assetQuote"
    "quote L (in_paymentUpdate i) (usdFeedId token) (ss_now (in_state i)) MAX_PRICE_AGE_SECONDS = Inr paymentQuote"
    "minOut (pullTotal (bs_pull b)) paymentQuote USD_DECIMALS assetQuote (asset_decimals asset) = Inr (bs_minOut b)"
    "sizeOf (bs_instructions b) = Inr (bs_size b)"
    "bs_instructions b =
       [getPythEd25519Instruction L (\<lparr>pp_instructionIndex = 1, pp_message = in_assetUpdate i, pp_offset = 12\<rparr>
           # (if length (in_paymentUpdate i) > 0
              then [\<lparr>pp_instructionIndex = 1, pp_message = in_paymentUpdate i,
                     pp_offset = 16 + int (length (in_assetUpdate i))\<rparr>] else [])),
        RawInstruction LATERITE_PROGRAM_ADDRESS
          (sweepAccounts L (in_state i) token asset (in_crank i) (in_pythTreasury i)
           @ map (\<lambda>m. m\<lparr>meta_role := downgradeRoleToNonSigner L (meta_role m)\<rparr>) (route_accounts (in_route i)))
          (getSweepInstructionData L
             \<lparr>sd_assetMessage = in_assetUpdate i, sd_paymentMessage = in_paymentUpdate i,
              sd_ed25519Index = 0, sd_paymentToken = ss_paymentToken (in_state i),
              sd_route = route_data (in_route i)\<rparr>)]"
  using assms unfolding getSweepInstructions_def Let_def
  by (auto simp: result_simps simp del: length_greater_0_conv split: option.splits intro: that)

end
