(* ===== verification/Client_Contracts.thy ===== *)
theory Client_Contracts
  imports Civil_Calendar Demo_Cluster Sweep_Builder Ed25519
begin

text \<open>
  What the client's data layer promises, stated over the definitions of the market clock
  (\<open>market.ts\<close>), the generated account codecs, the Pyth reader (\<open>pyth.ts\<close>) and the amounts
  (\<open>amount.ts\<close>): each theorem gathers lemmas of the component's theory into the contract its callers
  rely on.
\<close>

section \<open>The market clock\<close>

text \<open>
  \<open>nextMarketSession\<close> decides every later instant up to its close: the market is open at \<open>t\<close> exactly
  if the session has opened by then; and when it finds no session, the calendar never opens again.
\<close>

theorem next_session_decides:
  assumes "now \<le> t"
  shows "case nextMarketSession now c of
           None \<Rightarrow> \<not> usMarketOpen t c
         | Some s \<Rightarrow> t < session_close s \<longrightarrow> usMarketOpen t c = (session_open s \<le> t)"
proof (cases "nextMarketSession now c")
  case None
  with market_closed_for_good [OF None assms] show ?thesis by simp
next
  case (Some s)
  from Some obtain d where d: "marketSession d c = Some s" by (rule nextMarketSession_Some)
  have "usMarketOpen t c = (session_open s \<le> t)" if close: "t < session_close s"
  proof
    show "usMarketOpen t c" if "session_open s \<le> t"
      using that close d by (force simp: usMarketOpen_some_session)
    show "session_open s \<le> t" if "usMarketOpen t c"
      using market_closed_before_next [OF Some assms] that by (meson not_le)
  qed
  with Some show ?thesis by simp
qed

definition demoCalendar :: market_calendar where
  "demoCalendar = marketCalendar demoConfig"

theorem next_session_decides_witness:
  "case nextMarketSession 1700000000 demoCalendar of
     None \<Rightarrow> \<not> usMarketOpen 1700060000 demoCalendar
   | Some s \<Rightarrow> 1700060000 < session_close s \<longrightarrow> usMarketOpen 1700060000 demoCalendar = (session_open s \<le> 1700060000)"
  by (rule next_session_decides) simp

text \<open>The month and day the code computes from a day number are those of the Gregorian calendar, for every valid date.\<close>

theorem civil_date_exact: "valid_date y m d \<Longrightarrow> monthDay (day_number y m d) = (m, d)"
  by (rule monthDay_day_number)

theorem civil_date_exact_witness: "monthDay (day_number 2028 2 29) = (2, 29)"
  by (rule civil_date_exact) code_simp

text \<open>
  Daylight time holds from the second Sunday of March, inclusive, to the first of November, exclusive,
  in every year.
\<close>

theorem daylight_time_exact:
  assumes "valid_date y m d"
  shows "daylightTime (day_number y m d) (weekday (day_number y m d))
     = (sunday_from (day_number y 3 8) \<le> day_number y m d \<and> day_number y m d < sunday_from (day_number y 11 1))"
  by (rule daylightTime_us_rule [OF assms])

theorem daylight_time_exact_witness:
  "daylightTime (day_number 2026 11 1) (weekday (day_number 2026 11 1))
     = (sunday_from (day_number 2026 3 8) \<le> day_number 2026 11 1 \<and> day_number 2026 11 1 < sunday_from (day_number 2026 11 1))"
  by (rule daylight_time_exact) code_simp

section \<open>Accounts\<close>

text \<open>
  C38: A user's account of representable fields is 164 bytes long and is decoded back, whatever
  follows it.
\<close>

theorem user_account_roundtrip:
  assumes "kit_encoders L" "user_fields_ok L u"
  shows "length (encodeUserConfig L u) = 164 \<and> decodeUserConfig L (encodeUserConfig L u @ rest) = Inr u"
  using encodeUserConfig_length [OF assms] readsD [OF rdUserConfig_roundtrip [OF assms], of rest]
  by (simp add: decodeUserConfig_def decodeWith_def)

theorem user_account_roundtrip_witness:
  "length (encodeUserConfig demoLib demoUser) = 164
   \<and> decodeUserConfig demoLib (encodeUserConfig demoLib demoUser @ [1, 2]) = Inr demoUser"
proof -
  have "user_fields_ok demoLib demoUser" by code_simp
  with demo_kit_encoders show ?thesis by (rule user_account_roundtrip)
qed

text \<open>Reading a field: too few bytes, or the value of its bytes and the rest.\<close>

lemma rd_exact:
  assumes "kit_encoders L"
  shows "rdUint L n bs = (if length bs < n then Inl RangeError else Inr (le_uint (take n bs), drop n bs))"
    "rdSint L n bs = (if length bs < n then Inl RangeError else Inr (le_sint (take n bs), drop n bs))"
    "rdBool L bs = (if bs = [] then Inl RangeError else Inr (le_uint (take 1 bs) = 1, drop 1 bs))"
    "rdAddress L bs = (if length bs < 32 then Inl RangeError else Inr (decodeAddress L (take 32 bs), drop 32 bs))"
  using kit_encoders_rules(3,5) [OF assms, of "take n bs"] kit_encoders_rules(3) [OF assms, of "take 1 bs"]
  by (auto simp: rdUint_def rdSint_def rdBool_def rdAddress_def rdMap_def rdBytes_def Suc_le_eq)

lemma rdBytes_front: "rdBytes 8 bs = Inr (b, r) \<longleftrightarrow> 8 \<le> length bs \<and> b = take 8 bs \<and> r = drop 8 bs"
  by (auto simp: rdBytes_def)

definition variantByte :: "'a list \<Rightarrow> 'a \<Rightarrow> int \<Rightarrow> bool" where
  "variantByte variants v n = (0 \<le> n \<and> n < int (length variants) \<and> variants ! nat n = v)"

lemma rd_slices:
  assumes "kit_encoders L"
  shows "rdBytes n (drop k bs) = Inr (b, r) \<longleftrightarrow> n \<le> length bs - k \<and> b = js_slice k (k + n) bs \<and> r = drop (k + n) bs"
    "0 < n \<Longrightarrow> rdUint L n (drop k bs) = Inr (x, r) \<longleftrightarrow> k + n \<le> length bs \<and> x = le_uint (js_slice k (k + n) bs) \<and> r = drop (k + n) bs"
    "0 < n \<Longrightarrow> rdSint L n (drop k bs) = Inr (x, r) \<longleftrightarrow> k + n \<le> length bs \<and> x = le_sint (js_slice k (k + n) bs) \<and> r = drop (k + n) bs"
    "rdBool L (drop k bs) = Inr (q, r) \<longleftrightarrow> k + 1 \<le> length bs \<and> q = (le_uint (js_slice k (k + 1) bs) = 1) \<and> r = drop (k + 1) bs"
    "rdAddress L (drop k bs) = Inr (y, r) \<longleftrightarrow> k + 32 \<le> length bs \<and> y = decodeAddress L (js_slice k (k + 32) bs) \<and> r = drop (k + 32) bs"
  by (auto simp: rd_exact [OF assms] rdBytes_def js_slice_def drop_drop add.commute)

lemma rdEnum_slice:
  assumes "kit_encoders L"
  shows "rdEnum L variants (drop k bs) = Inr (v, r) \<longleftrightarrow>
     k + 1 \<le> length bs \<and> variantByte variants v (le_uint (js_slice k (k + 1) bs)) \<and> r = drop (k + 1) bs"
  by (auto simp: rdEnum_def rd_slices(2) [OF assms] result_simps variantByte_def nth_opt_def split: if_splits option.splits)

lemma rdPair_slice:
  assumes "kit_encoders L" "0 < n"
  shows "rdPair (rdUint L n) (drop k bs) = Inr (xs, r) \<longleftrightarrow>
     k + n + n \<le> length bs \<and> xs = [le_uint (js_slice k (k + n) bs), le_uint (js_slice (k + n) (k + n + n) bs)] \<and> r = drop (k + n + n) bs"
  by (auto simp: rdPair_def rd_slices(2) [OF assms] result_simps)

text \<open>
  C39: Whatever bytes it is given, the decoder of a user's account yields an error or exactly what the bytes say at
  the program's layout: each field is the value of its own slice of the first 164 bytes, little-endian at its width,
  signed or not, the enums the variant of their byte, and every number is within its width.
\<close>

theorem decoded_account_typed:
  assumes "kit_encoders L" "decodeUserConfig L bs = Inr u"
  shows "164 \<le> length bs \<and> uc_user u = decodeAddress L (js_slice 8 40 bs)
    \<and> uc_tier u = le_uint (js_slice 40 41 bs) \<and> uc_paymentTokens u = le_uint (js_slice 41 42 bs)
    \<and> uc_asset u = le_uint (js_slice 42 43 bs)
    \<and> variantByte [Daily, Weekly] (uc_engine u) (le_uint (js_slice 43 44 bs))
    \<and> uc_engineAmount u = le_uint (js_slice 44 52 bs) \<and> uc_incomeRule u = (le_uint (js_slice 52 53 bs) = 1)
    \<and> uc_changeMultiplier u = le_uint (js_slice 53 54 bs)
    \<and> uc_cushions u = [le_uint (js_slice 54 62 bs), le_uint (js_slice 62 70 bs)]
    \<and> uc_enrolledAt u = le_sint (js_slice 70 78 bs) \<and> uc_goalAmount u = le_uint (js_slice 78 86 bs)
    \<and> uc_goalLabel u = js_slice 86 118 bs \<and> uc_bump u = le_uint (js_slice 118 119 bs)
    \<and> uc_week u = le_uint (js_slice 119 123 bs) \<and> uc_weekSpent u = le_uint (js_slice 123 131 bs)
    \<and> uc_engineRanAt u = le_sint (js_slice 131 139 bs) \<and> uc_pending u = le_uint (js_slice 139 147 bs)
    \<and> variantByte [Active, Paused, Exited] (uc_status u) (le_uint (js_slice 147 148 bs))
    \<and> uc_attestableFrom u = le_sint (js_slice 148 156 bs)
    \<and> uc_lastSweepDay u = [le_uint (js_slice 156 160 bs), le_uint (js_slice 160 164 bs)]
    \<and> user_config_ok u"
  using assms(2) decodeUserConfig_ok [OF assms]
  by (simp add: decodeUserConfig_def decodeWith_def rdUserConfig_def rdBytes_front rd_slices [OF assms(1)]
      rdEnum_slice [OF assms(1)] rdPair_slice [OF assms(1)] result_simps)
    (elim exE conjE, hypsubst, simp)

theorem decoded_account_typed_witness:
  "uc_week demoUser = le_uint (js_slice 119 123 (encodeUserConfig demoLib demoUser @ [1]))
   \<and> uc_attestableFrom demoUser = le_sint (js_slice 148 156 (encodeUserConfig demoLib demoUser @ [1]))
   \<and> user_config_ok demoUser"
proof -
  have "decodeUserConfig demoLib (encodeUserConfig demoLib demoUser @ [1]) = Inr demoUser" by code_simp
  from decoded_account_typed [OF demo_kit_encoders this] show ?thesis by blast
qed

section \<open>Prices\<close>

text \<open>
  C40: A quote the client accepts is trustworthy: its price is positive and its confidence within half a percent of
  it. For feed 0 it is the dollar, and no update is given; for any other it is what the signed payload says of the
  feed, price, confidence and exponent alike, no older than allowed; in a payload of the format's layout that is
  what the feed's own entry says, whatever other entries there are. A looser age bound accepts the same quote.
\<close>

theorem quote_trustworthy:
  assumes "quote L message feedId now maxAge = Inr q"
  shows "sound_quote q
    \<and> (if feedId = 0 then message = [] \<and> q = \<lparr>q_confidence = 0, q_exponent = 0, q_price = 1\<rparr>
       else \<exists>u f t. parsePythUpdate L message = Inr u \<and> findFeed (pu_payload u) feedId = Inr (Some f)
         \<and> f = \<lparr>fd_confidence = Some (q_confidence q), fd_exponent = Some (q_exponent q), fd_price = Some (q_price q), fd_updatedAt = Some t\<rparr>
         \<and> now - js_div t 1000000 \<le> maxAge
         \<and> (\<forall>signature publicKey stamp feeds. message = enc_update signature publicKey (enc_payload stamp feeds)
              \<and> update_ok signature publicKey (enc_payload stamp feeds) \<and> payload_ok stamp feeds
              \<longrightarrow> map_option feed_of (map_of feeds feedId) = Some f))
    \<and> (\<forall>maxAge'. maxAge \<le> maxAge' \<longrightarrow> quote L message feedId now maxAge' = Inr q)"
proof -
  have "if feedId = 0 then message = [] \<and> q = \<lparr>q_confidence = 0, q_exponent = 0, q_price = 1\<rparr>
       else \<exists>u f t. parsePythUpdate L message = Inr u \<and> findFeed (pu_payload u) feedId = Inr (Some f)
         \<and> f = \<lparr>fd_confidence = Some (q_confidence q), fd_exponent = Some (q_exponent q), fd_price = Some (q_price q), fd_updatedAt = Some t\<rparr>
         \<and> now - js_div t 1000000 \<le> maxAge
         \<and> (\<forall>signature publicKey stamp feeds. message = enc_update signature publicKey (enc_payload stamp feeds)
              \<and> update_ok signature publicKey (enc_payload stamp feeds) \<and> payload_ok stamp feeds
              \<longrightarrow> map_option feed_of (map_of feeds feedId) = Some f)"
    using assms
  proof (cases rule: quote_cases)
    case dollar
    then show ?thesis by (simp add: DOLLAR_QUOTE_def)
  next
    case (priced u f)
    from priced(4) obtain t where f: "now - js_div t 1000000 \<le> maxAge"
      "f = \<lparr>fd_confidence = Some (q_confidence q), fd_exponent = Some (q_exponent q), fd_price = Some (q_price q), fd_updatedAt = Some t\<rparr>"
      by (cases f) (auto simp: checkedQuote_def result_simps split: option.splits)
    have "map_option feed_of (map_of feeds feedId) = Some f"
      if "message = enc_update signature publicKey (enc_payload stamp feeds)"
        "update_ok signature publicKey (enc_payload stamp feeds)" "payload_ok stamp feeds" for signature publicKey stamp feeds
    proof -
      have "pu_payload u = enc_payload stamp feeds"
        using priced(2) parsePythUpdate_encoded [OF that(2), of L] that(1) by auto
      with priced(3) findFeed_encoded [OF that(3), of feedId] show ?thesis by simp
    qed
    with priced(1-3) f show ?thesis by (simp only: if_False) blast
  qed
  with quote_sound [OF assms] quote_age_mono [OF assms] show ?thesis by blast
qed

definition demoPrice :: "(int \<times> property list) list" where
  "demoPrice = [(7, [Price 5000, Confidence 2, Exponent (- 8)]),
                (9, [Price 6123400, Exponent (- 4), Confidence 700, UpdatedAt (Some 1700000000000000)])]"

definition demoMessage :: bytes where
  "demoMessage = enc_update (replicate 64 1) (replicate 32 2) (enc_payload (replicate 9 3) demoPrice)"

definition demoQuote :: quote_data where
  "demoQuote = \<lparr>q_confidence = 700, q_exponent = - 4, q_price = 6123400\<rparr>"

lemma demo_quote:
  "quote demoLib demoMessage 9 1700000005 10 = Inr demoQuote"
  by code_simp

theorem quote_trustworthy_witness:
  "sound_quote demoQuote
   \<and> (\<exists>u f t. parsePythUpdate demoLib demoMessage = Inr u \<and> findFeed (pu_payload u) 9 = Inr (Some f)
         \<and> fd_price f = Some 6123400 \<and> fd_confidence f = Some 700 \<and> fd_exponent f = Some (- 4)
         \<and> fd_updatedAt f = Some t \<and> 1700000005 - js_div t 1000000 \<le> 10)
   \<and> quote demoLib demoMessage 9 1700000005 60 = Inr demoQuote"
  using quote_trustworthy [OF demo_quote] by (auto simp: demoQuote_def)

text \<open>Reading a feed out of an encoded payload gives exactly what the payload's entry says, properties in any order.\<close>

theorem feed_read_back:
  "payload_ok stamp feeds \<Longrightarrow>
   findFeed (enc_payload stamp feeds) feedId = Inr (map_option feed_of (map_of feeds feedId))"
  by (rule findFeed_encoded)

theorem feed_read_back_witness:
  "findFeed (enc_payload (replicate 9 3) demoPrice) 7 = Inr (map_option feed_of (map_of demoPrice 7))"
  by (rule feed_read_back) code_simp

text \<open>
  The least output a sweep demands is within two units of 99.45\% of the fair output, at the payment's
  lowest and the asset's highest price, and never above it; it is 0 only for an empty sweep and grows
  with the amount.
\<close>

theorem min_out_fair:
  assumes "minOut amount payment pd asset ad = Inr out" "0 \<le> amount" "sound_quote asset"
  shows "out * 10000 * out_denominator payment pd asset ad \<le> out_numerator amount payment pd asset ad * 9945
    \<and> out_numerator amount payment pd asset ad * 9945 < (out + 2) * 10000 * out_denominator payment pd asset ad
    \<and> 0 \<le> out \<and> out \<le> U64_MAX \<and> (out = 0 \<longrightarrow> amount = 0)
    \<and> (\<forall>amount' out'. amount \<le> amount' \<longrightarrow> minOut amount' payment pd asset ad = Inr out' \<longrightarrow> out \<le> out')"
proof -
  have a: "0 \<le> q_price asset + q_confidence asset" using assms(3) by (simp add: sound_quote_def)
  note facts = minOut_Inr [OF assms(1,2) a]
  from floor_share_bounds [OF facts(1,2)] facts(3-5) minOut_mono [OF assms(1) _ assms(2) _ a] show ?thesis by blast
qed

theorem min_out_fair_witness:
  "(811955::int) * 10000 * out_denominator DOLLAR_QUOTE 6 demoQuote 8 \<le> out_numerator 5000000 DOLLAR_QUOTE 6 demoQuote 8 * 9945
    \<and> out_numerator 5000000 DOLLAR_QUOTE 6 demoQuote 8 * 9945 < (811955 + 2) * 10000 * out_denominator DOLLAR_QUOTE 6 demoQuote 8
    \<and> (811955::int) \<le> U64_MAX"
proof -
  have "minOut 5000000 DOLLAR_QUOTE 6 demoQuote 8 = Inr 811955" "sound_quote demoQuote" "(0::int) \<le> 5000000" by code_simp+
  with min_out_fair [of 5000000 DOLLAR_QUOTE 6 demoQuote 8 811955] show ?thesis by simp
qed

text \<open>
  A posted update is read back: from a transaction whose first instruction is the ed25519 check of the
  update inside another instruction, the reader returns exactly the update's bytes.
\<close>

theorem posted_update_read_back:
  assumes "kit_encoders L" "pointer_ok u"
    "nth_opt instructions (pp_instructionIndex u) = Some (program, carrier)"
    "pp_instructionIndex u \<noteq> ED25519_THIS_INSTRUCTION"
    "js_slice (nat (pp_offset u)) (nat (pp_offset u) + length (pp_message u)) carrier = pp_message u"
    "instructions ! 0 = (ED25519_PROGRAM_ADDRESS, instructionData (getPythEd25519Instruction L [u]))"
  shows "getPythUpdateFromTransaction instructions = Some (pp_message u)"
  by (rule getPythUpdateFromTransaction_roundtrip [OF assms])

definition demoPointer :: pyth_pointer where
  "demoPointer = \<lparr>pp_instructionIndex = 1, pp_message = replicate 110 7, pp_offset = 3\<rparr>"

definition demoPosted :: "(address \<times> bytes) list" where
  "demoPosted = [(ED25519_PROGRAM_ADDRESS, instructionData (getPythEd25519Instruction demoLib [demoPointer])),
     (''KAMINO'', [1, 2, 3] @ replicate 110 7 @ [9])]"

theorem posted_update_read_back_witness:
  "getPythUpdateFromTransaction demoPosted = Some (pp_message demoPointer)"
proof (rule posted_update_read_back)
  show "pointer_ok demoPointer" by code_simp
  show "nth_opt demoPosted (pp_instructionIndex demoPointer) = Some (''KAMINO'', [1, 2, 3] @ replicate 110 7 @ [9])" by code_simp
  show "pp_instructionIndex demoPointer \<noteq> ED25519_THIS_INSTRUCTION" by code_simp
  show "js_slice (nat (pp_offset demoPointer)) (nat (pp_offset demoPointer) + length (pp_message demoPointer))
          ([1, 2, 3] @ replicate 110 7 @ [9]) = pp_message demoPointer"
    by (simp add: js_slice_def demoPointer_def del: replicate.simps)
  show "demoPosted ! 0 = (ED25519_PROGRAM_ADDRESS, instructionData (getPythEd25519Instruction demoLib [demoPointer]))"
    by (simp add: demoPosted_def)
qed (rule demo_kit_encoders)

section \<open>Amounts\<close>

text \<open>
  The user's rules: income invests a tenth at most, rounded down; a payment's change is what the next
  step of a dollar lacks, or the minimum if that is more, times the multiplier.
\<close>

theorem rules_invest:
  assumes "0 \<le> income" "0 \<le> payment" "0 \<le> uc_changeMultiplier u"
  shows "0 \<le> incomeShare u income \<and> 10 * incomeShare u income \<le> income
    \<and> (\<exists>r. change u payment = max r CHANGE_MIN * uc_changeMultiplier u \<and> 0 \<le> r \<and> r < CHANGE_STEP
           \<and> CHANGE_STEP dvd payment + r)"
  using incomeShare_bounds [OF assms(1)] change_rounds_up [OF assms(2,3)] by metis

theorem rules_invest_witness:
  "0 \<le> incomeShare demoUser 100000000 \<and> 10 * incomeShare demoUser 100000000 \<le> 100000000
    \<and> (\<exists>r. change demoUser 1234567 = max r CHANGE_MIN * uc_changeMultiplier demoUser \<and> 0 \<le> r \<and> r < CHANGE_STEP
           \<and> CHANGE_STEP dvd 1234567 + r)"
  by (rule rules_invest) (simp_all add: demoUser_def)

section \<open>Subscriptions\<close>

text \<open>
  The client can make a subscription live in exactly two conditions: the user has an unfrozen account of
  the token, and if a running subscription is bound to an authority that is gone, whoever paid for it
  signs; otherwise it fails before anything is built.
\<close>

theorem subscription_instructions_defined:
  "(\<exists>is. subscriptionInstructions L i = Inr is) \<longleftrightarrow>
     (\<exists>a. ts_accountState (si_token i) = Some a \<and> \<not> ta_frozen a)
     \<and> (\<forall>s. ps_subscriptionState (si_plan i) = Some s \<longrightarrow> isRunning (Some s) (si_now i)
            \<longrightarrow> \<not> boundTo s (si_token i) \<longrightarrow> sub_payer s \<in> set (si_sponsor i # si_payers i))"
  by (rule subscriptionInstructions_defined)

definition demoSubscribe :: subscription_input where
  "demoSubscribe = \<lparr>si_now = 2000, si_payers = [], si_plan = demoPlanState 0 0, si_sponsor = ''X'',
     si_token = (demoToken 0)\<lparr>ts_authorityState := Some \<lparr>sa_payer = ''S'', sa_initId = 9\<rparr>\<rparr>, si_user = ''U''\<rparr>"

text \<open>A subscription whose payer does not sign: the right side is false, and the instructions are refused.\<close>

theorem subscription_instructions_defined_witness:
  "\<not> (\<exists>is. subscriptionInstructions demoLib demoSubscribe = Inr is)"
proof -
  have "ps_subscriptionState (si_plan demoSubscribe) = Some (the (ps_subscriptionState (demoPlanState 0 0)))"
    "isRunning (Some (the (ps_subscriptionState (demoPlanState 0 0)))) (si_now demoSubscribe)"
    "\<not> boundTo (the (ps_subscriptionState (demoPlanState 0 0))) (si_token demoSubscribe)"
    "sub_payer (the (ps_subscriptionState (demoPlanState 0 0))) \<notin> set (si_sponsor demoSubscribe # si_payers demoSubscribe)"
    by code_simp+
  then show ?thesis unfolding subscription_instructions_defined by blast
qed

end
