(* ===== verification/Onboarding.thy ===== *)
theory Onboarding
  imports Demo_Cluster
begin

text \<open>
  Joining, returning and restoring (\<open>clients/typescript/src/onboarding.ts\<close>): the rules a user's
  choices must satisfy, the sponsored instructions of an onboarding and of a reactivation, and the
  restore of a payment token ended outside Laterite.
\<close>

section \<open>The code\<close>

text \<open>An array entry that the code asserts to exist; reading a property of a missing one throws.\<close>

definition getOnboardingLookupTableAddresses :: "lib \<Rightarrow> address list \<Rightarrow> config \<Rightarrow> address list" where
  "getOnboardingLookupTableAddresses L programs cfg =
     programs
     @ [SUBSCRIPTIONS_PROGRAM_ADDRESS L, subscriptionsEventAuthorityPda L, LATERITE_PROGRAM_ADDRESS,
        findConfigPda L, findVaultPda L]
     @ map asset_mint (cfg_assets cfg) @ map token_mint (cfg_paymentTokens cfg)
     @ concat (map (\<lambda>paymentToken. map (findPlanAddress L paymentToken) [0, 1]) [0, 1])"

definition assertValidRules :: "enroll_params \<Rightarrow> unit outcome" where
  "assertValidRules params =
     (case nth_opt TIERS (ep_tier params) of
        None \<Rightarrow> Inl (LateriteCheckError InvalidTier)
      | Some cap \<Rightarrow>
          res_guard (ep_asset params \<ge> 2) (LateriteCheckError UnknownAsset) (
          res_guard (ep_paymentTokens params = 0) (LateriteCheckError NoPaymentToken) (
          res_guard (drop_bit PAYMENT_TOKEN_COUNT (ep_paymentTokens params) \<noteq> 0)
            (LateriteCheckError UnknownPaymentToken) (
          let invests = ep_engineAmount params > 0 \<or> ep_incomeRule params \<or> ep_changeMultiplier params > 0
          in res_guard (\<not> invests \<or> ep_changeMultiplier params > 3 \<or> ep_engineAmount params > cap)
               (LateriteCheckError InvalidRules) (Inr ())))))"

definition assertCanJoin :: "config \<Rightarrow> address \<Rightarrow> enroll_params \<Rightarrow> unit outcome" where
  "assertCanJoin cfg sponsor params =
     res_guard (cfg_paused cfg) (LateriteCheckError ProgramPaused) (
     res_guard (sponsor \<noteq> cfg_sponsor cfg) (LateriteCheckError NotSponsor) (
     res_guard (userCount cfg \<ge> maxUsers cfg) (LateriteCheckError BetaFull) (
     case nth_opt TIERS (ep_tier params) of
       None \<Rightarrow> Inl (LateriteCheckError InvalidTier)
     | Some cap \<Rightarrow>
         res_guard (userWeeklyCap cfg < cap) (LateriteCheckError CapAboveBetaLimit) (
         assertValidRules params))))"

record join_input =
  ji_config :: config
  ji_params :: enroll_params
  ji_payers :: "address list"
  ji_sponsor :: address
  ji_user :: address

record sponsored_instructions =
  createsAssetAccount :: bool
  spi_instructions :: "instruction list"

definition assetAccountInstructions ::
    "int \<Rightarrow> config \<Rightarrow> address \<Rightarrow> user_state \<Rightarrow> address \<Rightarrow> instruction list outcome" where
  "assetAccountInstructions asset cfg sponsor state user =
     res_bind (entry (ust_assets state) asset) (\<lambda>(account, exists).
     if exists then Inr []
     else res_bind (entry (cfg_assets cfg) asset) (\<lambda>a.
       Inr [CreateAssociatedTokenIdempotent (asset_mint a) user sponsor (asset_tokenProgram a)]))"

definition tokenSubscription ::
    "lib \<Rightarrow> user_state \<Rightarrow> address list \<Rightarrow> address \<Rightarrow> address \<Rightarrow> int \<Rightarrow> int
     \<Rightarrow> (plan_state \<times> instruction list) outcome" where
  "tokenSubscription L state payers sponsor user paymentToken tier =
     res_bind (planState state paymentToken tier) (\<lambda>plan.
     res_bind (entry (ust_tokens state) paymentToken) (\<lambda>token.
     res_bind (subscriptionInstructions L \<lparr>si_now = ust_now state, si_payers = payers, si_plan = plan,
                 si_sponsor = sponsor, si_token = token, si_user = user\<rparr>) (\<lambda>is.
     Inr (plan, is))))"

record joined =
  jn_createsAssetAccount :: bool
  jn_instructions :: "instruction list"
  jn_subscriptions :: "address list"

definition joinInstructions :: "lib \<Rightarrow> join_input \<Rightarrow> user_state \<Rightarrow> joined outcome" where
  "joinInstructions L i state =
     res_bind (assetAccountInstructions (ep_asset (ji_params i)) (ji_config i) (ji_sponsor i) state (ji_user i)) (\<lambda>creates.
     res_bind (res_map (\<lambda>paymentToken. tokenSubscription L state (ji_payers i) (ji_sponsor i) (ji_user i)
                          paymentToken (ep_tier (ji_params i)))
                 (enabledPaymentTokens (ep_paymentTokens (ji_params i)))) (\<lambda>tokens.
     Inr \<lparr>jn_createsAssetAccount = length creates > 0,
          jn_instructions = creates @ concat (map snd tokens),
          jn_subscriptions = map (ps_subscription \<circ> fst) tokens\<rparr>))"

definition getOnboardingInstructions :: "lib \<Rightarrow> cluster \<Rightarrow> join_input \<Rightarrow> sponsored_instructions outcome" where
  "getOnboardingInstructions L C i =
     res_bind (assertCanJoin (ji_config i) (ji_sponsor i) (ji_params i)) (\<lambda>_.
     res_bind (fetchUserState L C (ji_config i) (ji_user i)) (\<lambda>state.
     res_guard (ust_userConfig state \<noteq> None)
       (PlainError (ji_user i @ '' has enrolled before; it returns through reactivation'')) (
     res_bind (joinInstructions L i state) (\<lambda>j.
     Inr \<lparr>createsAssetAccount = jn_createsAssetAccount j,
          spi_instructions = jn_instructions j
            @ [withRemainingAccounts (EnrollIx (ji_params i) (ji_sponsor i) (ji_user i))
                 (map readonly (jn_subscriptions j))]\<rparr>))))"

definition getReactivationInstructions :: "lib \<Rightarrow> cluster \<Rightarrow> join_input \<Rightarrow> sponsored_instructions outcome" where
  "getReactivationInstructions L C i =
     res_bind (assertCanJoin (ji_config i) (ji_sponsor i) (ji_params i)) (\<lambda>_.
     res_bind (fetchUserState L C (ji_config i) (ji_user i)) (\<lambda>state.
     res_guard (map_option uc_status (ust_userConfig state) \<noteq> Some Exited) (LateriteCheckError UserNotExited) (
     res_bind (joinInstructions L i state) (\<lambda>j.
     Inr \<lparr>createsAssetAccount = jn_createsAssetAccount j,
          spi_instructions = jn_instructions j
            @ [withRemainingAccounts (ReactivateIx (ji_params i) (ji_sponsor i) (ji_user i))
                 (map readonly (jn_subscriptions j))]\<rparr>))))"

text \<open>\<open>bigint\<close> division by a period of 0 throws a \<open>RangeError\<close>.\<close>

definition cancellationExpiry :: "subscription \<Rightarrow> plan_data \<Rightarrow> int \<Rightarrow> int outcome" where
  "cancellationExpiry sub plan now =
     (let period = sub_periodHours sub * 3600; start = sub_currentPeriodStartTs sub
      in res_guard (now > start \<and> period = 0) RangeError (
         let elapsed = (if now > start then js_div (now - start) period else 0);
             end = start + (elapsed + 1) * period
         in Inr (if plan_endTs plan \<noteq> 0 \<and> plan_endTs plan < end then plan_endTs plan else end)))"

record restore_input =
  ri_config :: config
  ri_paymentToken :: int
  ri_payers :: "address list"
  ri_sponsor :: address
  ri_user :: address

text \<open>A restore's instructions, and when the token can be restored if they only prepare it.\<close>

definition getRestoreInstructions ::
    "lib \<Rightarrow> cluster \<Rightarrow> restore_input \<Rightarrow> (instruction list \<times> int option) outcome" where
  "getRestoreInstructions L C i =
     res_bind (fetchUserState L C (ri_config i) (ri_user i)) (\<lambda>state.
     case ust_userConfig state of
       None \<Rightarrow> Inl (LateriteCheckError UserNotActive)
     | Some u \<Rightarrow>
         res_guard (uc_status u = Exited) (LateriteCheckError UserNotActive) (
         res_guard (\<not> hasToken (uc_paymentTokens u) (ri_paymentToken i)) (LateriteCheckError UnknownPaymentToken) (
         res_bind (planState state (ri_paymentToken i) (uc_tier u)) (\<lambda>plan.
         res_bind (entry (ust_tokens state) (ri_paymentToken i)) (\<lambda>token.
         case subscriptionInstructions L \<lparr>si_now = ust_now state, si_payers = ri_payers i, si_plan = plan,
                si_sponsor = ri_sponsor i, si_token = token, si_user = ri_user i\<rparr> of
           Inr is \<Rightarrow> Inr (is, None)
         | Inl e \<Rightarrow>
             (case (e, ps_subscriptionState plan) of
                (RecordedPayerRequiredError _ _, Some sub) \<Rightarrow>
                  if sub_expiresAtTs sub \<noteq> 0 then Inr ([], Some (sub_expiresAtTs sub))
                  else res_bind (cancellationExpiry sub (ps_planState plan) (ust_now state)) (\<lambda>at.
                    Inr ([CancelSubscription (ps_plan plan) (ri_user i) (ps_subscription plan)], Some at))
              | _ \<Rightarrow> Inl e))))))"

section \<open>The rules\<close>

lemma assertValidRules_iff:
  "assertValidRules p = Inr () \<longleftrightarrow>
     (\<exists>cap. nth_opt TIERS (ep_tier p) = Some cap \<and> ep_engineAmount p \<le> cap) \<and> ep_asset p < 2
     \<and> ep_paymentTokens p \<noteq> 0 \<and> drop_bit 2 (ep_paymentTokens p) = 0 \<and> ep_changeMultiplier p \<le> 3
     \<and> (ep_engineAmount p > 0 \<or> ep_incomeRule p \<or> ep_changeMultiplier p > 0)"
  by (auto simp: assertValidRules_def PAYMENT_TOKEN_COUNT_def result_simps Let_def split: option.splits)

lemma valid_rules_enable_a_token:
  assumes "assertValidRules p = Inr ()"
  shows "enabledPaymentTokens (ep_paymentTokens p) \<noteq> []"
proof -
  have "drop_bit 2 (ep_paymentTokens p) = 0" "ep_paymentTokens p \<noteq> 0"
    using assms by (auto simp: assertValidRules_iff)
  then have "ep_paymentTokens p div 4 = 0" "ep_paymentTokens p \<noteq> 0" by (simp_all add: drop_bit_eq_div)
  then have "0 \<le> ep_paymentTokens p" "ep_paymentTokens p < 4" using div_bucket_iff [of 4 "ep_paymentTokens p" 0] by auto
  with \<open>ep_paymentTokens p \<noteq> 0\<close> have "ep_paymentTokens p \<in> {1, 2, 3}" by auto
  then show ?thesis by (auto simp: enabledPaymentTokens_def)
qed

lemma assertCanJoin_Inr:
  "assertCanJoin cfg sponsor p = Inr () \<longleftrightarrow>
     \<not> cfg_paused cfg \<and> sponsor = cfg_sponsor cfg \<and> userCount cfg < maxUsers cfg
     \<and> (\<exists>cap. nth_opt TIERS (ep_tier p) = Some cap \<and> cap \<le> userWeeklyCap cfg)
     \<and> assertValidRules p = Inr ()"
  by (auto simp: assertCanJoin_def result_simps split: option.splits)

section \<open>Fetched state\<close>

lemma res_map_fetchPlan:
  "res_map (fetchPlan L C user) PLANS = Inr plans \<Longrightarrow>
   map (\<lambda>p. (ps_paymentToken p, ps_tier p)) plans = PLANS
   \<and> (\<forall>p \<in> set plans. ps_plan p = findPlanAddress L (ps_paymentToken p) (ps_tier p)
        \<and> ps_subscription p = findSubscriptionAddress L user (ps_paymentToken p) (ps_tier p))"
  by (auto simp: PLANS_def fetchPlan_def result_simps findSubscriptionAddress_def Let_def
      split: if_splits)

lemma fetchUserState_plans:
  "fetchUserState L C cfg user = Inr state \<Longrightarrow>
   map (\<lambda>p. (ps_paymentToken p, ps_tier p)) (ust_plans state) = PLANS
   \<and> (\<forall>p \<in> set (ust_plans state). ps_plan p = findPlanAddress L (ps_paymentToken p) (ps_tier p)
        \<and> ps_subscription p = findSubscriptionAddress L user (ps_paymentToken p) (ps_tier p))"
  by (auto simp: fetchUserState_def result_simps Let_def split: option.splits dest: res_map_fetchPlan)

lemma planState_Inr:
  "planState state paymentToken tier = Inr p \<Longrightarrow>
   p \<in> set (ust_plans state) \<and> ps_paymentToken p = paymentToken \<and> ps_tier p = tier"
  by (auto simp: planState_def find_Some_iff split: option.splits)

lemma planState_addresses:
  assumes "fetchUserState L C cfg user = Inr state" "planState state paymentToken tier = Inr p"
  shows "ps_plan p = findPlanAddress L paymentToken tier"
    "ps_subscription p = findSubscriptionAddress L user paymentToken tier"
    "ps_paymentToken p = paymentToken" "ps_tier p = tier"
  using fetchUserState_plans [OF assms(1)] planState_Inr [OF assms(2)] by auto

section \<open>Joining\<close>

lemma tokenSubscription_Inr:
  assumes "tokenSubscription L state payers sponsor user t tier = Inr (plan, is)"
  obtains token where "planState state t tier = Inr plan" "entry (ust_tokens state) t = Inr token"
    "subscriptionInstructions L \<lparr>si_now = ust_now state, si_payers = payers, si_plan = plan,
       si_sponsor = sponsor, si_token = token, si_user = user\<rparr> = Inr is"
  using assms by (auto simp: tokenSubscription_def result_simps)

lemma joinInstructions_Inr:
  assumes "joinInstructions L i state = Inr j"
  obtains creates tokens where
    "assetAccountInstructions (ep_asset (ji_params i)) (ji_config i) (ji_sponsor i) state (ji_user i) = Inr creates"
    "res_map (\<lambda>t. tokenSubscription L state (ji_payers i) (ji_sponsor i) (ji_user i) t (ep_tier (ji_params i)))
       (enabledPaymentTokens (ep_paymentTokens (ji_params i))) = Inr tokens"
    "jn_createsAssetAccount j = (creates \<noteq> [])" "jn_instructions j = creates @ concat (map snd tokens)"
    "jn_subscriptions j = map (ps_subscription \<circ> fst) tokens"
  using assms by (auto simp: joinInstructions_def result_simps)

lemma joined_subscriptions:
  assumes "fetchUserState L C cfg (ji_user i) = Inr state" "joinInstructions L i state = Inr j"
  shows "jn_subscriptions j = map (\<lambda>t. findSubscriptionAddress L (ji_user i) t (ep_tier (ji_params i)))
           (enabledPaymentTokens (ep_paymentTokens (ji_params i)))"
proof -
  let ?ts = "enabledPaymentTokens (ep_paymentTokens (ji_params i))" and ?tier = "ep_tier (ji_params i)"
  let ?f = "\<lambda>t. tokenSubscription L state (ji_payers i) (ji_sponsor i) (ji_user i) t ?tier"
  from assms(2) obtain creates tokens where tokens: "res_map ?f ?ts = Inr tokens"
    "jn_subscriptions j = map (ps_subscription \<circ> fst) tokens"
    by (rule joinInstructions_Inr) blast
  from res_map_Inr [OF tokens(1)] have len: "length tokens = length ?ts"
    and nth: "\<And>k. k < length ?ts \<Longrightarrow> ?f (?ts ! k) = Inr (tokens ! k)" by auto
  have "ps_subscription (fst (tokens ! k)) = findSubscriptionAddress L (ji_user i) (?ts ! k) ?tier"
    if k: "k < length ?ts" for k
  proof -
    obtain plan "is" where pi: "tokens ! k = (plan, is)" by force
    with nth [OF k] have "?f (?ts ! k) = Inr (plan, is)" by simp
    then obtain token where "planState state (?ts ! k) ?tier = Inr plan"
      by (rule tokenSubscription_Inr)
    from planState_addresses(2) [OF assms(1) this] pi show ?thesis by simp
  qed
  with len tokens(2) show ?thesis by (simp add: list_eq_iff_nth_eq)
qed

section \<open>Restoring\<close>

lemma cancellationExpiry_Inr:
  assumes "cancellationExpiry sub plan now = Inr at" "0 < sub_periodHours sub" 
    "sub_currentPeriodStartTs sub \<le> now" "plan_endTs plan = 0 \<or> now < plan_endTs plan"
  shows "now < at" "at \<le> now + sub_periodHours sub * 3600"
    "plan_endTs plan \<noteq> 0 \<Longrightarrow> at \<le> plan_endTs plan"
proof -
  let ?p = "sub_periodHours sub * 3600" and ?s = "sub_currentPeriodStartTs sub"
  define e where "e = ?s + ((now - ?s) div ?p + 1) * ?p"
  have p: "0 < ?p" using assms(2) by simp
  have code: "(if now > ?s then js_div (now - ?s) ?p else 0) = (now - ?s) div ?p"
    using assms(3) p by (auto simp: js_div_nonneg)
  have "now < e" "e \<le> now + ?p"
    using div_bucket_iff [OF p, of "now - ?s" "(now - ?s) div ?p"] by (auto simp: e_def algebra_simps)
  moreover from assms(1) have "at = (if plan_endTs plan \<noteq> 0 \<and> plan_endTs plan < e then plan_endTs plan else e)"
    unfolding cancellationExpiry_def Let_def code e_def [symmetric]
    by (simp add: result_simps split: if_splits)
  ultimately show "now < at" "at \<le> now + ?p" "plan_endTs plan \<noteq> 0 \<Longrightarrow> at \<le> plan_endTs plan"
    using assms(4) by (auto split: if_splits)
qed

lemma recorded_payer_needed:
  assumes "subscriptionInstructions L i = Inl (RecordedPayerRequiredError payer address)"
  obtains sub where "ps_subscriptionState (si_plan i) = Some sub" "isRunning (Some sub) (si_now i)"
    "\<not> boundTo sub (si_token i)" "sub_payer sub \<notin> set (si_sponsor i # si_payers i)"
    "payer = sub_payer sub" "address = ps_subscription (si_plan i)"
  using assms
  by (auto simp: subscriptionInstructions_def closeSubscriptionInstruction_def isRunning_def find_eq_mem
      Let_def result_simps split: option.splits if_splits)

section \<open>What the builders promise\<close>

lemma entry_Inr: "entry xs k = Inr x \<longleftrightarrow> nth_opt xs k = Some x"
  by (auto simp: entry_def split: option.splits)

lemma nth_opt_map: "nth_opt (map f xs) k = map_option f (nth_opt xs k)"
  by (auto simp: nth_opt_def)

lemma fetched_token:
  assumes "fetchUserState L C cfg user = Inr state" "entry (ust_tokens state) t = Inr token"
  obtains e where "nth_opt (cfg_paymentTokens cfg) t = Some e" "ts_mint token = token_mint e" "ts_tokenProgram token = token_tokenProgram e"
    "ts_account token = findAssociatedTokenPda L (token_mint e) user (token_tokenProgram e)"
    "ts_authority token = findSubscriptionAuthorityAddress L user (token_mint e)"
    "decodeTokenAccountState L (C (ts_account token)) (token_tokenProgram e) = Inr (ts_accountState token)"
    "decodeOwned L (decodeSubscriptionAuthority L) (C (ts_authority token)) = Inr (ts_authorityState token)"
proof -
  let ?n = "length (cfg_paymentTokens cfg)"
  from assms(1) have "res_map (fetchToken L C user) (zip (cfg_paymentTokens cfg) (map int [0..<?n])) = Inr (ust_tokens state)"
    by (auto simp: fetchUserState_def result_simps Let_def split: option.splits)
  from res_map_Inr [OF this] have len: "length (ust_tokens state) = ?n"
    and at: "\<And>k. k < ?n \<Longrightarrow> fetchToken L C user (cfg_paymentTokens cfg ! k, int k) = Inr (ust_tokens state ! k)" by auto
  from assms(2) len have t: "0 \<le> t" "nat t < ?n" "ust_tokens state ! nat t = token"
    by (auto simp: entry_Inr nth_opt_def split: if_splits)
  have "fetchToken L C user (cfg_paymentTokens cfg ! nat t, int (nat t)) = Inr token" using at [OF t(2)] t(3) by simp
  moreover have "nth_opt (cfg_paymentTokens cfg) t = Some (cfg_paymentTokens cfg ! nat t)" using t by (simp add: nth_opt_def)
  ultimately show ?thesis by (intro that) (auto simp: fetchToken_def result_simps Let_def)
qed

lemma fetched_asset:
  assumes "fetchUserState L C cfg user = Inr state"
  shows "ust_assets state = map (\<lambda>a. (findAssociatedTokenPda L (asset_mint a) user (asset_tokenProgram a),
      case C (findAssociatedTokenPda L (asset_mint a) user (asset_tokenProgram a)) of None \<Rightarrow> False
      | Some acc \<Rightarrow> acc_programAddress acc = asset_tokenProgram a)) (cfg_assets cfg)"
  using assms by (auto simp: fetchUserState_def result_simps Let_def split: option.splits)

text \<open>
  The instructions that make one payment token sweepable, in three phases: what closes a subscription that ended or
  lost its authority, the approval unless the user's account already delegates to the authority, and the
  subscription itself, at the tier's plan, unless one is already running through the current authority.
\<close>

definition closing_part :: "address \<Rightarrow> address \<Rightarrow> address \<Rightarrow> token_state \<Rightarrow> subscription option \<Rightarrow> int \<Rightarrow> instruction list" where
  "closing_part user plan subscription token found now =
     (case found of
        None \<Rightarrow> []
      | Some s \<Rightarrow> if \<not> isRunning (Some s) now then [RevokeSubscription user plan (sub_payer s) subscription]
                  else if \<not> boundTo s token then [RevokeAbandonedSubscription (sub_payer s) plan subscription (ts_authority token)]
                  else [])"

definition subscribing_part :: "lib \<Rightarrow> join_input \<Rightarrow> int \<Rightarrow> token_state \<Rightarrow> plan_data \<Rightarrow> subscription option \<Rightarrow> int \<Rightarrow> instruction list" where
  "subscribing_part L i t token terms found now =
     (let tier = ep_tier (ji_params i);
          subscribe = [Subscribe (plan_amount terms) (plan_createdAt terms) (plan_periodHours terms)
            (case ts_authorityState token of Some a \<Rightarrow> sa_initId a | None \<Rightarrow> UNKNOWN_INIT_ID L)
            (findVaultPda L) (ji_sponsor i) (planId t tier) (ji_user i) (ts_mint token)]
      in case found of
           None \<Rightarrow> subscribe
         | Some s \<Rightarrow> if \<not> isRunning (Some s) now \<or> \<not> boundTo s token then subscribe
                     else if sub_expiresAtTs s = 0 then []
                     else [ResumeSubscription (sub_expiresAtTs s) (findPlanAddress L t tier) (ji_user i)
                             (findSubscriptionAddress L (ji_user i) t tier) (ts_mint token)])"

definition token_part :: "lib \<Rightarrow> join_input \<Rightarrow> user_state \<Rightarrow> int \<Rightarrow> instruction list \<Rightarrow> bool" where
  "token_part L i state t is \<longleftrightarrow>
     (\<exists>e token plan. nth_opt (cfg_paymentTokens (ji_config i)) t = Some e
        \<and> nth_opt (ust_tokens state) t = Some token \<and> ts_mint token = token_mint e
        \<and> plan \<in> set (ust_plans state) \<and> ps_paymentToken plan = t \<and> ps_tier plan = ep_tier (ji_params i)
        \<and> is = closing_part (ji_user i) (findPlanAddress L t (ep_tier (ji_params i)))
                 (findSubscriptionAddress L (ji_user i) t (ep_tier (ji_params i))) token (ps_subscriptionState plan) (ust_now state)
             @ (if ts_authorityState token \<noteq> None \<and> map_option ta_delegate (ts_accountState token) = Some (Some (ts_authority token)) then []
                else [InitSubscriptionAuthority (ji_user i) (ji_sponsor i) (token_mint e) (token_tokenProgram e)
                        (findAssociatedTokenPda L (token_mint e) (ji_user i) (token_tokenProgram e))])
             @ subscribing_part L i t token (ps_planState plan) (ps_subscriptionState plan) (ust_now state))"

lemma tokenSubscription_part:
  assumes "fetchUserState L C (ji_config i) (ji_user i) = Inr state"
    "tokenSubscription L state (ji_payers i) (ji_sponsor i) (ji_user i) t (ep_tier (ji_params i)) = Inr (plan, is)"
  shows "token_part L i state t is"
proof -
  from assms(2) obtain token where parts: "planState state t (ep_tier (ji_params i)) = Inr plan" "entry (ust_tokens state) t = Inr token"
    "subscriptionInstructions L \<lparr>si_now = ust_now state, si_payers = ji_payers i, si_plan = plan,
       si_sponsor = ji_sponsor i, si_token = token, si_user = ji_user i\<rparr> = Inr is"
    by (rule tokenSubscription_Inr)
  obtain e where e: "nth_opt (cfg_paymentTokens (ji_config i)) t = Some e" "ts_mint token = token_mint e" "ts_tokenProgram token = token_tokenProgram e"
    "ts_account token = findAssociatedTokenPda L (token_mint e) (ji_user i) (token_tokenProgram e)"
    using fetched_token [OF assms(1) parts(2)] by metis
  note plan = planState_addresses [OF assms(1) parts(1)] planState_Inr [OF parts(1)]
  have approved: "approvedToken token = (ts_authorityState token \<noteq> None \<and> map_option ta_delegate (ts_accountState token) = Some (Some (ts_authority token)))"
    by (auto simp: approvedToken_def split: option.split)
  have "is = closing_part (ji_user i) (findPlanAddress L t (ep_tier (ji_params i)))
         (findSubscriptionAddress L (ji_user i) t (ep_tier (ji_params i))) token (ps_subscriptionState plan) (ust_now state)
     @ (if approvedToken token then []
        else [InitSubscriptionAuthority (ji_user i) (ji_sponsor i) (token_mint e) (token_tokenProgram e)
                (findAssociatedTokenPda L (token_mint e) (ji_user i) (token_tokenProgram e))])
     @ subscribing_part L i t token (ps_planState plan) (ps_subscriptionState plan) (ust_now state)"
    using parts(3) plan e
    by (cases "ps_subscriptionState plan")
      (auto simp: subscriptionInstructions_def closing_part_def subscribing_part_def subscribeInstruction_def approveInstruction_def
        closeSubscriptionInstruction_def isRunning_def find_eq_mem Let_def result_simps split: option.splits if_splits)
  with e(1,2) plan parts(2) show ?thesis unfolding token_part_def approved entry_Inr by blast
qed

lemma joinInstructions_parts:
  assumes "fetchUserState L C (ji_config i) (ji_user i) = Inr state" "joinInstructions L i state = Inr j"
  obtains a parts where "nth_opt (cfg_assets (ji_config i)) (ep_asset (ji_params i)) = Some a"
    "jn_instructions j = (if (case C (findAssociatedTokenPda L (asset_mint a) (ji_user i) (asset_tokenProgram a)) of None \<Rightarrow> False
            | Some acc \<Rightarrow> acc_programAddress acc = asset_tokenProgram a) then []
         else [CreateAssociatedTokenIdempotent (asset_mint a) (ji_user i) (ji_sponsor i) (asset_tokenProgram a)]) @ concat parts"
    "list_all2 (token_part L i state) (enabledPaymentTokens (ep_paymentTokens (ji_params i))) parts"
proof -
  let ?ts = "enabledPaymentTokens (ep_paymentTokens (ji_params i))"
  from assms(2) obtain creates tokens where
    creates: "assetAccountInstructions (ep_asset (ji_params i)) (ji_config i) (ji_sponsor i) state (ji_user i) = Inr creates"
    and tokens: "res_map (\<lambda>t. tokenSubscription L state (ji_payers i) (ji_sponsor i) (ji_user i) t (ep_tier (ji_params i))) ?ts = Inr tokens"
    and j: "jn_instructions j = creates @ concat (map snd tokens)"
    by (rule joinInstructions_Inr)
  from creates obtain a where a: "nth_opt (cfg_assets (ji_config i)) (ep_asset (ji_params i)) = Some a"
    "creates = (if (case C (findAssociatedTokenPda L (asset_mint a) (ji_user i) (asset_tokenProgram a)) of None \<Rightarrow> False
            | Some acc \<Rightarrow> acc_programAddress acc = asset_tokenProgram a) then []
         else [CreateAssociatedTokenIdempotent (asset_mint a) (ji_user i) (ji_sponsor i) (asset_tokenProgram a)])"
    by (auto simp: assetAccountInstructions_def fetched_asset [OF assms(1)] result_simps entry_def nth_opt_map
        split: option.splits if_splits)
  have "token_part L i state t (snd p)"
    if "tokenSubscription L state (ji_payers i) (ji_sponsor i) (ji_user i) t (ep_tier (ji_params i)) = Inr p" for t p
    using that tokenSubscription_part [OF assms(1)] by (cases p) simp
  then have "list_all2 (token_part L i state) ?ts (map snd tokens)"
    unfolding list_all2_conv_all_nth using res_map_Inr [OF tokens] by simp
  with that a j show ?thesis by simp
qed


definition demoEmpty :: cluster where
  "demoEmpty = demoCluster (''@userU'' := None, ''PLAN1:U'' := None)"

definition demoParams :: enroll_params where
  "demoParams = \<lparr>ep_tier = 0, ep_paymentTokens = 3, ep_asset = 0, ep_engine = Daily, ep_engineAmount = 2000000,
     ep_incomeRule = False, ep_changeMultiplier = 0, ep_cushions = [0, 0], ep_goalAmount = 0, ep_goalLabel = []\<rparr>"

definition demoJoin :: join_input where
  "demoJoin = \<lparr>ji_config = demoConfig, ji_params = demoParams, ji_payers = [], ji_sponsor = ''S'', ji_user = ''U''\<rparr>"

definition demoOnboarding :: sponsored_instructions where
  "demoOnboarding = (case getOnboardingInstructions demoLib demoEmpty demoJoin of
     Inl _ \<Rightarrow> \<lparr>createsAssetAccount = False, spi_instructions = []\<rparr> | Inr r \<Rightarrow> r)"

lemma demo_onboarding: "getOnboardingInstructions demoLib demoEmpty demoJoin = Inr demoOnboarding"
  by code_simp


lemma find_Inl_payer:
  assumes "subscriptionInstructions L i = Inl (RecordedPayerRequiredError payer address)"
  shows "\<exists>a. ts_accountState (si_token i) = Some a \<and> \<not> ta_frozen a"
  using assms
  by (auto simp: subscriptionInstructions_def closeSubscriptionInstruction_def Let_def result_simps
      split: option.splits if_splits)

text \<open>
  When a restore cannot close a subscription at once because its recorded payer's key is gone,
  the time it names is in the future: the subscription's end if it was already cancelled, else,
  after the cancellation it returns, at most one period away. From that time on the instructions of
  the restore exist without the payer's key.
\<close>

theorem restore_later_succeeds:
  assumes "getRestoreInstructions L C i = Inr (is, Some at)"
    "fetchUserState L C (ri_config i) (ri_user i) = Inr state" "ust_userConfig state = Some u"
    "planState state (ri_paymentToken i) (uc_tier u) = Inr plan"
    "entry (ust_tokens state) (ri_paymentToken i) = Inr token"
    "ps_subscriptionState plan = Some sub" "0 < sub_periodHours sub"
    "sub_currentPeriodStartTs sub \<le> ust_now state"
    "plan_endTs (ps_planState plan) = 0 \<or> ust_now state < plan_endTs (ps_planState plan)"
  shows "ust_now state < at
     \<and> (if sub_expiresAtTs sub \<noteq> 0 then is = [] \<and> at = sub_expiresAtTs sub
        else is = [CancelSubscription (ps_plan plan) (ri_user i) (ps_subscription plan)]
             \<and> at \<le> ust_now state + sub_periodHours sub * 3600)
     \<and> (at \<noteq> 0 \<longrightarrow> at \<le> t \<longrightarrow> (\<exists>later. subscriptionInstructions L \<lparr>si_now = t, si_payers = [],
          si_plan = plan\<lparr>ps_subscriptionState := Some (sub\<lparr>sub_expiresAtTs := at\<rparr>)\<rparr>,
          si_sponsor = ri_sponsor i, si_token = token, si_user = ri_user i\<rparr> = Inr later))"
proof -
  let ?i = "\<lparr>si_now = ust_now state, si_payers = ri_payers i, si_plan = plan,
                si_sponsor = ri_sponsor i, si_token = token, si_user = ri_user i\<rparr>"
  from assms(1-6) obtain payer address where err: "subscriptionInstructions L ?i = Inl (RecordedPayerRequiredError payer address)"
    and r: "if sub_expiresAtTs sub \<noteq> 0 then is = [] \<and> at = sub_expiresAtTs sub
      else cancellationExpiry sub (ps_planState plan) (ust_now state) = Inr at
        \<and> is = [CancelSubscription (ps_plan plan) (ri_user i) (ps_subscription plan)]"
    by (auto simp: getRestoreInstructions_def result_simps split: sum.splits js_error.splits if_splits)
  from err assms(6) have "isRunning (Some sub) (ust_now state)" by (auto elim: recorded_payer_needed)
  with r cancellationExpiry_Inr [OF _ assms(7-9)] have "ust_now state < at
     \<and> (if sub_expiresAtTs sub \<noteq> 0 then is = [] \<and> at = sub_expiresAtTs sub
        else is = [CancelSubscription (ps_plan plan) (ri_user i) (ps_subscription plan)]
             \<and> at \<le> ust_now state + sub_periodHours sub * 3600)"
    by (auto simp: isRunning_def split: if_splits)
  moreover from find_Inl_payer [OF err] obtain a where "ts_accountState token = Some a" "\<not> ta_frozen a" by auto
  ultimately show ?thesis
    by (auto simp: subscriptionInstructions_def closeSubscriptionInstruction_def Let_def)
qed

text \<open>The authority was re-created (its init id changed) and a retired key paid for the subscription.\<close>

definition demoGone :: cluster where
  "demoGone = demoCluster (''AUTHUSDC:U'' \<mapsto> \<lparr>acc_programAddress = ''SUBS'', acc_data = [9]\<rparr>)"

definition demoRestore :: restore_input where
  "demoRestore = \<lparr>ri_config = demoConfig, ri_paymentToken = 0, ri_payers = [], ri_sponsor = ''S2'', ri_user = ''U''\<rparr>"

definition demoGoneState :: user_state where
  "demoGoneState = demoState\<lparr>ust_tokens :=
     [demoToken 0\<lparr>ts_authorityState := Some \<lparr>sa_payer = ''S'', sa_initId = 9\<rparr>\<rparr>, demoToken 1]\<rparr>"

lemma demo_restore:
  "getRestoreInstructions demoLib demoGone demoRestore
     = Inr ([CancelSubscription ''PLAN1'' ''U'' ''PLAN1:U''], Some 605800)"
  by code_simp

theorem restore_later_succeeds_witness:
  "(605800::int) \<le> 2000 + 168 * 3600
   \<and> (\<exists>later. subscriptionInstructions demoLib \<lparr>si_now = 605800, si_payers = [],
          si_plan = demoPlanState 0 0\<lparr>ps_subscriptionState :=
            Some (the (ps_subscriptionState (demoPlanState 0 0))\<lparr>sub_expiresAtTs := 605800\<rparr>)\<rparr>,
          si_sponsor = ''S2'', si_token = hd (ust_tokens demoGoneState), si_user = ''U''\<rparr> = Inr later)"
proof -
  let ?sub = "the (ps_subscriptionState (demoPlanState 0 0))" and ?token = "hd (ust_tokens demoGoneState)"
  have "fetchUserState demoLib demoGone (ri_config demoRestore) (ri_user demoRestore) = Inr demoGoneState"
    "ust_userConfig demoGoneState = Some demoUser"
    "planState demoGoneState (ri_paymentToken demoRestore) (uc_tier demoUser) = Inr (demoPlanState 0 0)"
    "entry (ust_tokens demoGoneState) (ri_paymentToken demoRestore) = Inr ?token"
    "ps_subscriptionState (demoPlanState 0 0) = Some ?sub" "0 < sub_periodHours ?sub"
    "sub_currentPeriodStartTs ?sub \<le> ust_now demoGoneState"
    "plan_endTs (ps_planState (demoPlanState 0 0)) = 0
      \<or> ust_now demoGoneState < plan_endTs (ps_planState (demoPlanState 0 0))"
    by code_simp+
  note result = restore_later_succeeds [OF demo_restore this, where t = 605800]
  have at: "ust_now demoGoneState = 2000" "sub_periodHours ?sub = 168" "sub_expiresAtTs ?sub = 0"
    "ri_sponsor demoRestore = ''S2''" "ri_user demoRestore = ''U''"
    by code_simp+
  from result show ?thesis unfolding at by simp
qed

end
