(* ===== verification/Controls.thy ===== *)
theory Controls
  imports Onboarding
begin

unbundle bit_operations_syntax

text \<open>
  The controls of an enrolled user (\<open>clients/typescript/src/controls.ts\<close>): new settings, pause
  and resume, lowering the pending amount, a tier change, a payment-token change and an exit. The
  delegations \<open>fetchDelegationsByDelegator\<close> returns for the user are an argument.
\<close>

section \<open>The code\<close>

definition assertNotExited :: "user_config option \<Rightarrow> user_config outcome" where
  "assertNotExited userConfig =
     (case userConfig of
        None \<Rightarrow> Inl (LateriteCheckError UserNotActive)
      | Some u \<Rightarrow> res_guard (uc_status u = Exited) (LateriteCheckError UserNotActive) (Inr u))"

definition getUpdateSettingsInstructions ::
    "lib \<Rightarrow> cluster \<Rightarrow> config \<Rightarrow> enroll_params \<Rightarrow> address \<Rightarrow> address \<Rightarrow> sponsored_instructions outcome" where
  "getUpdateSettingsInstructions L C cfg params sponsor user =
     res_bind (fetchUserState L C cfg user) (\<lambda>state.
     res_bind (assertNotExited (ust_userConfig state)) (\<lambda>u.
     res_guard (ep_tier params \<noteq> uc_tier u \<or> ep_paymentTokens params \<noteq> uc_paymentTokens u)
       (LateriteCheckError PlanChangeRequired) (
     res_bind (assertValidRules params) (\<lambda>_.
     res_bind (assetAccountInstructions (ep_asset params) cfg sponsor state user) (\<lambda>creates.
     Inr \<lparr>createsAssetAccount = length creates > 0,
          spi_instructions = creates @ [UpdateSettingsIx params user]\<rparr>)))))"

definition getSetUserPausedInstructions :: "bool \<Rightarrow> address \<Rightarrow> user_config \<Rightarrow> instruction list outcome" where
  "getSetUserPausedInstructions paused user userConfig =
     res_bind (assertNotExited (Some userConfig)) (\<lambda>u.
     res_guard (paused \<and> uc_status u \<noteq> Active) (LateriteCheckError UserNotActive) (
     res_guard (\<not> paused \<and> uc_status u \<noteq> Paused) (LateriteCheckError UserNotPaused) (
     Inr [SetUserPausedIx paused user])))"

definition getLowerPendingInstructions :: "int \<Rightarrow> address \<Rightarrow> user_config \<Rightarrow> instruction list outcome" where
  "getLowerPendingInstructions pending user userConfig =
     res_bind (assertNotExited (Some userConfig)) (\<lambda>u.
     res_guard (pending > uc_pending u) (LateriteCheckError PendingIncrease) (
     Inr [LowerPendingIx pending user]))"

record control_input =
  ci_config :: config
  ci_payers :: "address list"
  ci_sponsor :: address
  ci_user :: address

text \<open>What one token of a change adds: instructions before the change, its accounts, and the rest.\<close>

definition tierChangeStep ::
    "lib \<Rightarrow> control_input \<Rightarrow> user_state \<Rightarrow> int \<Rightarrow> int \<Rightarrow> int
     \<Rightarrow> (instruction list \<times> account_meta list \<times> instruction list) outcome" where
  "tierChangeStep L i state old tier token =
     res_bind (planState state token old) (\<lambda>current.
     res_bind (tokenSubscription L state (ci_payers i) (ci_sponsor i) (ci_user i) token tier) (\<lambda>(next, is).
     res_bind (if ps_subscriptionState current = None then Inr []
               else res_bind (closeSubscriptionInstruction (ci_user i) current) (\<lambda>c. Inr [c])) (\<lambda>closes.
     Inr (is, [readonly (ps_plan current), writable (ps_subscription current), readonly (ps_subscription next)],
          closes))))"

definition getChangeTierInstructions ::
    "lib \<Rightarrow> cluster \<Rightarrow> control_input \<Rightarrow> int \<Rightarrow> instruction list outcome" where
  "getChangeTierInstructions L C i tier =
     res_bind (fetchUserState L C (ci_config i) (ci_user i)) (\<lambda>state.
     res_bind (assertNotExited (ust_userConfig state)) (\<lambda>u.
     case nth_opt TIERS tier of
       None \<Rightarrow> Inl (LateriteCheckError InvalidTier)
     | Some cap \<Rightarrow>
         res_guard (tier = uc_tier u) (LateriteCheckError InvalidTier) (
         res_guard (userWeeklyCap (ci_config i) < cap) (LateriteCheckError CapAboveBetaLimit) (
         res_guard (uc_engineAmount u > cap) (LateriteCheckError InvalidRules) (
         res_bind (res_map (tierChangeStep L i state (uc_tier u) tier)
                     (enabledPaymentTokens (uc_paymentTokens u))) (\<lambda>steps.
         Inr (concat (map fst steps)
              @ [withRemainingAccounts (ChangeTierIx tier (ci_user i) (ust_userConfigAddress state))
                   (concat (map (fst \<circ> snd) steps))]
              @ concat (map (snd \<circ> snd) steps))))))))"

text \<open>The delegations of the subscriptions program, with the fields the code reads.\<close>

datatype delegation =
    FixedDelegation (dg_address: address) (dg_mint: address) (dg_expiryTs: int) (dg_amount: int)
  | RecurringDelegation (dg_address: address) (dg_mint: address) (dg_expiryTs: int)
  | SubscriptionDelegation (dg_address: address) (dg_data: subscription) (dg_delegatee: address)

type_synonym delegations = "address \<Rightarrow> delegation list"

definition liveExpiry :: "int \<Rightarrow> int \<Rightarrow> bool" where
  "liveExpiry now expiry = (expiry = 0 \<or> expiry > now)"

fun delegationMints :: "int \<Rightarrow> delegation \<Rightarrow> address list" where
  "delegationMints now (FixedDelegation _ mint expiry amount) =
     (if liveExpiry now expiry \<and> amount > 0 then [mint] else [])"
| "delegationMints now (RecurringDelegation _ mint expiry) = (if liveExpiry now expiry then [mint] else [])"
| "delegationMints now (SubscriptionDelegation _ _ _) = []"

fun delegationPlans :: "int \<Rightarrow> delegation \<Rightarrow> address list" where
  "delegationPlans now (SubscriptionDelegation _ data delegatee) =
     (if isRunning (Some data) now then [delegatee] else [])"
| "delegationPlans now _ = []"

definition mintsInUse ::
    "lib \<Rightarrow> cluster \<Rightarrow> delegations \<Rightarrow> user_state \<Rightarrow> address \<Rightarrow> address set \<Rightarrow> address set outcome" where
  "mintsInUse L C D state user ending =
     (let others = filter (\<lambda>d. dg_address d \<notin> ending) (D user);
          plans = concat (map (delegationPlans (ust_now state)) others)
      in res_bind (res_map (\<lambda>plan. if ownedBySubscriptions L (C plan)
                                   then res_bind (decodePlan L (acc_data (the (C plan)))) (\<lambda>d. Inr [plan_mint d])
                                   else Inr []) plans) (\<lambda>planMints.
         Inr (set (concat (map (delegationMints (ust_now state)) others)) \<union> set (concat planMints))))"

definition endedSubscriptionInstructions ::
    "lib \<Rightarrow> cluster \<Rightarrow> delegations \<Rightarrow> user_state \<Rightarrow> address \<Rightarrow> plan_state list \<Rightarrow> instruction list outcome" where
  "endedSubscriptionInstructions L C D state user ended =
     res_bind (res_map (closeSubscriptionInstruction user)
                 (filter (\<lambda>plan. ps_subscriptionState plan \<noteq> None) ended)) (\<lambda>closes.
     res_bind (mintsInUse L C D state user (set (map ps_subscription ended))) (\<lambda>needed.
     res_bind (res_map (\<lambda>plan. entry (ust_tokens state) (ps_paymentToken plan)) ended) (\<lambda>tokens.
     res_bind (res_map (revokeAuthorityInstruction user)
                 (filter (\<lambda>token. ts_authorityState token \<noteq> None \<and> ts_accountState token \<noteq> None
                                  \<and> ts_mint token \<notin> needed) tokens)) (\<lambda>revokes.
     Inr (closes @ revokes)))))"

text \<open>What one changed token adds: instructions, accounts, and its plan if the change drops it.\<close>

definition tokenChangeStep ::
    "lib \<Rightarrow> control_input \<Rightarrow> user_state \<Rightarrow> int \<Rightarrow> int \<Rightarrow> int
     \<Rightarrow> (instruction list \<times> account_meta list \<times> plan_state list) outcome" where
  "tokenChangeStep L i state tier paymentTokens token =
     (if hasToken paymentTokens token
      then res_bind (tokenSubscription L state (ci_payers i) (ci_sponsor i) (ci_user i) token tier) (\<lambda>(plan, is).
             Inr (is, [readonly (ps_subscription plan)], []))
      else res_bind (planState state token tier) (\<lambda>plan.
             Inr ([], [readonly (ps_plan plan), writable (ps_subscription plan)], [plan])))"

definition getChangePaymentTokensInstructions ::
    "lib \<Rightarrow> cluster \<Rightarrow> delegations \<Rightarrow> control_input \<Rightarrow> int \<Rightarrow> instruction list outcome" where
  "getChangePaymentTokensInstructions L C D i paymentTokens =
     res_guard (paymentTokens = 0) (LateriteCheckError NoPaymentToken) (
     res_bind (fetchUserState L C (ci_config i) (ci_user i)) (\<lambda>state.
     res_bind (assertNotExited (ust_userConfig state)) (\<lambda>u.
     res_bind (res_map (tokenChangeStep L i state (uc_tier u) paymentTokens)
                 (enabledPaymentTokens (uc_paymentTokens u XOR paymentTokens))) (\<lambda>steps.
     res_bind (endedSubscriptionInstructions L C D state (ci_user i) (concat (map (snd \<circ> snd) steps))) (\<lambda>ended.
     Inr (concat (map fst steps)
          @ [withRemainingAccounts (ChangePaymentTokensIx paymentTokens (ci_user i) (ust_userConfigAddress state))
               (concat (map (fst \<circ> snd) steps))]
          @ ended))))))"

definition getExitInstructions ::
    "lib \<Rightarrow> cluster \<Rightarrow> delegations \<Rightarrow> config \<Rightarrow> address \<Rightarrow> instruction list outcome" where
  "getExitInstructions L C D cfg user =
     res_bind (fetchUserState L C cfg user) (\<lambda>state.
     res_bind (assertNotExited (ust_userConfig state)) (\<lambda>u.
     res_bind (res_map (\<lambda>token. planState state token (uc_tier u)) (enabledPaymentTokens (uc_paymentTokens u))) (\<lambda>plans.
     res_bind (endedSubscriptionInstructions L C D state user plans) (\<lambda>ended.
     Inr (withRemainingAccounts (ExitIx user (ust_userConfigAddress state))
            (concat (map (\<lambda>plan. [readonly (ps_plan plan), writable (ps_subscription plan)]) plans))
          # ended)))))"

section \<open>Who may use a control\<close>

lemma assertNotExited_Inr [simp]:
  "assertNotExited c = Inr u \<longleftrightarrow> c = Some u \<and> uc_status u \<noteq> Exited"
  by (auto simp: assertNotExited_def result_simps split: option.splits)

lemma setUserPaused_iff:
  "(\<exists>is. getSetUserPausedInstructions paused user u = Inr is) \<longleftrightarrow>
     uc_status u = (if paused then Active else Paused)"
  by (cases "uc_status u") (auto simp: getSetUserPausedInstructions_def assertNotExited_def result_simps)

section \<open>Ending subscriptions\<close>

lemma res_map_mem:
  assumes "res_map f xs = Inr ys"
  shows "x \<in> set xs \<Longrightarrow> \<exists>y \<in> set ys. f x = Inr y" "y \<in> set ys \<Longrightarrow> \<exists>x \<in> set xs. f x = Inr y"
  using res_map_Inr [OF assms] by (metis in_set_conv_nth)+

lemma res_map_map:
  assumes "res_map f xs = Inr ys" "\<And>x y. x \<in> set xs \<Longrightarrow> f x = Inr y \<Longrightarrow> g y = h x"
  shows "map g ys = map h xs"
proof -
  from res_map_Inr [OF assms(1)] have len: "length ys = length xs"
    and nth: "\<And>i. i < length xs \<Longrightarrow> f (xs ! i) = Inr (ys ! i)" by auto
  show ?thesis using assms(2) [OF nth_mem nth] len by (simp add: list_eq_iff_nth_eq)
qed

text \<open>Everything a delegation draws on: its own mint, or the mint of the plan it subscribes to.\<close>

definition drawsOn :: "lib \<Rightarrow> cluster \<Rightarrow> int \<Rightarrow> delegation \<Rightarrow> address \<Rightarrow> bool" where
  "drawsOn L C now d mint =
     (mint \<in> set (delegationMints now d)
      \<or> (\<exists>plan \<in> set (delegationPlans now d). ownedBySubscriptions L (C plan)
           \<and> (case decodePlan L (acc_data (the (C plan))) of Inl _ \<Rightarrow> False | Inr p \<Rightarrow> plan_mint p = mint)))"

lemma case_Inr_iff: "(case x of Inl _ \<Rightarrow> False | Inr p \<Rightarrow> Q p) \<longleftrightarrow> (\<exists>p. x = Inr p \<and> Q p)"
  by (cases x) auto

lemma mintsInUse_complete:
  assumes "mintsInUse L C D state user ending = Inr needed"
    "d \<in> set (D user)" "dg_address d \<notin> ending" "drawsOn L C (ust_now state) d mint"
  shows "mint \<in> needed"
proof -
  let ?others = "filter (\<lambda>d. dg_address d \<notin> ending) (D user)"
  let ?f = "\<lambda>plan. if ownedBySubscriptions L (C plan)
                    then res_bind (decodePlan L (acc_data (the (C plan)))) (\<lambda>d. Inr [plan_mint d]) else Inr []"
  from assms(1) obtain planMints where planMints: "res_map ?f (concat (map (delegationPlans (ust_now state)) ?others)) = Inr planMints"
    and needed: "needed = set (concat (map (delegationMints (ust_now state)) ?others)) \<union> set (concat planMints)"
    by (auto simp: mintsInUse_def Let_def result_simps)
  from assms(2,3) have d: "d \<in> set ?others" by simp
  from assms(4) consider "mint \<in> set (delegationMints (ust_now state) d)"
    | plan p where "plan \<in> set (delegationPlans (ust_now state) d)" "ownedBySubscriptions L (C plan)"
        "decodePlan L (acc_data (the (C plan))) = Inr p" "plan_mint p = mint"
    unfolding drawsOn_def case_Inr_iff by blast
  then show ?thesis
  proof cases
    case 1
    with d needed show ?thesis by auto
  next
    case 2
    with d have "plan \<in> set (concat (map (delegationPlans (ust_now state)) ?others))" by auto
    from res_map_mem(1) [OF planMints this] 2 have "[mint] \<in> set planMints" by (auto simp: result_simps)
    with needed show ?thesis by force
  qed
qed

lemma endedSubscriptionInstructions_Inr:
  assumes "endedSubscriptionInstructions L C D state user ended = Inr is"
  obtains closes revokes needed where "is = closes @ revokes"
    "mintsInUse L C D state user (ps_subscription ` set ended) = Inr needed"
    "closes = map (\<lambda>p. RevokeSubscription user (ps_plan p) (sub_payer (the (ps_subscriptionState p))) (ps_subscription p))
                (filter (\<lambda>p. ps_subscriptionState p \<noteq> None) ended)"
    "\<And>i. i \<in> set revokes \<Longrightarrow> \<exists>p \<in> set ended. \<exists>t a. entry (ust_tokens state) (ps_paymentToken p) = Inr t
       \<and> ts_authorityState t = Some a \<and> ts_accountState t \<noteq> None \<and> ts_mint t \<notin> needed
       \<and> i = RevokeSubscriptionAuthority (sa_payer a) (ts_mint t) (ts_tokenProgram t) user"
proof -
  let ?f = "\<lambda>p. RevokeSubscription user (ps_plan p) (sub_payer (the (ps_subscriptionState p))) (ps_subscription p)"
  from assms obtain closes needed tokens revokes where
    c: "res_map (closeSubscriptionInstruction user) (filter (\<lambda>p. ps_subscriptionState p \<noteq> None) ended) = Inr closes"
    and n: "mintsInUse L C D state user (ps_subscription ` set ended) = Inr needed"
    and t: "res_map (\<lambda>p. entry (ust_tokens state) (ps_paymentToken p)) ended = Inr tokens"
    and r: "res_map (revokeAuthorityInstruction user)
              (filter (\<lambda>token. ts_authorityState token \<noteq> None \<and> ts_accountState token \<noteq> None
                               \<and> ts_mint token \<notin> needed) tokens) = Inr revokes"
    and "is = closes @ revokes"
    by (auto simp: endedSubscriptionInstructions_def result_simps)
  moreover have "map (\<lambda>x. x) closes = map ?f (filter (\<lambda>p. ps_subscriptionState p \<noteq> None) ended)"
    by (rule res_map_map [OF c]) (auto simp: closeSubscriptionInstruction_def)
  moreover have "\<exists>p \<in> set ended. \<exists>t a. entry (ust_tokens state) (ps_paymentToken p) = Inr t
       \<and> ts_authorityState t = Some a \<and> ts_accountState t \<noteq> None \<and> ts_mint t \<notin> needed
       \<and> i = RevokeSubscriptionAuthority (sa_payer a) (ts_mint t) (ts_tokenProgram t) user" if "i \<in> set revokes" for i
  proof -
    from res_map_mem(2) [OF r that] obtain token where token: "token \<in> set tokens" "ts_accountState token \<noteq> None"
      "ts_mint token \<notin> needed" "revokeAuthorityInstruction user token = Inr i" by auto
    from token(4) obtain a where "ts_authorityState token = Some a"
      "i = RevokeSubscriptionAuthority (sa_payer a) (ts_mint token) (ts_tokenProgram token) user"
      by (auto simp: revokeAuthorityInstruction_def split: option.splits)
    with token res_map_mem(2) [OF t token(1)] show ?thesis by blast
  qed
  ultimately show thesis by (intro that) auto
qed

section \<open>Exit\<close>

lemma getExitInstructions_Inr:
  assumes "getExitInstructions L C D cfg user = Inr is"
  obtains state u plans ended where "fetchUserState L C cfg user = Inr state" "ust_userConfig state = Some u"
    "uc_status u \<noteq> Exited"
    "res_map (\<lambda>t. planState state t (uc_tier u)) (enabledPaymentTokens (uc_paymentTokens u)) = Inr plans"
    "endedSubscriptionInstructions L C D state user plans = Inr ended"
    "map ps_plan plans = map (\<lambda>t. findPlanAddress L t (uc_tier u)) (enabledPaymentTokens (uc_paymentTokens u))"
    "map ps_subscription plans = map (\<lambda>t. findSubscriptionAddress L user t (uc_tier u)) (enabledPaymentTokens (uc_paymentTokens u))"
    "is = withRemainingAccounts (ExitIx user (ust_userConfigAddress state))
            (concat (map (\<lambda>plan. [readonly (ps_plan plan), writable (ps_subscription plan)]) plans)) # ended"
proof -
  from assms obtain state u plans ended where *: "fetchUserState L C cfg user = Inr state" "ust_userConfig state = Some u"
    "uc_status u \<noteq> Exited"
    "res_map (\<lambda>t. planState state t (uc_tier u)) (enabledPaymentTokens (uc_paymentTokens u)) = Inr plans"
    "endedSubscriptionInstructions L C D state user plans = Inr ended"
    "is = withRemainingAccounts (ExitIx user (ust_userConfigAddress state))
            (concat (map (\<lambda>plan. [readonly (ps_plan plan), writable (ps_subscription plan)]) plans)) # ended"
    by (auto simp: getExitInstructions_def result_simps)
  have "map ps_plan plans = map (\<lambda>t. findPlanAddress L t (uc_tier u)) (enabledPaymentTokens (uc_paymentTokens u))"
    "map ps_subscription plans = map (\<lambda>t. findSubscriptionAddress L user t (uc_tier u)) (enabledPaymentTokens (uc_paymentTokens u))"
    using planState_addresses [OF *(1)] by (auto intro!: res_map_map [OF *(4)])
  with * show thesis by (intro that)
qed

lemma fetchUserState_address:
  "fetchUserState L C cfg user = Inr state \<Longrightarrow> ust_userConfigAddress state = findUserConfigPda L user"
  by (auto simp: fetchUserState_def Let_def result_simps split: option.splits)

section \<open>A concrete exit\<close>

text \<open>The user's delegations: the running subscription and a recurring one to another merchant.\<close>

definition demoDelegations :: delegations where
  "demoDelegations user =
     [SubscriptionDelegation ''PLAN1:U''
        \<lparr>sub_delegatee = ''P'', sub_payer = ''S'', sub_initId = 4, sub_amount = 10000000,
         sub_periodHours = 168, sub_amountPulledInPeriod = 3000000, sub_currentPeriodStartTs = 1000,
         sub_expiresAtTs = 0\<rparr> ''PLAN1'',
      RecurringDelegation ''D2'' ''USDC'' 0,
      FixedDelegation ''D3'' ''USDT'' 1999 5]"

definition demoExit :: "instruction list" where
  "demoExit =
     [WithRemainingAccounts (ExitIx ''U'' ''@userU'')
        [readonly ''PLAN1'', writable ''PLAN1:U'', readonly ''PLAN3'', writable ''PLAN3:U''],
      RevokeSubscription ''U'' ''PLAN1'' ''S'' ''PLAN1:U'',
      RevokeSubscriptionAuthority ''S'' ''USDT'' ''TOK'' ''U'']"

lemma demo_exit: "getExitInstructions demoLib demoCluster demoDelegations demoConfig ''U'' = Inr demoExit"
  unfolding getExitInstructions_def demo_fetched by code_simp

lemma demo_state: "ust_userConfig demoState = Some demoUser" "ust_now demoState = 2000"
  "uc_tier demoUser = 0" "uc_paymentTokens demoUser = 3"
  by (simp_all add: demoState_def demoUser_def)

lemma concat_pairs: "map f xs = map f' ts \<Longrightarrow> map g xs = map g' ts \<Longrightarrow>
   concat (map (\<lambda>x. [a (f x), b (g x)]) xs) = concat (map (\<lambda>t. [a (f' t), b (g' t)]) ts)"
proof (induction xs arbitrary: ts)
  case (Cons x xs)
  then show ?case by (cases ts) auto
qed simp

text \<open>
  An exit passes the program every enabled token's plan and subscription at their derived
  addresses, and closes every one of those subscriptions that still exists, its rent to the payer
  the subscription recorded.
\<close>

theorem exit_ends_every_subscription:
  assumes "getExitInstructions L C D cfg user = Inr is"
    "fetchUserState L C cfg user = Inr state" "ust_userConfig state = Some u"
  shows "hd is = withRemainingAccounts (ExitIx user (findUserConfigPda L user))
       (concat (map (\<lambda>t. [readonly (findPlanAddress L t (uc_tier u)),
                          writable (findSubscriptionAddress L user t (uc_tier u))])
          (enabledPaymentTokens (uc_paymentTokens u))))
     \<and> (\<forall>t \<in> set (enabledPaymentTokens (uc_paymentTokens u)). \<forall>p s.
          planState state t (uc_tier u) = Inr p \<longrightarrow> ps_subscriptionState p = Some s \<longrightarrow>
          RevokeSubscription user (findPlanAddress L t (uc_tier u)) (sub_payer s)
            (findSubscriptionAddress L user t (uc_tier u)) \<in> set (tl is))"
proof -
  from assms(1) obtain plans ended where plans:
    "res_map (\<lambda>t. planState state t (uc_tier u)) (enabledPaymentTokens (uc_paymentTokens u)) = Inr plans"
    "map ps_plan plans = map (\<lambda>t. findPlanAddress L t (uc_tier u)) (enabledPaymentTokens (uc_paymentTokens u))"
    "map ps_subscription plans = map (\<lambda>t. findSubscriptionAddress L user t (uc_tier u)) (enabledPaymentTokens (uc_paymentTokens u))"
    and ended: "endedSubscriptionInstructions L C D state user plans = Inr ended"
    and "is": "is = withRemainingAccounts (ExitIx user (ust_userConfigAddress state))
            (concat (map (\<lambda>plan. [readonly (ps_plan plan), writable (ps_subscription plan)]) plans)) # ended"
    by (rule getExitInstructions_Inr) (use assms(2,3) in auto)
  have "RevokeSubscription user (findPlanAddress L t (uc_tier u)) (sub_payer s)
      (findSubscriptionAddress L user t (uc_tier u)) \<in> set ended"
    if t: "t \<in> set (enabledPaymentTokens (uc_paymentTokens u))" "planState state t (uc_tier u) = Inr p"
      "ps_subscriptionState p = Some s" for t p s
  proof -
    from res_map_mem(1) [OF plans(1) t(1)] t(2) have "p \<in> set plans" by auto
    with t(3) have "RevokeSubscription user (ps_plan p) (sub_payer s) (ps_subscription p) \<in> set ended"
      by (rule_tac endedSubscriptionInstructions_Inr [OF ended]) force
    with planState_addresses [OF assms(2) t(2)] show ?thesis by simp
  qed
  with "is" fetchUserState_address [OF assms(2)] concat_pairs [OF plans(2,3), of readonly writable]
  show ?thesis by simp
qed

theorem exit_ends_every_subscription_witness:
  "RevokeSubscription ''U'' ''PLAN1'' ''S'' ''PLAN1:U'' \<in> set (tl demoExit)"
proof -
  let ?s = "the (ps_subscriptionState (demoPlanState 0 0))"
  have at: "findPlanAddress demoLib 0 0 = ''PLAN1''" "findSubscriptionAddress demoLib ''U'' 0 0 = ''PLAN1:U''"
    "sub_payer ?s = ''S''" by code_simp+
  have "RevokeSubscription ''U'' (findPlanAddress demoLib 0 (uc_tier demoUser)) (sub_payer ?s)
      (findSubscriptionAddress demoLib ''U'' 0 (uc_tier demoUser)) \<in> set (tl demoExit)"
    by (rule exit_ends_every_subscription [OF demo_exit demo_fetched demo_state(1), THEN conjunct2, rule_format])
      code_simp+
  then show ?thesis by (simp only: at demo_state)
qed

text \<open>
  An exit revokes a Subscriptions authority only when nothing else of the user still draws on
  that mint: no delegation other than the subscriptions the exit ends, to any merchant, is a live
  fixed or recurring delegation in the mint or a running subscription to a plan in it.
\<close>

theorem exit_keeps_used_approvals:
  assumes "getExitInstructions L C D cfg user = Inr is"
    "fetchUserState L C cfg user = Inr state" "ust_userConfig state = Some u"
    "RevokeSubscriptionAuthority receiver mint tokenProgram owner \<in> set is"
    "d \<in> set (D user)"
    "dg_address d \<notin> (\<lambda>t. findSubscriptionAddress L user t (uc_tier u)) ` set (enabledPaymentTokens (uc_paymentTokens u))"
  shows "\<not> drawsOn L C (ust_now state) d mint"
proof
  assume draws: "drawsOn L C (ust_now state) d mint"
  from assms(1) obtain plans ended where plans:
    "map ps_subscription plans = map (\<lambda>t. findSubscriptionAddress L user t (uc_tier u)) (enabledPaymentTokens (uc_paymentTokens u))"
    and ended: "endedSubscriptionInstructions L C D state user plans = Inr ended"
    and "is": "is = withRemainingAccounts (ExitIx user (ust_userConfigAddress state))
            (concat (map (\<lambda>plan. [readonly (ps_plan plan), writable (ps_subscription plan)]) plans)) # ended"
    by (rule getExitInstructions_Inr) (use assms(2,3) in auto)
  from ended obtain closes revokes needed where e: "ended = closes @ revokes"
    "mintsInUse L C D state user (ps_subscription ` set plans) = Inr needed"
    "closes = map (\<lambda>p. RevokeSubscription user (ps_plan p) (sub_payer (the (ps_subscriptionState p))) (ps_subscription p))
                (filter (\<lambda>p. ps_subscriptionState p \<noteq> None) plans)"
    "\<And>i. i \<in> set revokes \<Longrightarrow> \<exists>p \<in> set plans. \<exists>t a. entry (ust_tokens state) (ps_paymentToken p) = Inr t
       \<and> ts_authorityState t = Some a \<and> ts_accountState t \<noteq> None \<and> ts_mint t \<notin> needed
       \<and> i = RevokeSubscriptionAuthority (sa_payer a) (ts_mint t) (ts_tokenProgram t) user"
    by (rule endedSubscriptionInstructions_Inr) blast
  from assms(4) have "RevokeSubscriptionAuthority receiver mint tokenProgram owner \<in> set revokes"
    by (auto simp: "is" e(1,3) withRemainingAccounts_def)
  from e(4) [OF this] have "mint \<notin> needed" by auto
  moreover have "dg_address d \<notin> ps_subscription ` set plans"
    using assms(6) plans by (metis list.set_map)
  ultimately show False using mintsInUse_complete [OF e(2) assms(5) _ draws] by simp
qed

theorem exit_keeps_used_approvals_witness:
  "\<not> drawsOn demoLib demoCluster 2000 (FixedDelegation ''D3'' ''USDT'' 1999 5) ''USDT''"
proof -
  have "RevokeSubscriptionAuthority ''S'' ''USDT'' ''TOK'' ''U'' \<in> set demoExit"
    "FixedDelegation ''D3'' ''USDT'' 1999 5 \<in> set (demoDelegations ''U'')"
    "dg_address (FixedDelegation ''D3'' ''USDT'' 1999 5)
       \<notin> (\<lambda>t. findSubscriptionAddress demoLib ''U'' t 0) ` set (enabledPaymentTokens 3)"
    by code_simp+
  from exit_keeps_used_approvals [OF demo_exit demo_fetched demo_state(1) this [folded demo_state(3,4)]]
  show ?thesis unfolding demo_state .
qed

section \<open>A tier change\<close>

lemma res_map_related:
  assumes "res_map f xs = Inr ys"
    "\<And>x y. x \<in> set xs \<Longrightarrow> f x = Inr y \<Longrightarrow> \<exists>z. g x = Inr z \<and> h z = k y"
  shows "\<exists>zs. res_map g xs = Inr zs \<and> map h zs = map k ys"
  using assms
proof (induction xs arbitrary: ys)
  case (Cons x xs)
  then obtain y ys' where y: "f x = Inr y" "res_map f xs = Inr ys'" "ys = y # ys'" by (auto simp: result_simps)
  from Cons.IH [OF y(2)] Cons.prems(2) obtain zs where "res_map g xs = Inr zs" "map h zs = map k ys'" by auto
  moreover from Cons.prems(2) [of x y] y(1) obtain z where "g x = Inr z" "h z = k y" by auto
  ultimately show ?case using y(3) by simp
qed simp

lemma closeSubscription_Inr:
  "closeSubscriptionInstruction user p = Inr c \<Longrightarrow>
   \<exists>payer. c = RevokeSubscription user (ps_plan p) payer (ps_subscription p)"
  by (auto simp: closeSubscriptionInstruction_def split: option.splits)

lemma tierChangeStep_Inr:
  assumes "fetchUserState L C cfg (ci_user i) = Inr state"
    "tierChangeStep L i state old tier t = Inr (is, accounts, closes)"
  obtains nextPlan where "tokenSubscription L state (ci_payers i) (ci_sponsor i) (ci_user i) t tier = Inr (nextPlan, is)"
    "accounts = [readonly (findPlanAddress L t old), writable (findSubscriptionAddress L (ci_user i) t old),
                 readonly (findSubscriptionAddress L (ci_user i) t tier)]"
    "\<And>c. c \<in> set closes \<Longrightarrow> \<exists>payer. c = RevokeSubscription (ci_user i) (findPlanAddress L t old) payer
                                   (findSubscriptionAddress L (ci_user i) t old)"
proof -
  from assms(2) obtain current nextPlan where *: "planState state t old = Inr current"
    "tokenSubscription L state (ci_payers i) (ci_sponsor i) (ci_user i) t tier = Inr (nextPlan, is)"
    "accounts = [readonly (ps_plan current), writable (ps_subscription current), readonly (ps_subscription nextPlan)]"
    "\<And>c. c \<in> set closes \<Longrightarrow> closeSubscriptionInstruction (ci_user i) current = Inr c"
    by (auto simp: tierChangeStep_def result_simps split: if_splits)
  from *(2) obtain token where "planState state t tier = Inr nextPlan" by (rule tokenSubscription_Inr)
  from planState_addresses [OF assms(1) this] planState_addresses [OF assms(1) *(1)] * closeSubscription_Inr [OF *(4)]
  show thesis by (intro that) simp_all
qed

text \<open>
  A tier change is built only for another tier whose cap is within the beta's cap and at least
  the user's engine amount. First come the instructions that make a live subscription to the new
  tier's plan for every enabled token, then \<open>change_tier\<close> over each token's old plan, old
  subscription and new subscription at their derived addresses, and only then the old
  subscriptions are closed.
\<close>

theorem tier_change_order:
  assumes "getChangeTierInstructions L C i tier = Inr is"
    "fetchUserState L C (ci_config i) (ci_user i) = Inr state" "ust_userConfig state = Some u"
  shows "\<exists>cap lives closes. nth_opt TIERS tier = Some cap \<and> tier \<noteq> uc_tier u
     \<and> cap \<le> userWeeklyCap (ci_config i) \<and> uc_engineAmount u \<le> cap
     \<and> res_map (\<lambda>t. tokenSubscription L state (ci_payers i) (ci_sponsor i) (ci_user i) t tier)
          (enabledPaymentTokens (uc_paymentTokens u)) = Inr lives
     \<and> is = concat (map snd lives)
          @ [withRemainingAccounts (ChangeTierIx tier (ci_user i) (findUserConfigPda L (ci_user i)))
               (concat (map (\<lambda>t. [readonly (findPlanAddress L t (uc_tier u)),
                                 writable (findSubscriptionAddress L (ci_user i) t (uc_tier u)),
                                 readonly (findSubscriptionAddress L (ci_user i) t tier)])
                  (enabledPaymentTokens (uc_paymentTokens u))))]
          @ closes
     \<and> (\<forall>c \<in> set closes. \<exists>t \<in> set (enabledPaymentTokens (uc_paymentTokens u)). \<exists>payer.
          c = RevokeSubscription (ci_user i) (findPlanAddress L t (uc_tier u)) payer
                (findSubscriptionAddress L (ci_user i) t (uc_tier u)))"
proof -
  let ?ts = "enabledPaymentTokens (uc_paymentTokens u)"
  let ?step = "tierChangeStep L i state (uc_tier u) tier"
  let ?live = "\<lambda>t. tokenSubscription L state (ci_payers i) (ci_sponsor i) (ci_user i) t tier"
  let ?accounts = "\<lambda>t. [readonly (findPlanAddress L t (uc_tier u)),
      writable (findSubscriptionAddress L (ci_user i) t (uc_tier u)),
      readonly (findSubscriptionAddress L (ci_user i) t tier)]"
  from assms obtain cap steps where cap: "nth_opt TIERS tier = Some cap" "tier \<noteq> uc_tier u"
      "cap \<le> userWeeklyCap (ci_config i)" "uc_engineAmount u \<le> cap"
    and steps: "res_map ?step ?ts = Inr steps"
    and "is": "is = concat (map fst steps)
      @ [withRemainingAccounts (ChangeTierIx tier (ci_user i) (ust_userConfigAddress state)) (concat (map (fst \<circ> snd) steps))]
      @ concat (map (snd \<circ> snd) steps)"
    by (auto simp: getChangeTierInstructions_def result_simps split: option.splits)
  from res_map_related [OF steps, of ?live snd fst]
  obtain lives where lives: "res_map ?live ?ts = Inr lives" "map snd lives = map fst steps"
    by (force elim: tierChangeStep_Inr [OF assms(2)])
  have accounts: "map (fst \<circ> snd) steps = map ?accounts ?ts"
    by (rule res_map_map [OF steps]) (auto elim: tierChangeStep_Inr [OF assms(2)])
  have closes: "\<exists>t \<in> set ?ts. \<exists>payer. c = RevokeSubscription (ci_user i) (findPlanAddress L t (uc_tier u)) payer
                (findSubscriptionAddress L (ci_user i) t (uc_tier u))"
    if "c \<in> set (concat (map (snd \<circ> snd) steps))" for c
  proof -
    from that obtain y where y: "y \<in> set steps" "c \<in> set (snd (snd y))" by auto
    from res_map_mem(2) [OF steps y(1)] obtain t where "t \<in> set ?ts" "?step t = Inr (fst y, fst (snd y), snd (snd y))"
      by auto
    with y(2) show ?thesis by (metis tierChangeStep_Inr [OF assms(2)])
  qed
  show ?thesis
    using cap lives accounts closes "is" fetchUserState_address [OF assms(2)]
    by (intro exI [of _ cap] exI [of _ lives] exI [of _ "concat (map (snd \<circ> snd) steps)"]) (simp add: comp_def)
qed

definition demoControl :: control_input where
  "demoControl = \<lparr>ci_config = demoConfig, ci_payers = [], ci_sponsor = ''S'', ci_user = ''U''\<rparr>"

lemma demo_control: "ci_config demoControl = demoConfig" "ci_user demoControl = ''U''"
  by (simp_all add: demoControl_def)

definition demoTierChange :: "instruction list" where
  "demoTierChange = (case getChangeTierInstructions demoLib demoCluster demoControl 1 of Inl _ \<Rightarrow> [] | Inr is \<Rightarrow> is)"

lemma demo_tier_change: "getChangeTierInstructions demoLib demoCluster demoControl 1 = Inr demoTierChange"
  unfolding demoTierChange_def getChangeTierInstructions_def demo_control demo_fetched by code_simp

theorem tier_change_order_witness:
  "\<exists>lives closes. demoTierChange = concat lives
     @ [withRemainingAccounts (ChangeTierIx 1 ''U'' ''@userU'')
          [readonly ''PLAN1'', writable ''PLAN1:U'', readonly ''PLAN2:U'',
           readonly ''PLAN3'', writable ''PLAN3:U'', readonly ''PLAN4:U'']] @ closes"
proof -
  have at: "findUserConfigPda demoLib ''U'' = ''@userU''"
    "concat (map (\<lambda>t. [readonly (findPlanAddress demoLib t 0), writable (findSubscriptionAddress demoLib ''U'' t 0),
        readonly (findSubscriptionAddress demoLib ''U'' t 1)]) (enabledPaymentTokens 3))
     = [readonly ''PLAN1'', writable ''PLAN1:U'', readonly ''PLAN2:U'',
        readonly ''PLAN3'', writable ''PLAN3:U'', readonly ''PLAN4:U'']"
    by code_simp+
  note demo_fetched [folded demo_control]
  from tier_change_order [OF demo_tier_change this demo_state(1)] show ?thesis
    unfolding demo_state demo_control at by (elim exE conjE) (rule exI, rule exI, assumption)
qed

section \<open>A payment-token change\<close>

lemma xor_enabled:
  "enabledPaymentTokens (a XOR b) = filter (\<lambda>t. hasToken a t \<noteq> hasToken b t) [0, 1]"
  by (simp add: enabledPaymentTokens_def hasToken_bit bit_simps)

text \<open>
  A payment-token change passes the program, per token the masks differ in and in order, the new
  subscription of an added token, or the plan and the ended subscription of a dropped one, at their
  derived addresses; what closes and revokes comes after it and concerns the dropped tokens only.
\<close>

theorem payment_token_change_accounts:
  assumes "getChangePaymentTokensInstructions L C D i m = Inr is"
    "fetchUserState L C (ci_config i) (ci_user i) = Inr state" "ust_userConfig state = Some u"
  shows "\<exists>before dropped ended. m \<noteq> 0
     \<and> is = before
          @ [withRemainingAccounts (ChangePaymentTokensIx m (ci_user i) (findUserConfigPda L (ci_user i)))
               (concat (map (\<lambda>t. if hasToken m t then [readonly (findSubscriptionAddress L (ci_user i) t (uc_tier u))]
                                 else [readonly (findPlanAddress L t (uc_tier u)),
                                       writable (findSubscriptionAddress L (ci_user i) t (uc_tier u))])
                  (filter (\<lambda>t. hasToken (uc_paymentTokens u) t \<noteq> hasToken m t) [0, 1])))]
          @ ended
     \<and> endedSubscriptionInstructions L C D state (ci_user i) dropped = Inr ended
     \<and> map ps_subscription dropped = map (\<lambda>t. findSubscriptionAddress L (ci_user i) t (uc_tier u))
          (filter (\<lambda>t. hasToken (uc_paymentTokens u) t \<and> \<not> hasToken m t) [0, 1])"
proof -
  let ?ts = "enabledPaymentTokens (uc_paymentTokens u XOR m)"
  let ?step = "tokenChangeStep L i state (uc_tier u) m"
  let ?sub = "\<lambda>t. findSubscriptionAddress L (ci_user i) t (uc_tier u)"
  let ?accounts = "\<lambda>t. if hasToken m t then [readonly (?sub t)]
      else [readonly (findPlanAddress L t (uc_tier u)), writable (?sub t)]"
  from assms obtain steps ended where steps: "res_map ?step ?ts = Inr steps" and "m \<noteq> 0"
    and ended: "endedSubscriptionInstructions L C D state (ci_user i) (concat (map (snd \<circ> snd) steps)) = Inr ended"
    and "is": "is = concat (map fst steps)
          @ [withRemainingAccounts (ChangePaymentTokensIx m (ci_user i) (ust_userConfigAddress state))
               (concat (map (fst \<circ> snd) steps))] @ ended"
    by (auto simp: getChangePaymentTokensInstructions_def result_simps)
  note addresses = planState_addresses [OF assms(2)]
  have "map (fst \<circ> snd) steps = map ?accounts ?ts"
    using addresses by (intro res_map_map [OF steps])
      (auto simp: tokenChangeStep_def result_simps elim!: tokenSubscription_Inr split: if_splits)
  moreover have "map (map ps_subscription \<circ> (snd \<circ> snd)) steps = map (\<lambda>t. if hasToken m t then [] else [?sub t]) ?ts"
    using addresses by (intro res_map_map [OF steps])
      (auto simp: tokenChangeStep_def result_simps elim!: tokenSubscription_Inr split: if_splits)
  then have "concat (map (map ps_subscription \<circ> (snd \<circ> snd)) steps) = concat (map (\<lambda>t. if hasToken m t then [] else [?sub t]) ?ts)"
    by simp
  then have "map ps_subscription (concat (map (snd \<circ> snd) steps))
      = map ?sub (filter (\<lambda>t. hasToken (uc_paymentTokens u) t \<and> \<not> hasToken m t) [0, 1])"
    by (auto simp: map_concat xor_enabled comp_def)
  ultimately show ?thesis
    using \<open>m \<noteq> 0\<close> ended "is" fetchUserState_address [OF assms(2)] xor_enabled [of "uc_paymentTokens u" m]
    by (intro exI [of _ "concat (map fst steps)"] exI [of _ "concat (map (snd \<circ> snd) steps)"] exI [of _ ended]) simp
qed

definition demoTokenChange :: "instruction list" where
  "demoTokenChange =
     (case getChangePaymentTokensInstructions demoLib demoCluster demoDelegations demoControl 1 of Inl _ \<Rightarrow> [] | Inr is \<Rightarrow> is)"

lemma demo_token_change:
  "getChangePaymentTokensInstructions demoLib demoCluster demoDelegations demoControl 1 = Inr demoTokenChange"
  unfolding demoTokenChange_def getChangePaymentTokensInstructions_def demo_control demo_fetched by code_simp

theorem payment_token_change_accounts_witness:
  "\<exists>before ended. demoTokenChange = before
     @ [withRemainingAccounts (ChangePaymentTokensIx 1 ''U'' ''@userU'') [readonly ''PLAN3'', writable ''PLAN3:U'']]
     @ ended"
proof -
  have at: "findUserConfigPda demoLib ''U'' = ''@userU''"
    "concat (map (\<lambda>t. if hasToken 1 t then [readonly (findSubscriptionAddress demoLib ''U'' t 0)]
                     else [readonly (findPlanAddress demoLib t 0), writable (findSubscriptionAddress demoLib ''U'' t 0)])
       (filter (\<lambda>t. hasToken 3 t \<noteq> hasToken 1 t) [0, 1])) = [readonly ''PLAN3'', writable ''PLAN3:U'']"
    by code_simp+
  note demo_fetched [folded demo_control]
  from payment_token_change_accounts [OF demo_token_change this demo_state(1)] show ?thesis
    unfolding demo_state demo_control at by (elim exE conjE) (rule exI, rule exI, assumption)
qed

end
