(* ===== verification/Jupiter.thy ===== *)
theory Jupiter
  imports Sweep_Builder Demo_Cluster
begin

text \<open>
  A sweep's route from Jupiter (\<open>node/jupiter.ts\<close>). The Swap API is an argument: the response it gives
  to a request. So are the parsers of addresses, base64 and decimal numbers. The lemmas say what a
  route that passes the checks can and cannot do.
\<close>

section \<open>The code: a response\<close>

definition JUPITER_PROGRAM_ADDRESS :: address where
  "JUPITER_PROGRAM_ADDRESS = ''JUP6LkbZbjS1jKKwapdHNy74zcZ3tLUZoi5QNyVTaV4''"

definition ROUTE_V2 :: bytes where
  "ROUTE_V2 = [0xbb, 0x64, 0xfa, 0xcc, 0x31, 0xc4, 0xaf, 0x14]"

record api_account =
  aa_isSigner :: bool
  aa_isWritable :: bool
  aa_pubkey :: string

record api_instruction =
  ai_accounts :: "api_account list"
  ai_data :: string
  ai_programId :: string

record swap_info =
  si_inputMint :: string
  si_label :: "string option"
  si_outputMint :: string

record jupiter_response =
  jr_lookupTables :: "(string \<times> string list) list"
  jr_fetchedAt :: "int option"
  jr_inAmount :: string
  jr_otherAmountThreshold :: string
  jr_outAmount :: string
  jr_platformFee :: "string option"
  jr_routePlan :: "swap_info list"
  jr_setupInstructions :: "api_instruction list"
  jr_swapInstruction :: api_instruction

text \<open>\<open>address\<close>, the base64 encoder and \<open>BigInt\<close>, each of which throws on a string it cannot read.\<close>

record parsers =
  parseAddress :: "string \<Rightarrow> address outcome"
  parseBase64 :: "string \<Rightarrow> bytes outcome"
  parseBigInt :: "string \<Rightarrow> int outcome"

record jupiter_swap =
  js_instructions :: "route_instruction list"
  js_lookupTables :: "(address \<times> address list) list"
  js_otherAmountThreshold :: int
  js_outAmount :: int
  js_response :: jupiter_response
  js_swap :: route_instruction

definition toAccountMeta :: "parsers \<Rightarrow> api_account \<Rightarrow> account_meta outcome" where
  "toAccountMeta P a =
     res_bind (parseAddress P (aa_pubkey a)) (\<lambda>address.
     Inr \<lparr>meta_address = address,
          meta_role = (if aa_isSigner a then if aa_isWritable a then WritableSigner else ReadonlySigner
                       else if aa_isWritable a then Writable else Readonly)\<rparr>)"

definition toInstruction :: "parsers \<Rightarrow> api_instruction \<Rightarrow> route_instruction outcome" where
  "toInstruction P i =
     res_bind (res_map (toAccountMeta P) (ai_accounts i)) (\<lambda>accounts.
     res_bind (parseBase64 P (ai_data i)) (\<lambda>data.
     res_bind (parseAddress P (ai_programId i)) (\<lambda>program.
     Inr \<lparr>route_programAddress = program, route_accounts = accounts, route_data = data\<rparr>)))"

definition toJupiterSwap :: "parsers \<Rightarrow> jupiter_response \<Rightarrow> jupiter_swap outcome" where
  "toJupiterSwap P r =
     res_bind (res_map (\<lambda>(table, entries). res_bind (parseAddress P table) (\<lambda>t.
                 res_bind (res_map (parseAddress P) entries) (\<lambda>es. Inr (t, es)))) (jr_lookupTables r)) (\<lambda>tables.
     res_bind (toInstruction P (jr_swapInstruction r)) (\<lambda>swap.
     res_bind (res_map (toInstruction P) (jr_setupInstructions r)) (\<lambda>setup.
     res_bind (parseBigInt P (jr_otherAmountThreshold r)) (\<lambda>threshold.
     res_bind (parseBigInt P (jr_outAmount r)) (\<lambda>out.
     Inr \<lparr>js_instructions = setup @ [swap], js_lookupTables = tables, js_otherAmountThreshold = threshold,
          js_outAmount = out, js_response = r, js_swap = swap\<rparr>)))))"

section \<open>The code: the route\<close>

definition isSignerRole :: "account_role \<Rightarrow> bool" where
  "isSignerRole r = (r = ReadonlySigner \<or> r = WritableSigner)"

definition isWritableRole :: "account_role \<Rightarrow> bool" where
  "isWritableRole r = (r = Writable \<or> r = WritableSigner)"

definition getJupiterSweepRoute :: "parsers \<Rightarrow> jupiter_swap \<Rightarrow> int \<Rightarrow> address \<Rightarrow> route_instruction outcome" where
  "getJupiterSweepRoute P s amount swapAuthority =
     (let response = js_response s; route = js_swap s; data = route_data route
      in res_guard (route_programAddress route \<noteq> JUPITER_PROGRAM_ADDRESS \<or> length data < 30 \<or> take 8 data \<noteq> ROUTE_V2)
           (PlainError ''Not a Jupiter route_v2 instruction'') (
         res_guard (le_uint (js_slice 8 16 data) \<noteq> amount)
           (PlainError ''The route does not spend exactly the pull'') (
         res_bind (parseBigInt P (jr_inAmount response)) (\<lambda>inAmount.
         res_guard (inAmount \<noteq> amount) (PlainError ''The route does not spend exactly the pull'') (
         res_guard (le_uint (js_slice 26 28 data) \<noteq> 0 \<or> le_uint (js_slice 28 30 data) \<noteq> 0)
           (PlainError ''The route charges a fee'') (
         res_bind (case jr_platformFee response of None \<Rightarrow> Inr 0 | Some fee \<Rightarrow> parseBigInt P fee) (\<lambda>fee.
         res_guard (fee \<noteq> 0) (PlainError ''The route charges a fee'') (
         res_guard (\<exists>m \<in> set (route_accounts route). isSignerRole (meta_role m) \<and> meta_address m \<noteq> swapAuthority)
           (PlainError ''The route has another signer'') (
         Inr route)))))))))"

definition isAssociatedTokenAccountCreation :: "address \<Rightarrow> u8 \<Rightarrow> route_instruction \<Rightarrow> bool" where
  "isAssociatedTokenAccountCreation program discriminator i =
     (route_programAddress i = program \<and> route_data i = [discriminator])"

text \<open>The constants the code takes from \<open>@solana-program/token\<close> and \<open>@solana-program/token-2022\<close>.\<close>

record token_programs =
  ASSOCIATED_TOKEN_PROGRAM_ADDRESS :: address
  CREATE_ASSOCIATED_TOKEN_IDEMPOTENT_DISCRIMINATOR :: u8
  TOKEN_PROGRAM_ADDRESS :: address
  TOKEN_2022_PROGRAM_ADDRESS :: address

record jupiter_build_params =
  jb_amount :: int
  jb_destinationTokenAccount :: address
  jb_dexes :: "string list option"
  jb_excludeDexes :: "string list option"
  jb_inputMint :: address
  jb_maxAccounts :: int
  jb_outputMint :: address
  jb_slippageBps :: int
  jb_taker :: address

record sweep_route_input =
  sr_amount :: int
  sr_assetMint :: address
  sr_crank :: address
  sr_dexes :: "string list option"
  sr_excludeDexes :: "string list option"
  sr_paymentMint :: address
  sr_swapAuthority :: address
  sr_userAssetAccount :: address

definition sweepBuildParams :: "sweep_route_input \<Rightarrow> jupiter_build_params" where
  "sweepBuildParams i =
     \<lparr>jb_amount = sr_amount i, jb_destinationTokenAccount = sr_userAssetAccount i, jb_dexes = sr_dexes i,
      jb_excludeDexes = sr_excludeDexes i, jb_inputMint = sr_paymentMint i, jb_maxAccounts = 40,
      jb_outputMint = sr_assetMint i, jb_slippageBps = SLIPPAGE_BPS, jb_taker = sr_swapAuthority i\<rparr>"

text \<open>\<open>[...new Set(xs)]\<close>: each value once, where it first occurs.\<close>

fun distinct_order :: "'a list \<Rightarrow> 'a list" where
  "distinct_order [] = []"
| "distinct_order (x # xs) = x # filter (\<lambda>y. y \<noteq> x) (distinct_order xs)"

text \<open>The entries of \<open>swapAccounts\<close>: the swap authority's account in each mint under each program.\<close>

definition swapAuthorityAccounts ::
    "lib \<Rightarrow> token_programs \<Rightarrow> address \<Rightarrow> address list \<Rightarrow> (address \<times> (address \<times> address \<times> address)) list" where
  "swapAuthorityAccounts L T owner mints =
     concat (map (\<lambda>mint. map (\<lambda>program. let account = findAssociatedTokenPda L mint owner program
                                        in (account, (account, mint, program)))
                    [TOKEN_PROGRAM_ADDRESS T, TOKEN_2022_PROGRAM_ADDRESS T]) mints)"

text \<open>A later \<open>set\<close> of the same key overrides an earlier one.\<close>

definition writtenSwapAccounts ::
    "route_instruction \<Rightarrow> (address \<times> (address \<times> address \<times> address)) list \<Rightarrow> (address \<times> address \<times> address) list" where
  "writtenSwapAccounts route swapAccounts =
     concat (map (\<lambda>a. case map_of (rev swapAccounts) a of None \<Rightarrow> [] | Some x \<Rightarrow> [x])
       (distinct_order (map meta_address (filter (\<lambda>m. isWritableRole (meta_role m)) (route_accounts route)))))"

record built_route =
  br_outAmount :: int
  br_quotedAt :: "int option"
  br_route :: route_instruction
  br_venues :: "string list"

definition buildJupiterSweepRoute ::
    "parsers \<Rightarrow> lib \<Rightarrow> token_programs \<Rightarrow> cluster \<Rightarrow> (jupiter_build_params \<Rightarrow> jupiter_response outcome)
     \<Rightarrow> sweep_route_input \<Rightarrow> built_route outcome" where
  "buildJupiterSweepRoute P L T C jupiter i =
     res_bind (jupiter (sweepBuildParams i)) (\<lambda>response.
     res_bind (toJupiterSwap P response) (\<lambda>swap.
     res_bind (getJupiterSweepRoute P swap (sr_amount i) (sr_swapAuthority i)) (\<lambda>route.
     res_guard (\<exists>m \<in> set (route_accounts route). meta_address m = sr_crank i)
       (PlainError ''The route names the crank, whose signature it would need'') (
     res_guard (\<exists>setup \<in> set (butlast (js_instructions swap)). \<not> isAssociatedTokenAccountCreation
                  (ASSOCIATED_TOKEN_PROGRAM_ADDRESS T) (CREATE_ASSOCIATED_TOKEN_IDEMPOTENT_DISCRIMINATOR T) setup)
       (PlainError ''The route needs another setup than accounts'') (
     let plan = jr_routePlan response;
         named = distinct_order (concat (map (\<lambda>s. [si_inputMint s, si_outputMint s]) plan))
     in res_bind (res_map (parseAddress P) named) (\<lambda>mints.
        let written = writtenSwapAccounts route (swapAuthorityAccounts L T (sr_swapAuthority i) mints);
            missing = filter (\<lambda>(account, _, _). C account = None) written
        in res_guard (missing \<noteq> []) (SwapAuthorityAccountsRequiredError missing) (
           Inr \<lparr>br_outAmount = js_outAmount swap, br_quotedAt = jr_fetchedAt response, br_route = route,
                br_venues = distinct_order (concat (map (\<lambda>s. case si_label s of None \<Rightarrow> [] | Some l \<Rightarrow> [l]) plan))\<rparr>)))))))"

section \<open>What a route that passes can do\<close>

lemma distinct_order_set [simp]: "set (distinct_order xs) = set xs"
  by (induction xs) auto

lemma distinct_order_distinct [simp]: "distinct (distinct_order xs)"
  by (induction xs) auto

lemma getJupiterSweepRoute_Inr:
  assumes "getJupiterSweepRoute P s amount swapAuthority = Inr route"
  shows "route = js_swap s" "route_programAddress route = JUPITER_PROGRAM_ADDRESS" "30 \<le> length (route_data route)"
    "take 8 (route_data route) = ROUTE_V2" "le_uint (js_slice 8 16 (route_data route)) = amount"
    "parseBigInt P (jr_inAmount (js_response s)) = Inr amount"
    "le_uint (js_slice 26 28 (route_data route)) = 0" "le_uint (js_slice 28 30 (route_data route)) = 0"
    "jr_platformFee (js_response s) = None \<or> parseBigInt P (the (jr_platformFee (js_response s))) = Inr 0"
    "\<And>m. m \<in> set (route_accounts route) \<Longrightarrow> isSignerRole (meta_role m) \<Longrightarrow> meta_address m = swapAuthority"
  using assms
  by (auto simp: getJupiterSweepRoute_def Let_def result_simps split: option.splits)

lemma buildJupiterSweepRoute_Inr:
  assumes "buildJupiterSweepRoute P L T C jupiter i = Inr b"
  obtains response swap mints where "jupiter (sweepBuildParams i) = Inr response"
    "toJupiterSwap P response = Inr swap"
    "getJupiterSweepRoute P swap (sr_amount i) (sr_swapAuthority i) = Inr (br_route b)"
    "\<forall>m \<in> set (route_accounts (br_route b)). meta_address m \<noteq> sr_crank i"
    "\<forall>setup \<in> set (butlast (js_instructions swap)). isAssociatedTokenAccountCreation
       (ASSOCIATED_TOKEN_PROGRAM_ADDRESS T) (CREATE_ASSOCIATED_TOKEN_IDEMPOTENT_DISCRIMINATOR T) setup"
    "res_map (parseAddress P) (distinct_order (concat (map (\<lambda>s. [si_inputMint s, si_outputMint s]) (jr_routePlan response)))) = Inr mints"
    "\<forall>w \<in> set (writtenSwapAccounts (br_route b) (swapAuthorityAccounts L T (sr_swapAuthority i) mints)). \<exists>a. C (fst w) = Some a"
    "br_outAmount b = js_outAmount swap"
  using assms
  by (auto simp: buildJupiterSweepRoute_def Let_def result_simps filter_empty_conv case_prod_beta)

text \<open>The accounts the check covers: those in the map that the route writes.\<close>

lemma written_complete:
  assumes "m \<in> set (route_accounts route)" "isWritableRole (meta_role m)" "mint \<in> set mints"
    "program \<in> {TOKEN_PROGRAM_ADDRESS T, TOKEN_2022_PROGRAM_ADDRESS T}"
    "meta_address m = findAssociatedTokenPda L mint owner program"
  shows "\<exists>w \<in> set (writtenSwapAccounts route (swapAuthorityAccounts L T owner mints)). fst w = meta_address m"
proof -
  let ?e = "swapAuthorityAccounts L T owner mints"
  have keys: "fst (snd p) = fst p" if "p \<in> set ?e" for p
    using that by (auto simp: swapAuthorityAccounts_def Let_def)
  have "meta_address m \<in> fst ` set (rev ?e)"
    using assms(3-5) by (force simp: swapAuthorityAccounts_def Let_def)
  then obtain w where w: "map_of (rev ?e) (meta_address m) = Some w"
    by (metis map_of_eq_None_iff not_None_eq)
  then have "fst w = meta_address m" using map_of_SomeD [OF w] keys by fastforce
  moreover have "meta_address m \<in> set (distinct_order (map meta_address
      (filter (\<lambda>m. isWritableRole (meta_role m)) (route_accounts route))))"
    using assms(1,2) by simp
  from split_list [OF this] obtain before after where eq: "distinct_order (map meta_address
      (filter (\<lambda>m. isWritableRole (meta_role m)) (route_accounts route))) = before @ meta_address m # after" by blast
  have "w \<in> set (writtenSwapAccounts route ?e)" unfolding writtenSwapAccounts_def eq by (simp add: w)
  ultimately show ?thesis by blast
qed

lemma written_sound:
  assumes "w \<in> set (writtenSwapAccounts route (swapAuthorityAccounts L T owner mints))"
  shows "(\<exists>m \<in> set (route_accounts route). isWritableRole (meta_role m) \<and> meta_address m = fst w)
    \<and> (\<exists>mint \<in> set mints. \<exists>program. w = (findAssociatedTokenPda L mint owner program, mint, program))"
proof -
  let ?e = "swapAuthorityAccounts L T owner mints"
  from assms obtain m where m: "m \<in> set (route_accounts route)" "isWritableRole (meta_role m)"
    "map_of (rev ?e) (meta_address m) = Some w"
    by (auto simp: writtenSwapAccounts_def split: option.splits)
  from map_of_SomeD [OF m(3)] have "(meta_address m, w) \<in> set ?e" by simp
  with m show ?thesis by (auto simp: swapAuthorityAccounts_def Let_def)
qed

text \<open>
  A route that is built calls Jupiter's \<open>route_v2\<close>, spends exactly the pull in its data and in
  the quote, charges no platform or positive-slippage fee, is signed by the swap authority only and
  never names the crank; every setup it drops only creates token accounts, and every account of the
  swap authority it writes, in a mint of its plan, exists on the cluster.
\<close>

theorem jupiter_route_checked:
  assumes "buildJupiterSweepRoute P L T C jupiter i = Inr b"
  shows "\<exists>response swap mints. jupiter (sweepBuildParams i) = Inr response \<and> toJupiterSwap P response = Inr swap
     \<and> res_map (parseAddress P) (distinct_order
          (concat (map (\<lambda>s. [si_inputMint s, si_outputMint s]) (jr_routePlan response)))) = Inr mints
     \<and> br_route b = js_swap swap \<and> route_programAddress (br_route b) = JUPITER_PROGRAM_ADDRESS
     \<and> le_uint (js_slice 8 16 (route_data (br_route b))) = sr_amount i
     \<and> parseBigInt P (jr_inAmount response) = Inr (sr_amount i)
     \<and> le_uint (js_slice 26 28 (route_data (br_route b))) = 0
     \<and> le_uint (js_slice 28 30 (route_data (br_route b))) = 0
     \<and> (\<forall>m \<in> set (route_accounts (br_route b)). meta_address m \<noteq> sr_crank i
          \<and> (isSignerRole (meta_role m) \<longrightarrow> meta_address m = sr_swapAuthority i)
          \<and> (isWritableRole (meta_role m) \<longrightarrow> (\<forall>mint \<in> set mints.
               \<forall>program \<in> {TOKEN_PROGRAM_ADDRESS T, TOKEN_2022_PROGRAM_ADDRESS T}.
               meta_address m = findAssociatedTokenPda L mint (sr_swapAuthority i) program \<longrightarrow>
               C (meta_address m) \<noteq> None)))
     \<and> (\<forall>setup \<in> set (butlast (js_instructions swap)). isAssociatedTokenAccountCreation
          (ASSOCIATED_TOKEN_PROGRAM_ADDRESS T) (CREATE_ASSOCIATED_TOKEN_IDEMPOTENT_DISCRIMINATOR T) setup)"
proof -
  from assms obtain response swap mints where b: "jupiter (sweepBuildParams i) = Inr response"
    "toJupiterSwap P response = Inr swap"
    "getJupiterSweepRoute P swap (sr_amount i) (sr_swapAuthority i) = Inr (br_route b)"
    "\<forall>m \<in> set (route_accounts (br_route b)). meta_address m \<noteq> sr_crank i"
    "\<forall>setup \<in> set (butlast (js_instructions swap)). isAssociatedTokenAccountCreation
       (ASSOCIATED_TOKEN_PROGRAM_ADDRESS T) (CREATE_ASSOCIATED_TOKEN_IDEMPOTENT_DISCRIMINATOR T) setup"
    "res_map (parseAddress P) (distinct_order (concat (map (\<lambda>s. [si_inputMint s, si_outputMint s]) (jr_routePlan response)))) = Inr mints"
    "\<forall>w \<in> set (writtenSwapAccounts (br_route b) (swapAuthorityAccounts L T (sr_swapAuthority i) mints)). \<exists>a. C (fst w) = Some a"
    by (rule buildJupiterSweepRoute_Inr) blast
  let ?r = "br_route b"
  have "js_response swap = response" using b(2) by (auto simp: toJupiterSwap_def result_simps)
  note checked = getJupiterSweepRoute_Inr [OF b(3), unfolded this]
  have "C (meta_address m) \<noteq> None" if m: "m \<in> set (route_accounts ?r)" "isWritableRole (meta_role m)" "mint \<in> set mints"
    "program \<in> {TOKEN_PROGRAM_ADDRESS T, TOKEN_2022_PROGRAM_ADDRESS T}"
    "meta_address m = findAssociatedTokenPda L mint (sr_swapAuthority i) program" for m mint program
    using written_complete [OF m] b(7) by fastforce
  then have accounts: "\<forall>m \<in> set (route_accounts ?r). meta_address m \<noteq> sr_crank i
          \<and> (isSignerRole (meta_role m) \<longrightarrow> meta_address m = sr_swapAuthority i)
          \<and> (isWritableRole (meta_role m) \<longrightarrow> (\<forall>mint \<in> set mints.
               \<forall>program \<in> {TOKEN_PROGRAM_ADDRESS T, TOKEN_2022_PROGRAM_ADDRESS T}.
               meta_address m = findAssociatedTokenPda L mint (sr_swapAuthority i) program \<longrightarrow>
               C (meta_address m) \<noteq> None))"
    using b(4) checked(10) by blast
  show ?thesis
    by (intro exI [of _ response] exI [of _ swap] exI [of _ mints] conjI b(1,2,5,6) checked(1,2,5-8) accounts)
qed

definition demoParsers :: "bytes \<Rightarrow> parsers" where
  "demoParsers data =
     \<lparr>parseAddress = Inr, parseBase64 = (\<lambda>_. Inr data),
      parseBigInt = (\<lambda>s. if s = ''7'' then Inr 7000000 else if s = ''0'' then Inr 0 else Inr 1140)\<rparr>"

definition demoRouteData :: bytes where
  "demoRouteData = ROUTE_V2 @ le_bytes 8 7000000 @ le_bytes 8 1140 @ le_bytes 2 55 @ [0, 0, 0, 0]"

definition demoPrograms :: token_programs where
  "demoPrograms = \<lparr>ASSOCIATED_TOKEN_PROGRAM_ADDRESS = ''ATA'', CREATE_ASSOCIATED_TOKEN_IDEMPOTENT_DISCRIMINATOR = 1,
     TOKEN_PROGRAM_ADDRESS = ''TOK'', TOKEN_2022_PROGRAM_ADDRESS = ''T22''\<rparr>"

definition demoJupiter :: "jupiter_build_params \<Rightarrow> jupiter_response outcome" where
  "demoJupiter params = Inr
     \<lparr>jr_lookupTables = [], jr_fetchedAt = Some 1999, jr_inAmount = ''7'', jr_otherAmountThreshold = ''1134'',
      jr_outAmount = ''1140'', jr_platformFee = None,
      jr_routePlan = [\<lparr>si_inputMint = ''USDC'', si_label = Some ''Whirlpool'', si_outputMint = ''SPYX''\<rparr>],
      jr_setupInstructions = [],
      jr_swapInstruction = \<lparr>ai_accounts =
          [\<lparr>aa_isSigner = True, aa_isWritable = False, aa_pubkey = ''SA''\<rparr>,
           \<lparr>aa_isSigner = False, aa_isWritable = True, aa_pubkey = ''U/USDC''\<rparr>],
        ai_data = ''u2T6zDHErxQ'', ai_programId = JUPITER_PROGRAM_ADDRESS\<rparr>\<rparr>"

definition demoRouteInput :: sweep_route_input where
  "demoRouteInput = \<lparr>sr_amount = 7000000, sr_assetMint = ''SPYX'', sr_crank = ''CRANK'', sr_dexes = None,
     sr_excludeDexes = None, sr_paymentMint = ''USDC'', sr_swapAuthority = ''SA'', sr_userAssetAccount = ''U/SPYX''\<rparr>"

definition demoRoute :: built_route where
  "demoRoute = \<lparr>br_outAmount = 1140, br_quotedAt = Some 1999,
     br_route = \<lparr>route_programAddress = JUPITER_PROGRAM_ADDRESS,
       route_accounts = [\<lparr>meta_address = ''SA'', meta_role = ReadonlySigner\<rparr>, writable ''U/USDC''],
       route_data = demoRouteData\<rparr>,
     br_venues = [''Whirlpool'']\<rparr>"

lemma demo_route:
  "buildJupiterSweepRoute (demoParsers demoRouteData) demoLib demoPrograms demoCluster demoJupiter demoRouteInput
     = Inr demoRoute"
  by code_simp

theorem jupiter_route_checked_witness:
  "le_uint (js_slice 8 16 (route_data (br_route demoRoute))) = 7000000
   \<and> list_all (\<lambda>m. isSignerRole (meta_role m) \<longrightarrow> meta_address m = ''SA'') (route_accounts (br_route demoRoute))"
proof -
  have "sr_amount demoRouteInput = 7000000" "sr_swapAuthority demoRouteInput = ''SA''"
    by (simp_all add: demoRouteInput_def)
  with jupiter_route_checked [OF demo_route] show ?thesis by (elim exE conjE) (simp add: list_all_iff)
qed

section \<open>Signatures in a sweep\<close>

text \<open>The metas of the program's instruction in a sweep, the second one.\<close>

definition sweepMetas :: "built_sweep \<Rightarrow> account_meta list" where
  "sweepMetas b = (case bs_instructions b of _ # RawInstruction _ metas _ # _ \<Rightarrow> metas | _ \<Rightarrow> [])"

lemma sweepAccounts_signers:
  "hd (sweepAccounts L s token asset crank treasury) = \<lparr>meta_address = crank, meta_role = WritableSigner\<rparr>"
  "m \<in> set (tl (sweepAccounts L s token asset crank treasury)) \<Longrightarrow> \<not> isSignerRole (meta_role m)"
  "sweepAccounts L s token asset crank treasury \<noteq> []"
  by (auto simp: sweepAccounts_def Let_def isSignerRole_def readonly_def writable_def)

text \<open>
  A sweep lends its route no signature, whatever route it is given: the only signer of the sweep's
  program instruction is the crank, in its own first account; every account of the route is passed
  with its signer flag dropped.
\<close>

theorem sweep_lends_no_signature:
  assumes "getSweepInstructions L sizeOf i = Inr b"
    "\<And>r. \<not> isSignerRole (downgradeRoleToNonSigner L r)"
  shows "hd (sweepMetas b) = \<lparr>meta_address = in_crank i, meta_role = WritableSigner\<rparr>
     \<and> (\<forall>m \<in> set (tl (sweepMetas b)). \<not> isSignerRole (meta_role m))
     \<and> map meta_address (route_accounts (in_route i))
         = map meta_address (drop (length (sweepMetas b) - length (route_accounts (in_route i))) (sweepMetas b))"
proof -
  from assms(1) obtain token asset where metas: "sweepMetas b =
      sweepAccounts L (in_state i) token asset (in_crank i) (in_pythTreasury i)
      @ map (\<lambda>m. m\<lparr>meta_role := downgradeRoleToNonSigner L (meta_role m)\<rparr>) (route_accounts (in_route i))"
    by (rule getSweepInstructions_Inr) (simp add: sweepMetas_def)
  let ?own = "sweepAccounts L (in_state i) token asset (in_crank i) (in_pythTreasury i)"
  have own: "hd ?own = \<lparr>meta_address = in_crank i, meta_role = WritableSigner\<rparr>" "?own \<noteq> []"
    "\<And>m. m \<in> set (tl ?own) \<Longrightarrow> \<not> isSignerRole (meta_role m)"
    using sweepAccounts_signers by blast+
  then show ?thesis unfolding metas using assms(2) by (auto simp: comp_def)
qed

definition demoUpdate :: bytes where
  "demoUpdate = enc_update (replicate 64 1) (replicate 32 2) (enc_payload (replicate 9 0)
     [(7, [Price 61234, Exponent (- 2), Confidence 5, UpdatedAt (Some 1684799000000)])])"

definition demoSweepInput :: sweep_input where
  "demoSweepInput = \<lparr>in_assetUpdate = demoUpdate, in_boundaryMarginSeconds = 90, in_crank = ''CRANK'',
     in_paymentUpdate = [], in_pythTreasury = ''TREASURY'',
     in_route = (br_route demoRoute)\<lparr>route_programAddress := ''R''\<rparr>, in_state = exampleState\<rparr>"

definition demoBuilt :: built_sweep where
  "demoBuilt = (case getSweepInstructions demoLib (\<lambda>_. Inr 900) demoSweepInput of
     Inl _ \<Rightarrow> \<lparr>bs_instructions = [], bs_minOut = 0, bs_pull = \<lparr>pull_engine = 0, pull_pending = 0\<rparr>, bs_size = 0\<rparr>
   | Inr b \<Rightarrow> b)"

lemma demo_built: "getSweepInstructions demoLib (\<lambda>_. Inr 900) demoSweepInput = Inr demoBuilt"
  by code_simp

lemma demo_downgrade: "\<not> isSignerRole (downgradeRoleToNonSigner demoLib r)"
  by (cases r) (simp_all add: demoLib_def isSignerRole_def)

theorem sweep_lends_no_signature_witness:
  "hd (sweepMetas demoBuilt) = \<lparr>meta_address = ''CRANK'', meta_role = WritableSigner\<rparr>
   \<and> list_all (\<lambda>m. \<not> isSignerRole (meta_role m)) (tl (sweepMetas demoBuilt))"
proof -
  have "in_crank demoSweepInput = ''CRANK''" by (simp add: demoSweepInput_def)
  with sweep_lends_no_signature [OF demo_built demo_downgrade] show ?thesis by (simp add: list_all_iff)
qed

end
