(* ===== verification/Events.thy ===== *)
theory Events
  imports Demo_Cluster
begin

text \<open>
  Reading the program's events (\<open>events.ts\<close>, \<open>generated/events/swept.ts\<close>): \<open>Swept\<close> from the inner
  instructions of a self-CPI, every other event from the \<open>Program data:\<close> lines logged while Laterite
  itself was executing. The log reader is shown to return the events of a well-nested log, however
  deep the programs it calls nest.
\<close>

section \<open>The code: Swept\<close>

definition EVENT_IX_TAG_LE :: bytes where
  "EVENT_IX_TAG_LE = [0xe4, 0x45, 0xa5, 0x2e, 0x51, 0xcb, 0x9a, 0x1d]"

definition SWEPT_EVENT_DISCRIMINATOR :: bytes where
  "SWEPT_EVENT_DISCRIMINATOR = [254, 138, 9, 198, 192, 61, 165, 135]"

record executed_instruction =
  ei_accounts :: "address list"
  ei_data :: bytes
  ei_programAddress :: address

record swept_event =
  sw_user :: address
  sw_paymentToken :: int
  sw_asset :: int
  sw_engine :: int
  sw_pending :: int
  sw_assetPrice :: int
  sw_assetExponent :: int
  sw_received :: int
  sw_minOut :: int

definition encSwept :: "lib \<Rightarrow> swept_event \<Rightarrow> bytes" where
  "encSwept L e =
     encodeAddress L (sw_user e)
     @ encodeUint L 1 (sw_paymentToken e)
     @ encodeUint L 1 (sw_asset e)
     @ encodeUint L 8 (sw_engine e)
     @ encodeUint L 8 (sw_pending e)
     @ encodeUint L 8 (sw_assetPrice e)
     @ encodeSint L 2 (sw_assetExponent e)
     @ encodeUint L 8 (sw_received e)
     @ encodeUint L 8 (sw_minOut e)"

definition rdSwept :: "lib \<Rightarrow> swept_event reader" where
  "rdSwept L bs =
     res_bind (rdAddress L bs) (\<lambda>(v_sw_user, bs).
     res_bind (rdUint L 1 bs) (\<lambda>(v_sw_paymentToken, bs).
     res_bind (rdUint L 1 bs) (\<lambda>(v_sw_asset, bs).
     res_bind (rdUint L 8 bs) (\<lambda>(v_sw_engine, bs).
     res_bind (rdUint L 8 bs) (\<lambda>(v_sw_pending, bs).
     res_bind (rdUint L 8 bs) (\<lambda>(v_sw_assetPrice, bs).
     res_bind (rdSint L 2 bs) (\<lambda>(v_sw_assetExponent, bs).
     res_bind (rdUint L 8 bs) (\<lambda>(v_sw_received, bs).
     res_bind (rdUint L 8 bs) (\<lambda>(v_sw_minOut, bs).
     Inr (\<lparr>sw_user = v_sw_user, sw_paymentToken = v_sw_paymentToken, sw_asset = v_sw_asset, sw_engine = v_sw_engine, sw_pending = v_sw_pending, sw_assetPrice = v_sw_assetPrice, sw_assetExponent = v_sw_assetExponent, sw_received = v_sw_received, sw_minOut = v_sw_minOut\<rparr>, bs))))))))))"

definition containsBytesAt0 :: "bytes \<Rightarrow> bytes \<Rightarrow> bool" where
  "containsBytesAt0 data bs = (take (length bs) data = bs)"

definition getSweptEventData :: "lib \<Rightarrow> swept_event \<Rightarrow> bytes" where
  "getSweptEventData L e = SWEPT_EVENT_DISCRIMINATOR @ encSwept L e"

definition parseSweptEvent :: "lib \<Rightarrow> bytes \<Rightarrow> swept_event outcome" where
  "parseSweptEvent L data =
     (if containsBytesAt0 data SWEPT_EVENT_DISCRIMINATOR then decodeWith (rdSwept L) (drop 8 data)
      else Inl (PlainError ''The provided data does not match the \"SweptEvent\" event discriminators.''))"

definition getLateriteEventData :: "executed_instruction \<Rightarrow> bytes option" where
  "getLateriteEventData i =
     (if ei_programAddress i \<noteq> LATERITE_PROGRAM_ADDRESS then None
      else if containsBytesAt0 (ei_data i) EVENT_IX_TAG_LE
      then Some (drop (length EVENT_IX_TAG_LE) (ei_data i)) else None)"

fun findSweptEvent :: "lib \<Rightarrow> executed_instruction list \<Rightarrow> swept_event option outcome" where
  "findSweptEvent L [] = Inr None"
| "findSweptEvent L (i # is) =
     (case getLateriteEventData i of
        None \<Rightarrow> findSweptEvent L is
      | Some data \<Rightarrow>
          if containsBytesAt0 data SWEPT_EVENT_DISCRIMINATOR
          then res_bind (parseSweptEvent L data) (\<lambda>e. Inr (Some e))
          else findSweptEvent L is)"

section \<open>The code: logged events\<close>

text \<open>\<open>\w\<close> and \<open>\d\<close>\<close>

definition isDigit :: "char \<Rightarrow> bool" where
  "isDigit c = (let n = of_char c :: int in 48 \<le> n \<and> n \<le> 57)"

definition isWord :: "char \<Rightarrow> bool" where
  "isWord c = (let n = of_char c :: int in isDigit c \<or> 65 \<le> n \<and> n \<le> 90 \<or> 97 \<le> n \<and> n \<le> 122 \<or> n = 95)"

text \<open>What follows \<open>^Program \w+\<close>, with the word.\<close>

definition afterProgram :: "string \<Rightarrow> (string \<times> string) option" where
  "afterProgram line =
     (if take 8 line = ''Program ''
      then let r = drop 8 line; w = takeWhile isWord r in if w = [] then None else Some (w, dropWhile isWord r)
      else None)"

text \<open>\<open>/^Program (\w+) invoke \[\d+\]$/\<close>\<close>

definition invokedProgram :: "string \<Rightarrow> string option" where
  "invokedProgram line =
     (case afterProgram line of
        None \<Rightarrow> None
      | Some (w, r) \<Rightarrow>
          if take 9 r = '' invoke ['' \<and> takeWhile isDigit (drop 9 r) \<noteq> [] \<and> dropWhile isDigit (drop 9 r) = '']''
          then Some w else None)"

text \<open>\<open>/^Program \w+ (success|failed)/\<close>\<close>

definition endsProgram :: "string \<Rightarrow> bool" where
  "endsProgram line =
     (case afterProgram line of
        None \<Rightarrow> False
      | Some (w, r) \<Rightarrow> take 8 r = '' success'' \<or> take 7 r = '' failed'')"

definition loggedData :: "string \<Rightarrow> string option" where
  "loggedData line = (if take 14 line = ''Program data: '' then Some (drop 14 line) else None)"

text \<open>The loop over the lines; \<open>running\<close> is the stack, its top first.\<close>

fun logEvents :: "(string \<Rightarrow> bytes outcome) \<Rightarrow> string list \<Rightarrow> string list \<Rightarrow> bytes list outcome" where
  "logEvents base64 running [] = Inr []"
| "logEvents base64 running (line # rest) =
     (case invokedProgram line of
        Some p \<Rightarrow> logEvents base64 (p # running) rest
      | None \<Rightarrow>
          if endsProgram line then logEvents base64 (tl running) rest
          else case loggedData line of
                 Some text \<Rightarrow>
                   if running \<noteq> [] \<and> hd running = LATERITE_PROGRAM_ADDRESS
                   then res_bind (base64 text) (\<lambda>d.
                          res_bind (logEvents base64 running rest) (\<lambda>ds. Inr (d # ds)))
                   else logEvents base64 running rest
               | None \<Rightarrow> logEvents base64 running rest)"

definition getLateriteLogEvents :: "(string \<Rightarrow> bytes outcome) \<Rightarrow> string list \<Rightarrow> bytes list outcome" where
  "getLateriteLogEvents base64 logs = logEvents base64 [] logs"

section \<open>Swept events are found\<close>

definition i16_ok :: "int \<Rightarrow> bool" where "i16_ok n = (- (2 ^ 15) \<le> n \<and> n < 2 ^ 15)"

definition swept_ok :: "lib \<Rightarrow> swept_event \<Rightarrow> bool" where
  "swept_ok L e =
     (is_address L (sw_user e)
      \<and> u8_ok (sw_paymentToken e)
      \<and> u8_ok (sw_asset e)
      \<and> u64_ok (sw_engine e)
      \<and> u64_ok (sw_pending e)
      \<and> u64_ok (sw_assetPrice e)
      \<and> i16_ok (sw_assetExponent e)
      \<and> u64_ok (sw_received e)
      \<and> u64_ok (sw_minOut e))"

lemma rdSwept_roundtrip: "kit_encoders L \<Longrightarrow> swept_ok L e \<Longrightarrow> reads (rdSwept L) (encSwept L e) e"
proof -
  assume kit: "kit_encoders L" and ok: "swept_ok L e"
  have "rdSint L 2 (encodeSint L 2 (sw_assetExponent e) @ rest) = Inr (sw_assetExponent e, rest)" for rest
    using ok by (intro readsD reads_rdSint [OF kit]) (auto simp: swept_ok_def i16_ok_def)
  with kit ok show ?thesis
    by (simp del: One_nat_def add: reads_def rdSwept_def encSwept_def swept_ok_def codec_simps)
qed

text \<open>The instruction data of the self-CPI that emits an event.\<close>

definition sweptInstruction :: "lib \<Rightarrow> swept_event \<Rightarrow> executed_instruction" where
  "sweptInstruction L e =
     \<lparr>ei_accounts = [findEventAuthorityPda L], ei_data = EVENT_IX_TAG_LE @ getSweptEventData L e, ei_programAddress = LATERITE_PROGRAM_ADDRESS\<rparr>"

lemma swept_found_here:
  assumes "kit_encoders L" "swept_ok L e"
  shows "findSweptEvent L (sweptInstruction L e # rest) = Inr (Some e)"
  using readsD [OF rdSwept_roundtrip [OF assms], of "[]"]
  by (simp add: sweptInstruction_def getLateriteEventData_def containsBytesAt0_def getSweptEventData_def
      parseSweptEvent_def decodeWith_def SWEPT_EVENT_DISCRIMINATOR_def EVENT_IX_TAG_LE_def)

lemma swept_skips:
  assumes "\<forall>i \<in> set before. ei_programAddress i \<noteq> LATERITE_PROGRAM_ADDRESS"
  shows "findSweptEvent L (before @ is) = findSweptEvent L is"
  using assms by (induction before) (auto simp: getLateriteEventData_def)

section \<open>Well-nested logs\<close>

text \<open>
  What a program logs, in order: an event's base64 text, any other message, or a program it calls
  with what that one logs, and how the call ended.
\<close>

datatype log_item =
    LogData string
  | LogText string
  | LogCall string string "log_item list" "string option"

text \<open>The runtime's lines; a failed call ends with its error.\<close>

fun render :: "log_item \<Rightarrow> string list" where
  "render (LogData d) = [''Program data: '' @ d]"
| "render (LogText t) = [''Program log: '' @ t]"
| "render (LogCall p depth items failure) =
     (''Program '' @ p @ '' invoke ['' @ depth @ '']'')
     # concat (map render items)
     @ [''Program '' @ p @ (case failure of None \<Rightarrow> '' success'' | Some e \<Rightarrow> '' failed: '' @ e)]"

fun wf_log :: "log_item \<Rightarrow> bool" where
  "wf_log (LogData d) = True"
| "wf_log (LogText t) = True"
| "wf_log (LogCall p depth items failure) =
     (p \<noteq> [] \<and> list_all isWord p \<and> depth \<noteq> [] \<and> list_all isDigit depth \<and> list_all wf_log items)"

text \<open>The events Laterite itself logged, when \<open>running\<close> is the program executing.\<close>

fun ownData :: "string option \<Rightarrow> log_item \<Rightarrow> string list" where
  "ownData running (LogData d) = (if running = Some LATERITE_PROGRAM_ADDRESS then [d] else [])"
| "ownData running (LogText t) = []"
| "ownData running (LogCall p depth items failure) = concat (map (ownData (Some p)) items)"

lemma isWord_ascii: "\<not> isWord CHR '' ''" "\<not> isWord CHR '':''" "isWord CHR ''d''" "isWord CHR ''a''"
  "isWord CHR ''t''" "isWord CHR ''l''" "isWord CHR ''o''" "isWord CHR ''g''" "\<not> isDigit CHR '']''"
  by code_simp+

lemma takeWhile_word: "list_all isWord p \<Longrightarrow> takeWhile isWord (p @ CHR '' '' # r) = p"
  "list_all isWord p \<Longrightarrow> dropWhile isWord (p @ CHR '' '' # r) = CHR '' '' # r"
  by (induction p) (auto simp: isWord_ascii)

lemma takeWhile_digits: "list_all isDigit n \<Longrightarrow> takeWhile isDigit (n @ '']'') = n"
  "list_all isDigit n \<Longrightarrow> dropWhile isDigit (n @ '']'') = '']''"
  by (induction n) (auto simp: isWord_ascii)

lemma afterProgram_line:
  "p \<noteq> [] \<Longrightarrow> list_all isWord p \<Longrightarrow> afterProgram (''Program '' @ p @ CHR '' '' # r) = Some (p, CHR '' '' # r)"
  by (simp add: afterProgram_def takeWhile_word)

lemma invoke_line:
  assumes "p \<noteq> []" "list_all isWord p" "depth \<noteq> []" "list_all isDigit depth"
  shows "invokedProgram (''Program '' @ p @ '' invoke ['' @ depth @ '']'') = Some p"
  using afterProgram_line [OF assms(1,2), of "''invoke ['' @ depth @ '']''"] assms(3,4)
  by (simp add: invokedProgram_def takeWhile_digits)

lemma end_line:
  assumes "p \<noteq> []" "list_all isWord p"
  shows "invokedProgram (''Program '' @ p @ (case failure of None \<Rightarrow> '' success'' | Some e \<Rightarrow> '' failed: '' @ e)) = None"
    "endsProgram (''Program '' @ p @ (case failure of None \<Rightarrow> '' success'' | Some e \<Rightarrow> '' failed: '' @ e))"
  using afterProgram_line [OF assms, of "''success''"] afterProgram_line [OF assms, of "''failed: '' @ the failure"]
  by (auto simp: invokedProgram_def endsProgram_def split: option.splits)

lemma message_lines:
  "invokedProgram (''Program data: '' @ d) = None" "\<not> endsProgram (''Program data: '' @ d)"
  "loggedData (''Program data: '' @ d) = Some d"
  "invokedProgram (''Program log: '' @ t) = None" "\<not> endsProgram (''Program log: '' @ t)"
  "loggedData (''Program log: '' @ t) = None"
  by (simp_all add: invokedProgram_def endsProgram_def afterProgram_def loggedData_def isWord_ascii)

text \<open>An item's events come first, and it leaves the stack as it found it.\<close>

lemma res_map_append:
  "res_map f (xs @ ys) = res_bind (res_map f xs) (\<lambda>as. res_bind (res_map f ys) (\<lambda>bs. Inr (as @ bs)))"
proof (induction xs)
  case Nil
  show ?case by (cases "res_map f ys") simp_all
next
  case (Cons x xs)
  then show ?case by (cases "f x"; cases "res_map f xs"; cases "res_map f ys") simp_all
qed

definition running_of :: "string list \<Rightarrow> string option" where
  "running_of stack = (if stack = [] then None else Some (hd stack))"

lemma logEvents_item:
  "wf_log i \<Longrightarrow> logEvents base64 stack (render i @ rest) =
     res_bind (res_map base64 (ownData (running_of stack) i)) (\<lambda>ds.
     res_bind (logEvents base64 stack rest) (\<lambda>es. Inr (ds @ es)))"
proof (induction i arbitrary: stack rest)
  case (LogData d)
  have "logEvents base64 stack (render (LogData d) @ rest) =
    (if running_of stack = Some LATERITE_PROGRAM_ADDRESS
     then res_bind (base64 d) (\<lambda>x. res_bind (logEvents base64 stack rest) (\<lambda>xs. Inr (x # xs)))
     else logEvents base64 stack rest)"
    using message_lines(1-3) [of d] by (simp add: running_of_def)
  then show ?case by (cases "base64 d"; cases "logEvents base64 stack rest") simp_all
next
  case (LogText t)
  have "logEvents base64 stack (render (LogText t) @ rest) = logEvents base64 stack rest"
    using message_lines(4-6) [of t] by simp
  then show ?case by (cases "logEvents base64 stack rest") simp_all
next
  case (LogCall p depth items failure)
  have items: "logEvents base64 s (concat (map render xs) @ more) =
      res_bind (res_map base64 (concat (map (ownData (running_of s)) xs))) (\<lambda>ds.
      res_bind (logEvents base64 s more) (\<lambda>es. Inr (ds @ es)))"
    if "set xs \<subseteq> set items" "list_all wf_log xs" for xs s more
    using that
  proof (induction xs)
    case Nil
    show ?case by (cases "logEvents base64 s more") simp_all
  next
    case (Cons x xs)
    with LogCall.IH [of x s "concat (map render xs) @ more"] show ?case
      by (cases "res_map base64 (ownData (running_of s) x)";
          cases "res_map base64 (concat (map (ownData (running_of s)) xs))"; cases "logEvents base64 s more")
        (simp_all add: res_map_append)
  qed
  have wf: "p \<noteq> []" "list_all isWord p" "depth \<noteq> []" "list_all isDigit depth" "list_all wf_log items"
    using LogCall.prems by auto
  have "logEvents base64 stack (render (LogCall p depth items failure) @ rest) =
    logEvents base64 (p # stack) (concat (map render items)
      @ (''Program '' @ p @ (case failure of None \<Rightarrow> '' success'' | Some e \<Rightarrow> '' failed: '' @ e)) # rest)"
    using invoke_line [OF wf(1-4)] by simp
  also have "\<dots> = res_bind (res_map base64 (concat (map (ownData (Some p)) items))) (\<lambda>ds.
      res_bind (logEvents base64 stack rest) (\<lambda>es. Inr (ds @ es)))"
    using end_line [OF wf(1,2), of failure] by (simp add: items [OF _ wf(5)] running_of_def)
  finally show ?case by simp
qed


definition demoLogs :: "log_item list" where
  "demoLogs = [LogCall LATERITE_PROGRAM_ADDRESS ''1''
     [LogText ''Instruction: Attest'', LogCall ''Other1'' ''2'' [LogData ''b3RoZXI='', LogCall LATERITE_PROGRAM_ADDRESS ''3'' [LogData ''bWlu''] (Some ''panic'')] None,
      LogData ''b3du''] None]"


text \<open>
  A sweep's event is read back from the transaction's inner instructions, after any instructions
  of other programs and whatever follows it, with every field as the program emitted it.
\<close>

theorem findSweptEvent_roundtrip:
  assumes "kit_encoders L" "swept_ok L e" "\<forall>i \<in> set before. ei_programAddress i \<noteq> LATERITE_PROGRAM_ADDRESS"
  shows "findSweptEvent L (before @ sweptInstruction L e # rest) = Inr (Some e)"
  using assms by (simp only: swept_skips swept_found_here)

definition demoSwept :: swept_event where
  "demoSwept = \<lparr>sw_user = ''UUUUUUUUUUUUUUUUUUUUUUUUUUUUUUUU'', sw_paymentToken = 0, sw_asset = 1, sw_engine = 2000000,
     sw_pending = 5000000, sw_assetPrice = 61234, sw_assetExponent = - 2, sw_received = 1143, sw_minOut = 1140\<rparr>"

theorem findSweptEvent_roundtrip_witness:
  "findSweptEvent demoLib
     [\<lparr>ei_accounts = [], ei_data = [3], ei_programAddress = ''TOK''\<rparr>, sweptInstruction demoLib demoSwept] = Inr (Some demoSwept)"
proof -
  have "swept_ok demoLib demoSwept" "''TOK'' \<noteq> LATERITE_PROGRAM_ADDRESS" by code_simp+
  then show ?thesis
    using findSweptEvent_roundtrip [OF demo_kit_encoders, of demoSwept "[\<lparr>ei_accounts = [], ei_data = [3], ei_programAddress = ''TOK''\<rparr>]" "[]"]
    by simp
qed

end
