(* ===== verification/Attestation.thy ===== *)
theory Attestation
  imports Ed25519 Demo_Cluster
begin

text \<open>
  Attestations (\<open>attestation.ts\<close>, \<open>generated/instructions/attest.ts\<close>): the message the attestor
  signs, the address of the record that counts a transfer once, and the \<open>[ed25519, attest]\<close> pair.
\<close>

section \<open>The code\<close>

text \<open>The UTF-8 bytes of \<open>laterite:attestation:v1\<close> and of \<open>attestation\<close>.\<close>

definition ATTESTATION_DOMAIN :: bytes where
  "ATTESTATION_DOMAIN =
     [108, 97, 116, 101, 114, 105, 116, 101, 58, 97, 116, 116, 101, 115, 116, 97, 116, 105, 111, 110, 58, 118, 49]"

definition ATTESTATION_SEED :: bytes where
  "ATTESTATION_SEED = [97, 116, 116, 101, 115, 116, 97, 116, 105, 111, 110]"

definition getAttestationMessage :: "lib \<Rightarrow> bytes \<Rightarrow> attestation \<Rightarrow> bytes" where
  "getAttestationMessage L genesis attestation =
     concat [ATTESTATION_DOMAIN, encodeAddress L LATERITE_PROGRAM_ADDRESS, genesis, encAttestation L attestation]"

definition attestationRecordSeeds :: "lib \<Rightarrow> address \<Rightarrow> bytes \<Rightarrow> int \<Rightarrow> bytes list" where
  "attestationRecordSeeds L user signature transferIndex =
     [ATTESTATION_SEED, encodeAddress L user, js_slice 0 32 signature, js_slice 32 64 signature,
      encodeUint L 2 transferIndex]"

definition findAttestationRecordPda :: "lib \<Rightarrow> attestation \<Rightarrow> address" where
  "findAttestationRecordPda L a =
     getProgramDerivedAddress L LATERITE_PROGRAM_ADDRESS
       (attestationRecordSeeds L (at_user a) (at_signature a) (at_transferIndex a))"

definition ATTEST_DISCRIMINATOR :: bytes where
  "ATTEST_DISCRIMINATOR = [83, 148, 120, 119, 144, 139, 117, 160]"

definition CONFIG_ADDRESS :: address where
  "CONFIG_ADDRESS = ''58g622en8DoEgWarYgZZWgzAQhZQhVqUx3YYg2H8mEF5''"

definition INSTRUCTIONS_SYSVAR :: address where
  "INSTRUCTIONS_SYSVAR = ''Sysvar1nstructions1111111111111111111111111''"

definition SYSTEM_PROGRAM :: address where "SYSTEM_PROGRAM = ''11111111111111111111111111111111''"

definition getAttestInstruction :: "lib \<Rightarrow> attestation \<Rightarrow> address \<Rightarrow> address \<Rightarrow> address \<Rightarrow> instruction" where
  "getAttestInstruction L attestation payer record_pda userConfig =
     RawInstruction LATERITE_PROGRAM_ADDRESS
       [\<lparr>meta_address = payer, meta_role = WritableSigner\<rparr>,
        readonly CONFIG_ADDRESS, writable userConfig, writable record_pda,
        readonly INSTRUCTIONS_SYSVAR, readonly SYSTEM_PROGRAM]
       (ATTEST_DISCRIMINATOR @ encAttestation L attestation)"

text \<open>\<open>sign\<close> is the attestor's signer: its signature of a message, if it gave one.\<close>

definition getAttestInstructions ::
    "lib \<Rightarrow> (bytes \<Rightarrow> bytes option) \<Rightarrow> address \<Rightarrow> attestation \<Rightarrow> bytes \<Rightarrow> address \<Rightarrow> (instruction \<times> instruction) outcome" where
  "getAttestInstructions L sign attestor attestation genesis payer =
     (let message = getAttestationMessage L genesis attestation
      in case sign message of
           None \<Rightarrow> Inl (PlainError (attestor @ '' did not sign the attestation''))
         | Some signature \<Rightarrow>
             Inr (getEd25519SignatureInstruction L message attestor signature,
                  getAttestInstruction L attestation payer (findAttestationRecordPda L attestation)
                    (findUserConfigPda L (at_user attestation))))"

section \<open>The message\<close>

lemma ATTESTATION_DOMAIN_length: "length ATTESTATION_DOMAIN = 23"
  by (simp add: ATTESTATION_DOMAIN_def)

lemma attestation_message_layout:
  assumes "kit_encoders L" "is_address L p" "length g = 32" "attestation_ok L a"
  shows "length (ATTESTATION_DOMAIN @ encodeAddress L p @ g @ encAttestation L a) = 203"
    "take 23 (ATTESTATION_DOMAIN @ encodeAddress L p @ g @ encAttestation L a) = ATTESTATION_DOMAIN"
    "js_slice 23 55 (ATTESTATION_DOMAIN @ encodeAddress L p @ g @ encAttestation L a) = encodeAddress L p"
    "js_slice 55 87 (ATTESTATION_DOMAIN @ encodeAddress L p @ g @ encAttestation L a) = g"
    "drop 87 (ATTESTATION_DOMAIN @ encodeAddress L p @ g @ encAttestation L a) = encAttestation L a"
proof -
  have "length (encodeAddress L p) = 32" using assms(2) by (simp add: is_address_def)
  then show "length (ATTESTATION_DOMAIN @ encodeAddress L p @ g @ encAttestation L a) = 203"
    "take 23 (ATTESTATION_DOMAIN @ encodeAddress L p @ g @ encAttestation L a) = ATTESTATION_DOMAIN"
    "js_slice 23 55 (ATTESTATION_DOMAIN @ encodeAddress L p @ g @ encAttestation L a) = encodeAddress L p"
    "js_slice 55 87 (ATTESTATION_DOMAIN @ encodeAddress L p @ g @ encAttestation L a) = g"
    "drop 87 (ATTESTATION_DOMAIN @ encodeAddress L p @ g @ encAttestation L a) = encAttestation L a"
    using assms by (simp_all add: encAttestation_length ATTESTATION_DOMAIN_length js_slice_def)
qed

lemma attestation_message_bytes:
  "getAttestationMessage L g a = ATTESTATION_DOMAIN @ encodeAddress L LATERITE_PROGRAM_ADDRESS @ g @ encAttestation L a"
  by (simp add: getAttestationMessage_def)

text \<open>
  C24: The message the attestor signs is 203 bytes: the domain, this program's address, the genesis hash and the
  attestation, each at its place. So it determines what it attests: two messages are equal only for the same
  genesis hash and the same attestation, every field of it, and no message of this format for another program's
  address, whatever it attests on whatever cluster, is equal to it.
\<close>

theorem attestation_message_injective:
  assumes "kit_encoders L" "is_address L LATERITE_PROGRAM_ADDRESS"
    "length g = 32" "length g' = 32" "attestation_ok L a" "attestation_ok L b"
  shows "length (getAttestationMessage L g a) = 203
     \<and> take 23 (getAttestationMessage L g a) = ATTESTATION_DOMAIN
     \<and> js_slice 23 55 (getAttestationMessage L g a) = encodeAddress L LATERITE_PROGRAM_ADDRESS
     \<and> js_slice 55 87 (getAttestationMessage L g a) = g
     \<and> decodeWith (rdAttestation L) (drop 87 (getAttestationMessage L g a)) = Inr a
     \<and> (getAttestationMessage L g a = getAttestationMessage L g' b \<longleftrightarrow> g = g' \<and> a = b)
     \<and> (\<forall>program. is_address L program
           \<and> getAttestationMessage L g a = ATTESTATION_DOMAIN @ encodeAddress L program @ g' @ encAttestation L b
         \<longrightarrow> program = LATERITE_PROGRAM_ADDRESS)"
proof -
  note at = attestation_message_layout [OF assms(1) _ assms(3,5)]
  note other = attestation_message_layout [OF assms(1) _ assms(4,6)]
  have same: "g = g' \<and> a = b" if "getAttestationMessage L g a = getAttestationMessage L g' b"
    using at(4,5) [OF assms(2)] other(4,5) [OF assms(2)] encAttestation_inject [OF assms(1,5,6)] that
    unfolding attestation_message_bytes by metis
  have program: "program = LATERITE_PROGRAM_ADDRESS"
    if "is_address L program" "getAttestationMessage L g a = ATTESTATION_DOMAIN @ encodeAddress L program @ g' @ encAttestation L b" for program
    using at(3) [OF assms(2)] other(3) [OF that(1)] that(2) is_address_inject [OF that(1) assms(2)]
    unfolding attestation_message_bytes by metis
  have "decodeWith (rdAttestation L) (drop 87 (getAttestationMessage L g a)) = Inr a"
    using at(5) [OF assms(2)] readsD [OF rdAttestation_roundtrip [OF assms(1,5)], of "[]"]
    by (simp add: attestation_message_bytes decodeWith_def)
  with at [OF assms(2)] same program show ?thesis unfolding attestation_message_bytes by blast
qed

text \<open>
  The record's seeds name the transfer: the same seeds only for the same user, signature and index.
\<close>

lemma attestation_record_seeds_injective:
  assumes "kit_encoders L" "attestation_ok L a" "attestation_ok L b"
    "attestationRecordSeeds L (at_user a) (at_signature a) (at_transferIndex a)
       = attestationRecordSeeds L (at_user b) (at_signature b) (at_transferIndex b)"
  shows "at_user a = at_user b \<and> at_signature a = at_signature b \<and> at_transferIndex a = at_transferIndex b"
proof -
  have seeds: "encodeAddress L (at_user a) = encodeAddress L (at_user b)"
    "take 32 (at_signature a) = take 32 (at_signature b)"
    "take 32 (drop 32 (at_signature a)) = take 32 (drop 32 (at_signature b))"
    "encodeUint L 2 (at_transferIndex a) = encodeUint L 2 (at_transferIndex b)"
    using assms(4) by (simp_all add: attestationRecordSeeds_def js_slice_def)
  have ok: "is_address L (at_user a)" "is_address L (at_user b)" "length (at_signature a) = 64" "length (at_signature b) = 64"
    "u16_ok (at_transferIndex a)" "u16_ok (at_transferIndex b)"
    using assms(2,3) by (simp_all add: attestation_ok_def)
  have "at_user a = at_user b" using is_address_inject [OF ok(1,2) seeds(1)] .
  moreover have "drop 32 (at_signature a) = drop 32 (at_signature b)" using seeds(3) ok(3,4) by simp
  then have "at_signature a = at_signature b" by (metis append_take_drop_id seeds(2))
  moreover have "at_transferIndex a = at_transferIndex b"
    using seeds(4) reads_widths(2) [OF assms(1) ok(5), of "[]"] reads_widths(2) [OF assms(1) ok(6), of "[]"]
    by simp
  ultimately show ?thesis by simp
qed

text \<open>
  The pair of an attestation verifies what the program reads: when the attestor signs, the
  ed25519 instruction points at the attestor's key, its signature and the attestation's message,
  and the \<open>attest\<close> instruction right after it carries an attestation the program decodes to the
  same value.
\<close>

theorem attest_pair_consistent:
  assumes "kit_encoders L" "is_address L LATERITE_PROGRAM_ADDRESS" "is_address L attestor"
    "length g = 32" "attestation_ok L a"
    "\<And>m s. sign m = Some s \<Longrightarrow> length s = 64"
    "getAttestInstructions L sign attestor a g payer = Inr (verify, attest)"
  shows "\<exists>signature. sign (getAttestationMessage L g a) = Some signature
     \<and> js_slice 16 48 (instructionData verify) = encodeAddress L attestor
     \<and> js_slice 48 112 (instructionData verify) = signature
     \<and> js_slice 112 315 (instructionData verify) = getAttestationMessage L g a
     \<and> decodeWith (rdAttestation L) (drop 8 (instructionData attest)) = Inr a"
proof -
  let ?m = "getAttestationMessage L g a"
  from assms(7) obtain signature where s: "sign ?m = Some signature"
    and v: "verify = getEd25519SignatureInstruction L ?m attestor signature"
    and t: "attest = getAttestInstruction L a payer (findAttestationRecordPda L a) (findUserConfigPda L (at_user a))"
    by (auto simp: getAttestInstructions_def Let_def split: option.splits)
  have m: "length ?m = 203" using attestation_message_layout(1) [OF assms(1,2,4,5)] by (simp add: attestation_message_bytes)
  note layout = getEd25519SignatureInstruction_layout [OF assms(1) assms(6) [OF s] _ assms(3), of ?m, folded v]
  have "drop 8 (instructionData attest) = encAttestation L a"
    by (simp add: t getAttestInstruction_def instructionData_def ATTEST_DISCRIMINATOR_def)
  then have "decodeWith (rdAttestation L) (drop 8 (instructionData attest)) = Inr a"
    using readsD [OF rdAttestation_roundtrip [OF assms(1,5)], of "[]"] by (simp add: decodeWith_def)
  with s layout m show ?thesis by simp
qed

definition demoAttestation :: attestation where
  "demoAttestation = \<lparr>at_kind = Income, at_user = ''UUUUUUUUUUUUUUUUUUUUUUUUUUUUUUUU'', at_paymentToken = 1,
     at_amount = 50000000, at_eventTime = 1700000000, at_signature = replicate 64 7, at_transferIndex = 2\<rparr>"

lemma demo_attestation_ok: "attestation_ok demoLib demoAttestation"
  "attestation_ok demoLib (demoAttestation\<lparr>at_amount := 50000001\<rparr>)"
  "is_address demoLib LATERITE_PROGRAM_ADDRESS" "is_address demoLib ''TTTTTTTTTTTTTTTTTTTTTTTTTTTTTTTT''"
  by code_simp+

theorem attestation_message_injective_witness:
  "length (getAttestationMessage demoLib (replicate 32 9) demoAttestation) = 203
   \<and> getAttestationMessage demoLib (replicate 32 9) demoAttestation
     \<noteq> getAttestationMessage demoLib (replicate 32 9) (demoAttestation\<lparr>at_amount := 50000001\<rparr>)
   \<and> js_slice 55 87 (getAttestationMessage demoLib (replicate 32 9) demoAttestation) = replicate 32 9"
  using attestation_message_injective [OF demo_kit_encoders demo_attestation_ok(3) _ _ demo_attestation_ok(1,2),
      of "replicate 32 9" "replicate 32 9"]
  by (simp add: demoAttestation_def)

definition demoSign :: "bytes \<Rightarrow> bytes option" where "demoSign m = Some (replicate 64 3)"

theorem attest_pair_consistent_witness:
  "\<exists>verify attest. getAttestInstructions demoLib demoSign ''TTTTTTTTTTTTTTTTTTTTTTTTTTTTTTTT''
       demoAttestation (replicate 32 9) ''P'' = Inr (verify, attest)
     \<and> js_slice 48 112 (instructionData verify) = replicate 64 3
     \<and> decodeWith (rdAttestation demoLib) (drop 8 (instructionData attest)) = Inr demoAttestation"
proof -
  obtain verify attest where r: "getAttestInstructions demoLib demoSign ''TTTTTTTTTTTTTTTTTTTTTTTTTTTTTTTT''
       demoAttestation (replicate 32 9) ''P'' = Inr (verify, attest)"
    by (simp add: getAttestInstructions_def demoSign_def Let_def)
  from attest_pair_consistent [OF demo_kit_encoders demo_attestation_ok(3,4) _ demo_attestation_ok(1) _ r] r
  show ?thesis by (auto simp: demoSign_def)
qed

end
