(* ===== verification/Failures.thy ===== *)
theory Failures
  imports Jupiter Events Attestation
begin

text \<open>
  Reading a failed sweep (\<open>services/operator/src/crank/failures.ts\<close>): the program that failed first,
  from the logs, its error code, and what the crank does about it. The reader of the logs is shown to
  find the innermost program of the first failure of any well-nested log.
\<close>

section \<open>The code\<close>

text \<open>\<open>String(n)\<close>\<close>

fun showNat :: "nat \<Rightarrow> string" where
  "showNat n = (if n < 10 then [char_of (48 + n)] else showNat (n div 10) @ [char_of (48 + n mod 10)])"

declare showNat.simps [simp del]

definition showInt :: "int \<Rightarrow> string" where
  "showInt n = (if n < 0 then CHR ''-'' # showNat (nat (- n)) else showNat (nat n))"

text \<open>The codes of the generated errors, from 6000 in this order.\<close>

definition LATERITE_ERRORS :: "laterite_error list" where
  "LATERITE_ERRORS =
     [NotUpgradeAuthority, Unauthorized, NotPendingAdmin, InvalidRouter, InvalidAttestor, InvalidCap, InvalidAsset,
      InvalidPaymentToken, InvalidSponsor, ProgramPaused, BetaFull, UnknownPaymentToken, InvalidTier,
      CapAboveBetaLimit, UnknownAsset, NoPaymentToken, InvalidRules, SubscriptionMismatch, NotSponsor,
      CalendarNotAscending, ImplausibleMarketDay, InvalidPriceUpdate, PriceUnavailable, StalePrice, PriceUncertain,
      AmountTooSmall, InvalidGenesisHash, InvalidAttestationSignature, InvalidAttestation, UserNotActive,
      AttestationExpired, NothingToInvest, AttestationNotExpired, AlreadySwept, NothingToSweep, InvalidTokenAccount,
      SwapAccountChanged, SlippageExceeded, PlanChangeRequired, PendingIncrease, UserNotPaused, UserNotExited]"

definition lateriteErrorOf :: "int \<Rightarrow> laterite_error option" where
  "lateriteErrorOf code = (if code < 6000 then None else nth_opt LATERITE_ERRORS (code - 6000))"

fun LATERITE_ERROR_NAMES :: "laterite_error \<Rightarrow> string option" where
  "LATERITE_ERROR_NAMES AlreadySwept = Some ''AlreadySwept''"
| "LATERITE_ERROR_NAMES InvalidPriceUpdate = Some ''InvalidPriceUpdate''"
| "LATERITE_ERROR_NAMES InvalidRouter = Some ''InvalidRouter''"
| "LATERITE_ERROR_NAMES InvalidTokenAccount = Some ''InvalidTokenAccount''"
| "LATERITE_ERROR_NAMES NothingToSweep = Some ''NothingToSweep''"
| "LATERITE_ERROR_NAMES PriceUnavailable = Some ''PriceUnavailable''"
| "LATERITE_ERROR_NAMES PriceUncertain = Some ''PriceUncertain''"
| "LATERITE_ERROR_NAMES ProgramPaused = Some ''ProgramPaused''"
| "LATERITE_ERROR_NAMES SlippageExceeded = Some ''SlippageExceeded''"
| "LATERITE_ERROR_NAMES StalePrice = Some ''StalePrice''"
| "LATERITE_ERROR_NAMES SubscriptionMismatch = Some ''SubscriptionMismatch''"
| "LATERITE_ERROR_NAMES SwapAccountChanged = Some ''SwapAccountChanged''"
| "LATERITE_ERROR_NAMES _ = None"

definition lateriteErrorName :: "int \<Rightarrow> string" where
  "lateriteErrorName code =
     (case Option.bind (lateriteErrorOf code) LATERITE_ERROR_NAMES of
        Some name \<Rightarrow> name | None \<Rightarrow> ''Laterite '' @ showInt code)"

definition JUPITER_SLIPPAGE_TOLERANCE_EXCEEDED :: int where "JUPITER_SLIPPAGE_TOLERANCE_EXCEEDED = 6001"
definition TOKEN_INSUFFICIENT_FUNDS :: int where "TOKEN_INSUFFICIENT_FUNDS = 1"

datatype failure_action = Alert | Price_Retry | Pull_Failed | Rebuild | Recompute | Refetch | Slippage | Swept_Already | Unknown_Failure | Venue

record sweep_failure =
  sf_action :: failure_action
  sf_program :: "address option"
  sf_reason :: string

text \<open>\<open>/^Program (\w+) failed/\<close> and \<open>/^Program \w+ success$/\<close>\<close>

definition failedProgram :: "string \<Rightarrow> string option" where
  "failedProgram line =
     (case afterProgram line of
        None \<Rightarrow> None
      | Some (w, r) \<Rightarrow> if take 7 r = '' failed'' then Some w else None)"

definition succeeds :: "string \<Rightarrow> bool" where
  "succeeds line = (case afterProgram line of None \<Rightarrow> False | Some (w, r) \<Rightarrow> r = '' success'')"

text \<open>The loop over the lines; the stack outermost first, as the code keeps it.\<close>

fun failingFrom :: "address list \<Rightarrow> string list \<Rightarrow> address list" where
  "failingFrom stack [] = stack"
| "failingFrom stack (line # rest) =
     (case invokedProgram line of
        Some p \<Rightarrow> failingFrom (stack @ [p]) rest
      | None \<Rightarrow>
          if stack \<noteq> [] \<and> failedProgram line = Some (last stack) then stack
          else failingFrom (if succeeds line then butlast stack else stack) rest)"

definition failingInvocation :: "string list \<Rightarrow> address list" where
  "failingInvocation logs = failingFrom [] logs"

text \<open>
  An error with its chain of causes, outermost first: a custom instruction error with its code and
  index, another Solana error with the index its context may carry, or any other error; and its text.
\<close>

datatype error_node = CustomNode int int | SolanaNode "int option" | OtherNode

record caught_error =
  ce_chain :: "error_node list"
  ce_text :: string

text \<open>The custom code and the instruction's index.\<close>

fun instructionError :: "error_node list \<Rightarrow> int option \<times> int option" where
  "instructionError [] = (None, None)"
| "instructionError (CustomNode code index # causes) = (Some code, Some index)"
| "instructionError (SolanaNode (Some index) # causes) = (None, Some index)"
| "instructionError (SolanaNode None # causes) = instructionError causes"
| "instructionError (OtherNode # causes) = instructionError causes"

definition codeOrError :: "int option \<Rightarrow> string" where
  "codeOrError code = (case code of None \<Rightarrow> ''error'' | Some c \<Rightarrow> showInt c)"

definition lateriteAction :: "laterite_error option \<Rightarrow> failure_action" where
  "lateriteAction e =
     (case e of
        Some SwapAccountChanged \<Rightarrow> Rebuild
      | Some StalePrice \<Rightarrow> Price_Retry | Some PriceUncertain \<Rightarrow> Price_Retry
      | Some SlippageExceeded \<Rightarrow> Slippage
      | Some AlreadySwept \<Rightarrow> Swept_Already
      | Some NothingToSweep \<Rightarrow> Recompute
      | Some ProgramPaused \<Rightarrow> Refetch | Some InvalidRouter \<Rightarrow> Refetch | Some SubscriptionMismatch \<Rightarrow> Refetch
      | Some InvalidTokenAccount \<Rightarrow> Pull_Failed
      | Some PriceUnavailable \<Rightarrow> Alert | Some InvalidPriceUpdate \<Rightarrow> Alert
      | _ \<Rightarrow> Unknown_Failure)"

text \<open>\<open>periodLimit\<close> is Subscriptions' \<open>AMOUNT_EXCEEDS_PERIOD_LIMIT\<close>.\<close>

definition classify ::
    "lib \<Rightarrow> token_programs \<Rightarrow> int \<Rightarrow> address list \<Rightarrow> int option \<times> int option \<Rightarrow> string \<Rightarrow> address \<Rightarrow> sweep_failure" where
  "classify L T periodLimit stack codeAndIndex text router =
     (let program = (if stack = [] then None else Some (last stack));
          (code, index) = codeAndIndex;
          inPull = SUBSCRIPTIONS_PROGRAM_ADDRESS L \<in> set stack;
          inRoute = router \<in> set stack;
          named = (\<lambda>action reason. \<lparr>sf_action = action, sf_program = program, sf_reason = reason\<rparr>)
      in if program = Some LATERITE_PROGRAM_ADDRESS \<and> code \<noteq> None
         then named (lateriteAction (lateriteErrorOf (the code))) (lateriteErrorName (the code))
         else if program = Some (SUBSCRIPTIONS_PROGRAM_ADDRESS L)
         then named (if code = Some periodLimit then Alert else Pull_Failed) (''Subscriptions '' @ codeOrError code)
         else if program = Some (TOKEN_PROGRAM_ADDRESS T) \<or> program = Some (TOKEN_2022_PROGRAM_ADDRESS T)
         then named (if inPull then Pull_Failed
                     else if inRoute \<and> code = Some TOKEN_INSUFFICIENT_FUNDS then Rebuild
                     else if inRoute then Venue else Unknown_Failure) (''token '' @ codeOrError code)
         else if program = Some PYTH_PRO_PROGRAM_ADDRESS then named Alert (''Pyth Pro '' @ codeOrError code)
         else if program = Some JUPITER_PROGRAM_ADDRESS \<and> code = Some JUPITER_SLIPPAGE_TOLERANCE_EXCEEDED
         then named Slippage ''Jupiter SlippageToleranceExceeded''
         else if inRoute
         then named Venue ((case program of None \<Rightarrow> ''undefined''
                            | Some p \<Rightarrow> if p = SYSTEM_PROGRAM then ''System'' else p) @ '' '' @ codeOrError code)
         else if program = None \<and> index = Some 0 then named Alert (''ed25519 '' @ codeOrError code)
         else named Unknown_Failure (case program of None \<Rightarrow> text | Some p \<Rightarrow> p @ '' '' @ codeOrError code))"

definition sweepFailure ::
    "lib \<Rightarrow> token_programs \<Rightarrow> int \<Rightarrow> caught_error \<Rightarrow> string list \<Rightarrow> address \<Rightarrow> sweep_failure" where
  "sweepFailure L T periodLimit e logs router =
     classify L T periodLimit (failingInvocation logs) (instructionError (ce_chain e)) (ce_text e) router"

section \<open>The program that failed first\<close>

text \<open>The failed calls of a log in the order they end, each as the programs on its stack.\<close>

fun failedCalls :: "log_item \<Rightarrow> address list list" where
  "failedCalls (LogData d) = []"
| "failedCalls (LogText t) = []"
| "failedCalls (LogCall p depth items failure) =
     map ((#) p) (concat (map failedCalls items)) @ (if failure = None then [] else [[p]])"

lemma failed_line:
  assumes "p \<noteq> []" "list_all isWord p"
  shows "failedProgram (''Program '' @ p @ '' failed: '' @ e) = Some p"
    "failedProgram (''Program '' @ p @ '' success'') = None"
    "succeeds (''Program '' @ p @ '' success'')"
  using afterProgram_line [OF assms, of "''success''"] afterProgram_line [OF assms, of "''failed: '' @ e"]
  by (simp_all add: failedProgram_def succeeds_def)

lemma message_not_end:
  "failedProgram (''Program data: '' @ d) = None" "\<not> succeeds (''Program data: '' @ d)"
  "failedProgram (''Program log: '' @ t) = None" "\<not> succeeds (''Program log: '' @ t)"
  by (simp_all add: failedProgram_def succeeds_def afterProgram_def isWord_ascii)

definition firstPath :: "address list \<Rightarrow> address list list \<Rightarrow> address list \<Rightarrow> address list" where
  "firstPath stack paths otherwise = (case paths of [] \<Rightarrow> otherwise | path # _ \<Rightarrow> stack @ path)"

lemma failingFrom_item:
  "wf_log i \<Longrightarrow> failingFrom stack (render i @ rest) = firstPath stack (failedCalls i) (failingFrom stack rest)"
proof (induction i arbitrary: stack rest)
  case (LogData d)
  show ?case using message_lines(1) [of d] message_not_end [of d] by (simp add: firstPath_def)
next
  case (LogText t)
  show ?case using message_lines(4) [of t] message_not_end(3,4) [of t] by (simp add: firstPath_def)
next
  case (LogCall p depth items failure)
  have items: "failingFrom s (concat (map render xs) @ more)
      = firstPath s (concat (map failedCalls xs)) (failingFrom s more)"
    if "set xs \<subseteq> set items" "list_all wf_log xs" for xs s more
    using that
  proof (induction xs)
    case Nil
    show ?case by (simp add: firstPath_def)
  next
    case (Cons x xs)
    with LogCall.IH [of x s "concat (map render xs) @ more"] show ?case
      by (cases "failedCalls x") (simp_all add: firstPath_def)
  qed
  have wf: "p \<noteq> []" "list_all isWord p" "depth \<noteq> []" "list_all isDigit depth" "list_all wf_log items"
    using LogCall.prems by auto
  let ?over = "''Program '' @ p @ (case failure of None \<Rightarrow> '' success'' | Some e \<Rightarrow> '' failed: '' @ e)"
  have "failingFrom stack (render (LogCall p depth items failure) @ rest)
      = failingFrom (stack @ [p]) (concat (map render items) @ ?over # rest)"
    using invoke_line [OF wf(1-4)] by simp
  also have "\<dots> = firstPath (stack @ [p]) (concat (map failedCalls items)) (failingFrom (stack @ [p]) (?over # rest))"
    using items [OF _ wf(5)] by simp
  also have "failingFrom (stack @ [p]) (?over # rest) = (if failure = None then failingFrom stack rest else stack @ [p])"
    using end_line(1) [OF wf(1,2), of failure] failed_line [OF wf(1,2)] by (cases failure) simp_all
  finally show ?case
    by (cases "concat (map failedCalls items)"; cases failure) (simp_all add: firstPath_def del: concat_eq_Nil_conv)
qed

lemma failingFrom_items:
  "list_all wf_log xs \<Longrightarrow>
   failingFrom [] (concat (map render xs)) = (case concat (map failedCalls xs) of [] \<Rightarrow> [] | path # _ \<Rightarrow> path)"
proof (induction xs)
  case Nil
  then show ?case by simp
next
  case (Cons x xs)
  then show ?case by (cases "failedCalls x") (simp_all add: failingFrom_item firstPath_def)
qed


definition demoFailedLogs :: "log_item list" where
  "demoFailedLogs = [LogCall ''ComputeBudget111'' ''1'' [] None,
     LogCall LATERITE_PROGRAM_ADDRESS ''1''
       [LogCall ''Subs1'' ''2'' [LogCall ''Tok1'' ''3'' [] None] None,
        LogCall ''Router1'' ''2'' [LogText ''Instruction: Route'', LogCall ''Venue1'' ''3'' [] (Some ''custom program error: 0x1795'')]
          (Some ''custom program error: 0x1795'')] (Some ''custom program error: 0x1795'')]"


text \<open>
  A sweep is called final for the day as swept, recomputed or refetched only on Laterite's own
  error: the first failed call in the logs is Laterite itself with that code, so a venue's or the
  Subscriptions program's code that coincides with one of Laterite's is never read as Laterite's.
\<close>

theorem sweepFailure_laterite_only:
  assumes "list_all wf_log items"
    "sf_action (sweepFailure L T periodLimit e (concat (map render items)) router) \<in> {Swept_Already, Recompute, Refetch}"
  shows "\<exists>path rest code. concat (map failedCalls items) = path # rest \<and> path \<noteq> [] \<and> last path = LATERITE_PROGRAM_ADDRESS
     \<and> fst (instructionError (ce_chain e)) = Some code
     \<and> lateriteErrorOf code \<in> {Some AlreadySwept, Some NothingToSweep, Some ProgramPaused, Some InvalidRouter, Some SubscriptionMismatch}"
proof -
  let ?f = "sweepFailure L T periodLimit e (concat (map render items)) router"
  let ?stack = "failingInvocation (concat (map render items))"
  obtain code index where ci: "instructionError (ce_chain e) = (code, index)" by force
  from assms(2) obtain c where c: "?stack \<noteq> []" "last ?stack = LATERITE_PROGRAM_ADDRESS" "code = Some c"
    "lateriteAction (lateriteErrorOf c) \<in> {Swept_Already, Recompute, Refetch}"
    by (auto simp: sweepFailure_def classify_def ci Let_def split: if_splits)
  then have "lateriteErrorOf c \<in> {Some AlreadySwept, Some NothingToSweep, Some ProgramPaused, Some InvalidRouter, Some SubscriptionMismatch}"
    by (auto simp: lateriteAction_def split: option.splits laterite_error.splits)
  moreover obtain path rest where "concat (map failedCalls items) = path # rest" "?stack = path"
    using c(1) failingFrom_items [OF assms(1)]
    by (cases "concat (map failedCalls items)") (simp_all add: failingInvocation_def)
  ultimately show ?thesis using c ci by auto
qed

definition demoSweptLogs :: "log_item list" where
  "demoSweptLogs = [LogCall LATERITE_PROGRAM_ADDRESS ''1'' [LogText ''AnchorError''] (Some ''custom program error: 0x1791'')]"

definition demoSweptError :: caught_error where
  "demoSweptError = \<lparr>ce_chain = [SolanaNode None, CustomNode 6033 1], ce_text = ''failed''\<rparr>"

theorem sweepFailure_laterite_only_witness:
  "\<exists>path code. concat (map failedCalls demoSweptLogs) = [path] \<and> last path = LATERITE_PROGRAM_ADDRESS
     \<and> fst (instructionError (ce_chain demoSweptError)) = Some code"
proof -
  have "list_all wf_log demoSweptLogs"
    "sf_action (sweepFailure demoLib demoPrograms 400 demoSweptError (concat (map render demoSweptLogs)) ''Router1'')
       \<in> {Swept_Already, Recompute, Refetch}"
    "length (concat (map failedCalls demoSweptLogs)) = 1"
    by code_simp+
  with sweepFailure_laterite_only [OF this(1,2)] show ?thesis by auto
qed

end
