(* ===== verification/Crank.thy ===== *)
theory Crank
  imports Failures "HOL-Library.AList"
begin

text \<open>
  The sweep runner (\<open>services/operator/src/crank/crank.ts\<close>). Its state is a record: the deferrals, the
  excluded venues, the alarm states and the rows of \<open>sweep_attempts\<close> it writes. What a build reads of
  the world (the cluster, the price relay, the routes, the sender) is a \<open>build_env\<close>, one for each
  build; a run of the crank reads a \<open>tick_env\<close>. An address has no colon, so the code's key
  \<open>user:paymentToken\<close> is the pair.
\<close>

section \<open>Constants and records\<close>

definition MAX_SWEEP_COMPUTE_UNIT_LIMIT :: int where "MAX_SWEEP_COMPUTE_UNIT_LIMIT = 490000"
definition MAX_BUILDS :: nat where "MAX_BUILDS = 3"
definition MAX_FAILED_ATTEMPTS_PER_DAY :: nat where "MAX_FAILED_ATTEMPTS_PER_DAY = 12"
definition MAX_ASSET_UPDATE_AGE_SECONDS :: int where "MAX_ASSET_UPDATE_AGE_SECONDS = 45"

record retry_after =
  ra_alert :: int
  ra_nothing :: int
  ra_price :: int
  ra_slippage :: int
  ra_unknown :: int

definition RETRY_AFTER_MS :: retry_after where
  "RETRY_AFTER_MS = \<lparr>ra_alert = 600000, ra_nothing = 300000, ra_price = 30000, ra_slippage = 60000, ra_unknown = 120000\<rparr>"

record candidate =
  cd_paymentToken :: int
  cd_user :: user_config

type_synonym token_key = "address \<times> int"

definition keyOf :: "candidate \<Rightarrow> token_key" where
  "keyOf c = (uc_user (cd_user c), cd_paymentToken c)"

definition today :: "int \<Rightarrow> int" where "today now = divEuclid now DAY_SECONDS"

datatype sweep_outcome = Landed_Sweep | Failed_Attempt | Skipped_Day | Already_Swept_Day | Pull_Failed_Day

text \<open>What a landed transaction reports.\<close>

record landed =
  ld_bytes :: int
  ld_computeUnitLimit :: int
  ld_computeUnits :: int
  ld_executed :: "executed_instruction list"
  ld_fee :: int
  ld_loadedAccountsDataSizeLimit :: int
  ld_priorityFeeLamports :: int
  ld_signature :: string

record attempt =
  sa_outcome :: sweep_outcome
  sa_reason :: "string option"
  sa_signature :: "string option"
  sa_pull :: "int option"
  sa_minOut :: "int option"
  sa_quoted :: "int option"
  sa_route :: "string option"
  sa_priceAgeSeconds :: "int option"
  sa_priceWaitMs :: "int option"
  sa_computeUnitLimit :: "int option"
  sa_landed :: "(landed \<times> int) option"

definition attemptOf :: "sweep_outcome \<Rightarrow> string \<Rightarrow> attempt" where
  "attemptOf outcome reason =
     \<lparr>sa_outcome = outcome, sa_reason = Some reason, sa_signature = None, sa_pull = None, sa_minOut = None,
      sa_quoted = None, sa_route = None, sa_priceAgeSeconds = None, sa_priceWaitMs = None,
      sa_computeUnitLimit = None, sa_landed = None\<rparr>"

record attempt_row =
  row_user :: address
  row_paymentToken :: int
  row_day :: int
  row_attempt :: attempt

record deferral =
  df_atClock :: int
  df_atMs :: int

record crank_state =
  ck_lastSuccessAt :: "int option"
  ck_day :: "int option"
  ck_deferred :: "token_key \<rightharpoonup> deferral"
  ck_excluded :: "token_key \<rightharpoonup> int \<times> string list"
  ck_held :: "(string \<times> int) list"
  ck_alarmStates :: "(string \<times> string option) list"
  ck_closedBefore :: int
  ck_storage :: "(int \<times> pyth_storage) option"
  ck_attempts :: "attempt_row list"
  ck_alarmsSet :: "(string \<times> string option) list list"

definition initialCrank :: "attempt_row list \<Rightarrow> crank_state" where
  "initialCrank attempts =
     \<lparr>ck_lastSuccessAt = None, ck_day = None, ck_deferred = Map.empty, ck_excluded = Map.empty, ck_held = [],
      ck_alarmStates = [], ck_closedBefore = 0, ck_storage = None, ck_attempts = attempts, ck_alarmsSet = []\<rparr>"

text \<open>\<open>parts.join(separator)\<close>\<close>

fun joined :: "string \<Rightarrow> string list \<Rightarrow> string" where
  "joined separator [] = []"
| "joined separator [part] = part"
| "joined separator (part # parts) = part @ separator @ joined separator parts"

section \<open>Candidates\<close>

definition calendarCovers :: "config \<Rightarrow> int \<Rightarrow> bool" where
  "calendarCovers cfg now =
     (let day = today now
      in day \<ge> firstDay (marketCalendar cfg) \<and> day \<le> validThrough (marketCalendar cfg))"

text \<open>\<open>lastSweepDay[token]! >= day\<close>; an absent entry compares false.\<close>

definition sweptOn :: "user_config \<Rightarrow> int \<Rightarrow> int \<Rightarrow> bool" where
  "sweptOn u token day = (case nth_opt (uc_lastSweepDay u) token of None \<Rightarrow> False | Some d \<Rightarrow> d \<ge> day)"

definition userCandidates :: "config \<Rightarrow> int \<Rightarrow> user_config \<Rightarrow> candidate list" where
  "userCandidates cfg now u =
     (if uc_status u \<noteq> Active \<or> (uc_engine u = Weekly \<and> \<not> usMarketOpen now (marketCalendar cfg)) then []
      else map (\<lambda>t. \<lparr>cd_paymentToken = t, cd_user = u\<rparr>)
             (filter (\<lambda>t. \<not> sweptOn u t (today now)
                          \<and> pullTotal (pull u t U64_MAX (userWeeklyCap cfg) (marketCalendar cfg) now) > 0)
                (enabledPaymentTokens (uc_paymentTokens u))))"

definition sweepCandidates :: "user_config list \<Rightarrow> config \<Rightarrow> int \<Rightarrow> candidate list" where
  "sweepCandidates users cfg now = concat (map (userCandidates cfg now) users)"

section \<open>Effects on the crank's state\<close>

definition recordAttempt :: "candidate \<Rightarrow> int \<Rightarrow> attempt \<Rightarrow> crank_state \<Rightarrow> crank_state" where
  "recordAttempt c day a st =
     st\<lparr>ck_attempts := ck_attempts st @
          [\<lparr>row_user = uc_user (cd_user c), row_paymentToken = cd_paymentToken c, row_day = day, row_attempt = a\<rparr>]\<rparr>"

definition backoff :: "int \<Rightarrow> nat \<Rightarrow> int" where
  "backoff afterMs failures = min (afterMs * 2 ^ (failures - 1)) 86400000"

definition defer_token :: "int \<Rightarrow> candidate \<Rightarrow> int \<Rightarrow> nat \<Rightarrow> crank_state \<Rightarrow> crank_state" where
  "defer_token ms c afterMs failures st =
     st\<lparr>ck_deferred := (ck_deferred st)(keyOf c \<mapsto> \<lparr>df_atClock = 0, df_atMs = ms + backoff afterMs failures\<rparr>)\<rparr>"

definition excludeVenues :: "token_key \<Rightarrow> int \<Rightarrow> string list \<Rightarrow> crank_state \<Rightarrow> crank_state" where
  "excludeVenues key day venues st =
     (let current = (case ck_excluded st key of Some (d, vs) \<Rightarrow> if d = day then vs else [] | None \<Rightarrow> [])
      in st\<lparr>ck_excluded := (ck_excluded st)(key \<mapsto> (day, foldl (\<lambda>vs v. if v \<in> set vs then vs else vs @ [v]) current venues))\<rparr>)"

definition raiseAlarm :: "string \<Rightarrow> string \<Rightarrow> crank_state \<Rightarrow> crank_state" where
  "raiseAlarm key message st =
     st\<lparr>ck_alarmStates := AList.update key (Some message) (ck_alarmStates st)\<rparr>"

text \<open>\<open>hold\<close>: only which reasons were already logged is state.\<close>

definition hold :: "string \<times> int \<Rightarrow> crank_state \<Rightarrow> crank_state" where
  "hold key st =
     (if key \<in> set (ck_held st) then st
      else st\<lparr>ck_held := (if length (ck_held st) > 64 then [] else ck_held st) @ [key]\<rparr>)"

text \<open>\<open>pythStorage\<close>: read again after ten minutes; \<open>storage\<close> is the read.\<close>

definition pythStorage :: "int \<Rightarrow> pyth_storage outcome \<Rightarrow> crank_state \<Rightarrow> pyth_storage outcome \<times> crank_state" where
  "pythStorage ms storage st =
     (case ck_storage st of
        Some (at, cached) \<Rightarrow>
          if ms - at \<le> 600000 then (Inr cached, st)
          else (case storage of Inl e \<Rightarrow> (Inl e, st) | Inr s \<Rightarrow> (Inr s, st\<lparr>ck_storage := Some (ms, s)\<rparr>))
      | None \<Rightarrow> (case storage of Inl e \<Rightarrow> (Inl e, st) | Inr s \<Rightarrow> (Inr s, st\<lparr>ck_storage := Some (ms, s)\<rparr>)))"

section \<open>What a build reads of the world\<close>

record asset_update =
  au_message :: bytes
  au_updatedAt :: int
  au_waitedMs :: int

record route_request =
  rq_amount :: int
  rq_asset :: asset_entry
  rq_excludeVenues :: "string list"
  rq_payment :: payment_token_entry
  rq_swapAuthority :: address
  rq_userAssetAccount :: address

text \<open>\<open>RouteRefused\<close> is a \<open>NoRouteError\<close> or a \<open>SwapAccountBoundError\<close> with its message.\<close>

datatype route_result = RouteFound route_instruction int "string list" | RouteRefused string | RouteThrew js_error

datatype repeg_result = Repegged | RepegRefused string | RepegThrew js_error

text \<open>What \<open>sendVersion1\<close> returns or throws.\<close>

datatype send_result =
    SentLanded landed
  | SentComputeLimit int int
  | SentTooLarge
  | SentFailed caught_error "string list" "string option"
  | SentThrew string

record build_env =
  be_ms :: int
  be_latencyMs :: int
  be_clock :: "int outcome"
  be_assetUpdate :: "int \<Rightarrow> int \<Rightarrow> asset_update option outcome"
  be_cluster :: cluster
  be_paymentUpdate :: "int \<Rightarrow> int \<Rightarrow> bytes outcome"
  be_repeg :: "(address \<Rightarrow> address \<Rightarrow> quote_data \<Rightarrow> quote_data option \<Rightarrow> repeg_result) option"
  be_storage :: "pyth_storage outcome"
  be_routes :: "route_request \<Rightarrow> route_result"
  be_send :: "instruction list \<Rightarrow> int \<Rightarrow> send_result"
  be_config :: "config outcome"

text \<open>What does not change: the libraries, the retry waits and the crank's address.\<close>

record crank_input =
  cr_lib :: lib
  cr_programs :: token_programs
  cr_periodLimit :: int
  cr_sizeOf :: "instruction list \<Rightarrow> int outcome"
  cr_retryAfterMs :: retry_after
  cr_crank :: address
  cr_message :: "js_error \<Rightarrow> string"

section \<open>One build of a sweep\<close>

text \<open>The variables of the loop.\<close>

record loop_vars =
  lv_asset :: int
  lv_rebuiltAfter :: "int option"
  lv_refetched :: bool
  lv_freshRoute :: bool
  lv_config :: config

text \<open>A build returns, continues the loop, or throws.\<close>

datatype build_result = Finished crank_state | Continue loop_vars crank_state | Threw js_error crank_state

definition restoreReason :: "restore_reason \<Rightarrow> string" where
  "restoreReason r = (case r of ByAuthority \<Rightarrow> ''authority'' | ByDelegate \<Rightarrow> ''delegate''
     | ByFrozen \<Rightarrow> ''frozen'' | BySubscription \<Rightarrow> ''subscription'')"

text \<open>The pull is refused.\<close>

definition pullRefused :: "crank_input \<Rightarrow> candidate \<Rightarrow> build_env \<Rightarrow> int \<Rightarrow> js_error \<Rightarrow> crank_state \<Rightarrow> build_result" where
  "pullRefused I c env day e st =
     (case e of
        RestoreRequiredError reason _ \<Rightarrow>
          Finished (recordAttempt c day (attemptOf Skipped_Day (''RestoreRequired '' @ restoreReason reason)) st)
      | LateriteCheckError AlreadySwept \<Rightarrow>
          Finished (recordAttempt c day (attemptOf Already_Swept_Day ''AlreadySwept'') st)
      | LateriteCheckError NothingToSweep \<Rightarrow>
          Finished (defer_token (be_ms env) c (ra_nothing (cr_retryAfterMs I)) 0 st)
      | _ \<Rightarrow> Threw e st)"

text \<open>The updates fail the local checks.\<close>

definition codeOf :: "laterite_error \<Rightarrow> int" where
  "codeOf e = (case find (\<lambda>(i, e'). e' = e) (enumerate 0 LATERITE_ERRORS) of Some (i, _) \<Rightarrow> 6000 + int i | None \<Rightarrow> 0)"

definition quoteRefused ::
    "crank_input \<Rightarrow> candidate \<Rightarrow> build_env \<Rightarrow> nat \<Rightarrow> int \<Rightarrow> attempt \<Rightarrow> js_error \<Rightarrow> crank_state \<Rightarrow> build_result" where
  "quoteRefused I c env failed day priced e st =
     (case e of
        LateriteCheckError code \<Rightarrow>
          let reason = lateriteErrorName (codeOf code);
              recorded = recordAttempt c day (priced\<lparr>sa_reason := Some reason\<rparr>) st
          in if code = StalePrice \<or> code = PriceUncertain
             then Finished (defer_token (be_ms env) c (ra_price (cr_retryAfterMs I)) (failed + 1) recorded)
             else Finished (defer_token (be_ms env) c (ra_alert (cr_retryAfterMs I)) (failed + 1)
                    (raiseAlarm ''sweep-bug'' (''an update the relay kept fails the local checks with '' @ reason
                       @ '': check the price sources'') recorded))
      | _ \<Rightarrow> Threw e st)"

text \<open>What follows a failed transaction, as the outcome table decides.\<close>

definition afterFailure ::
    "crank_input \<Rightarrow> candidate \<Rightarrow> build_env \<Rightarrow> nat \<Rightarrow> loop_vars \<Rightarrow> int \<Rightarrow> int \<Rightarrow> attempt \<Rightarrow> string list
     \<Rightarrow> sweep_failure \<Rightarrow> crank_state \<Rightarrow> build_result" where
  "afterFailure I c env failed v day amount attempt venues failure st =
     (let retry = cr_retryAfterMs I;
          recorded = recordAttempt c day attempt st;
          waiting = (\<lambda>afterMs s. Finished (defer_token (be_ms env) c afterMs (failed + 1) s))
      in case sf_action failure of
           Swept_Already \<Rightarrow> Finished (recordAttempt c day (attempt\<lparr>sa_outcome := Already_Swept_Day\<rparr>) st)
         | Pull_Failed \<Rightarrow> Finished (recordAttempt c day (attempt\<lparr>sa_outcome := Pull_Failed_Day\<rparr>) st)
         | Recompute \<Rightarrow> Continue v recorded
         | Rebuild \<Rightarrow>
             if lv_rebuiltAfter v = Some amount
             then waiting (ra_slippage retry) (excludeVenues (keyOf c) day venues
                    (raiseAlarm ''sweep-route'' (sf_reason failure @ '' twice with the same pull through '' @ the (sa_route attempt) @ '': that route is skipped today'')
                       recorded))
             else Continue (v\<lparr>lv_rebuiltAfter := Some amount\<rparr>) recorded
         | Refetch \<Rightarrow>
             if lv_refetched v then waiting (ra_unknown retry) recorded
             else (case be_config env of
                     Inl e \<Rightarrow> Threw e recorded
                   | Inr cfg \<Rightarrow> if cfg_paused cfg then Finished recorded
                                 else Continue (v\<lparr>lv_refetched := True, lv_config := cfg\<rparr>) recorded)
         | Slippage \<Rightarrow>
             if lv_freshRoute v then waiting (ra_slippage retry) recorded
             else Continue (v\<lparr>lv_freshRoute := True\<rparr>) recorded
         | Venue \<Rightarrow> Continue v (excludeVenues (keyOf c) day venues recorded)
         | Price_Retry \<Rightarrow> waiting (ra_price retry) recorded
         | Alert \<Rightarrow> waiting (ra_alert retry) (raiseAlarm ''sweep-bug''
                      (''a sweep failed with '' @ sf_reason failure @ '', which the local checks should catch'') recorded)
         | Unknown_Failure \<Rightarrow> waiting (ra_unknown retry) recorded)"

text \<open>Sending the built sweep. An event that cannot be read counts as any other error of the send.\<close>

definition sendBuilt ::
    "crank_input \<Rightarrow> candidate \<Rightarrow> build_env \<Rightarrow> nat \<Rightarrow> loop_vars \<Rightarrow> int \<Rightarrow> int \<Rightarrow> attempt \<Rightarrow> string list
     \<Rightarrow> instruction list \<Rightarrow> crank_state \<Rightarrow> build_result" where
  "sendBuilt I c env failed v day amount routed venues instructions st =
     (let unknown = (\<lambda>reason. Finished (defer_token (be_ms env) c (ra_unknown (cr_retryAfterMs I)) (failed + 1)
                       (recordAttempt c day (routed\<lparr>sa_reason := Some reason\<rparr>) st)))
      in case be_send env instructions MAX_SWEEP_COMPUTE_UNIT_LIMIT of
           SentLanded l \<Rightarrow>
             (case findSweptEvent (cr_lib I) (ld_executed l) of
                Inl e \<Rightarrow> unknown (cr_message I e)
              | Inr _ \<Rightarrow>
                  let recorded = recordAttempt c day (routed\<lparr>sa_outcome := Landed_Sweep, sa_signature := Some (ld_signature l),
                        sa_computeUnitLimit := Some (ld_computeUnitLimit l), sa_landed := Some (l, be_latencyMs env)\<rparr>) st
                  in Finished (recorded\<lparr>ck_deferred := (ck_deferred recorded)(keyOf c := None)\<rparr>))
         | SentComputeLimit limit ceiling \<Rightarrow>
             Continue v (excludeVenues (keyOf c) day venues
               (raiseAlarm ''sweep-compute'' (''a sweep through '' @ the (sa_route routed) @ '' needs '' @ showInt limit @ '' compute units, above '' @ showInt ceiling @ '': not sent'')
                  (recordAttempt c day (routed\<lparr>sa_computeUnitLimit := Some limit, sa_reason := Some ''ComputeLimit''\<rparr>) st)))
         | SentTooLarge \<Rightarrow>
             Finished (raiseAlarm ''sweep-size'' (''a sweep through '' @ the (sa_route routed) @ '' does not fit 4,096 bytes: not sent'')
               (recordAttempt c day (routed\<lparr>sa_outcome := Skipped_Day, sa_reason := Some ''TransactionTooLarge''\<rparr>) st))
         | SentThrew message \<Rightarrow> unknown message
         | SentFailed e logs signature \<Rightarrow>
             let failure = sweepFailure (cr_lib I) (cr_programs I) (cr_periodLimit I) e logs (cfg_router (lv_config v))
             in afterFailure I c env failed v day amount
                  (routed\<lparr>sa_reason := Some (sf_reason failure), sa_signature := signature\<rparr>) venues failure st)"

text \<open>The route, and what it is quoted, to the send.\<close>

definition routeBuild ::
    "crank_input \<Rightarrow> candidate \<Rightarrow> build_env \<Rightarrow> nat \<Rightarrow> loop_vars \<Rightarrow> sweep_state \<Rightarrow> asset_entry \<Rightarrow> payment_token_entry
     \<Rightarrow> int \<Rightarrow> attempt \<Rightarrow> bytes \<Rightarrow> bytes \<Rightarrow> int \<Rightarrow> address \<Rightarrow> crank_state \<Rightarrow> build_result" where
  "routeBuild I c env failed v s assetEntry token amount priced assetMessage paymentMessage minimum treasury st =
     (let L = cr_lib I; day = today (ss_now s); retry = cr_retryAfterMs I; key = keyOf c;
          waiting = (\<lambda>afterMs s. Finished (defer_token (be_ms env) c afterMs (failed + 1) s));
          excluded = (case ck_excluded st key of Some (d, vs) \<Rightarrow> if d = day then vs else [] | None \<Rightarrow> [])
      in case be_routes env \<lparr>rq_amount = amount, rq_asset = assetEntry, rq_excludeVenues = excluded,
                rq_payment = token, rq_swapAuthority = findSwapAuthorityPda L,
                rq_userAssetAccount = findAssociatedTokenPda L (asset_mint assetEntry)
                  (uc_user (cd_user c)) (asset_tokenProgram assetEntry)\<rparr> of
           RouteThrew e \<Rightarrow> Threw e st
         | RouteRefused m \<Rightarrow>
             waiting (ra_slippage retry)
               (recordAttempt c day (priced\<lparr>sa_minOut := Some minimum, sa_reason := Some m\<rparr>) st)
         | RouteFound instruction quoted venues \<Rightarrow>
             let routed = priced\<lparr>sa_minOut := Some minimum, sa_quoted := Some quoted,
                                 sa_route := Some (joined '' '' venues)\<rparr>
             in if quoted < minimum
                then let recorded = recordAttempt c day (routed\<lparr>sa_reason := Some ''quote below min_out''\<rparr>) st
                     in if lv_freshRoute v then waiting (ra_slippage retry) recorded
                        else Continue (v\<lparr>lv_freshRoute := True\<rparr>) recorded
                else case getSweepInstructions L (cr_sizeOf I)
                       \<lparr>in_assetUpdate = assetMessage, in_boundaryMarginSeconds = SWEEP_BOUNDARY_MARGIN_SECONDS,
                        in_crank = cr_crank I, in_paymentUpdate = paymentMessage,
                        in_pythTreasury = treasury, in_route = instruction, in_state = s\<rparr> of
                       Inl e \<Rightarrow> Threw e st
                     | Inr built \<Rightarrow>
                         sendBuilt I c env failed v day amount routed venues (bs_instructions built) st)"

text \<open>From the quotes to the route: the minimum, the re-peg and the storage.\<close>

definition repegBefore ::
    "build_env \<Rightarrow> asset_entry \<Rightarrow> payment_token_entry \<Rightarrow> quote_data \<Rightarrow> quote_data \<Rightarrow> repeg_result" where
  "repegBefore env assetEntry token assetQuote paymentQuote =
     (case be_repeg env of
        None \<Rightarrow> Repegged
      | Some before \<Rightarrow> before (asset_mint assetEntry) (token_mint token) assetQuote
                         (if usdFeedId token = 0 then None else Some paymentQuote))"

definition routeAndSend ::
    "crank_input \<Rightarrow> candidate \<Rightarrow> build_env \<Rightarrow> nat \<Rightarrow> loop_vars \<Rightarrow> sweep_state \<Rightarrow> asset_entry \<Rightarrow> payment_token_entry
     \<Rightarrow> int \<Rightarrow> attempt \<Rightarrow> bytes \<Rightarrow> bytes \<Rightarrow> quote_data \<Rightarrow> quote_data \<Rightarrow> crank_state \<Rightarrow> build_result" where
  "routeAndSend I c env failed v s assetEntry token amount priced assetMessage paymentMessage assetQuote paymentQuote st =
     (case minOut amount paymentQuote USD_DECIMALS assetQuote (asset_decimals assetEntry) of
        Inl e \<Rightarrow> Threw e st
      | Inr minimum \<Rightarrow>
          let withStorage = (\<lambda>st. case pythStorage (be_ms env) (be_storage env) st of
                (Inl e, st) \<Rightarrow> Threw e st
              | (Inr storage, st) \<Rightarrow>
                  routeBuild I c env failed v s assetEntry token amount priced assetMessage paymentMessage minimum
                    (st_treasury storage) st)
          in case repegBefore env assetEntry token assetQuote paymentQuote of
               RepegThrew e \<Rightarrow> Threw e st
             | Repegged \<Rightarrow> withStorage st
             | RepegRefused m \<Rightarrow>
                 withStorage (raiseAlarm ''repeg-before-sweep'' (m @ '': sweeps through the pool wait'') st))"

text \<open>From the pull to the quotes.\<close>

definition priceBuild ::
    "crank_input \<Rightarrow> candidate \<Rightarrow> build_env \<Rightarrow> nat \<Rightarrow> loop_vars \<Rightarrow> sweep_state \<Rightarrow> asset_entry
     \<Rightarrow> asset_update option \<Rightarrow> pull_amount \<Rightarrow> crank_state \<Rightarrow> build_result" where
  "priceBuild I c env failed v s assetEntry assetUpdate pulled st =
     (let day = today (ss_now s); retry = cr_retryAfterMs I; toBoundary = secondsToNextSweepBoundary s; amount = pullTotal pulled;
          base = (attemptOf Failed_Attempt [])\<lparr>sa_reason := None, sa_pull := Some amount\<rparr>
      in if toBoundary < SWEEP_BOUNDARY_MARGIN_SECONDS
         then Finished (st\<lparr>ck_deferred := (ck_deferred st)(keyOf c \<mapsto> \<lparr>df_atClock = ss_now s + toBoundary, df_atMs = 0\<rparr>)\<rparr>)
         else case assetUpdate of
                None \<Rightarrow> Finished (defer_token (be_ms env) c (ra_price retry) (failed + 1)
                          (recordAttempt c day (base\<lparr>sa_reason := Some ''StalePrice''\<rparr>) st))
              | Some update \<Rightarrow>
                  let priced = base\<lparr>sa_priceAgeSeconds := Some (ss_now s - au_updatedAt update),
                                    sa_priceWaitMs := Some (au_waitedMs update)\<rparr>
                  in case entry (cfg_paymentTokens (lv_config v)) (cd_paymentToken c) of
                       Inl e \<Rightarrow> Threw e st
                     | Inr token \<Rightarrow>
                         case (if usdFeedId token = 0 then Inr [] else be_paymentUpdate env (usdFeedId token) (ss_now s)) of
                           Inl e \<Rightarrow> Threw e st
                         | Inr paymentMessage \<Rightarrow>
                             case res_bind (quote (cr_lib I) (au_message update) (pythFeedId assetEntry) (ss_now s) MAX_ASSET_UPDATE_AGE_SECONDS) (\<lambda>a.
                                  res_bind (quote (cr_lib I) paymentMessage (usdFeedId token) (ss_now s) MAX_PRICE_AGE_SECONDS) (\<lambda>p.
                                  Inr (a, p))) of
                               Inl e \<Rightarrow> quoteRefused I c env failed day priced e st
                             | Inr (assetQuote, paymentQuote) \<Rightarrow>
                                 routeAndSend I c env failed v s assetEntry token amount priced (au_message update)
                                   paymentMessage assetQuote paymentQuote st)"

text \<open>The whole body of the loop.\<close>

definition sweepBuild ::
    "crank_input \<Rightarrow> candidate \<Rightarrow> address set \<Rightarrow> nat \<Rightarrow> build_env \<Rightarrow> loop_vars \<Rightarrow> crank_state \<Rightarrow> build_result" where
  "sweepBuild I c paused failed env v st =
     (case be_clock env of
        Inl e \<Rightarrow> Threw e st
      | Inr clock \<Rightarrow>
          case entry (cfg_assets (lv_config v)) (lv_asset v) of
            Inl e \<Rightarrow> Threw e st
          | Inr assetEntry \<Rightarrow>
              if asset_mint assetEntry \<in> paused
              then Finished (defer_token (be_ms env) c (ra_nothing (cr_retryAfterMs I)) (failed + 1)
                     (recordAttempt c (today clock) (attemptOf Failed_Attempt ''AssetPaused'') st))
              else case be_assetUpdate env (pythFeedId assetEntry) clock of
                     Inl e \<Rightarrow> Threw e st
                   | Inr assetUpdate \<Rightarrow>
                       case fetchSweepState (cr_lib I) (be_cluster env) (lv_config v) (cd_paymentToken c) (uc_user (cd_user c)) of
                         Inl e \<Rightarrow> Threw e st
                       | Inr s \<Rightarrow>
                           if uc_asset (ss_userConfig s) \<noteq> lv_asset v
                           then Continue (v\<lparr>lv_asset := uc_asset (ss_userConfig s)\<rparr>) st
                           else case getSweepPull s of
                                  Inl e \<Rightarrow> pullRefused I c env (today (ss_now s)) e st
                                | Inr pulled \<Rightarrow> priceBuild I c env failed v s assetEntry assetUpdate pulled st)"

section \<open>A sweep, and a run\<close>

text \<open>The loop: \<open>builds\<close> left, the environment of each in turn.\<close>

fun sweepLoop ::
    "crank_input \<Rightarrow> candidate \<Rightarrow> address set \<Rightarrow> nat \<Rightarrow> nat \<Rightarrow> build_env list \<Rightarrow> int \<Rightarrow> loop_vars \<Rightarrow> crank_state
     \<Rightarrow> js_error option \<times> crank_state" where
  "sweepLoop I c paused failed (Suc builds) (env # envs) endMs v st =
     (case sweepBuild I c paused failed env v st of
        Finished st' \<Rightarrow> (None, st')
      | Threw e st' \<Rightarrow> (Some e, st')
      | Continue v' st' \<Rightarrow> sweepLoop I c paused failed builds envs endMs v' st')"
| "sweepLoop I c paused failed builds envs endMs v st =
     (None, defer_token endMs c (ra_unknown (cr_retryAfterMs I)) (failed + 1) st)"

text \<open>\<open>envs\<close> has an environment for each of the \<open>MAX_BUILDS\<close> builds.\<close>

definition sweep ::
    "crank_input \<Rightarrow> candidate \<Rightarrow> config \<Rightarrow> address set \<Rightarrow> nat \<Rightarrow> build_env list \<Rightarrow> int \<Rightarrow> crank_state
     \<Rightarrow> js_error option \<times> crank_state" where
  "sweep I c cfg paused failed envs endMs st =
     sweepLoop I c paused failed MAX_BUILDS envs endMs
       \<lparr>lv_asset = uc_asset (cd_user c), lv_rebuiltAfter = None, lv_refetched = False, lv_freshRoute = False,
        lv_config = cfg\<rparr> st"

text \<open>Rows of a token's day, its failed attempts, and whether the day is decided.\<close>

definition rowsOf :: "attempt_row list \<Rightarrow> token_key \<Rightarrow> int \<Rightarrow> attempt_row list" where
  "rowsOf rows key day = filter (\<lambda>r. (row_user r, row_paymentToken r) = key \<and> row_day r = day) rows"

definition isFailed :: "attempt_row \<Rightarrow> bool" where
  "isFailed r = (sa_outcome (row_attempt r) = Failed_Attempt)"

definition failedToday :: "attempt_row list \<Rightarrow> int \<Rightarrow> token_key \<Rightarrow> nat" where
  "failedToday rows day key = length (filter isFailed (rowsOf rows key day))"

definition decidedToday :: "attempt_row list \<Rightarrow> int \<Rightarrow> token_key \<Rightarrow> bool" where
  "decidedToday rows day key =
     ((\<exists>r \<in> set (rowsOf rows key day). \<not> isFailed r) \<or> failedToday rows day key \<ge> MAX_FAILED_ATTEMPTS_PER_DAY)"

text \<open>\<open>closeDays\<close>: the token days before \<open>day\<close>, in the order of their first row, with only failures.\<close>

definition tokenDays :: "attempt_row list \<Rightarrow> (token_key \<times> int) list" where
  "tokenDays rows = distinct_order (map (\<lambda>r. ((row_user r, row_paymentToken r), row_day r)) rows)"

definition closeDays :: "int \<Rightarrow> crank_state \<Rightarrow> crank_state" where
  "closeDays day st =
     (let rows = ck_attempts st;
          open_days = filter (\<lambda>(key, d). d < day \<and> list_all isFailed (rowsOf rows key d)) (tokenDays rows)
      in st\<lparr>ck_attempts := rows @ map (\<lambda>(key, d).
            \<lparr>row_user = fst key, row_paymentToken = snd key, row_day = d,
             row_attempt = (attemptOf Skipped_Day [])\<lparr>sa_reason := sa_reason (row_attempt (last (rowsOf rows key d)))\<rparr>\<rparr>)
          open_days\<rparr>)"

text \<open>What a run reads: \<open>te_builds\<close> gives the environments of each sweep's builds.\<close>

record tick_env =
  te_ms :: int
  te_doneMs :: int
  te_config :: "config outcome"
  te_clock :: "int outcome"
  te_users :: "user_config list outcome"
  te_pausedMints :: "(address \<times> bool) list outcome"
  te_builds :: "candidate \<Rightarrow> build_env list"
  te_endMs :: "candidate \<Rightarrow> int"

definition dueCandidates :: "tick_env \<Rightarrow> user_config list \<Rightarrow> config \<Rightarrow> int \<Rightarrow> crank_state \<Rightarrow> candidate list" where
  "dueCandidates env users cfg now st =
     filter (\<lambda>c. \<not> decidedToday (ck_attempts st) (today now) (keyOf c)
                 \<and> (case ck_deferred st (keyOf c) of None \<Rightarrow> True
                    | Some d \<Rightarrow> df_atMs d \<le> te_ms env \<and> df_atClock d \<le> now))
       (sweepCandidates users cfg now)"

text \<open>A sweep that throws is logged and deferred.\<close>

definition sweepOne ::
    "crank_input \<Rightarrow> tick_env \<Rightarrow> config \<Rightarrow> address set \<Rightarrow> (token_key \<Rightarrow> nat) \<Rightarrow> candidate \<Rightarrow> crank_state \<Rightarrow> crank_state" where
  "sweepOne I env cfg paused failed c st =
     (case sweep I c cfg paused (failed (keyOf c)) (te_builds env c) (te_endMs env c) st of
        (None, st') \<Rightarrow> st'
      | (Some e, st') \<Rightarrow> defer_token (te_endMs env c) c (ra_unknown (cr_retryAfterMs I)) (failed (keyOf c)) st')"

definition initialAlarms :: "(string \<times> string option) list" where
  "initialAlarms = [(''repeg-before-sweep'', None), (''sweep-bug'', None), (''sweep-compute'', None),
                    (''sweep-route'', None), (''sweep-size'', None)]"

definition tick :: "crank_input \<Rightarrow> tick_env \<Rightarrow> crank_state \<Rightarrow> js_error option \<times> crank_state" where
  "tick I env st =
     (case res_bind (te_config env) (\<lambda>cfg. res_bind (te_clock env) (\<lambda>now. Inr (cfg, now))) of
        Inl e \<Rightarrow> (Some e, st)
      | Inr (cfg, now) \<Rightarrow>
          let st = st\<lparr>ck_day := Some (today now)\<rparr>;
              st = (if today now > ck_closedBefore st
                    then (closeDays (today now) st)\<lparr>ck_closedBefore := today now\<rparr> else st);
              st = st\<lparr>ck_alarmStates := initialAlarms\<rparr>
          in if cfg_paused cfg
             then (None, (hold (''kill-switch'', today now) st)\<lparr>ck_lastSuccessAt := Some (te_doneMs env)\<rparr>)
             else let st = (if calendarCovers cfg now then st else hold (''calendar'', today now) st)
                  in case res_bind (te_users env) (\<lambda>users. res_bind (te_pausedMints env) (\<lambda>mints. Inr (users, mints))) of
                       Inl e \<Rightarrow> (Some e, st)
                     | Inr (users, mints) \<Rightarrow>
                         let paused = set (map fst (filter snd mints));
                             rows = ck_attempts st;
                             st = fold (sweepOne I env cfg paused (failedToday rows (today now)))
                                    (dueCandidates env users cfg now st) st
                         in (None, st\<lparr>ck_alarmsSet := ck_alarmsSet st @ [ck_alarmStates st],
                                      ck_lastSuccessAt := Some (te_doneMs env)\<rparr>))"

end
