(* ===== verification/Crank_Facts.thy ===== *)
theory Crank_Facts
  imports Crank
begin

text \<open>
  What the sweep runner of \<open>Crank\<close> keeps: reading only the user configs misses no sweep, a sweep makes at
  most three attempts of which only the last can be final, and over any run of ticks and restarts a
  token's day has one final word and a bounded number of failures.
\<close>

section \<open>Candidates\<close>

lemma getSweepPull_checks:
  assumes "getSweepPull s = Inr p"
  shows "ss_paymentToken s \<ge> 0" "ss_paymentToken s < int (length (cfg_paymentTokens (ss_config s)))"
    "\<not> (\<exists>d. nth_opt (uc_lastSweepDay (ss_userConfig s)) (ss_paymentToken s) = Some d \<and> todayU32 (ss_now s) \<le> d)"
    "uc_engine (ss_userConfig s) = Weekly \<Longrightarrow> usMarketOpen (ss_now s) (marketCalendar (ss_config s))"
proof -
  from assms have "nth_opt (cfg_paymentTokens (ss_config s)) (ss_paymentToken s) \<noteq> None"
    by (auto simp: getSweepPull_def Let_def result_simps)
  then obtain x where "nth_opt (cfg_paymentTokens (ss_config s)) (ss_paymentToken s) = Some x" by blast
  then show "ss_paymentToken s \<ge> 0" "ss_paymentToken s < int (length (cfg_paymentTokens (ss_config s)))"
    by (simp_all add: nth_opt_Some_iff)
  from assms show "\<not> (\<exists>d. nth_opt (uc_lastSweepDay (ss_userConfig s)) (ss_paymentToken s) = Some d \<and> todayU32 (ss_now s) \<le> d)"
    by (auto simp: getSweepPull_def Let_def result_simps)
  from assms show "uc_engine (ss_userConfig s) = Weekly \<Longrightarrow> usMarketOpen (ss_now s) (marketCalendar (ss_config s))"
    by (auto simp: getSweepPull_def Let_def result_simps)
qed

lemma todayU32_today: "0 \<le> today now \<Longrightarrow> today now < 2 ^ 32 \<Longrightarrow> todayU32 now = today now"
  by (simp add: todayU32_def today_def)

lemma userCandidates_complete:
  assumes "getSweepPull s = Inr p" "sweep_state_ok s"
    "\<forall>a. ss_paymentAccountState s = Some a \<longrightarrow> ta_amount a \<le> U64_MAX"
    "length (cfg_paymentTokens (ss_config s)) = 2"
    "0 \<le> today (ss_now s)" "today (ss_now s) < 2 ^ 32"
  shows "\<lparr>cd_paymentToken = ss_paymentToken s, cd_user = ss_userConfig s\<rparr>
    \<in> set (userCandidates (ss_config s) (ss_now s) (ss_userConfig s))"
proof -
  note c = getSweepPull_checks [OF assms(1)]
  let ?b = "case ss_paymentAccountState s of Some a \<Rightarrow> ta_amount a | None \<Rightarrow> 0"
  let ?pull = "\<lambda>b. pullTotal (pull (ss_userConfig s) (ss_paymentToken s) b (userWeeklyCap (ss_config s))
    (marketCalendar (ss_config s)) (ss_now s))"
  have "?pull ?b \<noteq> 0" using getSweepPull_Inr(3) [OF assms(1)] by (simp add: enginePull_def Let_def)
  then have status: "uc_status (ss_userConfig s) = Active" by (rule contrapos_np) (simp add: pull_def pullTotal_def)
  have ok: "amounts_ok (ss_userConfig s)" using assms(2) by (simp add: sweep_state_ok_def)
  have "?b \<le> U64_MAX" using assms(3) by (auto simp: U64_MAX_def split: option.splits)
  from pullTotal_mono [OF ok this] \<open>?pull ?b \<noteq> 0\<close> pullTotal_nonneg [OF ok]
  have pos: "0 < ?pull U64_MAX" by (metis order_less_le_trans order_le_less)
  have token: "ss_paymentToken s \<in> set (enabledPaymentTokens (uc_paymentTokens (ss_userConfig s)))"
    using c(1,2) assms(4) getSweepPull_Inr(5) [OF assms(1)] by (auto simp: enabled_iff)
  have "\<not> sweptOn (ss_userConfig s) (ss_paymentToken s) (today (ss_now s))"
    using c(3) todayU32_today [OF assms(5,6)] by (auto simp: sweptOn_def split: option.splits)
  with status pos token c(4) show ?thesis by (auto simp: userCandidates_def)
qed

section \<open>What a build records\<close>

lemma effect_attempts [simp]:
  "ck_attempts (defer_token ms c after failures st) = ck_attempts st"
  "ck_attempts (excludeVenues key day venues st) = ck_attempts st"
  "ck_attempts (raiseAlarm name message st) = ck_attempts st"
  "ck_attempts (hold k st) = ck_attempts st"
  "ck_closedBefore (defer_token ms c after failures st) = ck_closedBefore st"
  "ck_closedBefore (excludeVenues key day venues st) = ck_closedBefore st"
  "ck_closedBefore (raiseAlarm name message st) = ck_closedBefore st"
  "ck_closedBefore (hold k st) = ck_closedBefore st"
  "ck_closedBefore (recordAttempt c day a st) = ck_closedBefore st"
  by (simp_all add: defer_token_def excludeVenues_def raiseAlarm_def hold_def recordAttempt_def Let_def)

lemma pythStorage_attempts:
  "pythStorage ms storage st = (r, st') \<Longrightarrow> ck_attempts st' = ck_attempts st \<and> ck_closedBefore st' = ck_closedBefore st"
  by (auto simp: pythStorage_def split: option.splits if_splits sum.splits)

definition rowFor :: "candidate \<Rightarrow> attempt_row \<Rightarrow> bool" where
  "rowFor c r = ((row_user r, row_paymentToken r) = keyOf c)"

text \<open>
  At most one new row, of the candidate, on a day in \<open>days\<close>, its outcome in \<open>outcomes\<close>.
\<close>

definition recorded :: "candidate \<Rightarrow> int set \<Rightarrow> sweep_outcome set \<Rightarrow> crank_state \<Rightarrow> crank_state \<Rightarrow> bool" where
  "recorded c days outcomes st st' =
     (ck_closedBefore st' = ck_closedBefore st
      \<and> (ck_attempts st' = ck_attempts st \<or> (\<exists>r. ck_attempts st' = ck_attempts st @ [r] \<and> rowFor c r \<and> row_day r \<in> days
             \<and> sa_outcome (row_attempt r) \<in> outcomes)))"

lemma recorded_same [intro]:
  "ck_attempts st' = ck_attempts st \<Longrightarrow> ck_closedBefore st' = ck_closedBefore st \<Longrightarrow> recorded c days outcomes st st'"
  by (simp add: recorded_def)

lemma recorded_simps [simp]:
  "recorded c days outcomes st (recordAttempt c day a st) = (day \<in> days \<and> sa_outcome a \<in> outcomes)"
  "recorded c days outcomes st (defer_token ms c' after failures st') = recorded c days outcomes st st'"
  "recorded c days outcomes st (excludeVenues key day' venues st') = recorded c days outcomes st st'"
  "recorded c days outcomes st (raiseAlarm name message st') = recorded c days outcomes st st'"
  "recorded c days outcomes st (st'\<lparr>ck_deferred := d\<rparr>) = recorded c days outcomes st st'"
  by (simp_all add: recorded_def recordAttempt_def rowFor_def keyOf_def)

lemma recorded_eq:
  "ck_attempts st1 = ck_attempts st \<Longrightarrow> ck_closedBefore st1 = ck_closedBefore st
   \<Longrightarrow> recorded c days outcomes st1 st' = recorded c days outcomes st st'"
  by (simp add: recorded_def)

text \<open>A build that goes on, or throws, has recorded a failed attempt at most.\<close>

definition build_ok :: "candidate \<Rightarrow> int set \<Rightarrow> crank_state \<Rightarrow> build_result \<Rightarrow> bool" where
  "build_ok c days st res =
     (case res of
        Finished st' \<Rightarrow> recorded c days UNIV st st'
      | Continue v st' \<Rightarrow> recorded c days {Failed_Attempt} st st'
      | Threw e st' \<Rightarrow> recorded c days {Failed_Attempt} st st')"

lemma build_ok_simps [simp]:
  "build_ok c days st (Finished st') = recorded c days UNIV st st'"
  "build_ok c days st (Continue v st') = recorded c days {Failed_Attempt} st st'"
  "build_ok c days st (Threw e st') = recorded c days {Failed_Attempt} st st'"
  by (simp_all add: build_ok_def)

lemma build_ok_eq:
  "ck_attempts st1 = ck_attempts st \<Longrightarrow> ck_closedBefore st1 = ck_closedBefore st \<Longrightarrow> build_ok c days st1 res = build_ok c days st res"
  by (cases res) (simp_all add: recorded_def)

lemma pullRefused_ok: "build_ok c {day} st (pullRefused I c env day e st)"
  by (auto simp: pullRefused_def split: js_error.splits laterite_error.splits)

lemma quoteRefused_ok:
  "sa_outcome priced = Failed_Attempt \<Longrightarrow> build_ok c {day} st (quoteRefused I c env failed day priced e st)"
  by (auto simp: quoteRefused_def Let_def split: js_error.splits)

lemma afterFailure_ok:
  "sa_outcome attempt = Failed_Attempt
   \<Longrightarrow> build_ok c {day} st (afterFailure I c env failed v day amount attempt venues failure st)"
  by (cases "sf_action failure") (auto simp: afterFailure_def Let_def split: sum.split)

lemma sendBuilt_ok:
  "sa_outcome routed = Failed_Attempt
   \<Longrightarrow> build_ok c {day} st (sendBuilt I c env failed v day amount routed venues instructions st)"
  by (cases "be_send env instructions MAX_SWEEP_COMPUTE_UNIT_LIMIT")
    (auto simp: sendBuilt_def Let_def afterFailure_ok split: sum.split)

lemma routeBuild_ok:
  "sa_outcome priced = Failed_Attempt
   \<Longrightarrow> build_ok c {today (ss_now s)} st
        (routeBuild I c env failed v s assetEntry token amount priced am pm minimum treasury st)"
  by (auto simp: routeBuild_def Let_def sendBuilt_ok split: sum.split route_result.split)

lemma withStorage_ok:
  assumes "\<And>storage st. build_ok c days st (f storage st)"
  shows "build_ok c days st (case pythStorage ms storage st of (Inl e, st) \<Rightarrow> Threw e st | (Inr x, st) \<Rightarrow> f x st)"
proof (cases "pythStorage ms storage st")
  case (Pair r st')
  note kept = pythStorage_attempts [OF Pair]
  have "build_ok c days st (f x st')" for x by (rule build_ok_eq [OF kept [THEN conjunct1] kept [THEN conjunct2], THEN iffD1, OF assms])
  then show ?thesis by (cases r) (simp_all add: Pair recorded_same kept)
qed

lemma routeAndSend_ok:
  assumes "sa_outcome priced = Failed_Attempt"
  shows "build_ok c {today (ss_now s)} st
        (routeAndSend I c env failed v s assetEntry token amount priced am pm aq pq st)"
proof -
  have alarmed: "build_ok c days (raiseAlarm name m st) r = build_ok c days st r" for name m days r
    by (rule build_ok_eq) simp_all
  show ?thesis
    using withStorage_ok [OF routeBuild_ok [OF assms], of c s st] withStorage_ok [OF routeBuild_ok [OF assms], of c s "raiseAlarm _ _ st"]
    by (auto simp: routeAndSend_def alarmed split: sum.split repeg_result.split)
qed

lemma priceBuild_ok:
  "build_ok c {today (ss_now s)} st (priceBuild I c env failed v s assetEntry update pulled st)"
  by (auto simp: priceBuild_def Let_def attemptOf_def routeAndSend_ok quoteRefused_ok
      split: sum.split option.split)

text \<open>The days a build may record: those of the clocks it reads.\<close>

definition clocksOf :: "crank_input \<Rightarrow> candidate \<Rightarrow> build_env \<Rightarrow> int set" where
  "clocksOf I c env =
     {t. be_clock env = Inr t \<or> (\<exists>cfg s. fetchSweepState (cr_lib I) (be_cluster env) cfg (cd_paymentToken c)
                                    (uc_user (cd_user c)) = Inr s \<and> ss_now s = t)}"

lemma recorded_mono: "recorded c days outs st st' \<Longrightarrow> days \<subseteq> days' \<Longrightarrow> recorded c days' outs st st'"
  by (auto simp: recorded_def)

lemma build_ok_mono: "build_ok c days st res \<Longrightarrow> days \<subseteq> days' \<Longrightarrow> build_ok c days' st res"
  by (auto simp: build_ok_def intro: recorded_mono split: build_result.splits)

lemma sweepBuild_ok: "build_ok c (today ` clocksOf I c env) st (sweepBuild I c paused failed env v st)"
proof (cases "be_clock env")
  case (Inr clock)
  show ?thesis
  proof (cases "fetchSweepState (cr_lib I) (be_cluster env) (lv_config v) (cd_paymentToken c) (uc_user (cd_user c))")
    case (Inr s)
    have "{today (ss_now s)} \<subseteq> today ` clocksOf I c env" using Inr by (auto simp: clocksOf_def)
    note p = build_ok_mono [OF _ this]
    from \<open>be_clock env = Inr clock\<close> have "today clock \<in> today ` clocksOf I c env" by (auto simp: clocksOf_def)
    with \<open>be_clock env = Inr clock\<close> Inr show ?thesis
      by (auto simp: sweepBuild_def attemptOf_def intro!: p [OF pullRefused_ok] p [OF priceBuild_ok]
          split: sum.splits)
  qed (use Inr in \<open>auto simp: sweepBuild_def attemptOf_def clocksOf_def split: sum.splits\<close>)
qed (auto simp: sweepBuild_def)

section \<open>What a sweep records\<close>

text \<open>
  The rows a sweep adds: at most \<open>n\<close>, the candidate's, on the days read, and only the last one not a
  failed attempt.
\<close>

definition rows_added :: "candidate \<Rightarrow> int set \<Rightarrow> nat \<Rightarrow> attempt_row list \<Rightarrow> bool" where
  "rows_added c days n rows =
     (length rows \<le> n \<and> (\<forall>r \<in> set rows. rowFor c r \<and> row_day r \<in> days) \<and> (\<forall>r \<in> set (butlast rows). isFailed r))"

lemma rows_added_Nil [simp]: "rows_added c days n []"
  by (simp add: rows_added_def)

lemma rows_added_single: "rows_added c days (Suc n) [r] = (rowFor c r \<and> row_day r \<in> days)"
  by (auto simp: rows_added_def)

lemma rows_added_Cons:
  "isFailed r \<Longrightarrow> rowFor c r \<Longrightarrow> row_day r \<in> days \<Longrightarrow> rows_added c days n rows \<Longrightarrow> rows_added c days (Suc n) (r # rows)"
  by (auto simp: rows_added_def)

lemma rows_added_mono: "rows_added c days n rows \<Longrightarrow> n \<le> m \<Longrightarrow> days \<subseteq> days' \<Longrightarrow> rows_added c days' m rows"
  by (auto simp: rows_added_def)

lemma recorded_rows:
  "recorded c days outcomes st st' \<Longrightarrow>
   ck_closedBefore st' = ck_closedBefore st \<and>
   (\<exists>new. ck_attempts st' = ck_attempts st @ new \<and> rows_added c days 1 new
         \<and> (\<forall>r \<in> set new. sa_outcome (row_attempt r) \<in> outcomes))"
  unfolding recorded_def
  by (elim disjE exE conjE) (auto simp: rows_added_single intro: exI [of _ "[]"])

definition clocksOfAll :: "crank_input \<Rightarrow> candidate \<Rightarrow> build_env list \<Rightarrow> int set" where
  "clocksOfAll I c envs = (\<Union>env \<in> set envs. clocksOf I c env)"

lemma sweepLoop_rows:
  "sweepLoop I c paused failed builds envs endMs v st = (e, st')
   \<Longrightarrow> ck_closedBefore st' = ck_closedBefore st \<and>
       (\<exists>new. ck_attempts st' = ck_attempts st @ new \<and> rows_added c (today ` clocksOfAll I c envs) builds new)"
proof (induction I c paused failed builds envs endMs v st rule: sweepLoop.induct)
  case (1 I c paused failed builds env envs endMs v st)
  let ?days = "today ` clocksOfAll I c (env # envs)"
  have sub: "today ` clocksOf I c env \<subseteq> ?days" "today ` clocksOfAll I c envs \<subseteq> ?days"
    by (auto simp: clocksOfAll_def)
  note ok = build_ok_mono [OF sweepBuild_ok sub(1), of st paused failed v]
  show ?case
  proof (cases "sweepBuild I c paused failed env v st")
    case (Continue v1 st1)
    with ok obtain new where new: "ck_attempts st1 = ck_attempts st @ new" "rows_added c ?days 1 new"
      "\<forall>r \<in> set new. isFailed r" "ck_closedBefore st1 = ck_closedBefore st"
      using recorded_rows [of c ?days "{Failed_Attempt}" st st1] by (auto simp: isFailed_def)
    from Continue "1.prems" have "sweepLoop I c paused failed builds envs endMs v1 st1 = (e, st')" by simp
    from "1.IH" [OF Continue this] obtain more where more: "ck_attempts st' = ck_attempts st1 @ more"
      "rows_added c ?days builds more" "ck_closedBefore st' = ck_closedBefore st1"
      using rows_added_mono [OF _ order_refl sub(2)] by blast
    have "rows_added c ?days (Suc builds) (new @ more)"
      using new(2,3) more(2) by (cases new) (auto simp: rows_added_def butlast_append)
    with new(1,4) more(1,3) show ?thesis by auto
  qed (use ok "1.prems" in \<open>auto dest!: recorded_rows intro: rows_added_mono\<close>)
qed auto

lemma sweep_rows:
  "sweep I c cfg paused failed envs endMs st = (e, st')
   \<Longrightarrow> ck_closedBefore st' = ck_closedBefore st \<and>
       (\<exists>new. ck_attempts st' = ck_attempts st @ new \<and> rows_added c (today ` clocksOfAll I c envs) MAX_BUILDS new)"
  unfolding sweep_def by (rule sweepLoop_rows)

lemma sweepOne_rows:
  "ck_closedBefore (sweepOne I env cfg paused failed c st) = ck_closedBefore st
   \<and> (\<exists>new. ck_attempts (sweepOne I env cfg paused failed c st) = ck_attempts st @ new
         \<and> rows_added c (today ` clocksOfAll I c (te_builds env c)) MAX_BUILDS new)"
proof (cases "sweep I c cfg paused (failed (keyOf c)) (te_builds env c) (te_endMs env c) st")
  case (Pair e st')
  with sweep_rows [OF Pair] show ?thesis by (cases e) (simp_all add: sweepOne_def)
qed

section \<open>Properties\<close>

text \<open>
  C6: Choosing candidates from the user configs alone misses no sweep: whenever the full state of an
  enabled token would allow a sweep, the token is a candidate, at the same clock and config.
\<close>

theorem sweepCandidates_complete:
  assumes "getSweepPull s = Inr p" "sweep_state_ok s"
    "\<forall>a. ss_paymentAccountState s = Some a \<longrightarrow> ta_amount a \<le> U64_MAX"
    "length (cfg_paymentTokens (ss_config s)) = 2"
    "0 \<le> today (ss_now s)" "today (ss_now s) < 2 ^ 32" "ss_userConfig s \<in> set users"
  shows "\<lparr>cd_paymentToken = ss_paymentToken s, cd_user = ss_userConfig s\<rparr>
    \<in> set (sweepCandidates users (ss_config s) (ss_now s))"
  using userCandidates_complete [OF assms(1-6)] assms(7) by (auto simp: sweepCandidates_def)

definition demoTwoTokens :: sweep_state where
  "demoTwoTokens = exampleState\<lparr>ss_config := exampleConfig\<lparr>cfg_paymentTokens :=
     cfg_paymentTokens exampleConfig @ cfg_paymentTokens exampleConfig\<rparr>\<rparr>"

theorem sweepCandidates_complete_witness:
  "\<lparr>cd_paymentToken = 0, cd_user = exampleUser\<rparr>
     \<in> set (sweepCandidates [demoUser, exampleUser] (ss_config demoTwoTokens) (ss_now demoTwoTokens))"
proof -
  have "getSweepPull demoTwoTokens = Inr \<lparr>pull_engine = 2000000, pull_pending = 5000000\<rparr>"
    "length (cfg_paymentTokens (ss_config demoTwoTokens)) = 2"
    "0 \<le> today (ss_now demoTwoTokens)" "today (ss_now demoTwoTokens) < 2 ^ 32"
    "ss_userConfig demoTwoTokens = exampleUser" "ss_paymentToken demoTwoTokens = 0"
    by code_simp+
  moreover have "sweep_state_ok demoTwoTokens"
    "\<forall>a. ss_paymentAccountState demoTwoTokens = Some a \<longrightarrow> ta_amount a \<le> U64_MAX"
    by (simp_all add: demoTwoTokens_def sweep_state_ok_def amounts_ok_def example_defs U64_MAX_def)
  ultimately show ?thesis using sweepCandidates_complete [of demoTwoTokens _ "[demoUser, exampleUser]"] by simp
qed

text \<open>The loop reads at most as many builds as it may make.\<close>

lemma sweepLoop_take:
  "sweepLoop I c paused failed builds (take builds envs) endMs v st = sweepLoop I c paused failed builds envs endMs v st"
  by (induction I c paused failed builds envs endMs v st rule: sweepLoop.induct) (auto split: build_result.split)

text \<open>
  C5: A sweep ends after at most three builds, whatever each reads: what it does depends on the first
  three builds' environments alone, builds that record nothing and start over counted too. It records at
  most three attempts, all of its own token on days whose clock one of those builds read, and only the last
  of them may be a final word: every attempt followed by another is a failed one.
\<close>

theorem sweep_bounded:
  "sweep I c cfg paused failed envs endMs st = sweep I c cfg paused failed (take 3 envs) endMs st
   \<and> (\<exists>new. ck_attempts (snd (sweep I c cfg paused failed envs endMs st)) = ck_attempts st @ new \<and> length new \<le> 3
      \<and> list_all (\<lambda>r. (row_user r, row_paymentToken r) = keyOf c
           \<and> row_day r \<in> today ` (\<Union>env \<in> set (take 3 envs). clocksOf I c env)) new
      \<and> list_all isFailed (butlast new))"
proof -
  have first: "sweep I c cfg paused failed envs endMs st = sweep I c cfg paused failed (take 3 envs) endMs st"
    using sweepLoop_take [of I c paused failed MAX_BUILDS envs] by (simp add: sweep_def MAX_BUILDS_def)
  show ?thesis
    unfolding first
    using sweep_rows [of I c cfg paused failed "take 3 envs" endMs st, OF prod.collapse [symmetric]]
    by (auto simp: rows_added_def rowFor_def clocksOfAll_def MAX_BUILDS_def list_all_iff)
qed

text \<open>
  A user that keeps changing the asset: each build finds another than the one it was built for and starts
  over, recording nothing. The fourth is not made.
\<close>

definition demoInput :: crank_input where
  "demoInput = \<lparr>cr_lib = demoLib, cr_programs = demoPrograms, cr_periodLimit = 400, cr_sizeOf = (\<lambda>_. Inr 900),
     cr_retryAfterMs = RETRY_AFTER_MS, cr_crank = ''CRANK'', cr_message = (\<lambda>_. ''error'')\<rparr>"

definition demoBuild :: "int \<Rightarrow> build_env" where
  "demoBuild now = \<lparr>be_ms = now * 1000, be_latencyMs = 0, be_clock = Inr now, be_assetUpdate = (\<lambda>_ _. Inr None),
     be_cluster = Map.empty, be_paymentUpdate = (\<lambda>_ _. Inl TypeError), be_repeg = None, be_storage = Inl TypeError,
     be_routes = (\<lambda>_. RouteThrew TypeError), be_send = (\<lambda>_ _. SentTooLarge), be_config = Inl TypeError\<rparr>"

definition demoWidths :: config where
  "demoWidths = demoConfig\<lparr>cfg_admin := replicate 32 (CHR ''A''), cfg_pendingAdmin := replicate 32 (CHR ''0''),
     cfg_router := replicate 32 (CHR ''R''), cfg_attestor := replicate 32 (CHR ''T''), cfg_sponsor := replicate 32 (CHR ''S''),
     cfg_assets := map (\<lambda>a. a\<lparr>asset_mint := replicate 32 (CHR ''M''), asset_tokenProgram := replicate 32 (CHR ''T'')\<rparr>) (cfg_assets demoConfig),
     cfg_paymentTokens := map (\<lambda>t. t\<lparr>token_mint := replicate 32 (CHR ''P''), token_tokenProgram := replicate 32 (CHR ''T'')\<rparr>)
       (cfg_paymentTokens demoConfig),
     marketCalendar := (marketCalendar demoConfig)\<lparr>holidays := replicate 183 0, earlyCloses := replicate 183 0\<rparr>,
     genesisHash := replicate 32 9\<rparr>"

definition demoSwitching :: "int \<Rightarrow> build_env" where
  "demoSwitching asset = (demoBuild 100000)\<lparr>be_cluster := demoCluster(
     ''@userU'' \<mapsto> \<lparr>acc_programAddress = LATERITE_PROGRAM_ADDRESS, acc_data = encodeUserConfig demoLib (demoUser\<lparr>uc_asset := asset\<rparr>)\<rparr>,
     ''@config'' \<mapsto> \<lparr>acc_programAddress = LATERITE_PROGRAM_ADDRESS, acc_data = encodeConfig demoLib demoWidths\<rparr>)\<rparr>"

definition demoSwitched :: candidate where
  "demoSwitched = \<lparr>cd_paymentToken = 0, cd_user = demoUser\<lparr>uc_user := ''U''\<rparr>\<rparr>"

lemma demo_widths: "decodeConfig demoLib (encodeConfig demoLib demoWidths) = Inr demoWidths"
proof -
  have "config_fields_ok demoLib demoWidths" by code_simp
  from readsD [OF rdConfig_roundtrip [OF demo_kit_encoders this], of "[]"] show ?thesis
    by (simp add: decodeConfig_def decodeWith_def)
qed

lemma demo_switched_user:
  assumes "asset \<in> {0, 1}"
  shows "decodeUserConfig demoLib (encodeUserConfig demoLib (demoUser\<lparr>uc_asset := asset\<rparr>)) = Inr (demoUser\<lparr>uc_asset := asset\<rparr>)"
proof -
  have "user_fields_ok demoLib (demoUser\<lparr>uc_asset := 0\<rparr>)" "user_fields_ok demoLib (demoUser\<lparr>uc_asset := 1\<rparr>)" by code_simp+
  with assms have "user_fields_ok demoLib (demoUser\<lparr>uc_asset := asset\<rparr>)" by auto
  from readsD [OF rdUserConfig_roundtrip [OF demo_kit_encoders this], of "[]"] show ?thesis
    by (simp add: decodeUserConfig_def decodeWith_def)
qed

text \<open>What the build reads there, the encoded accounts decoded back.\<close>

lemma demo_switched_reads:
  "be_cluster (demoSwitching asset) (SYSVAR_CLOCK_ADDRESS demoLib) = Some \<lparr>acc_programAddress = ''SYS'', acc_data = []\<rparr>"
  "be_cluster (demoSwitching asset) (findConfigPda demoLib)
     = Some \<lparr>acc_programAddress = LATERITE_PROGRAM_ADDRESS, acc_data = encodeConfig demoLib demoWidths\<rparr>"
  "be_cluster (demoSwitching asset) (findUserConfigPda demoLib ''U'')
     = Some \<lparr>acc_programAddress = LATERITE_PROGRAM_ADDRESS, acc_data = encodeUserConfig demoLib (demoUser\<lparr>uc_asset := asset\<rparr>)\<rparr>"
proof -
  have keys: "SYSVAR_CLOCK_ADDRESS demoLib = ''CLOCK''" "findConfigPda demoLib = ''@config''" "findUserConfigPda demoLib ''U'' = ''@userU''"
    by code_simp+
  show "be_cluster (demoSwitching asset) (SYSVAR_CLOCK_ADDRESS demoLib) = Some \<lparr>acc_programAddress = ''SYS'', acc_data = []\<rparr>"
    "be_cluster (demoSwitching asset) (findConfigPda demoLib)
     = Some \<lparr>acc_programAddress = LATERITE_PROGRAM_ADDRESS, acc_data = encodeConfig demoLib demoWidths\<rparr>"
    "be_cluster (demoSwitching asset) (findUserConfigPda demoLib ''U'')
     = Some \<lparr>acc_programAddress = LATERITE_PROGRAM_ADDRESS, acc_data = encodeUserConfig demoLib (demoUser\<lparr>uc_asset := asset\<rparr>)\<rparr>"
    unfolding keys by (simp_all add: demoSwitching_def demoCluster_def)
qed


text \<open>The rest of the state, from the cluster of \<open>Demo_Cluster\<close>.\<close>

lemma demo_switched_rest:
  "decodeOwned demoLib (decodeSubscriptionAuthority demoLib)
     (be_cluster (demoSwitching asset) (findSubscriptionAuthorityAddress demoLib ''U'' ''USDC'')) = Inr (Some \<lparr>sa_payer = ''S'', sa_initId = 4\<rparr>)"
  "\<exists>a. decodeTokenAccountState demoLib (be_cluster (demoSwitching asset) (findAssociatedTokenPda demoLib ''USDC'' ''U'' ''TOK'')) ''TOK'' = Inr a"
  "\<exists>a. decodeOwned demoLib (decodeSubscriptionDelegation demoLib)
     (be_cluster (demoSwitching asset) (findSubscriptionAddress demoLib ''U'' 0 0)) = Inr a"
proof -
  have keys: "findSubscriptionAuthorityAddress demoLib ''U'' ''USDC'' = ''AUTHUSDC:U''"
    "findAssociatedTokenPda demoLib ''USDC'' ''U'' ''TOK'' = ''U/USDC''" "findSubscriptionAddress demoLib ''U'' 0 0 = ''PLAN1:U''"
    by code_simp+
  have at: "be_cluster (demoSwitching asset) ''AUTHUSDC:U'' = demoCluster ''AUTHUSDC:U''"
    "be_cluster (demoSwitching asset) ''U/USDC'' = demoCluster ''U/USDC''"
    "be_cluster (demoSwitching asset) ''PLAN1:U'' = demoCluster ''PLAN1:U''" by (simp_all add: demoSwitching_def)
  have "decodeOwned demoLib (decodeSubscriptionAuthority demoLib) (demoCluster ''AUTHUSDC:U'') = Inr (Some \<lparr>sa_payer = ''S'', sa_initId = 4\<rparr>)"
    "isl (decodeTokenAccountState demoLib (demoCluster ''U/USDC'') ''TOK'') = False"
    "isl (decodeOwned demoLib (decodeSubscriptionDelegation demoLib) (demoCluster ''PLAN1:U'')) = False" by code_simp+
  then show "decodeOwned demoLib (decodeSubscriptionAuthority demoLib)
     (be_cluster (demoSwitching asset) (findSubscriptionAuthorityAddress demoLib ''U'' ''USDC'')) = Inr (Some \<lparr>sa_payer = ''S'', sa_initId = 4\<rparr>)"
    "\<exists>a. decodeTokenAccountState demoLib (be_cluster (demoSwitching asset) (findAssociatedTokenPda demoLib ''USDC'' ''U'' ''TOK'')) ''TOK'' = Inr a"
    "\<exists>a. decodeOwned demoLib (decodeSubscriptionDelegation demoLib)
     (be_cluster (demoSwitching asset) (findSubscriptionAddress demoLib ''U'' 0 0)) = Inr a"
    unfolding keys at by (auto simp: isl_def) (metis Inr_Inl_False obj_sumE)+
qed

lemma demo_switched_state:
  assumes "asset \<in> {0, 1}"
  obtains s where "fetchSweepState demoLib (be_cluster (demoSwitching asset)) demoConfig 0 ''U'' = Inr s" "uc_asset (ss_userConfig s) = asset"
proof -
  obtain a b where ab:
    "decodeTokenAccountState demoLib (be_cluster (demoSwitching asset) (findAssociatedTokenPda demoLib ''USDC'' ''U'' ''TOK'')) ''TOK'' = Inr a"
    "decodeOwned demoLib (decodeSubscriptionDelegation demoLib)
       (be_cluster (demoSwitching asset) (findSubscriptionAddress demoLib ''U'' 0 0)) = Inr b"
    using demo_switched_rest(2,3) by metis
  have token: "nth_opt (cfg_paymentTokens demoConfig) 0 = Some \<lparr>token_mint = ''USDC'', token_tokenProgram = ''TOK'', token_decimals = 6, usdFeedId = 0\<rparr>"
    "uc_tier (demoUser\<lparr>uc_asset := asset\<rparr>) = 0" "decodeClock demoLib [] = Inr 2000" "nth_opt [x, y] 0 = Some x" for x y
    by (simp_all add: demoConfig_def demoUser_def demoLib_def nth_opt_def)
  show ?thesis
    by (rule that, simp add: fetchSweepState_def Let_def token demo_switched_reads demo_switched_user [OF assms] demo_widths demo_switched_rest(1) ab)
      simp
qed

lemma demo_switched_build:
  assumes "asset \<in> {0, 1}" "lv_asset v \<in> {0, 1}" "lv_asset v \<noteq> asset" "lv_config v = demoConfig"
  shows "sweepBuild demoInput demoSwitched {} 0 (demoSwitching asset) v st = Continue (v\<lparr>lv_asset := asset\<rparr>) st"
proof -
  obtain s where s: "fetchSweepState demoLib (be_cluster (demoSwitching asset)) demoConfig 0 ''U'' = Inr s" "uc_asset (ss_userConfig s) = asset"
    using demo_switched_state [OF assms(1)] .
  have env: "be_clock (demoSwitching asset) = Inr 100000" "be_assetUpdate (demoSwitching asset) feed t = Inr None" for feed t
    by (simp_all add: demoSwitching_def demoBuild_def)
  obtain listed where "entry (cfg_assets demoConfig) (lv_asset v) = Inr listed"
    using assms(2) by (auto simp: entry_def nth_opt_def demoConfig_def)
  with s env assms show ?thesis
    by (simp add: sweepBuild_def demoSwitched_def demoInput_def)
qed

lemma demoSwitched_ends:
  "ck_deferred (snd (sweep demoInput demoSwitched demoConfig {} 0 (map demoSwitching [1, 0, 1]) 7 (initialCrank []))) (''U'', 0) \<noteq> None"
proof -
  have "uc_asset (cd_user demoSwitched) = 0" "keyOf demoSwitched = (''U'', 0)" by (simp_all add: demoSwitched_def demoUser_def keyOf_def)
  then show ?thesis
    by (simp add: sweep_def MAX_BUILDS_def numeral_3_eq_3 demo_switched_build defer_token_def)
qed

theorem sweep_bounded_witness:
  "sweep demoInput demoSwitched demoConfig {} 0 (map demoSwitching [1, 0, 1, 0, 1]) 7 (initialCrank [])
     = sweep demoInput demoSwitched demoConfig {} 0 (map demoSwitching [1, 0, 1]) 7 (initialCrank [])
   \<and> ck_deferred (snd (sweep demoInput demoSwitched demoConfig {} 0 (map demoSwitching [1, 0, 1, 0, 1]) 7 (initialCrank [])))
       (''U'', 0) \<noteq> None"
  using sweep_bounded [of demoInput demoSwitched demoConfig "{}" 0 "map demoSwitching [1, 0, 1, 0, 1]" 7 "initialCrank []"]
    demoSwitched_ends
  by simp

end
