(* ===== verification/Crank_Runs.thy ===== *)
theory Crank_Runs
  imports Crank_Facts
begin

text \<open>
  Runs of the sweep runner: ticks under a clock of the cluster that never goes back, and restarts, which
  lose everything but the recorded attempts. The invariant is on the attempts: a token's day gets one
  final word and a bounded number of failures.
\<close>

section \<open>The ledger of attempts\<close>

definition finals :: "attempt_row list \<Rightarrow> token_key \<Rightarrow> int \<Rightarrow> nat" where
  "finals rows key day = length (filter (\<lambda>r. \<not> isFailed r) (rowsOf rows key day))"

definition day_ok :: "attempt_row list \<Rightarrow> token_key \<Rightarrow> int \<Rightarrow> bool" where
  "day_ok rows key day =
     (list_all isFailed (butlast (rowsOf rows key day))
      \<and> failedToday rows day key < MAX_FAILED_ATTEMPTS_PER_DAY + MAX_BUILDS)"

definition days_ok :: "attempt_row list \<Rightarrow> bool" where
  "days_ok rows = (\<forall>key d. day_ok rows key d)"

definition ledger_ok :: "int \<Rightarrow> attempt_row list \<Rightarrow> bool" where
  "ledger_ok day rows = ((\<forall>r \<in> set rows. row_day r \<le> day) \<and> days_ok rows)"

lemma rowsOf_append [simp]: "rowsOf (xs @ ys) key day = rowsOf xs key day @ rowsOf ys key day"
  by (simp add: rowsOf_def)

lemma rowsOf_Nil [simp]: "rowsOf [] key day = []"
  by (simp add: rowsOf_def)

lemma finals_append [simp]: "finals (xs @ ys) key day = finals xs key day + finals ys key day"
  by (simp add: finals_def)

lemma failedToday_append [simp]: "failedToday (xs @ ys) day key = failedToday xs day key + failedToday ys day key"
  by (simp add: failedToday_def)

lemma rowsOf_empty: "(\<forall>r \<in> set rows. row_day r \<noteq> day) \<or> (\<forall>r \<in> set rows. (row_user r, row_paymentToken r) \<noteq> key)
   \<Longrightarrow> rowsOf rows key day = []"
  by (auto simp: rowsOf_def filter_empty_conv)

lemma counts_empty: "rowsOf rows key day = [] \<Longrightarrow> finals rows key day = 0 \<and> failedToday rows day key = 0"
  by (simp add: finals_def failedToday_def)

lemma finals_zero: "finals rows key day = 0 \<longleftrightarrow> list_all isFailed (rowsOf rows key day)"
  by (auto simp: finals_def list_all_iff filter_empty_conv)

text \<open>Only the last row of a day a final word: so at most one.\<close>

lemma butlast_failed_append:
  "list_all isFailed xs \<Longrightarrow> list_all isFailed (butlast ys) \<Longrightarrow> list_all isFailed (butlast (xs @ ys))"
  by (auto simp: butlast_append list_all_iff dest: in_set_butlastD)

lemma finals_last:
  assumes "list_all isFailed (butlast (rowsOf rows key day))"
  shows "finals rows key day \<le> 1"
proof (cases "rowsOf rows key day" rule: rev_cases)
  case (snoc ys y)
  with assms have "filter (\<lambda>r. \<not> isFailed r) ys = []" by (auto simp: list_all_iff filter_empty_conv)
  with snoc show ?thesis by (simp add: finals_def)
qed (simp add: finals_def)

lemma counts_added:
  assumes "rows_added c days n new"
  shows "list_all isFailed (butlast (rowsOf new key day))" "failedToday new day key \<le> n"
proof -
  show "failedToday new day key \<le> n"
    using assms unfolding failedToday_def rowsOf_def rows_added_def
    by (meson le_trans length_filter_le)
  show "list_all isFailed (butlast (rowsOf new key day))"
  proof (cases new rule: rev_cases)
    case (snoc ys y)
    with assms have "list_all isFailed (rowsOf ys key day)" by (auto simp: rows_added_def rowsOf_def list_all_iff)
    moreover have "butlast (rowsOf [y] key day) = []" by (simp add: rowsOf_def)
    ultimately show ?thesis unfolding snoc rowsOf_append by (intro butlast_failed_append) simp_all
  qed simp
qed

lemma undecided: "\<not> decidedToday rows day key \<Longrightarrow> finals rows key day = 0 \<and> failedToday rows day key < MAX_FAILED_ATTEMPTS_PER_DAY"
  by (auto simp: decidedToday_def finals_def filter_empty_conv)

text \<open>A token is fresh on a day: nothing of it is recorded later, and the day is not decided.\<close>

definition fresh_on :: "int \<Rightarrow> attempt_row list \<Rightarrow> token_key \<Rightarrow> bool" where
  "fresh_on day rows key =
     ((\<forall>r \<in> set rows. (row_user r, row_paymentToken r) = key \<longrightarrow> row_day r \<le> day) \<and> \<not> decidedToday rows day key)"

lemma sweep_keeps_days:
  assumes "days_ok rows" "fresh_on day rows (keyOf c)" "rows_added c days MAX_BUILDS new"
    "\<forall>d \<in> days. day \<le> d"
  shows "days_ok (rows @ new)"
  unfolding days_ok_def
proof (intro allI)
  fix key d
  note old = assms(1) [unfolded days_ok_def, rule_format, of key d]
  note added = counts_added [OF assms(3), where key = key and day = d]
  show "day_ok (rows @ new) key d"
  proof (cases "key = keyOf c \<and> day \<le> d")
    case False
    then have "rowsOf new key d = []"
      using assms(3,4) by (intro rowsOf_empty) (auto simp: rows_added_def rowFor_def)
    with counts_empty [OF this] old show ?thesis by (simp add: day_ok_def)
  next
    case True
    have "finals rows key d = 0 \<and> failedToday rows d key < MAX_FAILED_ATTEMPTS_PER_DAY"
    proof (cases "d = day")
      case True
      with \<open>key = keyOf c \<and> day \<le> d\<close> assms(2) show ?thesis by (auto simp: fresh_on_def dest: undecided)
    next
      case False
      with True assms(2) have "rowsOf rows key d = []"
        by (auto simp: fresh_on_def rowsOf_def filter_empty_conv)
      with counts_empty show ?thesis by (simp add: MAX_FAILED_ATTEMPTS_PER_DAY_def)
    qed
    with added show ?thesis
      by (auto simp: day_ok_def finals_zero intro: add_less_le_mono butlast_failed_append)
  qed
qed

lemma fresh_other:
  assumes "fresh_on day rows key" "rows_added c days n new" "key \<noteq> keyOf c"
  shows "fresh_on day (rows @ new) key"
proof -
  have "rowsOf new key day = []" using assms(2,3) by (intro rowsOf_empty) (auto simp: rows_added_def rowFor_def)
  with assms show ?thesis
    by (auto simp: fresh_on_def decidedToday_def counts_empty rows_added_def rowFor_def)
qed

section \<open>Closing days\<close>

lemma tokenDays_distinct [simp]: "distinct (tokenDays rows)"
  by (simp add: tokenDays_def)

definition closing :: "attempt_row list \<Rightarrow> int \<Rightarrow> (token_key \<times> int) list" where
  "closing rows day = filter (\<lambda>(key, d). d < day \<and> list_all isFailed (rowsOf rows key d)) (tokenDays rows)"

definition closed_row :: "attempt_row list \<Rightarrow> token_key \<times> int \<Rightarrow> attempt_row" where
  "closed_row rows kd =
     \<lparr>row_user = fst (fst kd), row_paymentToken = snd (fst kd), row_day = snd kd,
      row_attempt = (attemptOf Skipped_Day [])\<lparr>sa_reason := sa_reason (row_attempt (last (rowsOf rows (fst kd) (snd kd))))\<rparr>\<rparr>"

lemma closeDays_rows:
  "ck_attempts (closeDays day st) = ck_attempts st @ map (closed_row (ck_attempts st)) (closing (ck_attempts st) day)"
  by (simp add: closeDays_def closing_def closed_row_def Let_def case_prod_unfold)

lemma closed_row_final [simp]: "\<not> isFailed (closed_row rows kd)" "row_day (closed_row rows kd) = snd kd"
  "row_user (closed_row rows kd) = fst (fst kd)" "row_paymentToken (closed_row rows kd) = snd (fst kd)"
  by (simp_all add: closed_row_def isFailed_def attemptOf_def)

lemma rowsOf_closed:
  assumes "distinct kds"
  shows "rowsOf (map (closed_row rows) kds) key d = (if (key, d) \<in> set kds then [closed_row rows (key, d)] else [])"
  using assms by (induction kds) (auto simp: rowsOf_def)

lemma closeDays_keeps:
  assumes "ledger_ok d rows"
  shows "days_ok (rows @ map (closed_row rows) (closing rows day))"
    "\<forall>r \<in> set (map (closed_row rows) (closing rows day)). row_day r < day"
proof -
  show "days_ok (rows @ map (closed_row rows) (closing rows day))"
    unfolding days_ok_def
  proof (intro allI)
    fix key e
    have "list_all isFailed (rowsOf rows key e)" if "(key, e) \<in> set (closing rows day)"
      using that by (auto simp: closing_def)
    moreover have "rowsOf (map (closed_row rows) (closing rows day)) key e
        = (if (key, e) \<in> set (closing rows day) then [closed_row rows (key, e)] else [])"
      by (rule rowsOf_closed) (simp add: closing_def)
    ultimately show "day_ok (rows @ map (closed_row rows) (closing rows day)) key e"
      using assms [unfolded ledger_ok_def days_ok_def, THEN conjunct2, rule_format, of key e]
      by (auto simp: day_ok_def failedToday_def)
  qed
qed (auto simp: closing_def)

section \<open>A tick\<close>

text \<open>What a tick reads is read between the clocks \<open>from\<close> and \<open>to\<close>, and each user has one config.\<close>

definition tick_reads :: "crank_input \<Rightarrow> tick_env \<Rightarrow> int \<Rightarrow> int \<Rightarrow> bool" where
  "tick_reads I env before after =
     (before \<le> after
      \<and> (\<forall>now. te_clock env = Inr now \<longrightarrow> before \<le> now \<and> now \<le> after
             \<and> (\<forall>c. \<forall>t \<in> clocksOfAll I c (te_builds env c). now \<le> t \<and> t \<le> after))
      \<and> (\<forall>users. te_users env = Inr users \<longrightarrow> distinct (map uc_user users)))"

lemma today_mono: "a \<le> b \<Longrightarrow> today a \<le> today b"
  by (simp add: today_def divEuclid_floor zdiv_mono1)

lemma distinct_candidates:
  assumes "distinct (map uc_user users)"
  shows "distinct (map keyOf (sweepCandidates users cfg now))"
proof -
  have one: "distinct (map keyOf (userCandidates cfg now u))" for u
    by (auto simp: userCandidates_def keyOf_def distinct_map inj_on_def intro: distinct_filter)
  have users: "fst (keyOf c) = uc_user u" if "c \<in> set (userCandidates cfg now u)" for c u
    using that by (auto simp: userCandidates_def keyOf_def split: if_splits)
  show ?thesis
    using assms
  proof (induction users)
    case (Cons u us)
    have "set (map keyOf (userCandidates cfg now u)) \<inter> set (map keyOf (sweepCandidates us cfg now)) = {}"
    proof (rule ccontr)
      assume "\<not> ?thesis"
      then obtain k where "k \<in> keyOf ` set (userCandidates cfg now u)" "k \<in> keyOf ` set (sweepCandidates us cfg now)"
        by auto
      then obtain c c' u' where "c \<in> set (userCandidates cfg now u)" "c' \<in> set (userCandidates cfg now u')" "u' \<in> set us"
        "keyOf c = keyOf c'" by (auto simp: sweepCandidates_def)
      with users have "uc_user u = uc_user u'" by metis
      with Cons.prems \<open>u' \<in> set us\<close> show False by auto
    qed
    with one Cons show ?case by (simp add: sweepCandidates_def)
  qed (simp add: sweepCandidates_def)
qed

lemma sweeps_keep:
  assumes "distinct (map keyOf cs)" "\<forall>c \<in> set cs. fresh_on day (ck_attempts st) (keyOf c)"
    "days_ok (ck_attempts st)" "\<forall>r \<in> set (ck_attempts st). row_day r \<le> last_day"
    "\<forall>c. \<forall>t \<in> clocksOfAll I c (te_builds env c). day \<le> today t \<and> today t \<le> last_day"
  shows "days_ok (ck_attempts (fold (sweepOne I env cfg paused failed) cs st))
    \<and> (\<forall>r \<in> set (ck_attempts (fold (sweepOne I env cfg paused failed) cs st)). row_day r \<le> last_day)"
  using assms
proof (induction cs arbitrary: st)
  case (Cons c cs)
  obtain new where new: "ck_attempts (sweepOne I env cfg paused failed c st) = ck_attempts st @ new"
    "rows_added c (today ` clocksOfAll I c (te_builds env c)) MAX_BUILDS new"
    using sweepOne_rows by blast
  have days: "\<forall>d \<in> today ` clocksOfAll I c (te_builds env c). day \<le> d" "\<forall>r \<in> set new. row_day r \<le> last_day"
    using Cons.prems(5) new(2) by (auto simp: rows_added_def)
  have fresh: "\<forall>c' \<in> set cs. fresh_on day (ck_attempts (sweepOne I env cfg paused failed c st)) (keyOf c')"
  proof
    fix c' assume c': "c' \<in> set cs"
    then have "keyOf c' \<noteq> keyOf c" using Cons.prems(1) by (metis distinct.simps(2) image_eqI list.set_map list.simps(9))
    with c' Cons.prems(2) show "fresh_on day (ck_attempts (sweepOne I env cfg paused failed c st)) (keyOf c')"
      using fresh_other [OF _ new(2), of day "ck_attempts st" "keyOf c'"] new(1) by simp
  qed
  have ok: "days_ok (ck_attempts (sweepOne I env cfg paused failed c st))"
    using sweep_keeps_days [OF Cons.prems(3) _ new(2) days(1)] Cons.prems(2) new(1) by simp
  have "\<forall>r \<in> set (ck_attempts (sweepOne I env cfg paused failed c st)). row_day r \<le> last_day"
    using Cons.prems(4) new(1) days(2) by auto
  from Cons.IH [OF _ fresh ok this Cons.prems(5)] Cons.prems(1) show ?case by simp
qed simp

lemma ledger_mono: "ledger_ok day rows \<Longrightarrow> day \<le> day' \<Longrightarrow> ledger_ok day' rows"
  unfolding ledger_ok_def by (meson order_trans)

lemma closeDays_ledger:
  assumes "ledger_ok day (ck_attempts st)" "day \<le> day'"
  shows "ledger_ok day' (ck_attempts (closeDays day' st))"
proof -
  note kept = closeDays_keeps [OF assms(1), of day']
  have "\<forall>r \<in> set (ck_attempts st). row_day r \<le> day'" using assms unfolding ledger_ok_def by (meson order_trans)
  with kept show ?thesis unfolding ledger_ok_def closeDays_rows by auto
qed

text \<open>
  A tick that reads the clock first closes the days before, then sweeps distinct tokens that are not
  decided; one that does not read it changes nothing recorded.
\<close>

definition closedAt :: "int \<Rightarrow> crank_state \<Rightarrow> crank_state" where
  "closedAt day st = (if day > ck_closedBefore st then (closeDays day st)\<lparr>ck_closedBefore := day\<rparr> else st)"

lemma tick_shape:
  assumes "tick_reads I env before after"
  obtains (unread) "ck_attempts (snd (tick I env st)) = ck_attempts st"
      "ck_closedBefore (snd (tick I env st)) = ck_closedBefore st"
      "\<nexists>cfg now. te_config env = Inr cfg \<and> te_clock env = Inr now"
  | (read) now cfg paused failed cs held where
      "te_clock env = Inr now" "te_config env = Inr cfg"
      "ck_attempts held = ck_attempts (closedAt (today now) st)"
      "ck_closedBefore held = ck_closedBefore (closedAt (today now) st)"
      "ck_attempts (snd (tick I env st)) = ck_attempts (fold (sweepOne I env cfg paused failed) cs held)"
      "ck_closedBefore (snd (tick I env st)) = ck_closedBefore (fold (sweepOne I env cfg paused failed) cs held)"
      "distinct (map keyOf cs)" "\<forall>c \<in> set cs. \<not> decidedToday (ck_attempts held) (today now) (keyOf c)"
proof (cases "res_bind (te_config env) (\<lambda>cfg. res_bind (te_clock env) (\<lambda>now. Inr (cfg, now)))")
  case (Inl e)
  then show ?thesis by (auto simp: tick_def intro: unread)
next
  case (Inr x)
  then obtain cfg now where x: "x = (cfg, now)" "te_clock env = Inr now" "te_config env = Inr cfg" by (auto simp: result_simps)
  define closed where "closed =
    (let st = st\<lparr>ck_day := Some (today now)\<rparr>;
         st = (if today now > ck_closedBefore st then (closeDays (today now) st)\<lparr>ck_closedBefore := today now\<rparr> else st)
     in st\<lparr>ck_alarmStates := initialAlarms\<rparr>)"
  have closed: "ck_attempts closed = ck_attempts (closedAt (today now) st)"
    "ck_closedBefore closed = ck_closedBefore (closedAt (today now) st)"
    by (simp_all add: closed_def closedAt_def closeDays_rows)
  define held where "held = (if calendarCovers cfg now then closed else hold (''calendar'', today now) closed)"
  have held: "ck_attempts held = ck_attempts (closedAt (today now) st)"
    "ck_closedBefore held = ck_closedBefore (closedAt (today now) st)"
    using closed by (simp_all add: held_def)
  show ?thesis
  proof (cases "cfg_paused cfg")
    case True
    with Inr x have "ck_attempts (snd (tick I env st)) = ck_attempts closed"
      "ck_closedBefore (snd (tick I env st)) = ck_closedBefore closed"
      by (simp_all add: tick_def closed_def Let_def)
    with closed x(2,3) show ?thesis using read [of now cfg closed "{}" "\<lambda>_. 0" "[]"] by simp
  next
    case False
    show ?thesis
    proof (cases "res_bind (te_users env) (\<lambda>users. res_bind (te_pausedMints env) (\<lambda>mints. Inr (users, mints)))")
      case (Inl e)
      with False Inr x have "ck_attempts (snd (tick I env st)) = ck_attempts held"
        "ck_closedBefore (snd (tick I env st)) = ck_closedBefore held"
        by (simp_all add: tick_def closed_def held_def Let_def)
      with held x(2,3) show ?thesis using read [of now cfg held "{}" "\<lambda>_. 0" "[]"] by simp
    next
      case users: (Inr y)
      then obtain us mints where y: "y = (us, mints)" "te_users env = Inr us" by (auto simp: result_simps)
      let ?due = "dueCandidates env us cfg now held"
        and ?sweeps = "fold (sweepOne I env cfg (set (map fst (filter snd mints))) (failedToday (ck_attempts held) (today now)))"
      have "ck_attempts (snd (tick I env st)) = ck_attempts (?sweeps ?due held)"
        "ck_closedBefore (snd (tick I env st)) = ck_closedBefore (?sweeps ?due held)"
        using False Inr x users y by (simp_all add: tick_def closed_def held_def Let_def)
      moreover have "distinct (map keyOf ?due)"
        using assms y(2) distinct_candidates [of us cfg now]
        by (auto simp: dueCandidates_def tick_reads_def distinct_map intro: inj_on_subset)
      moreover have "\<forall>c \<in> set ?due. \<not> decidedToday (ck_attempts held) (today now) (keyOf c)"
        by (simp add: dueCandidates_def)
      ultimately show ?thesis using read [OF x(2,3) held] by blast
    qed
  qed
qed

lemma tick_clocks:
  assumes "tick_reads I env before after" "te_clock env = Inr now"
  shows "today before \<le> today now" "today now \<le> today after"
    "\<forall>c. \<forall>t \<in> clocksOfAll I c (te_builds env c). today now \<le> today t \<and> today t \<le> today after"
  using assms unfolding tick_reads_def by (auto intro: today_mono)

lemma closedAt_ledger:
  "ledger_ok day (ck_attempts st) \<Longrightarrow> day \<le> day' \<Longrightarrow> ledger_ok day' (ck_attempts (closedAt day' st))"
  using closeDays_ledger [of day st day'] ledger_mono [of day] by (simp add: closedAt_def)

lemma tick_keeps_ledger:
  assumes "tick_reads I env before after" "ledger_ok (today before) (ck_attempts st)"
  shows "ledger_ok (today after) (ck_attempts (snd (tick I env st)))"
  using assms(1)
proof (cases rule: tick_shape [where st = st])
  case unread
  have "before \<le> after" using assms(1) by (simp add: tick_reads_def)
  with assms(2) unread show ?thesis by (auto intro: ledger_mono today_mono)
next
  case (read now cfg paused failed cs held)
  note clocks = tick_clocks [OF assms(1) read(1)]
  have held: "ledger_ok (today now) (ck_attempts held)"
    using closedAt_ledger [OF assms(2) clocks(1)] read(3) by simp
  then have "\<forall>c \<in> set cs. fresh_on (today now) (ck_attempts held) (keyOf c)"
    using read(8) by (auto simp: fresh_on_def ledger_ok_def)
  moreover have "days_ok (ck_attempts held)" "\<forall>r \<in> set (ck_attempts held). row_day r \<le> today after"
    using held clocks(2) unfolding ledger_ok_def by (auto intro: order_trans)
  ultimately show ?thesis
    unfolding ledger_ok_def read(5) using sweeps_keep [OF read(7) _ _ _ clocks(3)] by blast
qed

section \<open>Runs\<close>

record crank_world =
  cw_clock :: int
  cw_crank :: crank_state

inductive crank_step :: "crank_input \<Rightarrow> crank_world \<Rightarrow> crank_world \<Rightarrow> bool" for I where
  Tick: "tick_reads I env before after
    \<Longrightarrow> crank_step I \<lparr>cw_clock = before, cw_crank = st\<rparr> \<lparr>cw_clock = after, cw_crank = snd (tick I env st)\<rparr>"
| Restart: "crank_step I \<lparr>cw_clock = at, cw_crank = st\<rparr> \<lparr>cw_clock = at, cw_crank = initialCrank (ck_attempts st)\<rparr>"

inductive_cases crank_stepE [elim!]: "crank_step I w w'"

definition crank_run :: "crank_input \<Rightarrow> crank_world \<Rightarrow> bool" where
  "crank_run I w = (\<exists>start. 0 \<le> start \<and> (crank_step I)\<^sup>*\<^sup>* \<lparr>cw_clock = start, cw_crank = initialCrank []\<rparr> w)"

lemma step_keeps_ledger:
  "crank_step I w w' \<Longrightarrow> ledger_ok (today (cw_clock w)) (ck_attempts (cw_crank w))
   \<Longrightarrow> ledger_ok (today (cw_clock w')) (ck_attempts (cw_crank w'))"
  by (auto simp: initialCrank_def intro: tick_keeps_ledger)

lemma run_keeps_ledger:
  assumes "crank_run I w"
  shows "ledger_ok (today (cw_clock w)) (ck_attempts (cw_crank w))"
proof -
  from assms obtain start where "(crank_step I)\<^sup>*\<^sup>* \<lparr>cw_clock = start, cw_crank = initialCrank []\<rparr> w"
    by (auto simp: crank_run_def)
  then show ?thesis
  proof (induction rule: rtranclp_induct)
    case base
    show ?case
      by (simp add: initialCrank_def ledger_ok_def days_ok_def day_ok_def finals_def failedToday_def MAX_FAILED_ATTEMPTS_PER_DAY_def)
  qed (rule step_keeps_ledger)
qed

section \<open>Earlier days are closed\<close>

lemma sweeps_add:
  assumes "\<forall>c. \<forall>t \<in> clocksOfAll I c (te_builds env c). day \<le> today t"
  shows "ck_closedBefore (fold (sweepOne I env cfg paused failed) cs st) = ck_closedBefore st
    \<and> (\<exists>new. ck_attempts (fold (sweepOne I env cfg paused failed) cs st) = ck_attempts st @ new
           \<and> (\<forall>r \<in> set new. day \<le> row_day r))"
proof (induction cs arbitrary: st)
  case (Cons c cs)
  obtain new where new: "ck_attempts (sweepOne I env cfg paused failed c st) = ck_attempts st @ new"
    "rows_added c (today ` clocksOfAll I c (te_builds env c)) MAX_BUILDS new"
    "ck_closedBefore (sweepOne I env cfg paused failed c st) = ck_closedBefore st"
    using sweepOne_rows by blast
  then have "\<forall>r \<in> set new. day \<le> row_day r" using assms by (auto simp: rows_added_def)
  moreover obtain more where "ck_attempts (fold (sweepOne I env cfg paused failed) cs (sweepOne I env cfg paused failed c st))
      = ck_attempts (sweepOne I env cfg paused failed c st) @ more" "\<forall>r \<in> set more. day \<le> row_day r"
    "ck_closedBefore (fold (sweepOne I env cfg paused failed) cs (sweepOne I env cfg paused failed c st))
      = ck_closedBefore (sweepOne I env cfg paused failed c st)"
    using Cons.IH [of "sweepOne I env cfg paused failed c st"] by blast
  ultimately show ?case using new(1,3) by (intro conjI exI [of _ "new @ more"]) auto
qed simp

definition days_closed :: "crank_state \<Rightarrow> bool" where
  "days_closed st =
     ((\<forall>r \<in> set (ck_attempts st). 0 \<le> row_day r)
      \<and> (\<forall>r \<in> set (ck_attempts st). row_day r < ck_closedBefore st
           \<longrightarrow> finals (ck_attempts st) (row_user r, row_paymentToken r) (row_day r) \<noteq> 0))"

lemma rowsOf_self: "r \<in> set rows \<Longrightarrow> r \<in> set (rowsOf rows (row_user r, row_paymentToken r) (row_day r))"
  by (simp add: rowsOf_def)

lemma closeDays_final:
  assumes "r \<in> set rows" "row_day r < day"
  shows "finals (rows @ map (closed_row rows) (closing rows day)) (row_user r, row_paymentToken r) (row_day r) \<noteq> 0"
proof (cases "list_all isFailed (rowsOf rows (row_user r, row_paymentToken r) (row_day r))")
  case True
  with assms have "((row_user r, row_paymentToken r), row_day r) \<in> set (closing rows day)"
    by (force simp: closing_def tokenDays_def)
  then have "closed_row rows ((row_user r, row_paymentToken r), row_day r)
      \<in> set (rowsOf (map (closed_row rows) (closing rows day)) (row_user r, row_paymentToken r) (row_day r))"
    by (subst rowsOf_closed) (auto simp: closing_def)
  then show ?thesis by (force simp: finals_def filter_empty_conv)
next
  case False
  then show ?thesis by (auto simp: finals_def list_all_iff filter_empty_conv)
qed

lemma closedAt_closed:
  assumes "days_closed st" "0 \<le> day"
  shows "days_closed (closedAt day st)"
proof -
  let ?new = "map (closed_row (ck_attempts st)) (closing (ck_attempts st) day)"
  have old: "0 \<le> row_day r" if "r \<in> set (ck_attempts st @ ?new)" for r
    using that assms(1) by (auto simp: days_closed_def closing_def tokenDays_def)
  have "finals (ck_attempts st @ ?new) (row_user r, row_paymentToken r) (row_day r) \<noteq> 0"
    if r: "r \<in> set (ck_attempts st @ ?new)" "row_day r < day" for r
  proof -
    have "\<exists>r' \<in> set (ck_attempts st). (row_user r', row_paymentToken r') = (row_user r, row_paymentToken r) \<and> row_day r' = row_day r"
      using r(1) by (auto simp: closing_def tokenDays_def)
    with r(2) closeDays_final [of _ "ck_attempts st" day] show ?thesis by metis
  qed
  with old assms(1) show ?thesis by (simp add: closedAt_def closeDays_rows days_closed_def)
qed

lemma tick_keeps_closed:
  assumes "tick_reads I env before after" "days_closed st" "0 \<le> before" "ck_closedBefore st \<le> today before"
  shows "days_closed (snd (tick I env st)) \<and> ck_closedBefore (snd (tick I env st)) \<le> today after"
  using assms(1)
proof (cases rule: tick_shape [where st = st])
  case unread
  have "today before \<le> today after" using assms(1) by (intro today_mono) (simp add: tick_reads_def)
  with unread assms(2,4) show ?thesis by (simp add: days_closed_def)
next
  case (read now cfg paused failed cs held)
  note clocks = tick_clocks [OF assms(1) read(1)]
  have day: "0 \<le> today now" using clocks(1) today_mono [OF assms(3)] by (simp add: today_def divEuclid_floor)
  have bound: "ck_closedBefore held \<le> today now"
    using assms(4) clocks(1) read(4) by (simp add: closedAt_def)
  obtain new where new: "ck_closedBefore (snd (tick I env st)) = ck_closedBefore held"
    "ck_attempts (snd (tick I env st)) = ck_attempts held @ new" "\<forall>r \<in> set new. today now \<le> row_day r"
    using sweeps_add [where day = "today now"] clocks(3) read(5,6) by metis
  have "days_closed held" using closedAt_closed [OF assms(2) day] read(3,4) by (simp add: days_closed_def)
  with new day bound have "days_closed (snd (tick I env st))" by (auto simp: days_closed_def)
  with new(1) bound clocks(2) show ?thesis by simp
qed

lemma step_keeps_closed:
  "crank_step I w w' \<Longrightarrow> days_closed (cw_crank w) \<and> ck_closedBefore (cw_crank w) \<le> today (cw_clock w) \<and> 0 \<le> cw_clock w
   \<Longrightarrow> days_closed (cw_crank w') \<and> ck_closedBefore (cw_crank w') \<le> today (cw_clock w') \<and> 0 \<le> cw_clock w'"
proof (induction rule: crank_step.induct)
  case (Tick env before after st)
  with tick_keeps_closed [OF Tick(1), of st] show ?case by (auto simp: tick_reads_def)
next
  case (Restart at st)
  then show ?case by (auto simp: initialCrank_def days_closed_def today_def divEuclid_floor)
qed

lemma run_keeps_closed:
  assumes "crank_run I w"
  shows "days_closed (cw_crank w) \<and> ck_closedBefore (cw_crank w) \<le> today (cw_clock w) \<and> 0 \<le> cw_clock w"
proof -
  from assms obtain start where "0 \<le> start" "(crank_step I)\<^sup>*\<^sup>* \<lparr>cw_clock = start, cw_crank = initialCrank []\<rparr> w"
    by (auto simp: crank_run_def)
  from this(2) show ?thesis
  proof (induction rule: rtranclp_induct)
    case base
    with \<open>0 \<le> start\<close> show ?case by (simp add: initialCrank_def days_closed_def today_def divEuclid_floor)
  qed (rule step_keeps_closed)
qed

text \<open>A run of two ticks on consecutive days over an asset its issuer paused.\<close>

definition demoCandidate :: candidate where
  "demoCandidate = \<lparr>cd_paymentToken = 0, cd_user = demoUser\<lparr>uc_user := ''U'', uc_paymentTokens := 1\<rparr>\<rparr>"

definition demoTick :: "int \<Rightarrow> tick_env" where
  "demoTick now = \<lparr>te_ms = now * 1000, te_doneMs = now * 1000 + 500, te_config = Inr demoConfig, te_clock = Inr now,
     te_users = Inr [cd_user demoCandidate], te_pausedMints = Inr [(''SPYX'', True), (''QQQX'', False)],
     te_builds = (\<lambda>_. [demoBuild now]), te_endMs = (\<lambda>_. now * 1000)\<rparr>"

lemma demo_clocks: "clocksOfAll demoInput c [demoBuild now] = {now}"
proof -
  have "fetchSweepState L Map.empty cfg t u \<noteq> Inr s" for L cfg t u s
    by (auto simp: fetchSweepState_def Let_def split: option.splits)
  then show ?thesis by (auto simp: clocksOfAll_def clocksOf_def demoBuild_def)
qed

lemma demo_reads: "before \<le> now \<Longrightarrow> tick_reads demoInput (demoTick now) before now"
  using demo_clocks [of _ now] by (simp add: tick_reads_def demoTick_def)

definition demoDay1 :: crank_world where
  "demoDay1 = \<lparr>cw_clock = 100000, cw_crank = snd (tick demoInput (demoTick 100000) (initialCrank []))\<rparr>"

lemma demo_run: "crank_run demoInput demoDay1"
proof -
  have "crank_step demoInput \<lparr>cw_clock = 50000, cw_crank = initialCrank []\<rparr> demoDay1"
    unfolding demoDay1_def by (rule crank_step.Tick) (simp add: demo_reads)
  then show ?thesis unfolding crank_run_def by (intro exI [of _ 50000] conjI r_into_rtranclp) simp_all
qed

definition demoDay2 :: crank_world where
  "demoDay2 = \<lparr>cw_clock = 200000, cw_crank = snd (tick demoInput (demoTick 200000) (cw_crank demoDay1))\<rparr>"

lemma demo_run_2: "crank_run demoInput demoDay2"
proof -
  from demo_run obtain start where start: "0 \<le> start"
    "(crank_step demoInput)\<^sup>*\<^sup>* \<lparr>cw_clock = start, cw_crank = initialCrank []\<rparr> demoDay1"
    by (auto simp: crank_run_def)
  have "crank_step demoInput \<lparr>cw_clock = 100000, cw_crank = cw_crank demoDay1\<rparr> demoDay2"
    unfolding demoDay2_def by (rule crank_step.Tick) (simp add: demo_reads)
  moreover have "\<lparr>cw_clock = 100000, cw_crank = cw_crank demoDay1\<rparr> = demoDay1" by (simp add: demoDay1_def)
  ultimately have "crank_step demoInput demoDay1 demoDay2" by simp
  with start(2) have "(crank_step demoInput)\<^sup>*\<^sup>* \<lparr>cw_clock = start, cw_crank = initialCrank []\<rparr> demoDay2"
    by (rule rtranclp.rtrancl_into_rtrancl)
  with start(1) show ?thesis unfolding crank_run_def by (intro exI [of _ start] conjI)
qed

text \<open>A failed attempt on the first day, closed on the second, when it fails again.\<close>

lemma demo_rows:
  "map (\<lambda>r. (row_user r, row_paymentToken r, row_day r, isFailed r)) (ck_attempts (cw_crank demoDay2))
     = [(''U'', 0, 1, True), (''U'', 0, 1, False), (''U'', 0, 2, True)]"
  by code_simp

section \<open>Properties\<close>

lemma ledger_day:
  assumes "ledger_ok d rows"
  shows "list_all isFailed (butlast (rowsOf rows key day))" "failedToday rows day key \<le> 14" "finals rows key day \<le> 1"
proof -
  have "day_ok rows key day" using assms unfolding ledger_ok_def days_ok_def by blast
  then show "list_all isFailed (butlast (rowsOf rows key day))" "failedToday rows day key \<le> 14" "finals rows key day \<le> 1"
    using finals_last [of rows key day] by (simp_all add: day_ok_def MAX_FAILED_ATTEMPTS_PER_DAY_def MAX_BUILDS_def)
qed

text \<open>Nothing recorded is changed or taken back: a step only appends.\<close>

lemma step_appends: "crank_step I w w' \<Longrightarrow> \<exists>new. ck_attempts (cw_crank w') = ck_attempts (cw_crank w) @ new"
proof (induction rule: crank_step.induct)
  case (Tick env before after st)
  from Tick show ?case
  proof (cases rule: tick_shape [where st = st])
    case (read now cfg paused failed cs held)
    then show ?thesis
      using sweeps_add [of I env "today now" cfg paused failed cs held] tick_clocks(3) [OF Tick read(1)]
      by (auto simp: closedAt_def closeDays_rows split: if_splits)
  qed simp
qed (simp add: initialCrank_def)

lemma run_appends:
  assumes "(crank_step I)\<^sup>*\<^sup>* w w'"
  shows "\<exists>new. ck_attempts (cw_crank w') = ck_attempts (cw_crank w) @ new"
  using assms
proof (induction rule: rtranclp_induct)
  case (step y z)
  then show ?case using step_appends [of I y z] by fastforce
qed simp

lemma run_continues: "crank_run I w \<Longrightarrow> (crank_step I)\<^sup>*\<^sup>* w w' \<Longrightarrow> crank_run I w'"
  unfolding crank_run_def by (meson rtranclp_trans)

lemma final_stays:
  assumes "list_all isFailed (butlast (xs @ new))" "xs \<noteq> []" "\<not> isFailed (last xs)"
  shows "new = []"
proof (rule ccontr)
  assume "new \<noteq> []"
  then have "last xs \<in> set (butlast (xs @ new))" using assms(2) by (simp add: butlast_append)
  with assms(1,3) show False by (auto simp: list_all_iff)
qed

text \<open>
  C3: However the crank runs, over any sequence of ticks and restarts, whatever is recorded of a user's
  payment token on a UTC day is a list of failed attempts, at most fourteen of them, of which only the last
  row may be a final word (landed, skipped, already swept or a pull failure). And it is final: once the
  last row of a day is not a failure, that token's rows of that day stay exactly as they are in every
  later state, so the token is never swept twice in a day by the crank. Nothing is recorded for a day
  the cluster's clock has not reached.
\<close>

theorem one_final_word:
  assumes "crank_run I w" "(crank_step I)\<^sup>*\<^sup>* w w'"
  shows "list_all isFailed (butlast (rowsOf (ck_attempts (cw_crank w')) key day))
    \<and> failedToday (ck_attempts (cw_crank w')) day key \<le> 14
    \<and> (rowsOf (ck_attempts (cw_crank w)) key day \<noteq> [] \<and> \<not> isFailed (last (rowsOf (ck_attempts (cw_crank w)) key day))
       \<longrightarrow> rowsOf (ck_attempts (cw_crank w')) key day = rowsOf (ck_attempts (cw_crank w)) key day)
    \<and> (\<forall>r \<in> set (ck_attempts (cw_crank w')). row_day r \<le> today (cw_clock w'))"
proof -
  note later = run_keeps_ledger [OF run_continues [OF assms]]
  obtain new where new: "ck_attempts (cw_crank w') = ck_attempts (cw_crank w) @ new" using run_appends [OF assms(2)] by blast
  have "rowsOf new key day = []"
    if "rowsOf (ck_attempts (cw_crank w)) key day \<noteq> []" "\<not> isFailed (last (rowsOf (ck_attempts (cw_crank w)) key day))"
    using final_stays [OF _ that] ledger_day(1) [OF later, where key = key and day = day] new by simp
  with new ledger_day(1,2) [OF later, where key = key and day = day] later show ?thesis by (auto simp: ledger_ok_def)
qed

text \<open>
  After a tick that reads the clock and the config, every token of every earlier day with any
  recorded attempt has exactly one final word: days of failures only are closed as skipped, even
  after a restart, and none is closed twice.
\<close>

theorem earlier_days_closed:
  assumes "crank_run I w" "tick_reads I env (cw_clock w) after" "te_config env = Inr cfg" "te_clock env = Inr now"
    "r \<in> set (ck_attempts (snd (tick I env (cw_crank w))))" "row_day r < today now"
  shows "length (filter (\<lambda>r. \<not> isFailed r)
     (rowsOf (ck_attempts (snd (tick I env (cw_crank w)))) (row_user r, row_paymentToken r) (row_day r))) = 1"
proof -
  note run = run_keeps_closed [OF assms(1)]
  have "days_closed (snd (tick I env (cw_crank w))) \<and> today now \<le> ck_closedBefore (snd (tick I env (cw_crank w)))"
    using assms(2)
  proof (cases rule: tick_shape [where st = "cw_crank w"])
    case unread
    with assms(3,4) show ?thesis by auto
  next
    case (read now' cfg' paused failed cs held)
    then have "ck_closedBefore (snd (tick I env (cw_crank w))) = ck_closedBefore held" "now' = now"
      using sweeps_add [where day = "today now"] tick_clocks(3) [OF assms(2,4)] assms(4) by (metis, simp)
    with read(4) tick_keeps_closed [OF assms(2)] run show ?thesis by (simp add: closedAt_def)
  qed
  with assms(5,6) have "finals (ck_attempts (snd (tick I env (cw_crank w)))) (row_user r, row_paymentToken r) (row_day r) \<noteq> 0"
    by (auto simp: days_closed_def)
  moreover have "ledger_ok (today after) (ck_attempts (snd (tick I env (cw_crank w))))"
    using tick_keeps_ledger [OF assms(2)] run_keeps_ledger [OF assms(1)] by simp
  then have "finals (ck_attempts (snd (tick I env (cw_crank w)))) (row_user r, row_paymentToken r) (row_day r) \<le> 1"
    by (rule ledger_day(3))
  ultimately have "finals (ck_attempts (snd (tick I env (cw_crank w)))) (row_user r, row_paymentToken r) (row_day r) = 1"
    by linarith
  then show ?thesis by (simp only: finals_def)
qed

theorem one_final_word_witness:
  "list_all isFailed (butlast (rowsOf (ck_attempts (cw_crank demoDay2)) (''U'', 0) 1))
   \<and> map isFailed (rowsOf (ck_attempts (cw_crank demoDay2)) (''U'', 0) 1) = [True, False]
   \<and> failedToday (ck_attempts (cw_crank demoDay2)) 1 (''U'', 0) \<le> 14
   \<and> length (ck_attempts (cw_crank demoDay2)) = 3"
proof -
  have "length (map (\<lambda>r. (row_user r, row_paymentToken r, row_day r, isFailed r)) (ck_attempts (cw_crank demoDay2))) = 3"
    unfolding demo_rows by simp
  moreover have flags: "map isFailed (rowsOf rows (u, t) d) = map (\<lambda>(u', t', d', f). f) (filter (\<lambda>(u', t', d', f). u' = u \<and> t' = t \<and> d' = d)
        (map (\<lambda>r. (row_user r, row_paymentToken r, row_day r, isFailed r)) rows))" for rows u t d
    unfolding rowsOf_def by (induction rows) auto
  have "map isFailed (rowsOf (ck_attempts (cw_crank demoDay2)) (''U'', 0) 1) = [True, False]"
    unfolding flags demo_rows by simp
  ultimately show ?thesis
    using one_final_word [OF demo_run_2 rtranclp.rtrancl_refl, of "(''U'', 0)" 1] by simp
qed

theorem earlier_days_closed_witness:
  "\<exists>r \<in> set (ck_attempts (cw_crank demoDay2)). row_day r = 1
     \<and> length (filter (\<lambda>r. \<not> isFailed r)
         (rowsOf (ck_attempts (cw_crank demoDay2)) (row_user r, row_paymentToken r) 1)) = 1"
proof -
  have "(''U'', 0, 1, True)
      \<in> set (map (\<lambda>r. (row_user r, row_paymentToken r, row_day r, isFailed r)) (ck_attempts (cw_crank demoDay2)))"
    unfolding demo_rows by simp
  then obtain r where r: "r \<in> set (ck_attempts (cw_crank demoDay2))" "row_day r = 1" by auto
  have "row_day r < today 200000" using r(2) by (simp add: today_def divEuclid_floor)
  moreover have "tick_reads demoInput (demoTick 200000) (cw_clock demoDay1) 200000"
    by (rule demo_reads) (simp add: demoDay1_def)
  moreover have "te_config (demoTick 200000) = Inr demoConfig" "te_clock (demoTick 200000) = Inr 200000"
    by (simp_all add: demoTick_def)
  moreover have day2: "snd (tick demoInput (demoTick 200000) (cw_crank demoDay1)) = cw_crank demoDay2"
    by (simp add: demoDay2_def)
  ultimately have "length (filter (\<lambda>r. \<not> isFailed r)
      (rowsOf (ck_attempts (cw_crank demoDay2)) (row_user r, row_paymentToken r) (row_day r))) = 1"
    using earlier_days_closed [OF demo_run, of "demoTick 200000" 200000 demoConfig 200000 r] r(1) by simp
  with r show ?thesis by auto
qed

end
