(* ===== verification/Crank_Size.thy ===== *)
theory Crank_Size
  imports Crank_Runs
begin

text \<open>
  A sweep past kit's size limit. The builder itself asserts the limit, before the crank's handler for an
  oversized transaction is in force, so that handler's skip and its \<open>sweep-size\<close> alarm are unreachable:
  the sweep throws, nothing is recorded and the token is tried again after the shortest wait.
\<close>

definition sizeAlarm :: "crank_state \<Rightarrow> string option option" where
  "sizeAlarm st = map_of (ck_alarmStates st) ''sweep-size''"

lemma sizeAlarm_effects [simp]:
  "sizeAlarm (defer_token ms c after failures st) = sizeAlarm st"
  "sizeAlarm (excludeVenues key day venues st) = sizeAlarm st"
  "name \<noteq> ''sweep-size'' \<Longrightarrow> sizeAlarm (raiseAlarm name message st) = sizeAlarm st"
  "sizeAlarm (hold k st) = sizeAlarm st"
  "sizeAlarm (recordAttempt c day a st) = sizeAlarm st"
  "sizeAlarm (st\<lparr>ck_deferred := d\<rparr>) = sizeAlarm st"
  by (simp_all add: sizeAlarm_def defer_token_def excludeVenues_def raiseAlarm_def hold_def recordAttempt_def
      update_conv' Let_def)

lemma pythStorage_sizeAlarm: "sizeAlarm (snd (pythStorage ms storage st)) = sizeAlarm st"
  by (auto simp: pythStorage_def sizeAlarm_def split: option.splits if_splits sum.splits)

definition quiet :: "crank_state \<Rightarrow> build_result \<Rightarrow> bool" where
  "quiet st res =
     (case res of Finished st' \<Rightarrow> sizeAlarm st' = sizeAlarm st
      | Continue v st' \<Rightarrow> sizeAlarm st' = sizeAlarm st | Threw e st' \<Rightarrow> sizeAlarm st' = sizeAlarm st)"

lemma quiet_simps [simp]:
  "quiet st (Finished st') = (sizeAlarm st' = sizeAlarm st)"
  "quiet st (Continue v st') = (sizeAlarm st' = sizeAlarm st)"
  "quiet st (Threw e st') = (sizeAlarm st' = sizeAlarm st)"
  by (simp_all add: quiet_def)

lemma quiet_eq: "sizeAlarm st1 = sizeAlarm st \<Longrightarrow> quiet st1 res = quiet st res"
  by (cases res) simp_all

lemma refused_quiet:
  "quiet st (pullRefused I c env day e st)" "quiet st (quoteRefused I c env failed day priced e st)"
  by (auto simp: pullRefused_def quoteRefused_def Let_def split: js_error.splits laterite_error.splits)

lemma oversized_never_built:
  assumes "\<forall>is. cr_sizeOf I is = Inl e"
  shows "getSweepInstructions L (cr_sizeOf I) i \<noteq> Inr b"
  using assms by (auto dest: getSweepInstructions_Inr)

lemma routeBuild_quiet:
  assumes "\<forall>is. cr_sizeOf I is = Inl e"
  shows "quiet st (routeBuild I c env failed v s assetEntry token amount priced am pm minimum treasury st)"
  using oversized_never_built [OF assms]
  by (auto simp: routeBuild_def Let_def split: sum.split route_result.split)

lemma withStorage_quiet:
  assumes "\<And>storage st. quiet st (f storage st)"
  shows "quiet st (case pythStorage ms storage st of (Inl e, st) \<Rightarrow> Threw e st | (Inr x, st) \<Rightarrow> f x st)"
proof (cases "pythStorage ms storage st")
  case (Pair r st')
  then have kept: "sizeAlarm st' = sizeAlarm st" using pythStorage_sizeAlarm [of ms storage st] by simp
  have "quiet st (f x st')" for x by (rule quiet_eq [OF kept, THEN iffD1, OF assms])
  then show ?thesis by (cases r) (simp_all add: Pair kept)
qed

lemma sweepBuild_quiet:
  assumes "\<forall>is. cr_sizeOf I is = Inl e"
  shows "quiet st (sweepBuild I c paused failed env v st)"
proof -
  have alarmed: "quiet (raiseAlarm ''repeg-before-sweep'' m st) r = quiet st r" for m st r by (rule quiet_eq) simp
  have "quiet st (routeAndSend I c env failed v s assetEntry token amount priced am pm aq pq st)"
    for v s assetEntry token amount priced am pm aq pq st
    using withStorage_quiet [OF routeBuild_quiet [OF assms], of st]
      withStorage_quiet [OF routeBuild_quiet [OF assms], of "raiseAlarm ''repeg-before-sweep'' _ st"]
    by (auto simp: routeAndSend_def alarmed split: sum.split repeg_result.split)
  then have "quiet st (priceBuild I c env failed v s assetEntry update pulled st)" for v s assetEntry update pulled st
    by (auto simp: priceBuild_def Let_def refused_quiet split: sum.split option.split)
  then show ?thesis
    by (auto simp: sweepBuild_def refused_quiet split: sum.split)
qed

lemma sweepLoop_quiet:
  assumes "\<forall>is. cr_sizeOf I is = Inl e"
  shows "sizeAlarm (snd (sweepLoop I c paused failed builds envs endMs v st)) = sizeAlarm st"
  using assms
proof (induction I c paused failed builds envs endMs v st rule: sweepLoop.induct)
  case (1 I c paused failed builds env envs endMs v st)
  note q = sweepBuild_quiet [OF "1.prems", of st c paused failed env v]
  show ?case
  proof (cases "sweepBuild I c paused failed env v st")
    case (Continue v1 st1)
    from "1.IH" [OF this "1.prems"] q Continue show ?thesis by simp
  qed (use q in simp_all)
qed simp_all

lemma sweeps_quiet:
  assumes "\<forall>is. cr_sizeOf I is = Inl e"
  shows "sizeAlarm (fold (sweepOne I env cfg paused failed) cs st) = sizeAlarm st"
proof (induction cs arbitrary: st)
  case (Cons c cs)
  have "sizeAlarm (sweepOne I env cfg paused failed c st) = sizeAlarm st"
    using sweepLoop_quiet [OF assms, of c paused "failed (keyOf c)" MAX_BUILDS "te_builds env c" "te_endMs env c" _ st]
    by (auto simp: sweepOne_def sweep_def split: prod.split option.split)
      (metis snd_conv)+
  with Cons.IH show ?case by simp
qed simp

lemma tick_quiet:
  assumes "\<forall>is. cr_sizeOf I is = Inl e" "tick I env st = (None, st')"
  shows "sizeAlarm st' = Some None"
proof -
  have initial: "sizeAlarm (x\<lparr>ck_alarmStates := initialAlarms\<rparr>) = Some None" for x
    by (simp add: sizeAlarm_def initialAlarms_def)
  have ignored: "sizeAlarm (x\<lparr>ck_lastSuccessAt := a\<rparr>) = sizeAlarm x"
    "sizeAlarm (x\<lparr>ck_alarmsSet := b\<rparr>) = sizeAlarm x" for x a b
    by (simp_all add: sizeAlarm_def)
  show ?thesis
    using assms(2)
    by (auto simp: tick_def Let_def ignored initial sweeps_quiet [OF assms(1)] split: sum.splits if_splits)
qed


definition demoOversized :: crank_input where
  "demoOversized = demoInput\<lparr>cr_sizeOf := (\<lambda>_. Inl (PlainError ''The transaction is too large''))\<rparr>"


end
