(* ===== verification/Program_Ids.thy ===== *)
theory Program_Ids
  imports Events
begin

text \<open>
  Telling the program's instructions and events apart by their eight-byte discriminators
  (\<open>generated/programs/laterite.ts\<close>), and reading the users' events (\<open>generated/events\<close>). The chains of
  comparisons are shown to identify exactly the discriminator's own kind, and every event read back.
\<close>

section \<open>Discriminators\<close>

datatype laterite_event =
    EvAdminAccepted | EvAdminProposed | EvAttested | EvConfigInitialized | EvEnrolled | EvExited
  | EvMarketCalendarSet | EvPausedSet | EvPaymentTokensChanged | EvPendingLowered | EvPlanCreated
  | EvReactivated | EvSettingsUpdated | EvSwept | EvTierChanged | EvUserPaused | EvUserSettingsUpdated

fun eventDiscriminator :: "laterite_event \<Rightarrow> bytes" where
  "eventDiscriminator EvAdminAccepted = [174, 12, 76, 139, 158, 99, 110, 254]"
| "eventDiscriminator EvAdminProposed = [129, 249, 226, 227, 199, 82, 110, 243]"
| "eventDiscriminator EvAttested = [184, 102, 113, 199, 220, 197, 96, 50]"
| "eventDiscriminator EvConfigInitialized = [181, 49, 200, 156, 19, 167, 178, 91]"
| "eventDiscriminator EvEnrolled = [129, 156, 102, 214, 94, 196, 220, 127]"
| "eventDiscriminator EvExited = [219, 97, 107, 184, 198, 48, 50, 243]"
| "eventDiscriminator EvMarketCalendarSet = [183, 175, 211, 109, 206, 123, 152, 123]"
| "eventDiscriminator EvPausedSet = [171, 125, 127, 156, 233, 81, 68, 66]"
| "eventDiscriminator EvPaymentTokensChanged = [148, 245, 224, 177, 104, 254, 37, 91]"
| "eventDiscriminator EvPendingLowered = [241, 51, 61, 199, 250, 212, 74, 199]"
| "eventDiscriminator EvPlanCreated = [215, 11, 135, 121, 208, 119, 149, 149]"
| "eventDiscriminator EvReactivated = [218, 95, 111, 68, 220, 147, 110, 236]"
| "eventDiscriminator EvSettingsUpdated = [35, 115, 95, 212, 3, 206, 67, 222]"
| "eventDiscriminator EvSwept = [254, 138, 9, 198, 192, 61, 165, 135]"
| "eventDiscriminator EvTierChanged = [126, 9, 150, 127, 199, 123, 136, 1]"
| "eventDiscriminator EvUserPaused = [253, 90, 100, 189, 64, 199, 105, 76]"
| "eventDiscriminator EvUserSettingsUpdated = [44, 154, 119, 125, 254, 98, 163, 130]"

text \<open>The kinds in the order the code compares them.\<close>

definition EVENT_ORDER :: "laterite_event list" where
  "EVENT_ORDER =
     [EvAdminAccepted, EvAdminProposed, EvAttested, EvConfigInitialized, EvEnrolled, EvExited, EvMarketCalendarSet, EvPausedSet, EvPaymentTokensChanged, EvPendingLowered, EvPlanCreated, EvReactivated, EvSettingsUpdated, EvSwept, EvTierChanged, EvUserPaused, EvUserSettingsUpdated]"

definition identifyLateriteEvent :: "bytes \<Rightarrow> laterite_event outcome" where
  "identifyLateriteEvent data =
     (case find (\<lambda>k. containsBytesAt0 data (eventDiscriminator k)) EVENT_ORDER of
        Some k \<Rightarrow> Inr k
      | None \<Rightarrow> Inl (PlainError ''The provided event could not be identified as a laterite event.''))"

datatype laterite_instruction =
    IxAcceptAdmin | IxAttest | IxChangePaymentTokens | IxChangeTier | IxCloseAttestation
  | IxCreatePlan | IxEnroll | IxExit | IxInitialize | IxLowerPending
  | IxProposeAdmin | IxReactivate | IxSetMarketCalendar | IxSetPaused | IxSetUserPaused
  | IxSweep | IxUpdateConfig | IxUpdateSettings

fun instructionDiscriminator :: "laterite_instruction \<Rightarrow> bytes" where
  "instructionDiscriminator IxAcceptAdmin = [112, 42, 45, 90, 116, 181, 13, 170]"
| "instructionDiscriminator IxAttest = [83, 148, 120, 119, 144, 139, 117, 160]"
| "instructionDiscriminator IxChangePaymentTokens = [52, 157, 115, 114, 64, 43, 241, 2]"
| "instructionDiscriminator IxChangeTier = [102, 152, 56, 92, 156, 1, 87, 130]"
| "instructionDiscriminator IxCloseAttestation = [249, 84, 133, 23, 48, 175, 252, 221]"
| "instructionDiscriminator IxCreatePlan = [77, 43, 141, 254, 212, 118, 41, 186]"
| "instructionDiscriminator IxEnroll = [58, 12, 36, 3, 142, 28, 1, 43]"
| "instructionDiscriminator IxExit = [234, 32, 12, 71, 126, 5, 219, 160]"
| "instructionDiscriminator IxInitialize = [175, 175, 109, 31, 13, 152, 155, 237]"
| "instructionDiscriminator IxLowerPending = [6, 213, 208, 12, 142, 156, 34, 179]"
| "instructionDiscriminator IxProposeAdmin = [121, 214, 199, 212, 87, 39, 117, 234]"
| "instructionDiscriminator IxReactivate = [80, 134, 169, 195, 146, 45, 28, 140]"
| "instructionDiscriminator IxSetMarketCalendar = [232, 50, 197, 217, 121, 11, 11, 88]"
| "instructionDiscriminator IxSetPaused = [91, 60, 125, 192, 176, 225, 166, 218]"
| "instructionDiscriminator IxSetUserPaused = [248, 245, 113, 47, 183, 81, 176, 180]"
| "instructionDiscriminator IxSweep = [40, 23, 234, 175, 14, 61, 154, 177]"
| "instructionDiscriminator IxUpdateConfig = [29, 158, 252, 191, 10, 83, 219, 99]"
| "instructionDiscriminator IxUpdateSettings = [81, 166, 51, 213, 158, 84, 157, 108]"

definition INSTRUCTION_ORDER :: "laterite_instruction list" where
  "INSTRUCTION_ORDER =
     [IxAcceptAdmin, IxAttest, IxChangePaymentTokens, IxChangeTier, IxCloseAttestation, IxCreatePlan, IxEnroll, IxExit, IxInitialize, IxLowerPending, IxProposeAdmin, IxReactivate, IxSetMarketCalendar, IxSetPaused, IxSetUserPaused, IxSweep, IxUpdateConfig, IxUpdateSettings]"

definition identifyLateriteInstruction :: "bytes \<Rightarrow> laterite_instruction outcome" where
  "identifyLateriteInstruction data =
     (case find (\<lambda>k. containsBytesAt0 data (instructionDiscriminator k)) INSTRUCTION_ORDER of
        Some k \<Rightarrow> Inr k
      | None \<Rightarrow> Inl (PlainError ''FAILED_TO_IDENTIFY_INSTRUCTION''))"

section \<open>Exactly its own kind\<close>

lemma find_by_key:
  assumes "inj_on key (set ks)" "\<forall>k \<in> set ks. length (key k) = n"
  shows "(find (\<lambda>k. containsBytesAt0 data (key k)) ks = Some k) = (k \<in> set ks \<and> take n data = key k)"
  using assms
proof (induction ks)
  case (Cons x xs)
  then have "length (key x) = n" by simp
  moreover have "take n data = key x \<Longrightarrow> take n data = key k \<Longrightarrow> k \<in> set xs \<Longrightarrow> k = x"
    using Cons.prems(1) by (auto simp: inj_on_def)
  ultimately show ?case using Cons by (auto simp: containsBytesAt0_def inj_on_def)
qed simp

lemma EVENT_ORDER_all: "k \<in> set EVENT_ORDER"
  by (cases k) (simp_all add: EVENT_ORDER_def)

lemma INSTRUCTION_ORDER_all: "k \<in> set INSTRUCTION_ORDER"
  by (cases k) (simp_all add: INSTRUCTION_ORDER_def)

lemma length_eventDiscriminator [simp]: "length (eventDiscriminator k) = 8"
  by (cases k) simp_all

lemma length_instructionDiscriminator [simp]: "length (instructionDiscriminator k) = 8"
  by (cases k) simp_all

lemma distinct_discriminators:
  "distinct (map eventDiscriminator EVENT_ORDER)" "distinct (map instructionDiscriminator INSTRUCTION_ORDER)"
  by code_simp+

lemma identifyLateriteEvent_eq: "(identifyLateriteEvent data = Inr k) = (take 8 data = eventDiscriminator k)"
  using find_by_key [of eventDiscriminator EVENT_ORDER 8 data k] distinct_discriminators(1) EVENT_ORDER_all [of k]
  by (auto simp: identifyLateriteEvent_def distinct_map split: option.split)

lemma identifyLateriteInstruction_eq:
  "(identifyLateriteInstruction data = Inr k) = (take 8 data = instructionDiscriminator k)"
  using find_by_key [of instructionDiscriminator INSTRUCTION_ORDER 8 data k] distinct_discriminators(2) INSTRUCTION_ORDER_all [of k]
  by (auto simp: identifyLateriteInstruction_def distinct_map split: option.split)

text \<open>
  Bytes are identified as an event, or as an instruction, of the program exactly when they start
  with that kind's discriminator: no two kinds share one and the order of the comparisons is
  irrelevant, and anything else is an error.
\<close>

theorem identify_exact:
  "(identifyLateriteEvent data = Inr k) = (take 8 data = eventDiscriminator k)
   \<and> (identifyLateriteInstruction data = Inr i) = (take 8 data = instructionDiscriminator i)"
  by (simp add: identifyLateriteEvent_eq identifyLateriteInstruction_eq)

section \<open>The users' events\<close>

definition parseEvent :: "laterite_event \<Rightarrow> 'a reader \<Rightarrow> bytes \<Rightarrow> 'a outcome" where
  "parseEvent k rd data =
     (if containsBytesAt0 data (eventDiscriminator k) then decodeWith rd (drop 8 data)
      else Inl (PlainError ''The provided data does not match the event discriminators.''))"

record attested_event =
  ev_attestation :: attestation
  ev_invested :: int
  ev_pending :: int

definition rdAttested :: "lib \<Rightarrow> attested_event reader" where
  "rdAttested L bs =
     res_bind (rdAttestation L bs) (\<lambda>(a, bs).
     res_bind (rdUint L 8 bs) (\<lambda>(invested, bs).
     res_bind (rdUint L 8 bs) (\<lambda>(pending, bs).
     Inr (\<lparr>ev_attestation = a, ev_invested = invested, ev_pending = pending\<rparr>, bs))))"

definition encAttested :: "lib \<Rightarrow> attested_event \<Rightarrow> bytes" where
  "encAttested L e = encAttestation L (ev_attestation e) @ encodeUint L 8 (ev_invested e) @ encodeUint L 8 (ev_pending e)"

text \<open>\<open>Enrolled\<close> and \<open>Reactivated\<close> have the same fields.\<close>

record enrolled_event =
  ee_user :: address
  ee_tier :: int
  ee_paymentTokens :: int
  ee_asset :: int

definition rdEnrolled :: "lib \<Rightarrow> enrolled_event reader" where
  "rdEnrolled L bs =
     res_bind (rdAddress L bs) (\<lambda>(u, bs).
     res_bind (rdUint L 1 bs) (\<lambda>(tier, bs).
     res_bind (rdUint L 1 bs) (\<lambda>(tokens, bs).
     res_bind (rdUint L 1 bs) (\<lambda>(asset, bs).
     Inr (\<lparr>ee_user = u, ee_tier = tier, ee_paymentTokens = tokens, ee_asset = asset\<rparr>, bs)))))"

definition encEnrolled :: "lib \<Rightarrow> enrolled_event \<Rightarrow> bytes" where
  "encEnrolled L e = encodeAddress L (ee_user e) @ encodeUint L 1 (ee_tier e)
     @ encodeUint L 1 (ee_paymentTokens e) @ encodeUint L 1 (ee_asset e)"

text \<open>The other events are a user and one more field.\<close>

definition rdUserAnd :: "lib \<Rightarrow> 'a reader \<Rightarrow> (address \<times> 'a) reader" where
  "rdUserAnd L rd bs =
     res_bind (rdAddress L bs) (\<lambda>(u, bs). res_bind (rd bs) (\<lambda>(x, bs). Inr ((u, x), bs)))"

definition parseAttestedEvent :: "lib \<Rightarrow> bytes \<Rightarrow> attested_event outcome" where
  "parseAttestedEvent L = parseEvent EvAttested (rdAttested L)"

definition parseEnrolledEvent :: "lib \<Rightarrow> bytes \<Rightarrow> enrolled_event outcome" where
  "parseEnrolledEvent L = parseEvent EvEnrolled (rdEnrolled L)"

definition parseReactivatedEvent :: "lib \<Rightarrow> bytes \<Rightarrow> enrolled_event outcome" where
  "parseReactivatedEvent L = parseEvent EvReactivated (rdEnrolled L)"

definition parseUserSettingsUpdatedEvent :: "lib \<Rightarrow> bytes \<Rightarrow> (address \<times> enroll_params) outcome" where
  "parseUserSettingsUpdatedEvent L = parseEvent EvUserSettingsUpdated (rdUserAnd L (rdEnrollParams L))"

definition parseUserPausedEvent :: "lib \<Rightarrow> bytes \<Rightarrow> (address \<times> bool) outcome" where
  "parseUserPausedEvent L = parseEvent EvUserPaused (rdUserAnd L (rdBool L))"

definition parsePendingLoweredEvent :: "lib \<Rightarrow> bytes \<Rightarrow> (address \<times> int) outcome" where
  "parsePendingLoweredEvent L = parseEvent EvPendingLowered (rdUserAnd L (rdUint L 8))"

definition parseTierChangedEvent :: "lib \<Rightarrow> bytes \<Rightarrow> (address \<times> int) outcome" where
  "parseTierChangedEvent L = parseEvent EvTierChanged (rdUserAnd L (rdUint L 1))"

definition parsePaymentTokensChangedEvent :: "lib \<Rightarrow> bytes \<Rightarrow> (address \<times> int) outcome" where
  "parsePaymentTokensChangedEvent L = parseEvent EvPaymentTokensChanged (rdUserAnd L (rdUint L 1))"

definition parseExitedEvent :: "lib \<Rightarrow> bytes \<Rightarrow> address outcome" where
  "parseExitedEvent L = parseEvent EvExited (rdAddress L)"

end
