(* ===== verification/Transactions.thy ===== *)
theory Transactions
  imports Program_Ids Sweep_Builder Attestation
begin

text \<open>
  A finalized transaction as the service reads it (\<open>services/operator/src/transaction.ts\<close>): the
  instructions it ran in order, and the payment-token transfers to or from a user that the watcher
  turns into attestations (\<open>watcher/transfers.ts\<close>). The lemmas show that every account of a user sees
  the same numbering, and which transfers count and as what.
\<close>

section \<open>The instructions a transaction ran\<close>

record compiled_instruction =
  ci_accounts :: "int list"
  ci_data :: bytes
  ci_programIdIndex :: int

text \<open>A legacy or version 0 message lists instructions, a version 1 message headers and payloads.\<close>

datatype compiled_body =
    CompiledInstructions "compiled_instruction list"
  | CompiledHeaders "int list" "(int list \<times> bytes) list"

record compiled_message =
  cm_staticAccounts :: "address list"
  cm_body :: compiled_body

record token_balance =
  tb_accountIndex :: int
  tb_mint :: address
  tb_owner :: "address option"

text \<open>An inner instruction's data is base58 text; a \<open>null\<close> list is empty here.\<close>

record inner_instruction =
  ii_accounts :: "int list"
  ii_data :: string
  ii_programIdIndex :: int

record transaction_meta =
  tm_computeUnitsConsumed :: "int option"
  tm_err :: bool
  tm_fee :: "int option"
  tm_innerInstructions :: "(int \<times> inner_instruction list) list"
  tm_writable :: "address list"
  tm_readonly :: "address list"
  tm_logMessages :: "string list"
  tm_postTokenBalances :: "token_balance list"
  tm_preTokenBalances :: "token_balance list"

text \<open>The wire bytes are base64 text that \<open>decodeMessage\<close>, kit's decoders, reads.\<close>

record fetched_transaction =
  ft_blockTime :: "int option"
  ft_meta :: "transaction_meta option"
  ft_slot :: int
  ft_wire :: string

record wire_lib =
  decodeMessage :: "string \<Rightarrow> compiled_message outcome"
  base58Bytes :: "string \<Rightarrow> bytes outcome"
  base58Text :: "bytes \<Rightarrow> string"
  base64Bytes :: "string \<Rightarrow> bytes outcome"
  base16Text :: "bytes \<Rightarrow> string"

text \<open>\<open>keys[index]!\<close>: an index past the keys is \<open>undefined\<close>, here the empty string, which names no account.\<close>

definition keyAt :: "address list \<Rightarrow> int \<Rightarrow> address" where
  "keyAt keys i = (case nth_opt keys i of Some k \<Rightarrow> k | None \<Rightarrow> [])"

definition resolved :: "address list \<Rightarrow> int list \<Rightarrow> bytes \<Rightarrow> int \<Rightarrow> executed_instruction" where
  "resolved keys accounts data programIdIndex =
     \<lparr>ei_accounts = map (keyAt keys) accounts, ei_data = data, ei_programAddress = keyAt keys programIdIndex\<rparr>"

fun outerOf :: "compiled_body \<Rightarrow> compiled_instruction list outcome" where
  "outerOf (CompiledInstructions is) = Inr is"
| "outerOf (CompiledHeaders headers payloads) =
     res_map (\<lambda>(index, program). res_bind (entry payloads index) (\<lambda>(accounts, data).
        Inr \<lparr>ci_accounts = accounts, ci_data = data, ci_programIdIndex = program\<rparr>))
       (zip [0..int (length headers) - 1] headers)"

text \<open>The last entry of an index wins, as in \<open>new Map(entries)\<close>.\<close>

definition innerOf :: "transaction_meta option \<Rightarrow> int \<Rightarrow> inner_instruction list" where
  "innerOf meta index =
     (case meta of None \<Rightarrow> []
      | Some m \<Rightarrow> (case map_of (rev (tm_innerInstructions m)) index of Some is \<Rightarrow> is | None \<Rightarrow> []))"

definition executedAt ::
    "wire_lib \<Rightarrow> address list \<Rightarrow> transaction_meta option \<Rightarrow> int \<times> compiled_instruction \<Rightarrow> executed_instruction list outcome" where
  "executedAt W keys meta = (\<lambda>(index, i).
     res_bind (res_map (\<lambda>inner. res_bind (base58Bytes W (ii_data inner)) (\<lambda>d.
                 Inr (resolved keys (ii_accounts inner) d (ii_programIdIndex inner)))) (innerOf meta index)) (\<lambda>inner.
     Inr (resolved keys (ci_accounts i) (ci_data i) (ci_programIdIndex i) # inner)))"

definition executedInstructions ::
    "wire_lib \<Rightarrow> fetched_transaction \<Rightarrow> (executed_instruction list \<times> address list) outcome" where
  "executedInstructions W t =
     res_bind (decodeMessage W (ft_wire t)) (\<lambda>message.
     let keys = cm_staticAccounts message
           @ (case ft_meta t of None \<Rightarrow> [] | Some m \<Rightarrow> tm_writable m @ tm_readonly m)
     in res_bind (outerOf (cm_body message)) (\<lambda>outer.
        res_bind (res_map (executedAt W keys (ft_meta t)) (zip [0..int (length outer) - 1] outer)) (\<lambda>executed.
        Inr (concat executed, keys))))"

section \<open>Payment transfers\<close>

text \<open>
  What the Token client's \<open>identifyTokenInstruction\<close> and parsers make of an instruction: a transfer of
  an amount between two accounts, a checked one with its mint, another instruction, or an error of the
  identification; a parser may throw on too few accounts.
\<close>

datatype token_instruction =
    TokenTransfer int address address
  | TokenTransferChecked int address address address
  | TokenOther
  | TokenParseThrew js_error

record payment_transfer =
  pt_amount :: int
  pt_destination :: address
  pt_destinationOwner :: "address option"
  pt_index :: nat
  pt_paymentToken :: nat
  pt_source :: address
  pt_sourceOwner :: "address option"

record token_transfer =
  tt_amount :: int
  tt_destination :: address
  tt_mint :: address
  tt_source :: address

definition tokenTransfer ::
    "(executed_instruction \<Rightarrow> token_instruction option) \<Rightarrow> executed_instruction \<Rightarrow> (address \<rightharpoonup> address)
     \<Rightarrow> token_transfer option outcome" where
  "tokenTransfer identify i mints =
     (case identify i of
        None \<Rightarrow> Inr None
      | Some (TokenTransfer amount source destination) \<Rightarrow>
          (let mint = (case mints source of Some m \<Rightarrow> Some m | None \<Rightarrow> mints destination)
           in Inr (map_option (\<lambda>m. \<lparr>tt_amount = amount, tt_destination = destination, tt_mint = m, tt_source = source\<rparr>) mint))
      | Some (TokenTransferChecked amount source mint destination) \<Rightarrow>
          Inr (Some \<lparr>tt_amount = amount, tt_destination = destination, tt_mint = mint, tt_source = source\<rparr>)
      | Some TokenOther \<Rightarrow> Inr None
      | Some (TokenParseThrew e) \<Rightarrow> Inl e)"

text \<open>The mint and owner of each account: from the balances before the transaction, else after.\<close>

definition tokenAccounts :: "address list \<Rightarrow> transaction_meta option \<Rightarrow> address \<rightharpoonup> address \<times> address option" where
  "tokenAccounts keys meta =
     (let entries = (\<lambda>bs. map (\<lambda>b. (keyAt keys (tb_accountIndex b), (tb_mint b, tb_owner b))) bs)
      in case meta of None \<Rightarrow> Map.empty
         | Some m \<Rightarrow> map_of (rev (entries (tm_postTokenBalances m) @ entries (tm_preTokenBalances m))))"

definition tokenIndex :: "payment_token_entry list \<Rightarrow> address \<Rightarrow> address \<Rightarrow> nat option" where
  "tokenIndex paymentTokens mint program =
     map_option fst (find (\<lambda>(i, t). token_mint t = mint \<and> token_tokenProgram t = program) (enumerate 0 paymentTokens))"

text \<open>A transfer of a configured token to or from the user, numbered \<open>n\<close>.\<close>

definition numberedTransfer ::
    "payment_token_entry list \<Rightarrow> (address \<rightharpoonup> address \<times> address option) \<Rightarrow> address \<Rightarrow> nat \<Rightarrow> address \<Rightarrow> token_transfer
     \<Rightarrow> payment_transfer option" where
  "numberedTransfer paymentTokens accounts user n program t =
     (case tokenIndex paymentTokens (tt_mint t) program of
        None \<Rightarrow> None
      | Some paymentToken \<Rightarrow>
          let sourceOwner = Option.bind (accounts (tt_source t)) snd;
              destinationOwner = Option.bind (accounts (tt_destination t)) snd
          in if sourceOwner \<noteq> Some user \<and> destinationOwner \<noteq> Some user then None
             else Some \<lparr>pt_amount = tt_amount t, pt_destination = tt_destination t, pt_destinationOwner = destinationOwner,
                        pt_index = n, pt_paymentToken = paymentToken, pt_source = tt_source t, pt_sourceOwner = sourceOwner\<rparr>)"

definition transferOf ::
    "(executed_instruction \<Rightarrow> token_instruction option) \<Rightarrow> payment_token_entry list \<Rightarrow> (address \<rightharpoonup> address \<times> address option)
     \<Rightarrow> address \<Rightarrow> nat \<Rightarrow> executed_instruction \<Rightarrow> payment_transfer option outcome" where
  "transferOf identify paymentTokens accounts user n i =
     (if ei_programAddress i \<notin> token_tokenProgram ` set paymentTokens then Inr None
      else res_bind (tokenTransfer identify i (map_option fst \<circ> accounts)) (\<lambda>transfer.
           Inr (Option.bind transfer (numberedTransfer paymentTokens accounts user n (ei_programAddress i)))))"

fun transfersFrom ::
    "(nat \<Rightarrow> executed_instruction \<Rightarrow> payment_transfer option outcome) \<Rightarrow> payment_transfer list \<Rightarrow> executed_instruction list
     \<Rightarrow> payment_transfer list outcome" where
  "transfersFrom step transfers [] = Inr transfers"
| "transfersFrom step transfers (i # is) =
     res_bind (step (length transfers) i) (\<lambda>found.
     transfersFrom step (case found of None \<Rightarrow> transfers | Some t \<Rightarrow> transfers @ [t]) is)"

definition getPaymentTransfers ::
    "wire_lib \<Rightarrow> (executed_instruction \<Rightarrow> token_instruction option) \<Rightarrow> fetched_transaction \<Rightarrow> address
     \<Rightarrow> payment_token_entry list \<Rightarrow> payment_transfer list outcome" where
  "getPaymentTransfers W identify t user paymentTokens =
     res_bind (executedInstructions W t) (\<lambda>(executed, keys).
     transfersFrom (transferOf identify paymentTokens (tokenAccounts keys (ft_meta t)) user) [] executed)"

record watched_account =
  wa_address :: address
  wa_paymentToken :: int
  wa_user :: address

text \<open>What a transfer is for a watched account.\<close>

definition transferKind :: "watched_account \<Rightarrow> address \<Rightarrow> payment_transfer \<Rightarrow> event_kind option" where
  "transferKind account swapAuthority t =
     (let excluded = {Some (wa_user account), Some swapAuthority}
      in if pt_destination t = wa_address account \<and> pt_sourceOwner t \<notin> excluded then Some Income
         else if pt_source t = wa_address account \<and> pt_destinationOwner t \<notin> excluded then Some Payment
         else None)"

definition attestationOf ::
    "bytes \<Rightarrow> int \<Rightarrow> watched_account \<Rightarrow> address \<Rightarrow> payment_transfer \<Rightarrow> attestation list" where
  "attestationOf signatureBytes blockTime account swapAuthority t =
     (case transferKind account swapAuthority t of
        None \<Rightarrow> []
      | Some kind \<Rightarrow>
          if pt_amount t = 0 \<or> int (pt_paymentToken t) \<noteq> wa_paymentToken account then []
          else [\<lparr>at_kind = kind, at_user = wa_user account, at_paymentToken = int (pt_paymentToken t), at_amount = pt_amount t,
                 at_eventTime = blockTime, at_signature = signatureBytes, at_transferIndex = int (pt_index t)\<rparr>])"

definition getAttestations ::
    "wire_lib \<Rightarrow> (executed_instruction \<Rightarrow> token_instruction option) \<Rightarrow> string \<Rightarrow> fetched_transaction \<Rightarrow> watched_account
     \<Rightarrow> payment_token_entry list \<Rightarrow> address \<Rightarrow> attestation list outcome" where
  "getAttestations W identify signature t account paymentTokens swapAuthority =
     (case (ft_meta t, ft_blockTime t) of
        (Some m, Some blockTime) \<Rightarrow>
          if tm_err m then Inr []
          else res_bind (base58Bytes W signature) (\<lambda>signatureBytes.
               res_bind (getPaymentTransfers W identify t (wa_user account) paymentTokens) (\<lambda>transfers.
               Inr (concat (map (attestationOf signatureBytes blockTime account swapAuthority) transfers))))
      | _ \<Rightarrow> Inr [])"

section \<open>The numbering and the owners\<close>

lemma transfersFrom_Inr:
  "transfersFrom step ts is = Inr us \<Longrightarrow> (\<And>n i t. step n i = Inr (Some t) \<Longrightarrow> pt_index t = n \<and> P t)
   \<Longrightarrow> \<exists>vs. us = ts @ vs \<and> map pt_index vs = [length ts..<length us] \<and> (\<forall>t \<in> set vs. P t)"
proof (induction step ts "is" arbitrary: us rule: transfersFrom.induct)
  case (2 step ts i js)
  from "2.prems"(1) obtain found where found: "step (length ts) i = Inr found"
    "transfersFrom step (case found of None \<Rightarrow> ts | Some t \<Rightarrow> ts @ [t]) js = Inr us"
    by (auto simp: result_simps)
  show ?case
  proof (cases found)
    case None
    with "2.IH" [of found us] found(2) "2.prems"(2) show ?thesis by simp
  next
    case (Some t)
    then obtain vs where vs: "us = (ts @ [t]) @ vs" "map pt_index vs = [length (ts @ [t])..<length us]" "\<forall>t \<in> set vs. P t"
      using "2.IH" [of found us] found(2) "2.prems"(2) by auto
    have t: "pt_index t = length ts \<and> P t" using "2.prems"(2) found(1) Some by blast
    have "[length ts..<length us] = length ts # [length (ts @ [t])..<length us]"
      using upt_conv_Cons [of "length ts" "length us"] vs(1) by simp
    with vs t show ?thesis by (intro exI [of _ "t # vs"]) (simp only: list.map, simp)
  qed
qed simp

lemma transferOf_Some:
  assumes "transferOf identify paymentTokens accounts user n i = Inr (Some t)"
  shows "pt_index t = n" "pt_sourceOwner t = Some user \<or> pt_destinationOwner t = Some user"
    "pt_sourceOwner t = Option.bind (accounts (pt_source t)) snd"
    "pt_destinationOwner t = Option.bind (accounts (pt_destination t)) snd"
proof -
  from assms obtain x where "numberedTransfer paymentTokens accounts user n (ei_programAddress i) x = Some t"
    by (auto simp: transferOf_def result_simps bind_eq_Some_conv split: if_splits)
  then show "pt_index t = n" "pt_sourceOwner t = Some user \<or> pt_destinationOwner t = Some user"
    "pt_sourceOwner t = Option.bind (accounts (pt_source t)) snd"
    "pt_destinationOwner t = Option.bind (accounts (pt_destination t)) snd"
    by (auto simp: numberedTransfer_def Let_def split: option.splits if_splits)
qed

lemma getPaymentTransfers_Inr:
  assumes "getPaymentTransfers W identify t user paymentTokens = Inr ts"
  shows "map pt_index ts = [0..<length ts]"
    "\<forall>x \<in> set ts. pt_sourceOwner x = Some user \<or> pt_destinationOwner x = Some user"
proof -
  from assms obtain executed keys where
    "transfersFrom (transferOf identify paymentTokens (tokenAccounts keys (ft_meta t)) user) [] executed = Inr ts"
    by (auto simp: getPaymentTransfers_def result_simps)
  from transfersFrom_Inr [OF this, of "\<lambda>x. pt_sourceOwner x = Some user \<or> pt_destinationOwner x = Some user"]
  show "map pt_index ts = [0..<length ts]"
    "\<forall>x \<in> set ts. pt_sourceOwner x = Some user \<or> pt_destinationOwner x = Some user"
    using transferOf_Some(1,2) by (metis append_Nil list.size(3))+
qed

section \<open>What is attested\<close>

lemma attestationOf_mem:
  "a \<in> set (attestationOf sig at account swapAuthority t) \<Longrightarrow>
   transferKind account swapAuthority t = Some (at_kind a) \<and> pt_amount t = at_amount a \<and> at_amount a \<noteq> 0
   \<and> at_transferIndex a = int (pt_index t) \<and> at_user a = wa_user account \<and> at_eventTime a = at \<and> at_signature a = sig
   \<and> at_paymentToken a = int (pt_paymentToken t) \<and> at_paymentToken a = wa_paymentToken account"
  by (auto simp: attestationOf_def split: option.splits if_splits)

lemma getAttestations_mem:
  assumes "getAttestations W identify signature t account paymentTokens swapAuthority = Inr as" "a \<in> set as"
  obtains m at sig ts x where "ft_meta t = Some m" "\<not> tm_err m" "ft_blockTime t = Some at" "base58Bytes W signature = Inr sig"
    "getPaymentTransfers W identify t (wa_user account) paymentTokens = Inr ts" "x \<in> set ts"
    "a \<in> set (attestationOf sig at account swapAuthority x)"
    "as = concat (map (attestationOf sig at account swapAuthority) ts)"
  using assms by (auto simp: getAttestations_def result_simps split: option.splits if_splits)

text \<open>The account a transfer of a user is attested through is determined by the transfer.\<close>

lemma transferKind_account:
  assumes "transferKind account swapAuthority t = Some k" "transferKind account' swapAuthority t = Some k'"
    "wa_user account' = wa_user account" "pt_sourceOwner t = Some (wa_user account) \<or> pt_destinationOwner t = Some (wa_user account)"
  shows "wa_address account' = wa_address account" "k' = k"
  using assms by (auto simp: transferKind_def Let_def split: if_splits)

lemma indexed_once:
  assumes "map pt_index ts = [0..<length ts]" "x \<in> set ts" "y \<in> set ts" "pt_index x = pt_index y"
  shows "x = y"
proof -
  have "distinct (map pt_index ts)" by (simp add: assms(1))
  then show ?thesis using assms(2-4) by (auto simp: distinct_map inj_on_def)
qed

lemma attestationOf_one: "attestationOf sig at account swapAuthority x = [] \<or> (\<exists>a. attestationOf sig at account swapAuthority x = [a])"
  by (auto simp: attestationOf_def split: option.splits)

lemma attestationOf_indices:
  "distinct (map pt_index ts) \<Longrightarrow>
   distinct (map at_transferIndex (concat (map (attestationOf sig at account swapAuthority) ts)))"
proof (induction ts)
  case (Cons x ts)
  have other: "at_transferIndex a \<noteq> int (pt_index x)" if "a \<in> set (concat (map (attestationOf sig at account swapAuthority) ts))" for a
  proof -
    from that obtain y where y: "y \<in> set ts" "a \<in> set (attestationOf sig at account swapAuthority y)" by auto
    have "pt_index y \<noteq> pt_index x" using Cons.prems imageI [OF y(1), of pt_index] by auto
    with attestationOf_mem [OF y(2)] show ?thesis by simp
  qed
  from attestationOf_one [of sig at account swapAuthority x] show ?case
  proof
    assume "\<exists>a. attestationOf sig at account swapAuthority x = [a]"
    then obtain a where a: "attestationOf sig at account swapAuthority x = [a]" by blast
    then have "at_transferIndex a = int (pt_index x)" using attestationOf_mem [of a sig at account swapAuthority x] by simp
    then have "at_transferIndex a \<notin> set (map at_transferIndex (concat (map (attestationOf sig at account swapAuthority) ts)))"
      using other by (metis image_iff list.set_map)
    with a Cons show ?thesis by simp
  qed (use Cons in simp)
qed simp

lemma attested_same_transfer:
  assumes "getAttestations W identify signature t account paymentTokens swapAuthority = Inr as"
    "getAttestations W identify signature t account' paymentTokens swapAuthority = Inr as'"
    "wa_user account' = wa_user account" "a \<in> set as" "a' \<in> set as'" "at_transferIndex a = at_transferIndex a'"
  shows "a = a' \<and> wa_address account = wa_address account'"
proof -
  obtain m at sig ts x where a: "ft_blockTime t = Some at" "base58Bytes W signature = Inr sig"
    "getPaymentTransfers W identify t (wa_user account) paymentTokens = Inr ts" "x \<in> set ts"
    "a \<in> set (attestationOf sig at account swapAuthority x)"
    using getAttestations_mem [OF assms(1,4)] by metis
  obtain y where a': "y \<in> set ts" "a' \<in> set (attestationOf sig at account' swapAuthority y)"
    using getAttestations_mem [OF assms(2,5)] a(1-3) assms(3) by (metis option.inject sum.inject(2))
  note ts = getPaymentTransfers_Inr [OF a(3)]
  have "pt_index x = pt_index y"
    using attestationOf_mem [OF a(5)] attestationOf_mem [OF a'(2)] assms(6) by simp
  then have "x = y" by (rule indexed_once [OF ts(1) a(4) a'(1)])
  with transferKind_account [of account swapAuthority x "at_kind a" account' "at_kind a'"] ts(2) a(4)
    attestationOf_mem [OF a(5)] attestationOf_mem [OF a'(2)] assms(3)
  show ?thesis by (auto intro: attestation.equality)
qed

lemma attested_transfer:
  assumes "getAttestations W identify signature t account paymentTokens swapAuthority = Inr as" "a \<in> set as"
  obtains ts where "getPaymentTransfers W identify t (wa_user account) paymentTokens = Inr ts" "0 \<le> at_transferIndex a"
    "at_transferIndex a < int (length ts)" "pt_amount (ts ! nat (at_transferIndex a)) = at_amount a" "at_user a = wa_user account"
proof -
  obtain m at sig ts x where a: "getPaymentTransfers W identify t (wa_user account) paymentTokens = Inr ts" "x \<in> set ts"
    "a \<in> set (attestationOf sig at account swapAuthority x)"
    using getAttestations_mem [OF assms] by metis
  note m = attestationOf_mem [OF a(3)]
  from a(2) obtain k where k: "k < length ts" "ts ! k = x" by (auto simp: in_set_conv_nth)
  have "pt_index x = k" using getPaymentTransfers_Inr(1) [OF a(1)] k by (metis add_0 length_map nth_map nth_upt)
  with m k that [OF a(1)] show ?thesis by auto
qed


text \<open>
  Only what the rules may count is attested: an attestation comes from a transaction that did not
  fail, with its block time, for a positive amount of the watched account's own token, as income only
  when the transfer reached the account from another owner than the user and the swap authority, and as
  a payment only when it left the account for another owner than those: never a sweep's pull, never a
  move between the user's own accounts.
\<close>

theorem attested_transfers_count:
  assumes "getAttestations W identify signature t account paymentTokens swapAuthority = Inr as" "a \<in> set as"
  shows "(\<exists>m. ft_meta t = Some m \<and> \<not> tm_err m) \<and> ft_blockTime t = Some (at_eventTime a) \<and> at_amount a \<noteq> 0
    \<and> at_user a = wa_user account \<and> at_paymentToken a = wa_paymentToken account
    \<and> (\<exists>ts x. getPaymentTransfers W identify t (wa_user account) paymentTokens = Inr ts \<and> x \<in> set ts
         \<and> at_transferIndex a = int (pt_index x) \<and> at_amount a = pt_amount x
         \<and> (at_kind a = Income \<longrightarrow> pt_destination x = wa_address account
              \<and> pt_sourceOwner x \<noteq> Some (wa_user account) \<and> pt_sourceOwner x \<noteq> Some swapAuthority)
         \<and> (at_kind a = Payment \<longrightarrow> pt_source x = wa_address account
              \<and> pt_destinationOwner x \<noteq> Some (wa_user account) \<and> pt_destinationOwner x \<noteq> Some swapAuthority))"
proof -
  obtain m at sig ts x where a: "ft_meta t = Some m" "\<not> tm_err m" "ft_blockTime t = Some at"
    "getPaymentTransfers W identify t (wa_user account) paymentTokens = Inr ts" "x \<in> set ts"
    "a \<in> set (attestationOf sig at account swapAuthority x)"
    using getAttestations_mem [OF assms] by metis
  from attestationOf_mem [OF a(6)] have k: "transferKind account swapAuthority x = Some (at_kind a)" by simp
  then have "(at_kind a = Income \<longrightarrow> pt_destination x = wa_address account
              \<and> pt_sourceOwner x \<noteq> Some (wa_user account) \<and> pt_sourceOwner x \<noteq> Some swapAuthority)
         \<and> (at_kind a = Payment \<longrightarrow> pt_source x = wa_address account
              \<and> pt_destinationOwner x \<noteq> Some (wa_user account) \<and> pt_destinationOwner x \<noteq> Some swapAuthority)"
    by (auto simp: transferKind_def Let_def split: if_splits)
  with attestationOf_mem [OF a(6)] a show ?thesis by auto
qed

text \<open>A transaction that pays the user from outside, then moves tokens between the user's accounts.\<close>

definition demoWire :: wire_lib where
  "demoWire = \<lparr>decodeMessage = (\<lambda>_. Inr \<lparr>cm_staticAccounts = [''FEE'', ''ACC'', ''SRC'', ''OWN2'', ''TOK''],
       cm_body = CompiledInstructions
         [\<lparr>ci_accounts = [2, 1], ci_data = [3], ci_programIdIndex = 4\<rparr>,
          \<lparr>ci_accounts = [1, 3], ci_data = [3], ci_programIdIndex = 4\<rparr>]\<rparr>),
     base58Bytes = (\<lambda>_. Inr [9]), base58Text = (\<lambda>_. ''s''), base64Bytes = (\<lambda>_. Inr []), base16Text = (\<lambda>_. [])\<rparr>"

definition demoIdentify :: "executed_instruction \<Rightarrow> token_instruction option" where
  "demoIdentify i = (case ei_accounts i of [a, b] \<Rightarrow> Some (TokenTransfer 50 a b) | _ \<Rightarrow> Some TokenOther)"

definition demoTransaction :: fetched_transaction where
  "demoTransaction = \<lparr>ft_blockTime = Some 1700,
     ft_meta = Some \<lparr>tm_computeUnitsConsumed = None, tm_err = False, tm_fee = None, tm_innerInstructions = [],
       tm_writable = [], tm_readonly = [], tm_logMessages = [],
       tm_postTokenBalances = [], tm_preTokenBalances =
         [\<lparr>tb_accountIndex = 1, tb_mint = ''USDC'', tb_owner = Some ''U''\<rparr>,
          \<lparr>tb_accountIndex = 2, tb_mint = ''USDC'', tb_owner = Some ''PAYER''\<rparr>,
          \<lparr>tb_accountIndex = 3, tb_mint = ''USDC'', tb_owner = Some ''U''\<rparr>]\<rparr>,
     ft_slot = 5, ft_wire = ''wire''\<rparr>"

definition demoWatched :: watched_account where
  "demoWatched = \<lparr>wa_address = ''ACC'', wa_paymentToken = 0, wa_user = ''U''\<rparr>"

definition demoIncome :: attestation where
  "demoIncome = \<lparr>at_kind = Income, at_user = ''U'', at_paymentToken = 0, at_amount = 50, at_eventTime = 1700,
     at_signature = [9], at_transferIndex = 0\<rparr>"

lemma demo_attested:
  "getAttestations demoWire demoIdentify ''SIG'' demoTransaction demoWatched (cfg_paymentTokens demoConfig) ''SWAP'' = Inr [demoIncome]"
  by code_simp


theorem attested_transfers_count_witness:
  "(\<exists>m. ft_meta demoTransaction = Some m \<and> \<not> tm_err m) \<and> ft_blockTime demoTransaction = Some (at_eventTime demoIncome)
   \<and> at_amount demoIncome \<noteq> 0"
proof -
  have "demoIncome \<in> set [demoIncome]" by simp
  from attested_transfers_count [OF demo_attested this] show ?thesis by (elim conjE) (intro conjI)
qed

end
