(* ===== verification/History.thy ===== *)
theory History
  imports Transactions Failures
begin

text \<open>
  The history rows of a transaction (\<open>services/operator/src/indexer/decode.ts\<close>) and their storage with
  the cursor (\<open>indexer/indexer.ts\<close>). A store is a database transaction: it happens whole or not at all.
  Tables are lists of rows in the order of insertion, keyed by signature and event index.
\<close>

section \<open>JSON\<close>

text \<open>A JavaScript value as \<open>toJson\<close> takes it, and the JSON it gives.\<close>

datatype js_value =
    JsBigint int | JsNumber int | JsBool bool | JsBytes bytes | JsArray "js_value list" | JsObject "(string \<times> js_value) list"

datatype json = JNumber int | JBool bool | JString string | JArray "json list" | JObject "(string \<times> json) list"

fun toJson :: "wire_lib \<Rightarrow> js_value \<Rightarrow> json" where
  "toJson W (JsBigint n) = JString (showInt n)"
| "toJson W (JsBytes bs) = JString (base16Text W bs)"
| "toJson W (JsArray vs) = JArray (map (toJson W) vs)"
| "toJson W (JsObject kvs) = JObject (map (\<lambda>(key, v). (key, toJson W v)) kvs)"
| "toJson W (JsNumber n) = JNumber n"
| "toJson W (JsBool b) = JBool b"

definition enrollParamsValue :: "enroll_params \<Rightarrow> js_value" where
  "enrollParamsValue p = JsObject
     [(''tier'', JsNumber (ep_tier p)), (''paymentTokens'', JsNumber (ep_paymentTokens p)), (''asset'', JsNumber (ep_asset p)),
      (''engine'', JsNumber (if ep_engine p = Daily then 0 else 1)), (''engineAmount'', JsBigint (ep_engineAmount p)),
      (''incomeRule'', JsBool (ep_incomeRule p)), (''changeMultiplier'', JsNumber (ep_changeMultiplier p)),
      (''cushions'', JsArray (map JsBigint (ep_cushions p))), (''goalAmount'', JsBigint (ep_goalAmount p)),
      (''goalLabel'', JsBytes (ep_goalLabel p))]"

section \<open>Rows\<close>

text \<open>A \<open>Date\<close> is its milliseconds.\<close>

record row_at =
  at_blockTimeMs :: int
  at_txSignature :: string
  at_slot :: int

record sweep_row =
  sr_at :: row_at
  sr_event :: swept_event
  sr_eventIndex :: nat
  sr_feePayer :: address

record attestation_row =
  ar_at :: row_at
  ar_amount :: int
  ar_eventIndex :: nat
  ar_eventTimeMs :: int
  ar_expiresAtMs :: int
  ar_invested :: int
  ar_kind :: event_kind
  ar_payer :: address
  ar_paymentToken :: int
  ar_pendingAfter :: int
  ar_record :: address
  ar_sourceSignature :: string
  ar_transferIndex :: int
  ar_user :: address
  ar_closed :: "(int \<times> string) option"

datatype user_event_kind =
    Ue_Enrolled | Ue_Settings_Updated | Ue_Paused | Ue_Resumed | Ue_Pending_Lowered | Ue_Tier_Changed
  | Ue_Payment_Tokens_Changed | Ue_Exited | Ue_Reactivated

record user_event_row =
  ur_at :: row_at
  ur_data :: json
  ur_eventIndex :: nat
  ur_kind :: user_event_kind
  ur_user :: address

record close_row =
  cl_closedAtMs :: int
  cl_closedSignature :: string
  cl_record :: address

record decoded =
  dc_attestations :: "attestation_row list"
  dc_closes :: "close_row list"
  dc_sweeps :: "sweep_row list"
  dc_userEvents :: "user_event_row list"

definition nothingDecoded :: decoded where
  "nothingDecoded = \<lparr>dc_attestations = [], dc_closes = [], dc_sweeps = [], dc_userEvents = []\<rparr>"

section \<open>Decoding a transaction\<close>

definition ATTESTATION_TTL_SECONDS :: int where "ATTESTATION_TTL_SECONDS = 604800"

definition isLaterite :: "executed_instruction \<Rightarrow> laterite_instruction \<Rightarrow> bool" where
  "isLaterite i kind =
     (ei_programAddress i = LATERITE_PROGRAM_ADDRESS \<and> identifyLateriteInstruction (ei_data i) = Inr kind)"

text \<open>The accounts the parsers name; the data's discriminator has been compared already.\<close>

definition closedRecord :: "executed_instruction \<Rightarrow> address outcome" where
  "closedRecord i = (if length (ei_accounts i) < 2 then Inl (PlainError ''INSUFFICIENT_ACCOUNT_METAS'') else entry (ei_accounts i) 0)"

definition attestAccounts :: "lib \<Rightarrow> executed_instruction \<Rightarrow> (address \<times> address) outcome" where
  "attestAccounts L i =
     (if length (ei_accounts i) < 6 then Inl (PlainError ''INSUFFICIENT_ACCOUNT_METAS'')
      else res_bind (decodeWith (rdAttestation L) (drop 8 (ei_data i))) (\<lambda>_. Inr (ei_accounts i ! 0, ei_accounts i ! 3)))"

fun sweepRows :: "lib \<Rightarrow> row_at \<Rightarrow> address \<Rightarrow> sweep_row list \<Rightarrow> executed_instruction list \<Rightarrow> sweep_row list outcome" where
  "sweepRows L at feePayer rows [] = Inr rows"
| "sweepRows L at feePayer rows (i # is) =
     (case getLateriteEventData i of
        None \<Rightarrow> sweepRows L at feePayer rows is
      | Some data \<Rightarrow>
          if containsBytesAt0 data SWEPT_EVENT_DISCRIMINATOR
          then res_bind (parseSweptEvent L data) (\<lambda>e.
               sweepRows L at feePayer
                 (rows @ [\<lparr>sr_at = at, sr_event = e, sr_eventIndex = length rows, sr_feePayer = feePayer\<rparr>]) is)
          else sweepRows L at feePayer rows is)"

definition pushUser :: "row_at \<Rightarrow> user_event_kind \<Rightarrow> address \<Rightarrow> json \<Rightarrow> decoded \<Rightarrow> decoded" where
  "pushUser at kind address data d =
     d\<lparr>dc_userEvents := dc_userEvents d @
         [\<lparr>ur_at = at, ur_data = data, ur_eventIndex = length (dc_userEvents d), ur_kind = kind, ur_user = address\<rparr>]\<rparr>"

definition enrolledData :: "enrolled_event \<Rightarrow> json" where
  "enrolledData e = JObject [(''asset'', JNumber (ee_asset e)), (''paymentTokens'', JNumber (ee_paymentTokens e)), (''tier'', JNumber (ee_tier e))]"

definition pushAttestation ::
    "wire_lib \<Rightarrow> row_at \<Rightarrow> attested_event \<Rightarrow> address \<times> address \<Rightarrow> decoded \<Rightarrow> decoded" where
  "pushAttestation W at e accounts d =
     (let a = ev_attestation e
      in d\<lparr>dc_attestations := dc_attestations d @
             [\<lparr>ar_at = at, ar_amount = at_amount a, ar_eventIndex = length (dc_attestations d),
               ar_eventTimeMs = at_eventTime a * 1000, ar_expiresAtMs = (at_eventTime a + ATTESTATION_TTL_SECONDS) * 1000,
               ar_invested = ev_invested e, ar_kind = at_kind a, ar_payer = fst accounts, ar_paymentToken = at_paymentToken a,
               ar_pendingAfter = ev_pending e, ar_record = snd accounts, ar_sourceSignature = base58Text W (at_signature a),
               ar_transferIndex = at_transferIndex a, ar_user = at_user a, ar_closed = None\<rparr>]\<rparr>)"

text \<open>One logged event; \<open>attests\<close> are the attest instructions, matched by their order.\<close>

definition logRow ::
    "lib \<Rightarrow> wire_lib \<Rightarrow> row_at \<Rightarrow> executed_instruction list \<Rightarrow> bytes \<Rightarrow> decoded \<Rightarrow> decoded outcome" where
  "logRow L W at attests data d =
     (case identifyLateriteEvent data of
        Inl _ \<Rightarrow> Inr d
      | Inr kind \<Rightarrow>
          (case kind of
             EvAttested \<Rightarrow> res_bind (parseAttestedEvent L data) (\<lambda>e.
               res_bind (entry attests (int (length (dc_attestations d)))) (\<lambda>i.
               res_bind (attestAccounts L i) (\<lambda>accounts. Inr (pushAttestation W at e accounts d))))
           | EvEnrolled \<Rightarrow> res_bind (parseEnrolledEvent L data) (\<lambda>e.
               Inr (pushUser at Ue_Enrolled (ee_user e) (enrolledData e) d))
           | EvReactivated \<Rightarrow> res_bind (parseReactivatedEvent L data) (\<lambda>e.
               Inr (pushUser at Ue_Reactivated (ee_user e) (enrolledData e) d))
           | EvUserSettingsUpdated \<Rightarrow> res_bind (parseUserSettingsUpdatedEvent L data) (\<lambda>(u, params).
               Inr (pushUser at Ue_Settings_Updated u (JObject [(''params'', toJson W (enrollParamsValue params))]) d))
           | EvUserPaused \<Rightarrow> res_bind (parseUserPausedEvent L data) (\<lambda>(u, paused).
               Inr (pushUser at (if paused then Ue_Paused else Ue_Resumed) u (JObject []) d))
           | EvPendingLowered \<Rightarrow> res_bind (parsePendingLoweredEvent L data) (\<lambda>(u, pending).
               Inr (pushUser at Ue_Pending_Lowered u (JObject [(''pending'', JString (showInt pending))]) d))
           | EvTierChanged \<Rightarrow> res_bind (parseTierChangedEvent L data) (\<lambda>(u, tier).
               Inr (pushUser at Ue_Tier_Changed u (JObject [(''tier'', JNumber tier)]) d))
           | EvPaymentTokensChanged \<Rightarrow> res_bind (parsePaymentTokensChangedEvent L data) (\<lambda>(u, tokens).
               Inr (pushUser at Ue_Payment_Tokens_Changed u (JObject [(''paymentTokens'', JNumber tokens)]) d))
           | EvExited \<Rightarrow> res_bind (parseExitedEvent L data) (\<lambda>u. Inr (pushUser at Ue_Exited u (JObject []) d))
           | _ \<Rightarrow> Inr d))"

fun logRows ::
    "lib \<Rightarrow> wire_lib \<Rightarrow> row_at \<Rightarrow> executed_instruction list \<Rightarrow> bytes list \<Rightarrow> decoded \<Rightarrow> decoded outcome" where
  "logRows L W at attests [] d = Inr d"
| "logRows L W at attests (data # rest) d =
     res_bind (logRow L W at attests data d) (\<lambda>d. logRows L W at attests rest d)"

definition decodeTransaction :: "lib \<Rightarrow> wire_lib \<Rightarrow> string \<Rightarrow> fetched_transaction \<Rightarrow> decoded outcome" where
  "decodeTransaction L W signature t =
     (case (ft_meta t, ft_blockTime t) of
        (Some m, Some blockTime) \<Rightarrow>
          if tm_err m then Inr nothingDecoded
          else res_bind (executedInstructions W t) (\<lambda>(executed, keys).
               let at = \<lparr>at_blockTimeMs = blockTime * 1000, at_txSignature = signature, at_slot = ft_slot t\<rparr>
               in res_bind (sweepRows L at (keyAt keys 0) [] executed) (\<lambda>swept.
                  res_bind (res_map closedRecord (filter (\<lambda>i. isLaterite i IxCloseAttestation) executed)) (\<lambda>records.
                  res_bind (getLateriteLogEvents (base64Bytes W) (tm_logMessages m)) (\<lambda>events.
                  logRows L W at (filter (\<lambda>i. isLaterite i IxAttest) executed) events
                    \<lparr>dc_attestations = [],
                     dc_closes = map (\<lambda>r. \<lparr>cl_closedAtMs = blockTime * 1000, cl_closedSignature = signature, cl_record = r\<rparr>) records,
                     dc_sweeps = swept, dc_userEvents = []\<rparr>))))
      | _ \<Rightarrow> Inr nothingDecoded)"

end
