(* ===== verification/Paging.thy ===== *)
theory Paging
  imports Laterite_Prelude
begin

text \<open>
  Signatures read page by page: the documented behaviour of \<open>getSignaturesForAddress\<close> on a history kept
  newest first, older than \<open>before\<close>, down to \<open>until\<close>, at most 1,000 at a time. The indexer and the
  watcher both read this way.
\<close>

definition olderBy :: "('a \<Rightarrow> string) \<Rightarrow> 'a list \<Rightarrow> string option \<Rightarrow> 'a list" where
  "olderBy key chain before = (case before of None \<Rightarrow> chain | Some s \<Rightarrow> tl (dropWhile (\<lambda>x. key x \<noteq> s) chain))"

definition newerBy :: "('a \<Rightarrow> string) \<Rightarrow> 'a list \<Rightarrow> string option \<Rightarrow> 'a list" where
  "newerBy key chain until = (case until of None \<Rightarrow> chain | Some s \<Rightarrow> takeWhile (\<lambda>x. key x \<noteq> s) chain)"

definition servesBy :: "('a \<Rightarrow> string) \<Rightarrow> (string option \<Rightarrow> string option \<Rightarrow> 'e + 'a list) \<Rightarrow> 'a list \<Rightarrow> bool" where
  "servesBy key rpc chain = (\<forall>before until. rpc before until = Inr (take 1000 (newerBy key (olderBy key chain before) until)))"

lemma olderBy_append:
  "distinct (map key (xs @ x # ys)) \<Longrightarrow> olderBy key (xs @ x # ys) (Some (key x)) = ys"
proof -
  assume "distinct (map key (xs @ x # ys))"
  then have "key x \<notin> key ` set xs" by simp
  then have "\<forall>y \<in> set xs. key y \<noteq> key x" by (metis image_eqI)
  then show ?thesis by (simp add: olderBy_def dropWhile_append2)
qed

text \<open>\<open>rest\<close> is what is newer than the cursor and not read yet; \<open>acc\<close> has been read.\<close>

lemma page_read:
  assumes "servesBy key rpc chain" "distinct (map key chain)" "chain = acc @ rest @ old" "newerBy key (rest @ old) until = rest"
    "before = (if acc = [] then None else Some (key (last acc)))"
  shows "rpc before until = Inr (take 1000 rest)"
proof -
  have "olderBy key chain before = rest @ old"
  proof (cases acc rule: rev_cases)
    case Nil
    with assms(3,5) show ?thesis by (simp add: olderBy_def)
  next
    case (snoc ys y)
    with assms(3) have "chain = ys @ y # (rest @ old)" by simp
    with olderBy_append [of key ys y "rest @ old"] assms(2,5) snoc show ?thesis by simp
  qed
  with assms(1,4) show ?thesis by (simp add: servesBy_def)
qed

lemma newerBy_drop:
  assumes "newerBy key (rest @ old) until = rest"
  shows "newerBy key (drop n rest @ old) until = drop n rest"
proof (cases until)
  case (Some s)
  with assms have tw: "takeWhile (\<lambda>x. key x \<noteq> s) (rest @ old) = rest" by (simp add: newerBy_def)
  then have all: "\<forall>x \<in> set rest. key x \<noteq> s" by (metis set_takeWhileD)
  then have "takeWhile (\<lambda>x. key x \<noteq> s) (rest @ old) = rest @ takeWhile (\<lambda>x. key x \<noteq> s) old"
    by (simp add: takeWhile_append2)
  with tw have "takeWhile (\<lambda>x. key x \<noteq> s) old = []" by simp
  moreover have "\<forall>x \<in> set (drop n rest). key x \<noteq> s" using all by (meson in_set_dropD)
  ultimately show ?thesis by (simp add: newerBy_def Some takeWhile_append2)
next
  case None
  with assms show ?thesis by (simp add: newerBy_def)
qed

text \<open>Past a full page: what was read grows by it.\<close>

lemma page_next:
  assumes "chain = acc @ rest @ old" "newerBy key (rest @ old) until = rest" "1000 \<le> length rest"
  shows "chain = (acc @ take 1000 rest) @ drop 1000 rest @ old" "newerBy key (drop 1000 rest @ old) until = drop 1000 rest"
    "length (drop 1000 rest) < length rest" "take 1000 rest \<noteq> []" "last (acc @ take 1000 rest) = last (take 1000 rest)"
  using assms newerBy_drop [OF assms(2)] by (simp_all, auto simp: last_append)

lemma newerBy_cursor:
  assumes "distinct (map key (handled @ rest))"
  shows "newerBy key (rev (handled @ rest)) (map_option key (if handled = [] then None else Some (last handled))) = rev rest"
proof (cases "handled" rule: rev_cases)
  case (snoc ys y)
  with assms have "key y \<notin> key ` set rest" by auto
  then have "\<forall>x \<in> set (rev rest). key x \<noteq> key y" by (metis image_eqI set_rev)
  with snoc show ?thesis by (simp add: newerBy_def) (subst takeWhile_append2, auto)
qed (simp add: newerBy_def)

end
