(* ===== verification/Indexer.thy ===== *)
theory Indexer
  imports History Paging
begin

text \<open>
  The indexer (\<open>services/operator/src/indexer/indexer.ts\<close>): it pages through the program's finalized
  signatures since its cursor and stores each batch of transactions, with the cursor, in one database
  transaction. The lemmas refine the stored history to the decoding of the finalized chain's prefix up
  to the cursor.
\<close>

section \<open>Signatures, page by page\<close>

definition BATCH :: nat where "BATCH = 100"
definition ROWS_PER_INSERT :: nat where "ROWS_PER_INSERT = 1000"

type_synonym signature_at = "string \<times> int"

text \<open>\<open>getSignaturesForAddress\<close> by \<open>before\<close> and \<open>until\<close>, at most 1,000, newest first. The loop may run forever.\<close>

partial_function (option) pagesFrom ::
    "(string option \<Rightarrow> signature_at list outcome) \<Rightarrow> string option \<Rightarrow> signature_at list \<Rightarrow> signature_at list outcome option" where
  "pagesFrom rpc before newestFirst =
     (case rpc before of
        Inl e \<Rightarrow> Some (Inl e)
      | Inr page \<Rightarrow>
          if length page < 1000 then Some (Inr (rev (newestFirst @ page)))
          else pagesFrom rpc (Some (fst (last page))) (newestFirst @ page))"

definition signaturesSince ::
    "(string option \<Rightarrow> string option \<Rightarrow> signature_at list outcome) \<Rightarrow> string option \<Rightarrow> signature_at list outcome option" where
  "signaturesSince rpc until = pagesFrom (\<lambda>before. rpc before until) None []"

section \<open>Storing\<close>

text \<open>A double is its 64 bits; 1 is \<open>0x3FF0000000000000\<close>.\<close>

type_synonym double_bits = "64 word"

record scaled_config =
  sc_multiplier :: double_bits
  sc_newMultiplier :: double_bits
  sc_effectiveTimestamp :: int

definition scaledUiAmountMultiplier :: "scaled_config option \<Rightarrow> int \<Rightarrow> double_bits" where
  "scaledUiAmountMultiplier mint timestamp =
     (case mint of
        None \<Rightarrow> 0x3FF0000000000000
      | Some c \<Rightarrow> if timestamp \<ge> sc_effectiveTimestamp c then sc_newMultiplier c else sc_multiplier c)"

record history =
  hi_sweeps :: "(sweep_row \<times> double_bits) list"
  hi_attestations :: "attestation_row list"
  hi_userEvents :: "user_event_row list"
  hi_cursor :: "signature_at option"

definition emptyHistory :: history where
  "emptyHistory = \<lparr>hi_sweeps = [], hi_attestations = [], hi_userEvents = [], hi_cursor = None\<rparr>"

definition sweepKey :: "sweep_row \<Rightarrow> string \<times> nat" where
  "sweepKey r = (at_txSignature (sr_at r), sr_eventIndex r)"

definition attestationKey :: "attestation_row \<Rightarrow> string \<times> nat" where
  "attestationKey r = (at_txSignature (ar_at r), ar_eventIndex r)"

definition userEventKey :: "user_event_row \<Rightarrow> string \<times> nat" where
  "userEventKey r = (at_txSignature (ur_at r), ur_eventIndex r)"

text \<open>\<open>onConflictDoNothing\<close> on the primary key, in inserts of at most \<open>n\<close> rows.\<close>

definition insertRow :: "('r \<Rightarrow> 'k) \<Rightarrow> 'r list \<Rightarrow> 'r \<Rightarrow> 'r list" where
  "insertRow key table r = (if key r \<in> key ` set table then table else table @ [r])"

function chunksOf :: "nat \<Rightarrow> 'r list \<Rightarrow> 'r list list" where
  "chunksOf n rows = (if rows = [] \<or> n = 0 then [] else take n rows # chunksOf n (drop n rows))"
  by auto
termination by (relation "measure (\<lambda>(n, rows). length rows)") auto

declare chunksOf.simps [simp del]

definition insertRows :: "('r \<Rightarrow> 'k) \<Rightarrow> 'r list \<Rightarrow> 'r list \<Rightarrow> 'r list" where
  "insertRows key table rows = foldl (foldl (insertRow key)) table (chunksOf ROWS_PER_INSERT rows)"

definition closeRecord :: "attestation_row list \<Rightarrow> close_row \<Rightarrow> attestation_row list" where
  "closeRecord rows c =
     map (\<lambda>r. if ar_record r = cl_record c \<and> ar_closed r = None
              then r\<lparr>ar_closed := Some (cl_closedAtMs c, cl_closedSignature c)\<rparr> else r) rows"

definition appendDecoded :: "decoded \<Rightarrow> decoded \<Rightarrow> decoded" where
  "appendDecoded d e =
     \<lparr>dc_attestations = dc_attestations d @ dc_attestations e, dc_closes = dc_closes d @ dc_closes e,
      dc_sweeps = dc_sweeps d @ dc_sweeps e, dc_userEvents = dc_userEvents d @ dc_userEvents e\<rparr>"

record indexer_env =
  ie_signatures :: "string option \<Rightarrow> string option \<Rightarrow> signature_at list outcome"
  ie_transaction :: "string \<Rightarrow> fetched_transaction option outcome"
  ie_mints :: "scaled_config option list outcome"

definition withMultipliers :: "indexer_env \<Rightarrow> sweep_row list \<Rightarrow> (sweep_row \<times> double_bits) list outcome" where
  "withMultipliers env rows =
     (if rows = [] then Inr []
      else res_bind (ie_mints env) (\<lambda>mints.
           res_map (\<lambda>row. res_bind (entry mints (sw_asset (sr_event row))) (\<lambda>mint.
             Inr (row, scaledUiAmountMultiplier mint (at_blockTimeMs (sr_at row) div 1000)))) rows))"

definition decodeFetched :: "lib \<Rightarrow> wire_lib \<Rightarrow> signature_at \<times> fetched_transaction option \<Rightarrow> decoded outcome" where
  "decodeFetched L W = (\<lambda>(s, found).
     case found of
       None \<Rightarrow> Inl (PlainError (''Finalized transaction '' @ fst s @ '' is not available yet''))
     | Some t \<Rightarrow> decodeTransaction L W (fst s) t)"

text \<open>Every transaction of the batch is fetched before the first is decoded.\<close>

definition decodeBatch :: "lib \<Rightarrow> wire_lib \<Rightarrow> indexer_env \<Rightarrow> signature_at list \<Rightarrow> decoded list outcome" where
  "decodeBatch L W env batch =
     res_bind (res_map (\<lambda>s. ie_transaction env (fst s)) batch) (\<lambda>fetched.
     res_map (decodeFetched L W) (zip batch fetched))"

definition storeDecoded :: "decoded \<Rightarrow> (sweep_row \<times> double_bits) list \<Rightarrow> signature_at \<Rightarrow> history \<Rightarrow> history" where
  "storeDecoded d swept newest st =
     \<lparr>hi_sweeps = insertRows (sweepKey \<circ> fst) (hi_sweeps st) swept,
      hi_attestations = foldl closeRecord (insertRows attestationKey (hi_attestations st) (dc_attestations d)) (dc_closes d),
      hi_userEvents = insertRows userEventKey (hi_userEvents st) (dc_userEvents d),
      hi_cursor = Some newest\<rparr>"

definition store :: "lib \<Rightarrow> wire_lib \<Rightarrow> indexer_env \<Rightarrow> signature_at list \<Rightarrow> history \<Rightarrow> history outcome" where
  "store L W env batch st =
     res_bind (decodeBatch L W env batch) (\<lambda>rows.
     let d = foldl appendDecoded nothingDecoded rows
     in res_bind (withMultipliers env (dc_sweeps d)) (\<lambda>swept.
        Inr (storeDecoded d swept (last batch) st)))"

text \<open>The batches in turn; an error keeps what the batches before it stored.\<close>

fun storeAll :: "lib \<Rightarrow> wire_lib \<Rightarrow> indexer_env \<Rightarrow> signature_at list list \<Rightarrow> history \<Rightarrow> js_error option \<times> history" where
  "storeAll L W env [] st = (None, st)"
| "storeAll L W env (batch # batches) st =
     (case store L W env batch st of
        Inl e \<Rightarrow> (Some e, st)
      | Inr st' \<Rightarrow> storeAll L W env batches st')"

definition poll :: "lib \<Rightarrow> wire_lib \<Rightarrow> indexer_env \<Rightarrow> history \<Rightarrow> (js_error option \<times> history) option" where
  "poll L W env st =
     map_option (\<lambda>pending. case pending of Inl e \<Rightarrow> (Some e, st) | Inr sigs \<Rightarrow> storeAll L W env (chunksOf BATCH sigs) st)
       (signaturesSince (ie_signatures env) (map_option fst (hi_cursor st)))"

section \<open>Paging reads everything since the cursor\<close>

text \<open>\<open>rest\<close> are the signatures newer than the cursor; \<open>acc\<close> have been read.\<close>

lemma pagesFrom_reads:
  assumes "servesBy fst rpc chain" "distinct (map fst chain)" "chain = acc @ rest @ old" "newerBy fst (rest @ old) until = rest"
    "before = (if acc = [] then None else Some (fst (last acc)))"
  shows "pagesFrom (\<lambda>b. rpc b until) before acc = Some (Inr (rev (acc @ rest)))"
  using assms(3-5)
proof (induction "length rest" arbitrary: acc rest before rule: less_induct)
  case less
  note page = page_read [OF assms(1,2) less.prems]
  show ?case
  proof (cases "length rest < 1000")
    case True
    with page show ?thesis by (subst pagesFrom.simps) simp
  next
    case False
    then have "1000 \<le> length rest" by simp
    note more = page_next [OF less.prems(1,2) this]
    from less.hyps [OF more(3,1,2) refl] more(4,5)
    have "pagesFrom (\<lambda>b. rpc b until) (Some (fst (last (take 1000 rest)))) (acc @ take 1000 rest)
        = Some (Inr (rev (acc @ rest)))" by simp
    with page False show ?thesis by (subst pagesFrom.simps) simp
  qed
qed

lemma signaturesSince_reads:
  assumes "servesBy fst rpc chain" "distinct (map fst chain)" "chain = rest @ old" "newerBy fst chain until = rest"
  shows "signaturesSince rpc until = Some (Inr (rev rest))"
  using pagesFrom_reads [OF assms(1,2), of "[]" rest old until None] assms(3,4) by (simp add: signaturesSince_def)

section \<open>Rows are keyed by signature\<close>

lemma concat_chunksOf: "0 < n \<Longrightarrow> concat (chunksOf n rows) = rows"
proof (induction n rows rule: chunksOf.induct)
  case (1 n rows)
  then show ?case by (subst chunksOf.simps) simp
qed

lemma chunksOf_nonempty: "chunk \<in> set (chunksOf n rows) \<Longrightarrow> chunk \<noteq> []"
proof (induction n rows rule: chunksOf.induct)
  case (1 n rows)
  show ?case
  proof (cases "rows = [] \<or> n = 0")
    case False
    with "1.prems" have "chunk = take n rows \<or> chunk \<in> set (chunksOf n (drop n rows))" by (subst (asm) chunksOf.simps) auto
    with False "1.IH" show ?thesis by auto
  qed (use "1.prems" in \<open>subst (asm) chunksOf.simps, simp\<close>)
qed

lemma foldl_concat: "foldl (foldl f) t xss = foldl f t (concat xss)"
  by (induction xss arbitrary: t) simp_all

lemma insertRows_foldl: "insertRows key table rows = foldl (insertRow key) table rows"
  by (simp add: insertRows_def foldl_concat concat_chunksOf ROWS_PER_INSERT_def)

lemma insertRows_new:
  assumes "distinct (map key rows)" "key ` set rows \<inter> key ` set table = {}"
  shows "insertRows key table rows = table @ rows"
proof -
  have "foldl (insertRow key) table rows = table @ rows"
    using assms by (induction rows arbitrary: table) (auto simp: insertRow_def)
  then show ?thesis by (simp add: insertRows_foldl)
qed

lemma insertRows_old:
  assumes "key ` set rows \<subseteq> key ` set table"
  shows "insertRows key table rows = table"
proof -
  have "foldl (insertRow key) table rows = table"
    using assms by (induction rows) (auto simp: insertRow_def)
  then show ?thesis by (simp add: insertRows_foldl)
qed

lemma insertRows_keys: "key ` set (insertRows key table rows) = key ` set table \<union> key ` set rows"
proof -
  have "key ` set (foldl (insertRow key) table rows) = key ` set table \<union> key ` set rows"
    by (induction rows arbitrary: table) (auto simp: insertRow_def)
  then show ?thesis by (simp add: insertRows_foldl)
qed

text \<open>A transaction's rows have its signature and are numbered from 0 in each table.\<close>

definition keyed :: "string \<Rightarrow> decoded \<Rightarrow> bool" where
  "keyed s d =
     (map sweepKey (dc_sweeps d) = map (Pair s) [0..<length (dc_sweeps d)]
      \<and> map attestationKey (dc_attestations d) = map (Pair s) [0..<length (dc_attestations d)]
      \<and> map userEventKey (dc_userEvents d) = map (Pair s) [0..<length (dc_userEvents d)]
      \<and> (\<forall>r \<in> set (dc_attestations d). ar_closed r = None))"

lemma sweepRows_keyed:
  "sweepRows L at p rows is = Inr rows' \<Longrightarrow> map sweepKey rows = map (Pair (at_txSignature at)) [0..<length rows]
   \<Longrightarrow> map sweepKey rows' = map (Pair (at_txSignature at)) [0..<length rows']"
proof (induction L at p rows "is" rule: sweepRows.induct)
  case (2 L at p rows i js)
  show ?case
  proof (cases "getLateriteEventData i")
    case None
    with 2 show ?thesis by simp
  next
    case (Some data)
    show ?thesis
    proof (cases "containsBytesAt0 data SWEPT_EVENT_DISCRIMINATOR")
      case True
      with "2.prems"(1) Some obtain e where
        "sweepRows L at p (rows @ [\<lparr>sr_at = at, sr_event = e, sr_eventIndex = length rows, sr_feePayer = p\<rparr>]) js = Inr rows'"
        by (auto simp: result_simps)
      with "2.IH"(2) [OF Some True] "2.prems"(2) show ?thesis by (simp add: sweepKey_def)
    next
      case False
      with "2.IH"(3) [OF Some] "2.prems" Some show ?thesis by simp
    qed
  qed
qed simp

lemma push_keyed:
  "keyed (at_txSignature at) d \<Longrightarrow> keyed (at_txSignature at) (pushUser at kind address data d)"
  "keyed (at_txSignature at) d \<Longrightarrow> keyed (at_txSignature at) (pushAttestation W at e accounts d)"
  by (simp_all add: keyed_def pushUser_def pushAttestation_def userEventKey_def attestationKey_def Let_def)

lemma logRow_keyed:
  assumes "logRow L W at attests data d = Inr d'" "keyed (at_txSignature at) d"
  shows "keyed (at_txSignature at) d'"
proof (cases "identifyLateriteEvent data")
  case (Inr kind)
  with assms show ?thesis by (cases kind) (auto simp: logRow_def result_simps intro: push_keyed)
qed (use assms in \<open>simp add: logRow_def\<close>)

lemma logRows_keyed:
  "logRows L W at attests events d = Inr d' \<Longrightarrow> keyed (at_txSignature at) d \<Longrightarrow> keyed (at_txSignature at) d'"
  by (induction L W at attests events d rule: logRows.induct) (auto simp: result_simps intro: logRow_keyed)

lemma decodeTransaction_keyed:
  assumes "decodeTransaction L W s t = Inr d"
  shows "keyed s d"
proof -
  have none_keyed: "keyed s nothingDecoded" by (simp add: keyed_def nothingDecoded_def)
  show ?thesis
  proof (cases "ft_meta t"; cases "ft_blockTime t")
    fix m blockTime
    assume mb: "ft_meta t = Some m" "ft_blockTime t = Some blockTime"
    show ?thesis
    proof (cases "tm_err m")
      case False
      with assms mb obtain executed keys swept records events where
        "sweepRows L \<lparr>at_blockTimeMs = blockTime * 1000, at_txSignature = s, at_slot = ft_slot t\<rparr> (keyAt keys 0) [] executed = Inr swept"
        "logRows L W \<lparr>at_blockTimeMs = blockTime * 1000, at_txSignature = s, at_slot = ft_slot t\<rparr>
           (filter (\<lambda>i. isLaterite i IxAttest) executed) events
           \<lparr>dc_attestations = [], dc_closes = map (\<lambda>r. \<lparr>cl_closedAtMs = blockTime * 1000, cl_closedSignature = s, cl_record = r\<rparr>) records,
            dc_sweeps = swept, dc_userEvents = []\<rparr> = Inr d"
        by (auto simp: decodeTransaction_def result_simps Let_def)
      with sweepRows_keyed [OF this(1)] logRows_keyed [OF this(2)] show ?thesis by (simp add: keyed_def)
    next
      case True
      with assms mb have "d = nothingDecoded" by (simp add: decodeTransaction_def)
      then show ?thesis by (simp only: none_keyed)
    qed
  qed (use assms none_keyed in \<open>auto simp: decodeTransaction_def\<close>)
qed

section \<open>Refinement: the history of the chain's prefix\<close>

text \<open>What a finalized transaction adds; one that cannot be decoded adds nothing and is never stored.\<close>

definition chainDecoded :: "lib \<Rightarrow> wire_lib \<Rightarrow> (string \<Rightarrow> fetched_transaction) \<Rightarrow> signature_at \<Rightarrow> decoded" where
  "chainDecoded L W txs s =
     (case decodeTransaction L W (fst s) (txs (fst s)) of Inr d \<Rightarrow> d | Inl _ \<Rightarrow> nothingDecoded)"

lemma chainDecoded_keyed: "keyed (fst s) (chainDecoded L W txs s)"
proof (cases "decodeTransaction L W (fst s) (txs (fst s))")
  case (Inr d)
  then show ?thesis using decodeTransaction_keyed [OF Inr] by (simp add: chainDecoded_def)
qed (simp add: chainDecoded_def keyed_def nothingDecoded_def)

text \<open>The abstract history: the tables are the rows of the signatures stored, in order, and the cursor the last.\<close>

definition represents :: "(signature_at \<Rightarrow> decoded) \<Rightarrow> signature_at list \<Rightarrow> history \<Rightarrow> bool" where
  "represents dec sigs st =
     (map fst (hi_sweeps st) = concat (map (dc_sweeps \<circ> dec) sigs)
      \<and> map (\<lambda>r. r\<lparr>ar_closed := None\<rparr>) (hi_attestations st) = concat (map (dc_attestations \<circ> dec) sigs)
      \<and> hi_userEvents st = concat (map (dc_userEvents \<circ> dec) sigs)
      \<and> hi_cursor st = (if sigs = [] then None else Some (last sigs)))"

lemma keys_of:
  assumes "map key (f (dec s)) = map (Pair (fst s)) [0..<n]"
  shows "distinct (map key (f (dec s)))" "fst ` key ` set (f (dec s)) \<subseteq> {fst s}"
proof -
  show "distinct (map key (f (dec s)))" unfolding assms by (simp add: distinct_map inj_on_def)
  have "key ` set (f (dec s)) = set (map (Pair (fst s)) [0..<n])" by (metis assms set_map)
  then show "fst ` key ` set (f (dec s)) \<subseteq> {fst s}" by auto
qed

lemma keys_concat:
  assumes "\<And>s. map key (f (dec s)) = map (Pair (fst s)) [0..<length (f (dec s))]" "distinct (map fst sigs)"
  shows "distinct (map key (concat (map (f \<circ> dec) sigs)))"
    "fst ` key ` set (concat (map (f \<circ> dec) sigs)) \<subseteq> fst ` set sigs"
proof -
  note k = keys_of [of key f dec, OF assms(1)]
  show sub: "fst ` key ` set (concat (map (f \<circ> dec) sigs)) \<subseteq> fst ` set sigs" for sigs
  proof
    fix u assume "u \<in> fst ` key ` set (concat (map (f \<circ> dec) sigs))"
    then obtain s r where s: "s \<in> set sigs" "r \<in> set (f (dec s))" "u = fst (key r)" by auto
    with k(2) [of s] have "u = fst s" by auto
    with s(1) show "u \<in> fst ` set sigs" by simp
  qed
  show "distinct (map key (concat (map (f \<circ> dec) sigs)))"
    using assms(2)
  proof (induction sigs)
    case (Cons s sigs)
    have "fst s \<notin> fst ` key ` set (concat (map (f \<circ> dec) sigs))" using sub [of sigs] Cons.prems by auto
    moreover have "fst x = fst s" if "x \<in> key ` set (f (dec s))" for x using k(2) [of s] that by auto
    ultimately have "key ` set (f (dec s)) \<inter> key ` set (concat (map (f \<circ> dec) sigs)) = {}"
      by (metis (no_types, lifting) disjoint_iff image_eqI)
    with k(1) [of s] Cons show ?case by simp
  qed simp
qed

lemma insert_prefix:
  assumes "\<And>s. map key (f (dec s)) = map (Pair (fst s)) [0..<length (f (dec s))]" "distinct (map fst (sigs @ batch))"
    "key ` set table = key ` set (concat (map (f \<circ> dec) sigs))"
  shows "insertRows key table (concat (map (f \<circ> dec) batch)) = table @ concat (map (f \<circ> dec) batch)"
proof (rule insertRows_new)
  show "distinct (map key (concat (map (f \<circ> dec) batch)))" using keys_concat(1) [where key = key and f = f and dec = dec, OF assms(1)] assms(2) by simp
  have "fst ` key ` set (concat (map (f \<circ> dec) batch)) \<subseteq> fst ` set batch"
    "fst ` key ` set (concat (map (f \<circ> dec) sigs)) \<subseteq> fst ` set sigs"
    using keys_concat(2) [where key = key and f = f and dec = dec, OF assms(1)] assms(2) by simp_all
  moreover have "fst ` set batch \<inter> fst ` set sigs = {}" using assms(2) by auto
  ultimately show "key ` set (concat (map (f \<circ> dec) batch)) \<inter> key ` set table = {}"
    unfolding assms(3) by blast
qed

lemma closeRecord_forgets:
  "map (\<lambda>r. r\<lparr>ar_closed := None\<rparr>) (closeRecord rows c) = map (\<lambda>r. r\<lparr>ar_closed := None\<rparr>) rows"
  "map attestationKey (closeRecord rows c) = map attestationKey rows"
  by (simp_all add: closeRecord_def attestationKey_def)

lemma closeRecord_keys: "attestationKey ` set (closeRecord rows c) = attestationKey ` set rows"
  by (metis closeRecord_forgets(2) set_map)

text \<open>A record is closed once: a close after another of the same record, or the same again, changes nothing.\<close>

definition settled :: "attestation_row list \<Rightarrow> string \<Rightarrow> bool" where
  "settled rows record = (\<forall>r \<in> set rows. ar_record r = record \<longrightarrow> ar_closed r \<noteq> None)"

lemma closeRecord_settled:
  "settled (closeRecord rows c) (cl_record c)"
  "settled rows record \<Longrightarrow> settled (closeRecord rows c) record"
  by (auto simp: closeRecord_def settled_def)

lemma closeRecord_idle: "settled rows (cl_record c) \<Longrightarrow> closeRecord rows c = rows"
  by (auto simp: closeRecord_def settled_def intro!: map_idI)

lemma closes_settled:
  "settled rows record \<or> record \<in> cl_record ` set cs \<Longrightarrow> settled (foldl closeRecord rows cs) record"
  by (induction cs arbitrary: rows) (auto simp: closeRecord_settled)

lemma closes_again: "foldl closeRecord (foldl closeRecord rows cs) cs = foldl closeRecord rows cs"
proof -
  have "foldl closeRecord t ds = t" if "\<forall>d \<in> set ds. settled t (cl_record d)" for t ds
    using that by (induction ds) (simp_all add: closeRecord_idle)
  then show ?thesis by (simp add: closes_settled)
qed

lemma closes_forget:
  "map (\<lambda>r. r\<lparr>ar_closed := None\<rparr>) (foldl closeRecord rows cs) = map (\<lambda>r. r\<lparr>ar_closed := None\<rparr>) rows"
  by (induction cs arbitrary: rows) (simp_all add: closeRecord_forgets)

lemma appendDecoded_fold:
  "dc_sweeps (foldl appendDecoded d ds) = dc_sweeps d @ concat (map dc_sweeps ds)"
  "dc_attestations (foldl appendDecoded d ds) = dc_attestations d @ concat (map dc_attestations ds)"
  "dc_userEvents (foldl appendDecoded d ds) = dc_userEvents d @ concat (map dc_userEvents ds)"
  by (induction ds arbitrary: d) (simp_all add: appendDecoded_def)

lemma withMultipliers_fst: "withMultipliers env rows = Inr swept \<Longrightarrow> map fst swept = rows"
proof -
  have "res_map (\<lambda>row. res_bind (entry mints (sw_asset (sr_event row))) (\<lambda>mint.
           Inr (row, scaledUiAmountMultiplier mint (at_blockTimeMs (sr_at row) div 1000)))) rows = Inr swept
        \<Longrightarrow> map fst swept = rows" for mints rows swept
    by (induction rows arbitrary: swept) (auto simp: result_simps)
  then show "withMultipliers env rows = Inr swept \<Longrightarrow> map fst swept = rows"
    by (auto simp: withMultipliers_def result_simps split: if_splits)
qed

lemma insertRows_fst:
  "map fst (insertRows (key \<circ> fst) table rows) = insertRows key (map fst table) (map fst rows)"
proof -
  have "map fst (foldl (insertRow (key \<circ> fst)) table rows) = foldl (insertRow key) (map fst table) (map fst rows)"
    by (induction rows arbitrary: table) (auto simp: insertRow_def image_comp)
  then show ?thesis by (simp add: insertRows_foldl)
qed

text \<open>The RPC answers with the chain's transactions, when it answers.\<close>

definition finalized :: "(string \<Rightarrow> fetched_transaction) \<Rightarrow> indexer_env \<Rightarrow> bool" where
  "finalized txs env = (\<forall>s t. ie_transaction env s = Inr (Some t) \<longrightarrow> t = txs s)"

lemma decodeBatch_chain:
  assumes "finalized txs env" "decodeBatch L W env batch = Inr rows"
  shows "rows = map (chainDecoded L W txs) batch"
proof -
  have "res_map (\<lambda>s. ie_transaction env (fst s)) batch = Inr fetched \<Longrightarrow> res_map (decodeFetched L W) (zip batch fetched) = Inr rows
        \<Longrightarrow> rows = map (chainDecoded L W txs) batch" for fetched
  proof (induction batch arbitrary: fetched rows)
    case (Cons s batch)
    then obtain found fetched' d rows' where
      "ie_transaction env (fst s) = Inr found" "fetched = found # fetched'" "res_map (\<lambda>s. ie_transaction env (fst s)) batch = Inr fetched'"
      "decodeFetched L W (s, found) = Inr d" "rows = d # rows'" "res_map (decodeFetched L W) (zip batch fetched') = Inr rows'"
      by (auto simp: result_simps)
    with Cons.IH assms(1) show ?case
      by (auto simp: decodeFetched_def finalized_def chainDecoded_def split: option.splits)
  qed simp
  with assms(2) show ?thesis by (auto simp: decodeBatch_def result_simps)
qed

lemma store_represents:
  assumes "finalized txs env" "represents (chainDecoded L W txs) sigs st" "distinct (map fst (sigs @ batch))" "batch \<noteq> []"
    "store L W env batch st = Inr st'"
  shows "represents (chainDecoded L W txs) (sigs @ batch) st'"
proof -
  let ?dec = "chainDecoded L W txs"
  have k: "map sweepKey (dc_sweeps (?dec s)) = map (Pair (fst s)) [0..<length (dc_sweeps (?dec s))]"
    "map attestationKey (dc_attestations (?dec s)) = map (Pair (fst s)) [0..<length (dc_attestations (?dec s))]"
    "map userEventKey (dc_userEvents (?dec s)) = map (Pair (fst s)) [0..<length (dc_userEvents (?dec s))]" for s
    using chainDecoded_keyed [of s L W txs] by (simp_all add: keyed_def)
  from assms(5) obtain rows swept where rows: "decodeBatch L W env batch = Inr rows"
    "withMultipliers env (dc_sweeps (foldl appendDecoded nothingDecoded rows)) = Inr swept"
    "st' = storeDecoded (foldl appendDecoded nothingDecoded rows) swept (last batch) st"
    by (auto simp: store_def result_simps Let_def)
  note dec = decodeBatch_chain [OF assms(1) rows(1)]
  have tables: "dc_sweeps (foldl appendDecoded nothingDecoded rows) = concat (map (dc_sweeps \<circ> ?dec) batch)"
    "dc_attestations (foldl appendDecoded nothingDecoded rows) = concat (map (dc_attestations \<circ> ?dec) batch)"
    "dc_userEvents (foldl appendDecoded nothingDecoded rows) = concat (map (dc_userEvents \<circ> ?dec) batch)"
    by (simp_all add: appendDecoded_fold dec nothingDecoded_def)
  note st = assms(2) [unfolded represents_def]
  have "insertRows sweepKey (map fst (hi_sweeps st)) (concat (map (dc_sweeps \<circ> ?dec) batch))
      = map fst (hi_sweeps st) @ concat (map (dc_sweeps \<circ> ?dec) batch)"
    using st by (intro insert_prefix [where f = dc_sweeps and dec = ?dec, OF k(1) assms(3)]) simp
  then have "map fst (hi_sweeps st') = concat (map (dc_sweeps \<circ> ?dec) (sigs @ batch))"
    using st withMultipliers_fst [OF rows(2)] by (simp add: rows(3) storeDecoded_def insertRows_fst tables)
  moreover have "attestationKey ` set (hi_attestations st) = attestationKey ` set (concat (map (dc_attestations \<circ> ?dec) sigs))"
  proof -
    have "attestationKey ` set (map (\<lambda>r. r\<lparr>ar_closed := None\<rparr>) (hi_attestations st)) = attestationKey ` set (hi_attestations st)"
      by (simp add: image_image attestationKey_def)
    with st show ?thesis by simp
  qed
  then have "insertRows attestationKey (hi_attestations st) (concat (map (dc_attestations \<circ> ?dec) batch))
      = hi_attestations st @ concat (map (dc_attestations \<circ> ?dec) batch)"
    by (rule insert_prefix [where f = dc_attestations and dec = ?dec, OF k(2) assms(3)])
  moreover have "map (\<lambda>r. r\<lparr>ar_closed := None\<rparr>) (dc_attestations (?dec s)) = dc_attestations (?dec s)" for s
    using chainDecoded_keyed [of s L W txs] by (intro map_idI) (auto simp: keyed_def)
  then have "map (\<lambda>r. r\<lparr>ar_closed := None\<rparr>) (concat (map (dc_attestations \<circ> ?dec) batch)) = concat (map (dc_attestations \<circ> ?dec) batch)"
    by (induction batch) simp_all
  moreover have "insertRows userEventKey (hi_userEvents st) (concat (map (dc_userEvents \<circ> ?dec) batch))
      = hi_userEvents st @ concat (map (dc_userEvents \<circ> ?dec) batch)"
    using st by (intro insert_prefix [where f = dc_userEvents and dec = ?dec, OF k(3) assms(3)]) simp
  ultimately show ?thesis
    using st assms(4) by (simp add: represents_def rows(3) storeDecoded_def tables closes_forget)
qed

lemma storeAll_represents:
  assumes "finalized txs env" "represents (chainDecoded L W txs) sigs st"
    "distinct (map fst (sigs @ concat batches))" "\<forall>b \<in> set batches. b \<noteq> []" "storeAll L W env batches st = (e, st')"
  shows "\<exists>stored rest. concat batches = stored @ rest \<and> represents (chainDecoded L W txs) (sigs @ stored) st'
    \<and> (e = None \<longrightarrow> rest = [])"
  using assms(2-5)
proof (induction batches arbitrary: sigs st)
  case (Cons b bs)
  show ?case
  proof (cases "store L W env b st")
    case (Inl err)
    with Cons.prems(4) have "e = Some err" "st' = st" by simp_all
    with Cons.prems(1) show ?thesis by (intro exI [of _ "[]"] exI [of _ "concat (b # bs)"]) simp
  next
    case (Inr st1)
    have "distinct (map fst (sigs @ b))" "b \<noteq> []" using Cons.prems(2,3) by auto
    then have "represents (chainDecoded L W txs) (sigs @ b) st1"
      by (rule store_represents [OF assms(1) Cons.prems(1) _ _ Inr])
    from Cons.IH [OF this] Cons.prems Inr obtain stored rest where
      "concat bs = stored @ rest" "represents (chainDecoded L W txs) ((sigs @ b) @ stored) st'" "e = None \<longrightarrow> rest = []" by auto
    then show ?thesis by (intro exI [of _ "b @ stored"] exI [of _ rest]) simp
  qed
qed (auto intro: exI [of _ "[]"])

text \<open>
  C4: Indexing is exact. When the stored history is that of the finalized chain up to the cursor, a
  poll always ends, and afterwards it is that of a longer prefix, up to the new cursor, of the
  whole chain if nothing failed: no transaction is skipped, repeated or stored out of order, wherever
  an error interrupts the poll.
\<close>

theorem poll_refines_chain:
  assumes "finalized txs env" "servesBy fst (ie_signatures env) (rev (sigs @ rest))" "distinct (map fst (sigs @ rest))"
    "represents (chainDecoded L W txs) sigs st"
  shows "\<exists>e st' stored left. poll L W env st = Some (e, st') \<and> rest = stored @ left
    \<and> represents (chainDecoded L W txs) (sigs @ stored) st' \<and> (e = None \<longrightarrow> left = [])"
proof -
  have "signaturesSince (ie_signatures env) (map_option fst (hi_cursor st)) = Some (Inr (rev (rev rest)))"
  proof (rule signaturesSince_reads [OF assms(2)])
    show "distinct (map fst (rev (sigs @ rest)))" using assms(3) by (simp add: rev_map [symmetric] Int_commute)
    show "newerBy fst (rev (sigs @ rest)) (map_option fst (hi_cursor st)) = rev rest"
      using newerBy_cursor [OF assms(3)] assms(4) by (simp add: represents_def)
  qed simp
  moreover have ne: "\<forall>b \<in> set (chunksOf BATCH rest). b \<noteq> []" using chunksOf_nonempty by blast
  moreover obtain e st' where all: "storeAll L W env (chunksOf BATCH rest) st = (e, st')" by force
  moreover have "concat (chunksOf BATCH rest) = rest" by (rule concat_chunksOf) (simp add: BATCH_def)
  moreover from this have "\<exists>stored left. rest = stored @ left
      \<and> represents (chainDecoded L W txs) (sigs @ stored) st' \<and> (e = None \<longrightarrow> left = [])"
    using storeAll_represents [OF assms(1,4) _ ne all] assms(3) by simp
  ultimately show ?thesis by (auto simp: poll_def)
qed

section \<open>A poll of a demonstration chain\<close>

definition demoChain :: "signature_at list" where
  "demoChain = [(''SIG1'', 10), (''SIG2'', 11), (''SIG3'', 12)]"

definition demoIndexer :: indexer_env where
  "demoIndexer = \<lparr>ie_signatures = (\<lambda>before until. Inr (take 1000 (newerBy fst (olderBy fst (rev demoChain) before) until))),
     ie_transaction = (\<lambda>s. Inr (Some demoTransaction)), ie_mints = Inr [None, None]\<rparr>"

lemma represents_empty: "represents dec [] emptyHistory"
  by (simp add: represents_def emptyHistory_def)

theorem poll_refines_chain_witness:
  "\<exists>e st' stored left. poll demoLib demoWire demoIndexer emptyHistory = Some (e, st')
     \<and> demoChain = stored @ left \<and> represents (chainDecoded demoLib demoWire (\<lambda>_. demoTransaction)) ([] @ stored) st'
     \<and> (e = None \<longrightarrow> left = [])"
proof (rule poll_refines_chain)
  show "finalized (\<lambda>_. demoTransaction) demoIndexer" by (simp add: finalized_def demoIndexer_def)
  show "servesBy fst (ie_signatures demoIndexer) (rev ([] @ demoChain))" by (simp add: servesBy_def demoIndexer_def)
  show "distinct (map fst ([] @ demoChain))" by (simp add: demoChain_def)
qed (rule represents_empty)

text \<open>
  The history is idempotent. Storing a batch of transactions whose rows the tables already have, as
  after a crash between the commit and its acknowledgement, changes no table and only sets the cursor.
\<close>

theorem store_idempotent:
  assumes "store L W env batch st = Inr st1" "store L W env batch st1 = Inr st2"
  shows "st2 = st1"
proof -
  from assms(1) obtain rows swept where 1: "decodeBatch L W env batch = Inr rows"
    "withMultipliers env (dc_sweeps (foldl appendDecoded nothingDecoded rows)) = Inr swept"
    "st1 = storeDecoded (foldl appendDecoded nothingDecoded rows) swept (last batch) st"
    by (auto simp: store_def result_simps Let_def)
  let ?d = "foldl appendDecoded nothingDecoded rows"
  have st2: "st2 = storeDecoded ?d swept (last batch) st1"
    using assms(2) 1(1,2) by (simp add: store_def result_simps Let_def)
  have keys: "attestationKey ` set (foldl closeRecord t cs) = attestationKey ` set t" for t cs
    by (induction cs arbitrary: t) (simp_all add: closeRecord_keys)
  have sweeps: "hi_sweeps st2 = hi_sweeps st1"
    unfolding st2 1(3) storeDecoded_def by (simp add: insertRows_old insertRows_keys del: o_apply)
  have events: "hi_userEvents st2 = hi_userEvents st1"
    unfolding st2 1(3) storeDecoded_def by (simp add: insertRows_old insertRows_keys)
  have "insertRows attestationKey (hi_attestations st1) (dc_attestations ?d) = hi_attestations st1"
    unfolding 1(3) storeDecoded_def by (rule insertRows_old) (simp add: keys insertRows_keys)
  moreover have "foldl closeRecord (hi_attestations st1) (dc_closes ?d) = hi_attestations st1"
    unfolding 1(3) storeDecoded_def by (simp add: closes_again)
  ultimately have "hi_attestations st2 = hi_attestations st1" unfolding st2 storeDecoded_def by simp
  with sweeps events show ?thesis by (simp add: st2 1(3) storeDecoded_def)
qed

text \<open>A transaction that sweeps, with the event as an instruction, and logs an exit.\<close>

definition busyWire :: wire_lib where
  "busyWire = \<lparr>decodeMessage = (\<lambda>_. Inr \<lparr>cm_staticAccounts = [''FEE'', LATERITE_PROGRAM_ADDRESS],
       cm_body = CompiledInstructions
         [\<lparr>ci_accounts = [0], ci_data = ei_data (sweptInstruction demoLib demoSwept), ci_programIdIndex = 1\<rparr>]\<rparr>),
     base58Bytes = (\<lambda>_. Inr [9]), base58Text = (\<lambda>_. ''s''),
     base64Bytes = (\<lambda>_. Inr (eventDiscriminator EvExited @ replicate 32 85)), base16Text = (\<lambda>_. [])\<rparr>"

definition busyTransaction :: fetched_transaction where
  "busyTransaction = demoTransaction\<lparr>ft_meta := Some \<lparr>tm_computeUnitsConsumed = None, tm_err = False, tm_fee = None,
     tm_innerInstructions = [], tm_writable = [], tm_readonly = [],
     tm_logMessages = render (LogCall LATERITE_PROGRAM_ADDRESS ''1'' [LogData ''data''] None),
     tm_postTokenBalances = [], tm_preTokenBalances = []\<rparr>\<rparr>"

definition busyIndexer :: indexer_env where
  "busyIndexer = demoIndexer\<lparr>ie_transaction := (\<lambda>_. Inr (Some busyTransaction))\<rparr>"

definition busyHistory :: history where
  "busyHistory =
     (let at = \<lparr>at_blockTimeMs = 1700000, at_txSignature = ''SIG1'', at_slot = 5\<rparr>
      in \<lparr>hi_sweeps = [(\<lparr>sr_at = at, sr_event = demoSwept, sr_eventIndex = 0, sr_feePayer = ''FEE''\<rparr>, 0x3FF0000000000000)],
          hi_attestations = [],
          hi_userEvents = [\<lparr>ur_at = at, ur_data = JObject [], ur_eventIndex = 0, ur_kind = Ue_Exited, ur_user = replicate 32 (CHR ''U'')\<rparr>],
          hi_cursor = Some (''SIG1'', 10)\<rparr>)"

lemma busy_decoded:
  "decodeTransaction demoLib busyWire ''SIG1'' busyTransaction
     = Inr \<lparr>dc_attestations = [], dc_closes = [], dc_sweeps = map fst (hi_sweeps busyHistory), dc_userEvents = hi_userEvents busyHistory\<rparr>"
  by code_simp

lemma busy_stored:
  "store demoLib busyWire busyIndexer [(''SIG1'', 10)] emptyHistory = Inr busyHistory"
  "store demoLib busyWire busyIndexer [(''SIG1'', 10)] busyHistory = Inr busyHistory"
  by code_simp+

theorem store_idempotent_witness: "busyHistory = busyHistory \<and> hi_sweeps busyHistory \<noteq> []"
  using store_idempotent [OF busy_stored] by (simp add: busyHistory_def Let_def)

end
