(* ===== verification/Rate_Limits.thy ===== *)
theory Rate_Limits
  imports Laterite_Prelude "HOL-Library.Multiset"
begin

text \<open>
  The limit of a sliding window, which the sponsor and the faucet share: of what a table counts, no
  more than a number lies in any window of time. The contract asks of every step of the table only that
  it counts at most one thing more, at the step's own clock, and only after finding room in the window
  that ends there. Clocks need not be ordered: each request reads its own before it waits for the lock.
\<close>

definition times :: "('r \<Rightarrow> int option) \<Rightarrow> 'r list \<Rightarrow> int multiset" where
  "times at rows = mset (List.map_filter at rows)"

definition since :: "int \<Rightarrow> int multiset \<Rightarrow> nat" where
  "since t ts = size (filter_mset (\<lambda>s. t < s) ts)"

text \<open>At most \<open>most\<close> counted in \<open>(t - window, t]\<close>, for every \<open>t\<close>.\<close>

definition windowed :: "('r \<Rightarrow> int option) \<Rightarrow> int \<Rightarrow> nat \<Rightarrow> 'r list \<Rightarrow> bool" where
  "windowed at window most rows = (\<forall>t. size (filter_mset (\<lambda>s. t - window < s \<and> s \<le> t) (times at rows)) \<le> most)"

lemma times_simps [simp]:
  "times at [] = {#}"
  "times at (r # rows) = (case at r of None \<Rightarrow> times at rows | Some s \<Rightarrow> add_mset s (times at rows))"
  "times at (xs @ ys) = times at xs + times at ys"
  by (auto simp: times_def map_filter_simps map_filter_def split: option.splits)

lemma windowed_Nil [simp]: "windowed at window most []"
  by (simp add: windowed_def)

lemma subset_add_mset: "A \<subseteq># B \<Longrightarrow> A \<subseteq># add_mset x B"
  by (metis add_mset_add_single mset_subset_eq_add_left subset_mset.order_trans)

text \<open>What a change of one row does: it counts again, no longer counts, or counts anew.\<close>

lemma times_update_other:
  "\<forall>r \<in> set rows. at (f r) = at r \<Longrightarrow> times at (map f rows) = times at rows"
  by (induction rows) (auto split: option.splits)

lemma times_shrink:
  "\<forall>r \<in> set rows. at (f r) = None \<or> at (f r) = at r \<Longrightarrow> times at (map f rows) \<subseteq># times at rows"
proof (induction rows)
  case (Cons r rows)
  then show ?case
    by (cases "at r") (force simp: subset_mset.le_add_same_cancel2 intro: subset_mset.order_trans)+
qed simp

lemma times_grow_one:
  assumes "distinct (map k rows)" "r \<in> set rows" "\<forall>x \<in> set rows. k x \<noteq> k r \<longrightarrow> f x = x" "at (f r) = Some now \<or> at (f r) = None"
  shows "times at (map f rows) \<subseteq># add_mset now (times at rows)"
  using assms(1-3)
proof (induction rows)
  case (Cons x rows)
  show ?case
  proof (cases "x = r")
    case True
    with Cons.prems have "map f rows = rows" by (auto intro!: map_idI simp: image_iff)
    moreover have "times at rows \<subseteq># add_mset now (times at (r # rows))"
      by (auto split: option.splits simp: subset_mset.add_increasing2)
    ultimately show ?thesis using True assms(4) by (auto split: option.splits)
  next
    case False
    with Cons.prems have "f x = x" "r \<in> set rows" by (auto simp: image_iff)
    with Cons show ?thesis by (auto split: option.splits simp: add_mset_commute)
  qed
qed simp

text \<open>A step may count several things more, all at one time that its own clock has reached when it finds room for them.\<close>

locale batch_limited =
  fixes at :: "'r \<Rightarrow> int option" and window :: int and most :: nat and step :: "int \<Rightarrow> 'r list \<Rightarrow> 'r list \<Rightarrow> bool"
  assumes counts_batch: "step now rows rows' \<Longrightarrow>
      times at rows' \<subseteq># times at rows
      \<or> (\<exists>n t. now \<le> t \<and> since (now - window) (times at rows) + n \<le> most \<and> times at rows' \<subseteq># times at rows + replicate_mset n t)"
begin

lemma keeps: "windowed at window most rows \<Longrightarrow> step now rows rows' \<Longrightarrow> windowed at window most rows'"
proof -
  assume w: "windowed at window most rows" and s: "step now rows rows'"
  let ?in = "\<lambda>t s. t - window < s \<and> s \<le> t"
  have old: "size (filter_mset (?in x) (times at rows)) \<le> most" for x using w by (simp add: windowed_def)
  show ?thesis unfolding windowed_def
  proof
    fix x
    from counts_batch [OF s] show "size (filter_mset (?in x) (times at rows')) \<le> most"
    proof
      assume "times at rows' \<subseteq># times at rows"
      then have "size (filter_mset (?in x) (times at rows')) \<le> size (filter_mset (?in x) (times at rows))"
        by (intro size_mset_mono multiset_filter_mono)
      with old [of x] show ?thesis by simp
    next
      assume "\<exists>n t. now \<le> t \<and> since (now - window) (times at rows) + n \<le> most \<and> times at rows' \<subseteq># times at rows + replicate_mset n t"
      then obtain n t where t: "now \<le> t" and room: "since (now - window) (times at rows) + n \<le> most"
        and more: "times at rows' \<subseteq># times at rows + replicate_mset n t" by blast
      from more have le: "size (filter_mset (?in x) (times at rows')) \<le> size (filter_mset (?in x) (times at rows + replicate_mset n t))"
        by (intro size_mset_mono multiset_filter_mono)
      have added: "filter_mset (?in x) (replicate_mset n t) = (if ?in x t then replicate_mset n t else {#})" by (induction n) auto
      show ?thesis
      proof (cases "?in x t")
        case True
        with t have "filter_mset (?in x) (times at rows) \<subseteq># filter_mset (\<lambda>s. now - window < s) (times at rows)"
          by (intro filter_mset_mono_strong) auto
        then have "size (filter_mset (?in x) (times at rows)) \<le> since (now - window) (times at rows)"
          by (simp add: since_def size_mset_mono)
        with le added True room show ?thesis by simp
      next
        case False
        with le added old [of x] show ?thesis by auto
      qed
    qed
  qed
qed

end

text \<open>The limit of steps that count one thing at a time, at their own clock.\<close>

locale limited =
  fixes at :: "'r \<Rightarrow> int option" and window :: int and most :: nat and step :: "int \<Rightarrow> 'r list \<Rightarrow> 'r list \<Rightarrow> bool"
  assumes counts: "step now rows rows' \<Longrightarrow>
      times at rows' \<subseteq># times at rows
      \<or> since (now - window) (times at rows) < most \<and> times at rows' \<subseteq># add_mset now (times at rows)"

sublocale limited \<subseteq> batch: batch_limited at window most step
proof
  fix now rows rows'
  assume "step now rows rows'"
  from counts [OF this] show "times at rows' \<subseteq># times at rows
      \<or> (\<exists>n t. now \<le> t \<and> since (now - window) (times at rows) + n \<le> most \<and> times at rows' \<subseteq># times at rows + replicate_mset n t)"
  proof
    assume "since (now - window) (times at rows) < most \<and> times at rows' \<subseteq># add_mset now (times at rows)"
    then have "now \<le> now \<and> since (now - window) (times at rows) + 1 \<le> most \<and> times at rows' \<subseteq># times at rows + replicate_mset 1 now"
      by simp
    then show ?thesis by blast
  qed blast
qed

context limited begin

lemmas keeps = batch.keeps

end

end
