(* ===== verification/Sponsorships.thy ===== *)
theory Sponsorships
  imports Rate_Limits
begin

text \<open>
  The sponsor's ledger (\<open>apps/app/lib/sponsorships.ts\<close>): every transaction the sponsor route built, what it
  may co-sign of them, and within which limits. The table is a list of rows, times are milliseconds.
\<close>

section \<open>The table\<close>

definition LIMIT_ALL :: nat where "LIMIT_ALL = 500"
definition LIMIT_IP :: nat where "LIMIT_IP = 10"
definition LIMIT_WALLET :: nat where "LIMIT_WALLET = 3"
definition RETURN_LIMIT :: nat where "RETURN_LIMIT = 2"
definition PREPARE_LIMIT_IP :: nat where "PREPARE_LIMIT_IP = 60"
definition PREPARE_LIMIT_WALLET :: nat where "PREPARE_LIMIT_WALLET = 20"
definition PREPARED_TTL_MS :: int where "PREPARED_TTL_MS = 120000"
definition HOUR_MS :: int where "HOUR_MS = 3600000"
definition DAY_MS :: int where "DAY_MS = 86400000"
definition RETURN_WINDOW_MS :: int where "RETURN_WINDOW_MS = 2592000000"

datatype sponsorship_kind = Kind_Enroll | Kind_Reactivate
datatype sponsorship_outcome = Outcome_Prepared | Outcome_Sent | Outcome_Landed | Outcome_Failed

text \<open>What a request's simulation said of the transaction, stored with it.\<close>

record prepared =
  pr_assetAccount :: "string option"
  pr_computeUnitLimit :: int
  pr_computeUnitPrice :: int
  pr_computeUnits :: int
  pr_ip :: "string option"
  pr_kind :: sponsorship_kind
  pr_lastValidBlockHeight :: int
  pr_message :: string
  pr_sponsorLamports :: int
  pr_wallet :: string

record sponsorship =
  sp_id :: nat
  sp_prepared :: prepared
  sp_ip :: "string option"
  sp_preparedAt :: int
  sp_sentAt :: "int option"
  sp_signature :: "string option"
  sp_outcome :: sponsorship_outcome
  sp_reason :: "string option"

abbreviation sp_wallet :: "sponsorship \<Rightarrow> string" where "sp_wallet r \<equiv> pr_wallet (sp_prepared r)"
abbreviation sp_kind :: "sponsorship \<Rightarrow> sponsorship_kind" where "sp_kind r \<equiv> pr_kind (sp_prepared r)"
abbreviation sp_message :: "sponsorship \<Rightarrow> string" where "sp_message r \<equiv> pr_message (sp_prepared r)"

record sponsor_ledger =
  sl_rows :: "sponsorship list"
  sl_nextId :: nat

definition emptyLedger :: sponsor_ledger where
  "emptyLedger = \<lparr>sl_rows = [], sl_nextId = 1\<rparr>"

section \<open>The limits\<close>

datatype limit_name = Limit_All | Limit_Ip | Limit_Prepare | Limit_Returns | Limit_Wallet

record limited_reply =
  li_limit :: limit_name
  li_retryAfterSeconds :: int

text \<open>Until the oldest counted leaves the window, in whole seconds rounded up, one at least.\<close>

definition retryAfter :: "int option \<Rightarrow> int \<Rightarrow> int \<Rightarrow> int" where
  "retryAfter oldest window now =
     (let ms = (case oldest of None \<Rightarrow> now | Some t \<Rightarrow> t) + window - now
      in max 1 (- ((- ms) div 1000)))"

definition oldestOf :: "int list \<Rightarrow> int option" where
  "oldestOf ts = (case ts of [] \<Rightarrow> None | t # rest \<Rightarrow> Some (foldl min t rest))"

definition isSpent :: "sponsorship \<Rightarrow> bool" where
  "isSpent r = (sp_outcome r = Outcome_Sent \<or> sp_outcome r = Outcome_Landed)"

definition sponsoredAt :: "(sponsorship \<Rightarrow> bool) \<Rightarrow> sponsorship \<Rightarrow> int option" where
  "sponsoredAt P r = (if isSpent r \<and> P r then sp_sentAt r else None)"

text \<open>A limit: its name, when the rows it counts were sent, how many it allows and its window.\<close>

definition exceeded ::
    "limit_name \<Rightarrow> ('r \<Rightarrow> int option) \<Rightarrow> nat \<Rightarrow> int \<Rightarrow> 'r list \<Rightarrow> int \<Rightarrow> limited_reply option" where
  "exceeded limit at most window rows now =
     (let counted = filter (\<lambda>s. now - window < s) (List.map_filter at rows)
      in if length counted \<ge> most
         then Some \<lparr>li_limit = limit, li_retryAfterSeconds = retryAfter (oldestOf counted) window now\<rparr> else None)"

fun firstOf :: "'a option list \<Rightarrow> 'a option" where
  "firstOf [] = None"
| "firstOf (Some x # _) = Some x"
| "firstOf (None # xs) = firstOf xs"

lemma exceeded_None:
  "exceeded limit at most window rows now = None \<longleftrightarrow> since (now - window) (times at rows) < most"
  by (simp add: exceeded_def since_def times_def Let_def not_le flip: mset_filter)

lemma firstOf_None: "firstOf xs = None \<longleftrightarrow> (\<forall>x \<in> set xs. x = None)"
  by (induction xs rule: firstOf.induct) auto

definition ofWallet :: "string \<Rightarrow> sponsorship \<Rightarrow> bool" where "ofWallet wallet r = (sp_wallet r = wallet)"
definition fromIp :: "string \<Rightarrow> sponsorship \<Rightarrow> bool" where "fromIp ip r = (sp_ip r = Some ip)"
definition isReturn :: "string \<Rightarrow> sponsorship \<Rightarrow> bool" where
  "isReturn wallet r = (sp_wallet r = wallet \<and> sp_kind r = Kind_Reactivate)"

definition sendLimit ::
    "sponsorship list \<Rightarrow> string \<Rightarrow> string option \<Rightarrow> sponsorship_kind \<Rightarrow> int \<Rightarrow> limited_reply option" where
  "sendLimit rows wallet ip kind now = firstOf
     ([exceeded Limit_Wallet (sponsoredAt (ofWallet wallet)) LIMIT_WALLET DAY_MS rows now,
       exceeded Limit_All (sponsoredAt (\<lambda>_. True)) LIMIT_ALL DAY_MS rows now]
      @ (case ip of None \<Rightarrow> [] | Some a \<Rightarrow> [exceeded Limit_Ip (sponsoredAt (fromIp a)) LIMIT_IP DAY_MS rows now])
      @ (if kind = Kind_Reactivate
         then [exceeded Limit_Returns (sponsoredAt (isReturn wallet)) RETURN_LIMIT RETURN_WINDOW_MS rows now] else []))"

definition builtAt :: "(sponsorship \<Rightarrow> bool) \<Rightarrow> sponsorship \<Rightarrow> int option" where
  "builtAt P r = (if P r then Some (sp_preparedAt r) else None)"

definition prepareLimit ::
    "sponsorship list \<Rightarrow> string \<Rightarrow> string option \<Rightarrow> sponsorship_kind \<Rightarrow> int \<Rightarrow> limited_reply option" where
  "prepareLimit rows wallet ip kind now = firstOf
     ([exceeded Limit_Prepare (builtAt (ofWallet wallet)) PREPARE_LIMIT_WALLET HOUR_MS rows now]
      @ (case ip of None \<Rightarrow> [] | Some a \<Rightarrow> [exceeded Limit_Prepare (builtAt (fromIp a)) PREPARE_LIMIT_IP HOUR_MS rows now])
      @ [sendLimit rows wallet ip kind now])"

definition assetAccountPaid :: "sponsorship list \<Rightarrow> string \<Rightarrow> string \<Rightarrow> nat option \<Rightarrow> bool" where
  "assetAccountPaid rows wallet mint except =
     list_ex (\<lambda>r. sp_wallet r = wallet \<and> pr_assetAccount (sp_prepared r) = Some mint \<and> isSpent r
                  \<and> Some (sp_id r) \<noteq> except) rows"

section \<open>The operations\<close>

text \<open>\<open>clock\<close> is the database's, the default of \<open>prepared_at\<close>; an identity is spent even on a conflict.\<close>

definition recordPrepared :: "prepared \<Rightarrow> int \<Rightarrow> sponsor_ledger \<Rightarrow> sponsor_ledger" where
  "recordPrepared p clock s =
     \<lparr>sl_rows = (if pr_message p \<in> sp_message ` set (sl_rows s) then sl_rows s
        else sl_rows s @ [\<lparr>sp_id = sl_nextId s, sp_prepared = p, sp_ip = pr_ip p, sp_preparedAt = clock, sp_sentAt = None,
                           sp_signature = None, sp_outcome = Outcome_Prepared, sp_reason = None\<rparr>]),
      sl_nextId = sl_nextId s + 1\<rparr>"

datatype claim =
    Claimed sponsorship
  | Claim_Unknown
  | Claim_Asset_Account
  | Claim_Limited limited_reply

record claim_request =
  cq_ip :: "string option"
  cq_message :: string
  cq_wallet :: string

definition claimable :: "claim_request \<Rightarrow> int \<Rightarrow> sponsorship \<Rightarrow> bool" where
  "claimable q now r =
     (sp_message r = cq_message q \<and> sp_wallet r = cq_wallet q \<and> sp_outcome r = Outcome_Prepared
      \<and> sp_preparedAt r > now - PREPARED_TTL_MS)"

definition sentRow :: "claim_request \<Rightarrow> int \<Rightarrow> sponsorship \<Rightarrow> sponsorship" where
  "sentRow q now r =
     r\<lparr>sp_ip := (case cq_ip q of None \<Rightarrow> sp_ip r | Some ip \<Rightarrow> Some ip), sp_outcome := Outcome_Sent, sp_sentAt := Some now\<rparr>"

text \<open>The whole claim is one database transaction under the sponsor's lock.\<close>

definition claimSend :: "claim_request \<Rightarrow> int \<Rightarrow> sponsor_ledger \<Rightarrow> claim \<times> sponsor_ledger" where
  "claimSend q now s =
     (case find (claimable q now) (sl_rows s) of
        None \<Rightarrow> (Claim_Unknown, s)
      | Some row \<Rightarrow>
          (case sendLimit (sl_rows s) (cq_wallet q) (cq_ip q) (sp_kind row) now of
             Some l \<Rightarrow> (Claim_Limited l, s)
           | None \<Rightarrow>
               if (case pr_assetAccount (sp_prepared row) of None \<Rightarrow> False
                   | Some mint \<Rightarrow> assetAccountPaid (sl_rows s) (cq_wallet q) mint (Some (sp_id row)))
               then (Claim_Asset_Account, s)
               else (Claimed (sentRow q now row),
                     s\<lparr>sl_rows := map (\<lambda>r. if sp_id r = sp_id row then sentRow q now r else r) (sl_rows s)\<rparr>)))"

datatype send_outcome = Send_Landed string | Send_Failed string "string option"

definition settledRow :: "send_outcome \<Rightarrow> sponsorship \<Rightarrow> sponsorship" where
  "settledRow outcome r =
     (case outcome of
        Send_Landed signature \<Rightarrow> r\<lparr>sp_outcome := Outcome_Landed, sp_signature := Some signature\<rparr>
      | Send_Failed reason signature \<Rightarrow>
          r\<lparr>sp_outcome := Outcome_Failed, sp_reason := Some reason, sp_signature := signature\<rparr>)"

definition settleSend :: "nat \<Rightarrow> send_outcome \<Rightarrow> sponsor_ledger \<Rightarrow> sponsor_ledger" where
  "settleSend i outcome s =
     s\<lparr>sl_rows := map (\<lambda>r. if sp_id r = i then settledRow outcome r else r) (sl_rows s)\<rparr>"

end
