(* ===== verification/Sponsor_Ledger.thy ===== *)
theory Sponsor_Ledger
  imports Sponsorships
begin

text \<open>
  What the sponsor's ledger guarantees over every interleaving of requests: the limits of each window,
  that a message is co-signed once, and that an asset account is paid once. A request's claim, its
  co-signature and its settlement are separate steps; it may crash between any two.
\<close>

section \<open>Changes of the table\<close>

definition ids_ok :: "sponsor_ledger \<Rightarrow> bool" where
  "ids_ok s = (distinct (map sp_id (sl_rows s)) \<and> (\<forall>r \<in> set (sl_rows s). sp_id r < sl_nextId s)
     \<and> distinct (map sp_message (sl_rows s)))"

definition onlySent :: "nat \<Rightarrow> sponsorship list \<Rightarrow> bool" where
  "onlySent i rows = (\<forall>r \<in> set rows. sp_id r = i \<longrightarrow> sp_outcome r = Outcome_Sent)"

inductive ledger_change :: "(claim_request \<Rightarrow> bool) \<Rightarrow> int \<Rightarrow> sponsorship list \<Rightarrow> sponsorship list \<Rightarrow> bool" for Q where
  prepare: "ids_ok s \<Longrightarrow> ledger_change Q now (sl_rows s) (sl_rows (recordPrepared p clock s))"
| claim: "ids_ok s \<Longrightarrow> Q q \<Longrightarrow> ledger_change Q now (sl_rows s) (sl_rows (snd (claimSend q now s)))"
| settle: "ids_ok s \<Longrightarrow> onlySent i (sl_rows s) \<Longrightarrow> ledger_change Q now (sl_rows s) (sl_rows (settleSend i outcome s))"

lemma claimSend_cases:
  obtains (refused) "snd (claimSend q now s) = s" "\<forall>row. fst (claimSend q now s) \<noteq> Claimed row"
  | (claimed) row where "row \<in> set (sl_rows s)" "claimable q now row"
      "sendLimit (sl_rows s) (cq_wallet q) (cq_ip q) (sp_kind row) now = None"
      "\<forall>mint. pr_assetAccount (sp_prepared row) = Some mint \<longrightarrow>
         \<not> assetAccountPaid (sl_rows s) (cq_wallet q) mint (Some (sp_id row))"
      "claimSend q now s = (Claimed (sentRow q now row),
         s\<lparr>sl_rows := map (\<lambda>r. if sp_id r = sp_id row then sentRow q now r else r) (sl_rows s)\<rparr>)"
proof (cases "find (claimable q now) (sl_rows s)")
  case None
  then show thesis by (intro refused) (simp_all add: claimSend_def)
next
  case (Some row)
  then have row: "row \<in> set (sl_rows s)" "claimable q now row"
    by (auto simp: find_Some_iff)
  let ?paid = "case pr_assetAccount (sp_prepared row) of None \<Rightarrow> False
      | Some mint \<Rightarrow> assetAccountPaid (sl_rows s) (cq_wallet q) mint (Some (sp_id row))"
  show thesis
  proof (cases "sendLimit (sl_rows s) (cq_wallet q) (cq_ip q) (sp_kind row) now = None \<and> \<not> ?paid")
    case True
    then show thesis using row Some by (intro claimed) (auto simp: claimSend_def)
  next
    case False
    then show thesis using Some
      by (intro refused) (auto simp: claimSend_def split: option.splits)
  qed
qed

lemma sendLimit_None:
  assumes "sendLimit rows wallet ip kind now = None"
  shows "since (now - DAY_MS) (times (sponsoredAt (ofWallet wallet)) rows) < LIMIT_WALLET"
    "since (now - DAY_MS) (times (sponsoredAt (\<lambda>_. True)) rows) < LIMIT_ALL"
    "ip = Some a \<Longrightarrow> since (now - DAY_MS) (times (sponsoredAt (fromIp a)) rows) < LIMIT_IP"
    "kind = Kind_Reactivate \<Longrightarrow> since (now - RETURN_WINDOW_MS) (times (sponsoredAt (isReturn wallet)) rows) < RETURN_LIMIT"
  using assms by (auto simp: sendLimit_def firstOf_None exceeded_None)

lemma isSpent_sentRow [simp]: "isSpent (sentRow q now r)" "sp_sentAt (sentRow q now r) = Some now"
  "sp_id (sentRow q now r) = sp_id r" "sp_prepared (sentRow q now r) = sp_prepared r"
  by (simp_all add: isSpent_def sentRow_def)

lemma settledRow_keeps [simp]:
  "sp_id (settledRow outcome r) = sp_id r" "sp_prepared (settledRow outcome r) = sp_prepared r"
  "sp_ip (settledRow outcome r) = sp_ip r" "sp_preparedAt (settledRow outcome r) = sp_preparedAt r"
  "sp_sentAt (settledRow outcome r) = sp_sentAt r" "sp_outcome (settledRow outcome r) \<noteq> Outcome_Prepared"
  by (simp_all add: settledRow_def split: send_outcome.split)

lemma settleSend_rows:
  "sl_rows (settleSend i outcome s) = map (\<lambda>r. if sp_id r = i then settledRow outcome r else r) (sl_rows s)"
  by (simp add: settleSend_def)

text \<open>A filter of the counted rows that looks at a row's wallet, kind and address only.\<close>

definition stable :: "(sponsorship \<Rightarrow> bool) \<Rightarrow> bool" where
  "stable P = (\<forall>r r'. sp_prepared r = sp_prepared r' \<longrightarrow> sp_ip r = sp_ip r' \<longrightarrow> P r = P r')"

lemma stableD: "stable P \<Longrightarrow> sp_prepared r = sp_prepared r' \<Longrightarrow> sp_ip r = sp_ip r' \<Longrightarrow> P r = P r'"
  unfolding stable_def by blast

lemma stable_simps [simp]: "stable (ofWallet w)" "stable (\<lambda>_. True)" "stable (fromIp a)" "stable (isReturn w)"
  unfolding stable_def ofWallet_def fromIp_def isReturn_def by simp_all

lemma change_counts:
  assumes "ledger_change Q now rows rows'" "stable P"
    "\<And>q row. Q q \<Longrightarrow> claimable q now row \<Longrightarrow> P (sentRow q now row) \<Longrightarrow>
       sendLimit rows (cq_wallet q) (cq_ip q) (sp_kind row) now = None \<Longrightarrow> since (now - window) (times (sponsoredAt P) rows) < most"
  shows "times (sponsoredAt P) rows' \<subseteq># times (sponsoredAt P) rows
    \<or> since (now - window) (times (sponsoredAt P) rows) < most \<and> times (sponsoredAt P) rows' \<subseteq># add_mset now (times (sponsoredAt P) rows)"
  using assms(1)
proof cases
  case (prepare s p clock)
  then show ?thesis by (simp add: recordPrepared_def sponsoredAt_def isSpent_def)
next
  case (settle s i outcome)
  let ?f = "\<lambda>r. if sp_id r = i then settledRow outcome r else r"
  have "sponsoredAt P (?f r) = None \<or> sponsoredAt P (?f r) = sponsoredAt P r" if "r \<in> set rows" for r
  proof (cases "sp_id r = i")
    case True
    with settle(1,4) that have sent: "sp_outcome r = Outcome_Sent" by (auto simp: onlySent_def)
    have "P (settledRow outcome r) = P r" by (rule stableD [OF assms(2)]) simp_all
    with True sent show ?thesis by (cases outcome) (simp_all add: sponsoredAt_def isSpent_def settledRow_def)
  qed simp
  then have "times (sponsoredAt P) rows' \<subseteq># times (sponsoredAt P) rows"
    unfolding settle(2) settleSend_rows settle(1) by (intro times_shrink) blast
  then show ?thesis ..
next
  case (claim s q)
  show ?thesis
  proof (cases rule: claimSend_cases [of q now s])
    case refused
    with claim show ?thesis by simp
  next
    case (claimed row)
    let ?f = "\<lambda>r. if sp_id r = sp_id row then sentRow q now r else r"
    have rows': "rows' = map ?f rows" using claim claimed by simp
    have unspent: "sponsoredAt P row = None" using claimed(2) by (simp add: claimable_def sponsoredAt_def isSpent_def)
    have same: "r = row" if "r \<in> set rows" "sp_id r = sp_id row" for r
      using that claim(1,3) claimed(1) by (simp add: ids_ok_def) (metis distinct_map inj_onD)
    show ?thesis
    proof (cases "P (sentRow q now row)")
      case True
      from assms(3) [OF claim(4) claimed(2) True] claimed(3) claim(1)
      have "since (now - window) (times (sponsoredAt P) rows) < most" by simp
      moreover have "times (sponsoredAt P) (map ?f rows) \<subseteq># add_mset now (times (sponsoredAt P) rows)"
        using claim(1,3) claimed(1) by (intro times_grow_one [where k = sp_id and r = row]) (auto simp: ids_ok_def sponsoredAt_def)
      ultimately show ?thesis by (simp add: rows')
    next
      case False
      have "times (sponsoredAt P) (map ?f rows) \<subseteq># times (sponsoredAt P) rows"
        using same unspent False by (intro times_shrink) (auto simp: sponsoredAt_def)
      then show ?thesis by (simp add: rows')
    qed
  qed
qed

interpretation wallet_limit: limited "sponsoredAt (ofWallet w)" DAY_MS LIMIT_WALLET "ledger_change Q" for w Q
  by unfold_locales (erule change_counts, auto dest: sendLimit_None simp: ofWallet_def claimable_def)

interpretation all_limit: limited "sponsoredAt (\<lambda>_. True)" DAY_MS LIMIT_ALL "ledger_change Q" for Q
  by unfold_locales (erule change_counts, auto dest: sendLimit_None)

interpretation return_limit: limited "sponsoredAt (isReturn w)" RETURN_WINDOW_MS RETURN_LIMIT "ledger_change Q" for w Q
  by unfold_locales (erule change_counts, auto dest: sendLimit_None simp: isReturn_def claimable_def)

interpretation ip_limit: limited "sponsoredAt (fromIp a)" DAY_MS LIMIT_IP "ledger_change (\<lambda>q. cq_ip q \<noteq> None)" for a
  by unfold_locales (erule change_counts, auto dest: sendLimit_None simp: fromIp_def sentRow_def)

end
