(* ===== verification/Sponsor_Desk.thy ===== *)
theory Sponsor_Desk
  imports Sponsor_Ledger
begin

text \<open>
  The submit requests (\<open>apps/app/app/api/sponsor/submit/route.ts\<close>) at the sponsor's ledger, interleaved: each
  claims a row, then co-signs its message or fails it for its shape, then settles it. A crash may
  strike between any two of these, and then nobody settles the row.
\<close>

section \<open>Steps\<close>

record desk =
  dk_ledger :: sponsor_ledger
  dk_claims :: "sponsorship list" \<comment> \<open>claimed, not yet co-signed\<close>
  dk_sends :: "nat list" \<comment> \<open>co-signed, not yet settled\<close>
  dk_cosigned :: "(string \<times> string) list" \<comment> \<open>every message the sponsor signed, with its wallet\<close>

abbreviation dk_rows :: "desk \<Rightarrow> sponsorship list" where "dk_rows d \<equiv> sl_rows (dk_ledger d)"

definition openDesk :: desk where
  "openDesk = \<lparr>dk_ledger = emptyLedger, dk_claims = [], dk_sends = [], dk_cosigned = []\<rparr>"

inductive desk_step :: "(claim_request \<Rightarrow> bool) \<Rightarrow> desk \<Rightarrow> desk \<Rightarrow> bool" for Q where
  Prepare: "desk_step Q d (d\<lparr>dk_ledger := recordPrepared p clock (dk_ledger d)\<rparr>)"
| Claim: "Q q \<Longrightarrow> claimSend q now (dk_ledger d) = (Claimed c, s)
    \<Longrightarrow> desk_step Q d (d\<lparr>dk_ledger := s, dk_claims := dk_claims d @ [c]\<rparr>)"
| Shape: "dk_claims d = xs @ c # ys
    \<Longrightarrow> desk_step Q d (d\<lparr>dk_ledger := settleSend (sp_id c) (Send_Failed reason None) (dk_ledger d), dk_claims := xs @ ys\<rparr>)"
| Cosign: "dk_claims d = xs @ c # ys
    \<Longrightarrow> desk_step Q d (d\<lparr>dk_claims := xs @ ys, dk_sends := sp_id c # dk_sends d,
                        dk_cosigned := dk_cosigned d @ [(sp_message c, sp_wallet c)]\<rparr>)"
| Settle: "dk_sends d = xs @ i # ys
    \<Longrightarrow> desk_step Q d (d\<lparr>dk_ledger := settleSend i outcome (dk_ledger d), dk_sends := xs @ ys\<rparr>)"
| Crash_Claim: "dk_claims d = xs @ c # ys \<Longrightarrow> desk_step Q d (d\<lparr>dk_claims := xs @ ys\<rparr>)"
| Crash_Send: "dk_sends d = xs @ i # ys \<Longrightarrow> desk_step Q d (d\<lparr>dk_sends := xs @ ys\<rparr>)"

inductive_cases desk_stepE: "desk_step Q d d'"

definition desk_run :: "(claim_request \<Rightarrow> bool) \<Rightarrow> desk \<Rightarrow> bool" where
  "desk_run Q d = (desk_step Q)\<^sup>*\<^sup>* openDesk d"

section \<open>The invariant\<close>

definition in_time :: "sponsorship \<Rightarrow> bool" where
  "in_time r = (\<exists>t. sp_sentAt r = Some t \<and> t - PREPARED_TTL_MS < sp_preparedAt r)"

definition claims_ok :: "desk \<Rightarrow> bool" where
  "claims_ok d = (distinct (map sp_id (dk_claims d) @ dk_sends d)
     \<and> (\<forall>c \<in> set (dk_claims d). c \<in> set (dk_rows d) \<and> sp_outcome c = Outcome_Sent \<and> in_time c)
     \<and> (\<forall>i \<in> set (dk_sends d). i < sl_nextId (dk_ledger d) \<and> onlySent i (dk_rows d)))"

definition signed_row :: "desk \<Rightarrow> string \<times> string \<Rightarrow> sponsorship \<Rightarrow> bool" where
  "signed_row d mw r = (r \<in> set (dk_rows d) \<and> mw = (sp_message r, sp_wallet r) \<and> sp_outcome r \<noteq> Outcome_Prepared
     \<and> in_time r \<and> sp_id r \<notin> sp_id ` set (dk_claims d))"

definition cosigned_ok :: "desk \<Rightarrow> bool" where
  "cosigned_ok d = (distinct (map fst (dk_cosigned d)) \<and> (\<forall>mw \<in> set (dk_cosigned d). \<exists>r. signed_row d mw r))"

definition asset_once :: "sponsorship list \<Rightarrow> bool" where
  "asset_once rows = (\<forall>r \<in> set rows. \<forall>r' \<in> set rows. isSpent r \<longrightarrow> isSpent r' \<longrightarrow> sp_wallet r = sp_wallet r'
     \<longrightarrow> pr_assetAccount (sp_prepared r) \<noteq> None \<longrightarrow> pr_assetAccount (sp_prepared r) = pr_assetAccount (sp_prepared r')
     \<longrightarrow> sp_id r = sp_id r')"

definition desk_ok :: "desk \<Rightarrow> bool" where
  "desk_ok d = (ids_ok (dk_ledger d) \<and> claims_ok d \<and> cosigned_ok d \<and> asset_once (dk_rows d))"

text \<open>A change of the row of one id, which keeps what a row was prepared as.\<close>

definition touches :: "nat \<Rightarrow> (sponsorship \<Rightarrow> sponsorship) \<Rightarrow> bool" where
  "touches i f = (\<forall>r. sp_id (f r) = sp_id r \<and> sp_prepared (f r) = sp_prepared r \<and> sp_preparedAt (f r) = sp_preparedAt r
     \<and> (sp_id r \<noteq> i \<longrightarrow> f r = r))"

lemma touches_simps:
  assumes "touches i f"
  shows "sp_id (f r) = sp_id r" "sp_prepared (f r) = sp_prepared r" "sp_preparedAt (f r) = sp_preparedAt r"
    "sp_id r \<noteq> i \<Longrightarrow> f r = r"
  using assms unfolding touches_def by blast+

lemma touches_settle: "touches i (\<lambda>r. if sp_id r = i then settledRow outcome r else r)"
  unfolding touches_def by simp

lemma touches_sent: "touches i (\<lambda>r. if sp_id r = i then sentRow q now r else r)"
  unfolding touches_def by (simp add: sentRow_def)

lemma touches_ids:
  assumes "touches i f" "ids_ok s"
  shows "ids_ok (s\<lparr>sl_rows := map f (sl_rows s)\<rparr>)"
proof -
  have "sp_id \<circ> f = sp_id" "sp_message \<circ> f = sp_message" using touches_simps [OF assms(1)] by (simp_all add: fun_eq_iff)
  then show ?thesis using assms(2) by (auto simp: ids_ok_def touches_simps [OF assms(1)])
qed

lemma recordPrepared_ids: "ids_ok s \<Longrightarrow> ids_ok (recordPrepared p clock s)"
  by (auto simp: ids_ok_def recordPrepared_def less_Suc_eq)

lemma row_unique: "ids_ok s \<Longrightarrow> r \<in> set (sl_rows s) \<Longrightarrow> r' \<in> set (sl_rows s) \<Longrightarrow> sp_id r = sp_id r' \<Longrightarrow> r = r'"
  by (simp add: ids_ok_def) (metis distinct_map inj_onD)

lemma message_unique: "ids_ok s \<Longrightarrow> r \<in> set (sl_rows s) \<Longrightarrow> r' \<in> set (sl_rows s) \<Longrightarrow> sp_message r = sp_message r' \<Longrightarrow> r = r'"
  unfolding ids_ok_def by (metis (mono_tags, lifting) distinct_map inj_onD)

text \<open>Failing or landing a sent row keeps the table's part of the invariant; so does a claim.\<close>

lemma asset_settle:
  assumes "asset_once rows" "onlySent i rows"
  shows "asset_once (map (\<lambda>r. if sp_id r = i then settledRow outcome r else r) rows)"
proof -
  let ?f = "\<lambda>r. if sp_id r = i then settledRow outcome r else r"
  have spent: "isSpent r" if "r \<in> set rows" "isSpent (?f r)" for r
    using that assms(2) by (auto simp: onlySent_def isSpent_def split: if_splits)
  have prepared: "sp_prepared (?f r) = sp_prepared r" "sp_id (?f r) = sp_id r" for r by simp_all
  show ?thesis unfolding asset_once_def set_map ball_simps prepared
    using assms(1) spent unfolding asset_once_def by blast
qed

lemma asset_claim:
  assumes "asset_once (sl_rows s)" "ids_ok s" "row \<in> set (sl_rows s)" "claimable q now row"
    "\<forall>mint. pr_assetAccount (sp_prepared row) = Some mint \<longrightarrow>
         \<not> assetAccountPaid (sl_rows s) (cq_wallet q) mint (Some (sp_id row))"
  shows "asset_once (map (\<lambda>r. if sp_id r = sp_id row then sentRow q now r else r) (sl_rows s))"
proof -
  let ?f = "\<lambda>r. if sp_id r = sp_id row then sentRow q now r else r"
  have prepared: "sp_prepared (?f r) = sp_prepared r" "sp_id (?f r) = sp_id r" for r by simp_all
  have alone: "sp_id r = sp_id row" if "r \<in> set (sl_rows s)" "isSpent r" "sp_wallet r = sp_wallet row"
      "pr_assetAccount (sp_prepared row) \<noteq> None" "pr_assetAccount (sp_prepared r) = pr_assetAccount (sp_prepared row)" for r
    using that assms(4,5) by (auto simp: assetAccountPaid_def list_ex_iff claimable_def)
  have "sp_id r = sp_id r'" if "r \<in> set (sl_rows s)" "r' \<in> set (sl_rows s)" "isSpent (?f r)" "isSpent (?f r')"
      "sp_wallet r = sp_wallet r'" "pr_assetAccount (sp_prepared r) \<noteq> None"
      "pr_assetAccount (sp_prepared r) = pr_assetAccount (sp_prepared r')" for r r'
  proof (cases "sp_id r = sp_id row"; cases "sp_id r' = sp_id row")
    assume ids: "sp_id r = sp_id row" "sp_id r' \<noteq> sp_id row"
    have "r = row" by (rule row_unique [OF assms(2) that(1) assms(3) ids(1)])
    moreover have "isSpent r'" using that(4) ids(2) by simp
    ultimately have "sp_id r' = sp_id row" by (intro alone) (use that in simp_all)
    with ids(2) show ?thesis ..
  next
    assume ids: "sp_id r \<noteq> sp_id row" "sp_id r' = sp_id row"
    have "r' = row" by (rule row_unique [OF assms(2) that(2) assms(3) ids(2)])
    moreover have "isSpent r" using that(3) ids(1) by simp
    ultimately have "sp_id r = sp_id row" by (intro alone) (use that in simp_all)
    with ids(1) show ?thesis ..
  next
    assume "sp_id r \<noteq> sp_id row" "sp_id r' \<noteq> sp_id row"
    with that(3,4) have "isSpent r" "isSpent r'" by simp_all
    with that assms(1) show ?thesis unfolding asset_once_def by blast
  qed simp
  then show ?thesis unfolding asset_once_def set_map ball_simps prepared by blast
qed

text \<open>Changing a row of an id that is not claimed, and was sent, keeps the messages signed.\<close>

lemma cosigned_touch:
  assumes "cosigned_ok d" "touches i f" "dk_rows d' = map f (dk_rows d)" "dk_cosigned d' = dk_cosigned d"
    "sp_id ` set (dk_claims d') \<subseteq> sp_id ` set (dk_claims d) \<union> {i}"
    "\<And>r. r \<in> set (dk_rows d) \<Longrightarrow> sp_id r = i \<Longrightarrow> sp_outcome r \<noteq> Outcome_Prepared \<Longrightarrow>
       sp_outcome (f r) \<noteq> Outcome_Prepared \<and> sp_sentAt (f r) = sp_sentAt r \<and> i \<notin> sp_id ` set (dk_claims d')"
  shows "cosigned_ok d'"
proof -
  have "signed_row d' mw (f r)" if r: "signed_row d mw r" for mw r
  proof (cases "sp_id r = i")
    case True
    with r assms(6) [of r] show ?thesis
      unfolding signed_row_def in_time_def assms(3) touches_simps(1,2,3) [OF assms(2)] by auto
  next
    case False
    then have fr: "f r = r" by (rule touches_simps(4) [OF assms(2)])
    have "r \<in> set (dk_rows d')" using r fr unfolding signed_row_def assms(3) by (metis image_eqI set_map)
    with r False assms(5) show ?thesis unfolding signed_row_def fr by auto
  qed
  with assms(1,4) show ?thesis unfolding cosigned_ok_def by metis
qed

section \<open>Every step keeps it\<close>

lemma distinct_drop:
  "distinct ((as @ cs @ bs) @ us @ is @ vs) \<Longrightarrow> i \<in> set cs \<union> set is \<Longrightarrow>
   distinct ((as @ bs) @ us @ vs) \<and> i \<notin> set as \<union> set bs \<and> i \<notin> set us \<union> set vs"
  by auto

lemma settle_keeps:
  assumes "desk_ok d" "onlySent i (dk_rows d)" "dk_claims d' = xs @ ys" "dk_claims d = xs @ cs @ ys"
    "dk_sends d' = us @ vs" "dk_sends d = us @ js @ vs" "set (map sp_id cs @ js) = {i}"
    "dk_ledger d' = settleSend i outcome (dk_ledger d)" "dk_cosigned d' = dk_cosigned d"
  shows "desk_ok d'"
proof -
  let ?f = "\<lambda>r. if sp_id r = i then settledRow outcome r else r"
  have rows: "dk_rows d' = map ?f (dk_rows d)" by (simp add: assms(8) settleSend_rows)
  have ledger: "dk_ledger d' = (dk_ledger d)\<lparr>sl_rows := map ?f (dk_rows d)\<rparr>" by (simp add: assms(8) settleSend_def)
  from assms(1) have ok: "ids_ok (dk_ledger d)" "claims_ok d" "cosigned_ok d" "asset_once (dk_rows d)"
    by (simp_all add: desk_ok_def)
  have sub: "set (dk_claims d') \<subseteq> set (dk_claims d)" "set (dk_sends d') \<subseteq> set (dk_sends d)" by (auto simp: assms)
  have "i \<in> sp_id ` set cs \<union> set js" using assms(7) by auto
  moreover have "distinct (map sp_id (dk_claims d) @ dk_sends d)" using ok(2) by (simp add: claims_ok_def)
  ultimately have "distinct (map sp_id (dk_claims d') @ dk_sends d')" "i \<notin> sp_id ` set (dk_claims d')" "i \<notin> set (dk_sends d')"
    using distinct_drop [of "map sp_id xs" "map sp_id cs" "map sp_id ys" us js vs i] unfolding assms(3-6) by (simp_all add: image_Un)
  moreover from this have "c \<in> set (dk_rows d')" if "c \<in> set (dk_claims d')" for c
  proof -
    have "sp_id c \<noteq> i" "c \<in> set (dk_rows d)" using that sub ok(2) calculation by (auto simp: claims_ok_def)
    then show ?thesis unfolding rows set_map by (intro image_eqI [of _ _ c]) simp_all
  qed
  moreover have "onlySent j (dk_rows d')" if "j \<in> set (dk_sends d')" for j
  proof -
    have "j \<noteq> i" "onlySent j (dk_rows d)" using that sub ok(2) calculation by (auto simp: claims_ok_def)
    then show ?thesis unfolding onlySent_def rows set_map by auto
  qed
  moreover have "j < sl_nextId (dk_ledger d')" if "j \<in> set (dk_sends d')" for j
    using that sub(2) ok(2) by (auto simp: claims_ok_def ledger)
  ultimately have "claims_ok d'" using ok(2) sub by (auto simp: claims_ok_def)
  moreover have "cosigned_ok d'"
    using ok(3) touches_settle rows assms(9)
    by (rule cosigned_touch) (use sub \<open>i \<notin> sp_id ` set (dk_claims d')\<close> in auto)
  moreover have "asset_once (dk_rows d')" unfolding rows by (rule asset_settle [OF ok(4) assms(2)])
  ultimately show ?thesis using touches_ids [OF touches_settle ok(1)] by (simp add: desk_ok_def ledger)
qed

lemma claim_keeps:
  assumes "desk_ok d" "claimSend q now (dk_ledger d) = (Claimed c, s)"
  shows "desk_ok (d\<lparr>dk_ledger := s, dk_claims := dk_claims d @ [c]\<rparr>)"
proof (cases rule: claimSend_cases [of q now "dk_ledger d"])
  case refused
  with assms(2) show ?thesis by simp
next
  case (claimed row)
  let ?f = "\<lambda>r. if sp_id r = sp_id row then sentRow q now r else r" and ?d' = "d\<lparr>dk_ledger := s, dk_claims := dk_claims d @ [c]\<rparr>"
  from assms(2) claimed(5) have c: "c = sentRow q now row" and s: "s = (dk_ledger d)\<lparr>sl_rows := map ?f (dk_rows d)\<rparr>"
    by simp_all
  have rows: "dk_rows ?d' = map ?f (dk_rows d)" by (simp add: s)
  from assms(1) have ok: "ids_ok (dk_ledger d)" "claims_ok d" "cosigned_ok d" "asset_once (dk_rows d)"
    by (simp_all add: desk_ok_def)
  have prepared: "sp_outcome row = Outcome_Prepared" "now - PREPARED_TTL_MS < sp_preparedAt row"
    using claimed(2) by (simp_all add: claimable_def)
  have new: "sp_id row \<notin> sp_id ` set (dk_claims d)" "sp_id row \<notin> set (dk_sends d)"
  proof -
    have "c' \<noteq> row" if "sp_outcome c' = Outcome_Sent" for c' using that prepared(1) by auto
    then show "sp_id row \<notin> sp_id ` set (dk_claims d)"
      using ok(2) row_unique [OF ok(1) claimed(1)] unfolding claims_ok_def by (metis imageE)
    show "sp_id row \<notin> set (dk_sends d)"
      using ok(2) claimed(1) prepared(1) unfolding claims_ok_def onlySent_def by (metis sponsorship_outcome.distinct(1))
  qed
  have kept: "r \<in> set (dk_rows ?d')" if "r \<in> set (dk_rows d)" "sp_id r \<noteq> sp_id row" for r
    unfolding rows set_map using that by (intro image_eqI [of _ _ r]) simp_all
  have "c \<in> set (dk_rows ?d')" unfolding rows set_map using claimed(1) by (intro image_eqI [of _ _ row]) (simp_all add: c)
  moreover have "in_time c" "sp_outcome c = Outcome_Sent" using prepared by (simp_all add: c in_time_def sentRow_def)
  moreover have "onlySent i (dk_rows ?d')" if "i \<in> set (dk_sends d)" for i
  proof -
    have "i \<noteq> sp_id row" "onlySent i (dk_rows d)" using that new ok(2) by (auto simp: claims_ok_def)
    then show ?thesis unfolding onlySent_def rows set_map by auto
  qed
  moreover have "x \<in> set (dk_rows ?d')" if "x \<in> set (dk_claims d)" for x
  proof (rule kept)
    show "x \<in> set (dk_rows d)" using that ok(2) by (simp add: claims_ok_def)
    show "sp_id x \<noteq> sp_id row" using that new(1) by (metis image_eqI)
  qed
  ultimately have "claims_ok ?d'" using ok(2) new by (auto simp: claims_ok_def c s)
  moreover have "cosigned_ok ?d'"
    using ok(3) touches_sent rows by (rule cosigned_touch) (use prepared(1) row_unique [OF ok(1) _ claimed(1)] in \<open>auto simp: c\<close>)
  moreover have "asset_once (dk_rows ?d')" unfolding rows by (rule asset_claim [OF ok(4,1) claimed(1,2,4)])
  ultimately show ?thesis using touches_ids [OF touches_sent ok(1)] by (simp add: desk_ok_def s)
qed

lemma claim_sent:
  assumes "ids_ok (dk_ledger d)" "claims_ok d" "c \<in> set (dk_claims d)"
  shows "onlySent (sp_id c) (dk_rows d)"
proof -
  have c: "c \<in> set (dk_rows d)" "sp_outcome c = Outcome_Sent" using assms(2,3) by (simp_all add: claims_ok_def)
  show ?thesis unfolding onlySent_def
  proof (intro ballI impI)
    fix r assume "r \<in> set (dk_rows d)" "sp_id r = sp_id c"
    then have "r = c" by (rule row_unique [OF assms(1) _ c(1)])
    with c(2) show "sp_outcome r = Outcome_Sent" by simp
  qed
qed

lemma cosign_keeps:
  assumes "desk_ok d" "dk_claims d = xs @ c # ys"
  shows "desk_ok (d\<lparr>dk_claims := xs @ ys, dk_sends := sp_id c # dk_sends d, dk_cosigned := dk_cosigned d @ [(sp_message c, sp_wallet c)]\<rparr>)"
    (is "desk_ok ?d'")
proof -
  from assms(1) have ok: "ids_ok (dk_ledger d)" "claims_ok d" "cosigned_ok d" "asset_once (dk_rows d)"
    by (simp_all add: desk_ok_def)
  have c: "c \<in> set (dk_rows d)" "sp_outcome c = Outcome_Sent" "in_time c"
    using ok(2) by (simp_all add: claims_ok_def assms(2))
  have apart: "sp_id c \<notin> sp_id ` (set xs \<union> set ys)" "sp_id c \<notin> set (dk_sends d)"
    using ok(2) by (auto simp: claims_ok_def assms(2))
  have sent: "onlySent (sp_id c) (dk_rows d)"
    using ok(1,2) by (rule claim_sent) (simp add: assms(2))
  have "sp_id c < sl_nextId (dk_ledger d)" using ok(1) c(1) by (simp add: ids_ok_def)
  with ok(2) apart sent have "claims_ok ?d'" by (auto simp: claims_ok_def assms(2))
  moreover have "cosigned_ok ?d'"
  proof -
    have "signed_row ?d' (sp_message c, sp_wallet c) c" using c apart by (simp add: signed_row_def)
    moreover have "signed_row ?d' mw r" if "signed_row d mw r" for mw r
      using that by (auto simp: signed_row_def assms(2))
    moreover have "sp_message c \<noteq> fst mw" if "mw \<in> set (dk_cosigned d)" for mw
    proof
      assume eq: "sp_message c = fst mw"
      from that ok(3) obtain r where r: "signed_row d mw r" unfolding cosigned_ok_def by blast
      with eq message_unique [OF ok(1) c(1), of r] have "c = r" by (auto simp: signed_row_def)
      with r show False by (simp add: signed_row_def assms(2))
    qed
    then have "sp_message c \<notin> fst ` set (dk_cosigned d)" by (metis imageE)
    then have "distinct (map fst (dk_cosigned ?d'))" using ok(3) by (simp add: cosigned_ok_def)
    ultimately show ?thesis unfolding cosigned_ok_def using ok(3) by (simp add: cosigned_ok_def) metis
  qed
  ultimately show ?thesis using ok(1,4) by (simp add: desk_ok_def)
qed

lemma cosigned_mono:
  "cosigned_ok d \<Longrightarrow> dk_cosigned d' = dk_cosigned d \<Longrightarrow> (\<And>mw r. signed_row d mw r \<Longrightarrow> signed_row d' mw r) \<Longrightarrow> cosigned_ok d'"
  unfolding cosigned_ok_def by metis

lemma crash_keeps:
  assumes "desk_ok d" "set (dk_claims d') \<subseteq> set (dk_claims d)" "set (dk_sends d') \<subseteq> set (dk_sends d)"
    "distinct (map sp_id (dk_claims d') @ dk_sends d')" "dk_ledger d' = dk_ledger d" "dk_cosigned d' = dk_cosigned d"
  shows "desk_ok d'"
proof -
  have "signed_row d' mw r" if "signed_row d mw r" for mw r
    using that assms(2,5) by (auto simp: signed_row_def)
  with assms(1,6) have "cosigned_ok d'" unfolding desk_ok_def by (intro cosigned_mono [of d d']) simp_all
  moreover have "claims_ok d'" using assms by (auto simp: desk_ok_def claims_ok_def)
  ultimately show ?thesis using assms(1,5) by (simp add: desk_ok_def)
qed

lemma asset_once_append: "asset_once rows \<Longrightarrow> \<forall>r \<in> set new. \<not> isSpent r \<Longrightarrow> asset_once (rows @ new)"
  unfolding asset_once_def set_append by blast

lemma prepare_keeps: "desk_ok d \<Longrightarrow> desk_ok (d\<lparr>dk_ledger := recordPrepared p clock (dk_ledger d)\<rparr>)"
proof -
  assume ok: "desk_ok d"
  let ?d' = "d\<lparr>dk_ledger := recordPrepared p clock (dk_ledger d)\<rparr>"
  obtain new where new: "dk_rows ?d' = dk_rows d @ new" "list_all (\<lambda>r. sp_outcome r = Outcome_Prepared \<and> sp_id r = sl_nextId (dk_ledger d)) new"
  proof (cases "pr_message p \<in> sp_message ` set (dk_rows d)")
    case True
    then show thesis by (intro that [of "[]"]) (simp_all add: recordPrepared_def)
  next
    case False
    then show thesis by (intro that [of "drop (length (dk_rows d)) (dk_rows ?d')"]) (simp_all add: recordPrepared_def)
  qed
  have fresh: "sp_id r < sl_nextId (dk_ledger d)" if "r \<in> set (dk_rows d)" for r
    using ok that by (simp add: desk_ok_def ids_ok_def)
  have "claims_ok ?d'"
    unfolding claims_ok_def
  proof (intro conjI ballI)
    have c: "claims_ok d" using ok by (simp add: desk_ok_def)
    show "distinct (map sp_id (dk_claims ?d') @ dk_sends ?d')" using c by (simp add: claims_ok_def)
    fix x assume "x \<in> set (dk_claims ?d')"
    then have "x \<in> set (dk_rows d)" "sp_outcome x = Outcome_Sent" "in_time x" using c by (simp_all add: claims_ok_def)
    then show "x \<in> set (dk_rows ?d')" "sp_outcome x = Outcome_Sent" "in_time x" unfolding new(1) by simp_all
  next
    fix i assume "i \<in> set (dk_sends ?d')"
    then have i: "i < sl_nextId (dk_ledger d)" "onlySent i (dk_rows d)" using ok by (simp_all add: desk_ok_def claims_ok_def)
    then show "i < sl_nextId (dk_ledger ?d')" by (simp add: recordPrepared_def)
    show "onlySent i (dk_rows ?d')" unfolding new(1) using i new(2) by (auto simp: onlySent_def list_all_iff)
  qed
  moreover have "signed_row ?d' mw r" if "signed_row d mw r" for mw r
    using that new(1) by (simp add: signed_row_def)
  then have "cosigned_ok ?d'" using ok unfolding desk_ok_def by (intro cosigned_mono [of d ?d']) simp_all
  moreover have "asset_once (dk_rows ?d')"
    unfolding new(1) by (rule asset_once_append) (use ok new(2) in \<open>auto simp: desk_ok_def list_all_iff isSpent_def\<close>)
  ultimately show ?thesis using ok recordPrepared_ids by (simp add: desk_ok_def)
qed

lemma step_keeps_ok: "desk_step Q d d' \<Longrightarrow> desk_ok d \<Longrightarrow> desk_ok d'"
proof (induction rule: desk_step.induct)
  case (Prepare d p clock)
  then show ?case by (rule prepare_keeps)
next
  case (Claim q now d c s)
  from Claim(3,2) show ?case by (rule claim_keeps)
next
  case (Shape d xs c ys reason)
  then have "onlySent (sp_id c) (dk_rows d)" by (intro claim_sent) (simp_all add: desk_ok_def)
  with Shape(2) show ?case
    by (rule settle_keeps [where i = "sp_id c" and cs = "[c]" and js = "[]" and us = "[]" and vs = "dk_sends d"])
      (simp_all add: Shape(1))
next
  case (Cosign d xs c ys)
  from Cosign(2,1) show ?case by (rule cosign_keeps)
next
  case (Settle d xs i ys outcome)
  then have "onlySent i (dk_rows d)" by (simp add: desk_ok_def claims_ok_def)
  with Settle(2) show ?case
    by (rule settle_keeps [where i = i and cs = "[]" and js = "[i]" and us = xs and vs = ys and xs = "dk_claims d" and ys = "[]"])
      (simp_all add: Settle(1))
next
  case (Crash_Claim d xs c ys)
  then show ?case by (intro crash_keeps [of d "d\<lparr>dk_claims := xs @ ys\<rparr>"]) (auto simp: desk_ok_def claims_ok_def)
next
  case (Crash_Send d xs i ys)
  then show ?case by (intro crash_keeps [of d "d\<lparr>dk_sends := xs @ ys\<rparr>"]) (auto simp: desk_ok_def claims_ok_def)
qed

lemma run_ok: "desk_run Q d \<Longrightarrow> desk_ok d"
  unfolding desk_run_def
proof (induction rule: rtranclp_induct)
  case base
  show ?case by (simp add: openDesk_def emptyLedger_def desk_ok_def ids_ok_def claims_ok_def cosigned_ok_def asset_once_def)
next
  case (step d d')
  then show ?case by (simp add: step_keeps_ok)
qed

text \<open>Every step is a change of the table, or leaves it.\<close>

lemma step_changes:
  assumes "desk_step Q d d'" "desk_ok d"
  shows "dk_rows d' = dk_rows d \<or> (\<exists>now. ledger_change Q now (dk_rows d) (dk_rows d'))"
proof -
  have ids: "ids_ok (dk_ledger d)" using assms(2) by (simp add: desk_ok_def)
  from assms(1) show ?thesis
  proof cases
    case (Prepare p clock)
    with ledger_change.prepare [OF ids] show ?thesis by auto
  next
    case (Claim q now c s)
    with ledger_change.claim [OF ids, of Q q now] show ?thesis by auto
  next
    case (Shape xs c ys reason)
    then have "onlySent (sp_id c) (dk_rows d)" using assms(2) by (intro claim_sent) (simp_all add: desk_ok_def)
    with ledger_change.settle [OF ids this] Shape show ?thesis by auto
  next
    case (Settle xs i ys outcome)
    then have "onlySent i (dk_rows d)" using assms(2) by (simp add: desk_ok_def claims_ok_def)
    with ledger_change.settle [OF ids this] Settle show ?thesis by auto
  qed simp_all
qed

lemma run_windowed:
  assumes "\<And>rows now rows'. windowed at window most rows \<Longrightarrow> ledger_change Q now rows rows' \<Longrightarrow> windowed at window most rows'"
    "desk_run Q d"
  shows "windowed at window most (dk_rows d)"
  using assms(2) unfolding desk_run_def
proof (induction rule: rtranclp_induct)
  case base
  show ?case by (simp add: openDesk_def emptyLedger_def)
next
  case (step d d')
  then have "desk_ok d" using run_ok by (simp add: desk_run_def)
  with step_changes [OF step(2)] step(3) assms(1) show ?case by metis
qed

section \<open>Properties\<close>

text \<open>How many of the rows \<open>P\<close> names were sent within the \<open>window\<close> that ends at \<open>t\<close>, and have not failed.\<close>

definition sentIn :: "(sponsorship \<Rightarrow> bool) \<Rightarrow> int \<Rightarrow> int \<Rightarrow> sponsorship list \<Rightarrow> nat" where
  "sentIn P window t rows =
     length (filter (\<lambda>r. isSpent r \<and> P r \<and> (case sp_sentAt r of None \<Rightarrow> False | Some s \<Rightarrow> t - window < s \<and> s \<le> t)) rows)"

lemma windowed_sentIn: "windowed (sponsoredAt P) window most rows \<Longrightarrow> sentIn P window t rows \<le> most"
proof -
  have "size (filter_mset (\<lambda>s. t - window < s \<and> s \<le> t) (times (sponsoredAt P) rows)) = sentIn P window t rows"
    by (induction rows) (auto simp: sentIn_def sponsoredAt_def split: option.splits)
  then show "windowed (sponsoredAt P) window most rows \<Longrightarrow> ?thesis" unfolding windowed_def by metis
qed

lemma limits_bound:
  assumes "desk_run Q d"
  shows "sentIn (ofWallet w) DAY_MS t (dk_rows d) \<le> LIMIT_WALLET" "sentIn (\<lambda>_. True) DAY_MS t (dk_rows d) \<le> LIMIT_ALL"
    "sentIn (isReturn w) RETURN_WINDOW_MS t (dk_rows d) \<le> RETURN_LIMIT"
  by (rule windowed_sentIn, rule run_windowed [OF _ assms], erule (1) wallet_limit.keeps all_limit.keeps return_limit.keeps)+

lemma address_bound: "desk_run (\<lambda>q. cq_ip q \<noteq> None) d \<Longrightarrow> sentIn (fromIp a) DAY_MS t (dk_rows d) \<le> LIMIT_IP"
  by (rule windowed_sentIn, erule run_windowed [rotated], erule (1) ip_limit.keeps)


text \<open>
  C9: The sponsor signs a message once: every message it co-signed is one the route prepared for that
  wallet, claimed within two minutes of it, and no message is co-signed twice; and it never pays twice
  for a wallet's account in an asset.
\<close>

theorem cosigned_once:
  assumes "desk_run Q d"
  shows "distinct (map fst (dk_cosigned d))
    \<and> (\<forall>(m, w) \<in> set (dk_cosigned d). \<exists>r \<in> set (dk_rows d). sp_message r = m \<and> sp_wallet r = w
         \<and> sp_outcome r \<noteq> Outcome_Prepared \<and> (\<exists>t. sp_sentAt r = Some t \<and> t - PREPARED_TTL_MS < sp_preparedAt r))
    \<and> (\<forall>r \<in> set (dk_rows d). \<forall>r' \<in> set (dk_rows d). isSpent r \<and> isSpent r' \<and> sp_wallet r = sp_wallet r'
         \<and> pr_assetAccount (sp_prepared r) \<noteq> None \<and> pr_assetAccount (sp_prepared r) = pr_assetAccount (sp_prepared r') \<longrightarrow> r = r')"
proof (intro conjI)
  note ok = run_ok [OF assms, unfolded desk_ok_def]
  show "distinct (map fst (dk_cosigned d))" using ok by (simp add: cosigned_ok_def)
  show "\<forall>(m, w) \<in> set (dk_cosigned d). \<exists>r \<in> set (dk_rows d). sp_message r = m \<and> sp_wallet r = w
     \<and> sp_outcome r \<noteq> Outcome_Prepared \<and> (\<exists>t. sp_sentAt r = Some t \<and> t - PREPARED_TTL_MS < sp_preparedAt r)"
  proof (intro ballI, clarify)
    fix m w assume "(m, w) \<in> set (dk_cosigned d)"
    with ok obtain r where "signed_row d (m, w) r" unfolding cosigned_ok_def by blast
    then show "\<exists>r \<in> set (dk_rows d). sp_message r = m \<and> sp_wallet r = w
      \<and> sp_outcome r \<noteq> Outcome_Prepared \<and> (\<exists>t. sp_sentAt r = Some t \<and> t - PREPARED_TTL_MS < sp_preparedAt r)"
      unfolding signed_row_def in_time_def by blast
  qed
  show "\<forall>r \<in> set (dk_rows d). \<forall>r' \<in> set (dk_rows d). isSpent r \<and> isSpent r' \<and> sp_wallet r = sp_wallet r'
     \<and> pr_assetAccount (sp_prepared r) \<noteq> None \<and> pr_assetAccount (sp_prepared r) = pr_assetAccount (sp_prepared r') \<longrightarrow> r = r'"
    using ok row_unique unfolding asset_once_def by blast
qed

section \<open>A request, served\<close>

definition demoPrepared :: prepared where
  "demoPrepared = \<lparr>pr_assetAccount = Some ''SPYX'', pr_computeUnitLimit = 77000, pr_computeUnitPrice = 1000,
     pr_computeUnits = 70000, pr_ip = Some ''192.0.2.1'', pr_kind = Kind_Enroll, pr_lastValidBlockHeight = 150,
     pr_message = ''hash'', pr_sponsorLamports = 6000000, pr_wallet = ''W''\<rparr>"

definition demoRequest :: claim_request where
  "demoRequest = \<lparr>cq_ip = Some ''192.0.2.1'', cq_message = ''hash'', cq_wallet = ''W''\<rparr>"

definition demoClaimedRow :: sponsorship where
  "demoClaimedRow = \<lparr>sp_id = 1, sp_prepared = demoPrepared, sp_ip = Some ''192.0.2.1'', sp_preparedAt = 1000,
     sp_sentAt = Some 61000, sp_signature = None, sp_outcome = Outcome_Sent, sp_reason = None\<rparr>"

definition demoDesk :: desk where
  "demoDesk = \<lparr>dk_ledger = \<lparr>sl_rows = [settledRow (Send_Landed ''sig'') demoClaimedRow], sl_nextId = 2\<rparr>,
     dk_claims = [], dk_sends = [], dk_cosigned = [(''hash'', ''W'')]\<rparr>"

text \<open>The message is prepared, claimed a minute later, co-signed, and landed.\<close>

lemma demo_desk: "desk_run (\<lambda>q. cq_ip q \<noteq> None) demoDesk"
proof -
  let ?step = "desk_step (\<lambda>q. cq_ip q \<noteq> None)"
  let ?l1 = "recordPrepared demoPrepared 1000 emptyLedger" and ?l2 = "\<lparr>sl_rows = [demoClaimedRow], sl_nextId = 2\<rparr>"
  have "?step openDesk (openDesk\<lparr>dk_ledger := ?l1\<rparr>)"
    using desk_step.Prepare [of _ openDesk demoPrepared 1000] by (simp add: openDesk_def)
  moreover have "claimSend demoRequest 61000 ?l1 = (Claimed demoClaimedRow, ?l2)" by code_simp
  then have "?step (openDesk\<lparr>dk_ledger := ?l1\<rparr>) (openDesk\<lparr>dk_ledger := ?l2, dk_claims := [demoClaimedRow]\<rparr>)"
    using desk_step.Claim [of "\<lambda>q. cq_ip q \<noteq> None" demoRequest 61000 "openDesk\<lparr>dk_ledger := ?l1\<rparr>" demoClaimedRow ?l2]
    by (simp add: openDesk_def demoRequest_def)
  moreover have "?step (openDesk\<lparr>dk_ledger := ?l2, dk_claims := [demoClaimedRow]\<rparr>)
      (openDesk\<lparr>dk_ledger := ?l2, dk_sends := [1], dk_cosigned := [(''hash'', ''W'')]\<rparr>)"
    using desk_step.Cosign [of "openDesk\<lparr>dk_ledger := ?l2, dk_claims := [demoClaimedRow]\<rparr>" "[]" demoClaimedRow "[]"]
    by (simp add: openDesk_def demoClaimedRow_def demoPrepared_def)
  moreover have "?step (openDesk\<lparr>dk_ledger := ?l2, dk_sends := [1], dk_cosigned := [(''hash'', ''W'')]\<rparr>) demoDesk"
    using desk_step.Settle [of "openDesk\<lparr>dk_ledger := ?l2, dk_sends := [1], dk_cosigned := [(''hash'', ''W'')]\<rparr>" "[]" 1 "[]" _ "Send_Landed ''sig''"]
    by (simp add: openDesk_def demoDesk_def settleSend_def demoClaimedRow_def)
  ultimately show ?thesis unfolding desk_run_def by (meson rtranclp.rtrancl_into_rtrancl rtranclp.rtrancl_refl)
qed


theorem cosigned_once_witness:
  "distinct (map fst (dk_cosigned demoDesk)) \<and> dk_cosigned demoDesk = [(''hash'', ''W'')]
   \<and> (\<exists>r \<in> set (dk_rows demoDesk). sp_message r = ''hash'' \<and> sp_wallet r = ''W'' \<and> sp_outcome r \<noteq> Outcome_Prepared)"
proof -
  have "dk_cosigned demoDesk = [(''hash'', ''W'')]" by (simp add: demoDesk_def)
  with cosigned_once [OF demo_desk] show ?thesis by force
qed

end
