(* ===== verification/Fees.thy ===== *)
theory Fees
  imports Jupiter
begin

text \<open>
  The fees and limits of what the services send, as \<open>services/operator/src/send.ts\<close> and
  \<open>apps/app/lib/sponsor.ts\<close> set them: a price within a floor and a ceiling, and a tenth more than the
  simulation used.
\<close>

section \<open>The compute-unit price\<close>

record fee_policy =
  fp_ceiling :: int
  fp_floor :: int
  fp_percentile :: int

definition PRIORITY_FEE :: fee_policy where
  "PRIORITY_FEE = \<lparr>fp_ceiling = 1000000, fp_floor = 1000, fp_percentile = 75\<rparr>"

definition SPONSOR_PRIORITY_FEE :: fee_policy where
  "SPONSOR_PRIORITY_FEE = \<lparr>fp_ceiling = 100000, fp_floor = 1000, fp_percentile = 75\<rparr>"

text \<open>\<open>fees[min(length - 1, floor(length * percentile / 100))] ?? 0\<close> of the sorted fees, clamped.\<close>

definition percentileFee :: "fee_policy \<Rightarrow> int list \<Rightarrow> int" where
  "percentileFee policy recent =
     (let fees = sort recent; n = int (length fees)
      in (case nth_opt fees (min (n - 1) (n * fp_percentile policy div 100)) of None \<Rightarrow> 0 | Some fee \<Rightarrow> fee))"

definition clampedFee :: "fee_policy \<Rightarrow> int \<Rightarrow> int" where
  "clampedFee policy fee =
     (if fee < fp_floor policy then fp_floor policy else if fee > fp_ceiling policy then fp_ceiling policy else fee)"

definition recentPriorityFee :: "(address list \<Rightarrow> int list outcome) \<Rightarrow> fee_policy \<Rightarrow> address list \<Rightarrow> int outcome" where
  "recentPriorityFee rpc policy accounts =
     res_bind (rpc accounts) (\<lambda>recent. Inr (clampedFee policy (percentileFee policy recent)))"

definition writableAccounts :: "account_meta list list \<Rightarrow> address list" where
  "writableAccounts instructions =
     distinct_order (map meta_address (filter (\<lambda>m. isWritableRole (meta_role m)) (concat instructions)))"

lemma recentPriorityFee_bounds:
  assumes "recentPriorityFee rpc policy accounts = Inr fee" "fp_floor policy \<le> fp_ceiling policy"
  shows "fp_floor policy \<le> fee" "fee \<le> fp_ceiling policy"
  using assms by (auto simp: recentPriorityFee_def clampedFee_def result_simps)

lemma percentileFee_recent:
  assumes "recent \<noteq> []" "0 \<le> fp_percentile policy"
  shows "percentileFee policy recent \<in> set recent"
proof -
  let ?n = "int (length recent)"
  let ?i = "min (?n - 1) (?n * fp_percentile policy div 100)"
  have "1 \<le> ?n" using assms(1) by (cases recent) simp_all
  moreover have "0 \<le> ?n * fp_percentile policy div 100" using assms(2) by (simp add: pos_imp_zdiv_nonneg_iff)
  ultimately have "0 \<le> ?i" "?i < int (length (sort recent))" using assms(1) by (auto simp: min_def)
  then obtain fee where fee: "nth_opt (sort recent) ?i = Some fee" by (simp add: nth_opt_def)
  then have "fee \<in> set (sort recent)" by (rule nth_opt_in_set)
  with fee show ?thesis by (simp add: percentileFee_def Let_def)
qed

section \<open>The limit\<close>

text \<open>
  \<open>Math.ceil(limit * 1.1)\<close> in doubles: the double \<open>1.1\<close> is \<open>4953959590107546 / 2 ^ 52\<close>, and the product
  is rounded to 53 bits, ties to even.
\<close>

definition LIMIT_MARGIN_MANTISSA :: int where "LIMIT_MARGIN_MANTISSA = 4953959590107546"

text \<open>The nearest multiple of \<open>step\<close>, the even one of two.\<close>

definition nearest :: "int \<Rightarrow> int \<Rightarrow> int" where
  "nearest step x =
     (let q = x div step; r = x mod step
      in if 2 * r > step \<or> (2 * r = step \<and> odd q) then (q + 1) * step else q * step)"

fun ulp :: "nat \<Rightarrow> int \<Rightarrow> int \<Rightarrow> int" where
  "ulp 0 step x = step"
| "ulp (Suc fuel) step x = (if x < 2 ^ 53 * step then step else ulp fuel (2 * step) x)"

definition withMargin :: "int \<Rightarrow> int" where
  "withMargin limit =
     (let product = limit * LIMIT_MARGIN_MANTISSA
      in - ((- nearest (ulp 64 1 product) product) div 2 ^ 52))"

definition priorityFeeLamports :: "int \<Rightarrow> int \<Rightarrow> int" where
  "priorityFeeLamports price computeUnitLimit = js_div (price * computeUnitLimit + 999999) 1000000"

lemma nearest_bounds:
  assumes "0 < step"
  shows "2 * nearest step x \<le> 2 * x + step" "2 * x - step \<le> 2 * nearest step x"
proof -
  define q r where "q = x div step" and "r = x mod step"
  have x: "x = q * step + r" "0 \<le> r" "r < step" using assms by (simp_all add: q_def r_def)
  have "nearest step x = (if 2 * r > step \<or> (2 * r = step \<and> odd q) then (q + 1) * step else q * step)"
    by (simp add: nearest_def q_def r_def Let_def)
  with x show "2 * nearest step x \<le> 2 * x + step" "2 * x - step \<le> 2 * nearest step x"
    by (auto simp: algebra_simps)
qed

lemma ulp_small: "0 < step \<Longrightarrow> 0 < ulp fuel step x \<and> (ulp fuel step x = step \<or> 2 ^ 52 * ulp fuel step x \<le> x)"
proof (induction fuel arbitrary: step)
  case (Suc fuel)
  show ?case
  proof (cases "x < 2 ^ 53 * step")
    case False
    with Suc.IH [of "2 * step"] Suc.prems show ?thesis by auto
  qed (use Suc.prems in simp)
qed simp

text \<open>
  The limit a service sets is the simulation's plus a tenth, at most one unit more: the double
  product never loses enough to round below it.
\<close>

theorem limit_margin:
  assumes "0 \<le> limit" "limit < 2 ^ 32"
  shows "11 * limit \<le> 10 * withMargin limit \<and> 10 * withMargin limit \<le> 11 * limit + 10"
proof -
  define p where "p = limit * LIMIT_MARGIN_MANTISSA"
  define step where "step = ulp 64 1 p"
  define rounded where "rounded = nearest step p"
  have p: "10 * p = 11 * limit * 2 ^ 52 + 4 * limit" "0 \<le> p" "p \<le> 2 ^ 85"
    using assms by (simp_all add: p_def LIMIT_MARGIN_MANTISSA_def)
  from ulp_small [of 1 64 p] p have step: "0 < step" "step \<le> 2 ^ 33" by (auto simp: step_def)
  from nearest_bounds [OF step(1), of p]
  have near: "2 * rounded \<le> 2 * p + step" "2 * p - step \<le> 2 * rounded" by (simp_all add: rounded_def)
  define w where "w = withMargin limit"
  have "w = - ((- rounded) div 2 ^ 52)" by (simp add: w_def withMargin_def p_def step_def rounded_def Let_def)
  then have w: "rounded \<le> w * 2 ^ 52" "w * 2 ^ 52 < rounded + 2 ^ 52"
    using div_mult_mod_eq [of "- rounded" "2 ^ 52"] pos_mod_bound [of "2 ^ 52" "- rounded"] pos_mod_sign [of "2 ^ 52" "- rounded"]
    by simp_all
  have "11 * limit \<le> 10 * w"
  proof (rule ccontr)
    assume "\<not> 11 * limit \<le> 10 * w"
    then have "10 * w \<le> 11 * limit - 1" by simp
    with w(1) near(2) step p(1) assms(1) show False by simp
  qed
  moreover have "10 * w < 11 * limit + 11"
  proof (rule ccontr)
    assume "\<not> 10 * w < 11 * limit + 11"
    then have "11 * limit + 11 \<le> 10 * w" by simp
    with w(2) near(1) step p(1) assms show False by simp
  qed
  ultimately show ?thesis by (simp add: w_def)
qed

theorem limit_margin_witness: "11 * 70000 \<le> 10 * withMargin 70000 \<and> 10 * withMargin 70000 \<le> 11 * 70000 + 10 \<and> withMargin 10 = 11"
proof -
  have "withMargin 10 = 11" by code_simp
  with limit_margin [of 70000] show ?thesis by simp
qed

end
