(* ===== verification/Sponsor_Shape.thy ===== *)
theory Sponsor_Shape
  imports Fees Program_Ids Sponsorships Failures Demo_Cluster
begin

text \<open>
  What the sponsor co-signs (\<open>shapeProblem\<close> and \<open>instructionProblem\<close> of \<open>apps/app/lib/sponsor.ts\<close>). A
  transaction comes from the wallet, so nothing of it is trusted: the lemmas read off a message that passes
  everything the sponsor's signature authorizes.
\<close>

section \<open>The message\<close>

record table_lookup =
  lk_table :: address
  lk_writable :: "int list"
  lk_readonly :: "int list"

record compiled_header =
  ch_version :: int
  ch_lifetimeToken :: string
  ch_lookups :: "table_lookup list"
  ch_programIndexes :: "int list"
  ch_numSigners :: nat
  ch_staticAccounts :: "address list"

record shape_instruction =
  xi_program :: address
  xi_accounts :: "account_meta list"
  xi_data :: bytes

record decompiled =
  dm_instructions :: "shape_instruction list"
  dm_unitLimit :: "int option"
  dm_unitPrice :: "int option"

record wallet_transaction =
  wt_message :: bytes
  wt_signers :: "address list"

datatype subscriptions_instruction =
    Sx_InitSubscriptionAuthority | Sx_Subscribe | Sx_ResumeSubscription | Sx_RevokeDelegation
  | Sx_RevokeAbandonedSubscription | Sx_Other

record ata_accounts =
  ata_payer_of :: address
  ata_owner_of :: address
  ata_mint_of :: address

record plan_accounts =
  pa_subscriber :: address
  pa_merchant :: address
  pa_plan :: address
  pa_payer :: address

text \<open>
  The kit's decoders, and the parsers of the Associated Token and Subscriptions clients, which throw on too
  few accounts or foreign data. A parser fills the accounts its instruction has.
\<close>

record shape_lib =
  xl_decode :: "bytes \<Rightarrow> compiled_header outcome"
  xl_decompile :: "bytes \<Rightarrow> (address \<rightharpoonup> address list) \<Rightarrow> decompiled outcome"
  xl_isCreateIdempotent :: "shape_instruction \<Rightarrow> bool outcome"
  xl_ataAccounts :: "shape_instruction \<Rightarrow> ata_accounts outcome"
  xl_identifySubscriptions :: "shape_instruction \<Rightarrow> subscriptions_instruction outcome"
  xl_authorityOwner :: "shape_instruction \<Rightarrow> address outcome"
  xl_subscribeAccounts :: "shape_instruction \<Rightarrow> plan_accounts outcome"
  xl_resumeAccounts :: "shape_instruction \<Rightarrow> plan_accounts outcome"
  xl_revokeAuthority :: "shape_instruction \<Rightarrow> address outcome"
  xl_abandonedAccounts :: "shape_instruction \<Rightarrow> plan_accounts outcome"
  xl_ATA_PROGRAM :: address

definition COMPUTE_BUDGET :: address where
  "COMPUTE_BUDGET = ''ComputeBudget111111111111111111111111111111''"

definition SPONSOR_MAX_UNITS :: int where "SPONSOR_MAX_UNITS = 150000"

record shape_context =
  sc_config :: config
  sc_kind :: sponsorship_kind
  sc_lookupTable :: "address \<rightharpoonup> address list"
  sc_sponsor :: address
  sc_user :: address

section \<open>One instruction\<close>

text \<open>The program's own parsers: user and payer are the first two accounts of \<open>enroll\<close> and of \<open>reactivate\<close>.\<close>

definition parseJoin :: "lib \<Rightarrow> nat \<Rightarrow> shape_instruction \<Rightarrow> (address \<times> address) outcome" where
  "parseJoin L expected i =
     (if length (xi_accounts i) < expected then Inl (PlainError ''INSUFFICIENT_ACCOUNT_METAS'')
      else res_bind (decodeWith (rdEnrollParams L) (drop 8 (xi_data i))) (\<lambda>_.
           Inr (meta_address (xi_accounts i ! 0), meta_address (xi_accounts i ! 1))))"

definition parseEnrollInstruction :: "lib \<Rightarrow> shape_instruction \<Rightarrow> (address \<times> address) outcome" where
  "parseEnrollInstruction L = parseJoin L 5"

definition parseReactivateInstruction :: "lib \<Rightarrow> shape_instruction \<Rightarrow> (address \<times> address) outcome" where
  "parseReactivateInstruction L = parseJoin L 4"

record shape_rules =
  sh_assets :: "address list"
  sh_index :: nat
  sh_kind :: sponsorship_kind
  sh_last :: nat
  sh_plans :: "address list"
  sh_sponsor :: address
  sh_sponsorSigns :: nat
  sh_user :: address
  sh_vault :: address

definition paid :: "shape_rules \<Rightarrow> address \<Rightarrow> string option" where
  "paid s payer =
     (if payer = sh_sponsor s \<and> sh_sponsorSigns s = 1 then None else Some ''the sponsor signs it but not as its payer'')"

definition unpaid :: "shape_rules \<Rightarrow> string option" where
  "unpaid s = (if sh_sponsorSigns s = 0 then None else Some ''the sponsor signs it'')"

text \<open>A check that fails with its reason before the next; a throw ends them all.\<close>

definition unless :: "bool \<Rightarrow> string \<Rightarrow> string option outcome \<Rightarrow> string option outcome" where
  "unless bad reason rest = (if bad then Inr (Some reason) else rest)"

definition lastAccount :: "shape_instruction \<Rightarrow> address outcome" where
  "lastAccount i = (if xi_accounts i = [] then Inl TypeError else Inr (meta_address (last (xi_accounts i))))"

definition notPart :: "shape_rules \<Rightarrow> string option" where
  "notPart s = Some (''it is not part of '' @ (if sh_kind s = Kind_Enroll then ''onboarding'' else ''a reactivation''))"

definition ataProblem :: "shape_lib \<Rightarrow> shape_rules \<Rightarrow> shape_instruction \<Rightarrow> string option outcome" where
  "ataProblem X s i =
     (if sh_index s = sh_last s then Inr (notPart s)
      else res_bind (xl_isCreateIdempotent X i) (\<lambda>create.
           if \<not> create then Inr (notPart s)
           else res_bind (xl_ataAccounts X i) (\<lambda>a.
                unless (ata_owner_of a \<noteq> sh_user s) ''the account is not the user's'' (
                unless (ata_mint_of a \<notin> set (sh_assets s)) ''the mint is not an asset'' (
                Inr (paid s (ata_payer_of a)))))))"

definition notLaterites :: string where "notLaterites = ''the plan is not Laterite's''"

definition subscriptionsProblem :: "shape_lib \<Rightarrow> shape_rules \<Rightarrow> shape_instruction \<Rightarrow> string option outcome" where
  "subscriptionsProblem X s i =
     (if sh_index s = sh_last s then Inr (notPart s)
      else res_bind (xl_identifySubscriptions X i) (\<lambda>kind.
           case kind of
             Sx_InitSubscriptionAuthority \<Rightarrow> res_bind (xl_authorityOwner X i) (\<lambda>owner.
               unless (owner \<noteq> sh_user s) ''the authority is not the user's'' (
               res_bind (lastAccount i) (\<lambda>payer. Inr (paid s payer))))
           | Sx_Subscribe \<Rightarrow> res_bind (xl_subscribeAccounts X i) (\<lambda>a.
               unless (pa_subscriber a \<noteq> sh_user s) ''the subscriber is not the user'' (
               unless (pa_merchant a \<noteq> sh_vault s) notLaterites (
               unless (pa_plan a \<notin> set (sh_plans s)) notLaterites (
               res_bind (lastAccount i) (\<lambda>payer. Inr (paid s payer))))))
           | Sx_ResumeSubscription \<Rightarrow> res_bind (xl_resumeAccounts X i) (\<lambda>a.
               unless (pa_subscriber a \<noteq> sh_user s) ''the subscriber is not the user'' (
               unless (pa_plan a \<notin> set (sh_plans s)) notLaterites (
               Inr (unpaid s))))
           | Sx_RevokeDelegation \<Rightarrow> res_bind (xl_revokeAuthority X i) (\<lambda>authority.
               unless (authority \<noteq> sh_user s) ''the user does not close it'' (
               Inr (unpaid s)))
           | Sx_RevokeAbandonedSubscription \<Rightarrow> res_bind (xl_abandonedAccounts X i) (\<lambda>a.
               unless (pa_plan a \<notin> set (sh_plans s)) notLaterites (
               Inr (paid s (pa_payer a))))
           | Sx_Other \<Rightarrow> Inr (notPart s)))"

definition lateriteProblem :: "lib \<Rightarrow> shape_rules \<Rightarrow> shape_instruction \<Rightarrow> string option outcome" where
  "lateriteProblem L s i =
     (if sh_index s \<noteq> sh_last s then Inr (notPart s)
      else res_bind (identifyLateriteInstruction (xi_data i)) (\<lambda>type.
           if sh_kind s = Kind_Enroll \<and> type = IxEnroll
           then res_bind (parseEnrollInstruction L i) (\<lambda>(user, payer).
                unless (user \<noteq> sh_user s) ''the user does not enroll'' (Inr (paid s payer)))
           else if sh_kind s = Kind_Reactivate \<and> type = IxReactivate
           then res_bind (parseReactivateInstruction L i) (\<lambda>(user, payer).
                unless (user \<noteq> sh_user s) ''the user does not return'' (Inr (paid s payer)))
           else Inr (notPart s)))"

definition instructionProblem :: "lib \<Rightarrow> shape_lib \<Rightarrow> shape_rules \<Rightarrow> shape_instruction \<Rightarrow> string option" where
  "instructionProblem L X s i =
     (let attempt =
        (if xi_program i = xl_ATA_PROGRAM X then ataProblem X s i
         else if xi_program i = SUBSCRIPTIONS_PROGRAM_ADDRESS L then subscriptionsProblem X s i
         else if xi_program i = LATERITE_PROGRAM_ADDRESS then lateriteProblem L s i
         else Inr (notPart s))
      in case attempt of Inl _ \<Rightarrow> Some ''it does not parse'' | Inr problem \<Rightarrow> problem)"

section \<open>The whole message\<close>

definition sponsorSigns :: "address \<Rightarrow> shape_instruction \<Rightarrow> nat" where
  "sponsorSigns sponsor i =
     length (filter (\<lambda>m. meta_address m = sponsor \<and> isSignerRole (meta_role m)) (xi_accounts i))"

definition isBudget :: "int \<Rightarrow> shape_instruction option \<Rightarrow> bool" where
  "isBudget kind instruction =
     (case instruction of None \<Rightarrow> False
      | Some i \<Rightarrow> xi_program i = COMPUTE_BUDGET \<and> xi_data i \<noteq> [] \<and> uint (hd (xi_data i)) = kind)"

definition sponsoredPlans :: "lib \<Rightarrow> address list" where
  "sponsoredPlans L = [findPlanAddress L 0 0, findPlanAddress L 0 1, findPlanAddress L 1 0, findPlanAddress L 1 1]"

definition rulesAt :: "lib \<Rightarrow> shape_context \<Rightarrow> shape_instruction list \<Rightarrow> nat \<Rightarrow> shape_rules" where
  "rulesAt L c body index =
     \<lparr>sh_assets = map asset_mint (cfg_assets (sc_config c)), sh_index = index, sh_kind = sc_kind c, sh_last = length body - 1,
      sh_plans = sponsoredPlans L, sh_sponsor = sc_sponsor c, sh_sponsorSigns = sponsorSigns (sc_sponsor c) (body ! index),
      sh_user = sc_user c, sh_vault = findVaultPda L\<rparr>"

fun bodyProblem :: "lib \<Rightarrow> shape_lib \<Rightarrow> shape_context \<Rightarrow> shape_instruction list \<Rightarrow> nat list \<Rightarrow> string option" where
  "bodyProblem L X c body [] = (if body = [] then Some ''the message has no instruction to sponsor'' else None)"
| "bodyProblem L X c body (index # rest) =
     (case instructionProblem L X (rulesAt L c body index) (body ! index) of
        Some problem \<Rightarrow> Some (''instruction '' @ showNat (index + 2) @ '': '' @ problem)
      | None \<Rightarrow> bodyProblem L X c body rest)"

definition messageProblem :: "lib \<Rightarrow> shape_lib \<Rightarrow> shape_context \<Rightarrow> decompiled \<Rightarrow> string option" where
  "messageProblem L X c m =
     (let body = drop 2 (dm_instructions m)
      in if \<not> isBudget 2 (nth_opt (dm_instructions m) 0) then Some ''the compute-unit limit is not first''
         else if \<not> isBudget 3 (nth_opt (dm_instructions m) 1) then Some ''the compute-unit price is not second''
         else if list_ex (\<lambda>i. xi_program i = COMPUTE_BUDGET) body then Some ''the compute budget is set twice''
         else if (case dm_unitLimit m of None \<Rightarrow> True | Some l \<Rightarrow> l > SPONSOR_MAX_UNITS) then Some ''the compute-unit limit is too high''
         else if (case dm_unitPrice m of None \<Rightarrow> False | Some p \<Rightarrow> p > fp_ceiling SPONSOR_PRIORITY_FEE)
              then Some ''the compute-unit price is too high''
         else bodyProblem L X c body [0..<length body])"

definition headerProblem :: "shape_context \<Rightarrow> compiled_header \<Rightarrow> address list \<Rightarrow> string option" where
  "headerProblem c h signers =
     (if ch_version h \<noteq> 0 then Some ''the message is not version 0''
      else if list_ex (\<lambda>t. sc_lookupTable c t = None) (map lk_table (ch_lookups h)) then Some ''the message uses another lookup table''
      else if ch_numSigners h \<noteq> 2 then Some ''the message needs other signers''
      else if nth_opt (ch_staticAccounts h) 0 \<noteq> Some (sc_sponsor c) then Some ''the sponsor is not the fee payer''
      else if nth_opt (ch_staticAccounts h) 1 \<noteq> Some (sc_user c) then Some ''the user is not the second signer''
      else if length signers \<noteq> 2 \<or> sc_sponsor c \<notin> set signers \<or> sc_user c \<notin> set signers
           then Some ''the transaction names other signers''
      else None)"

definition shapeProblem :: "lib \<Rightarrow> shape_lib \<Rightarrow> shape_context \<Rightarrow> wallet_transaction \<Rightarrow> string option" where
  "shapeProblem L X c t =
     (case xl_decode X (wt_message t) of
        Inl _ \<Rightarrow> Some ''the message does not decode''
      | Inr h \<Rightarrow>
          (case headerProblem c h (wt_signers t) of
             Some problem \<Rightarrow> Some problem
           | None \<Rightarrow>
               (case xl_decompile X (wt_message t) (sc_lookupTable c) of
                  Inl _ \<Rightarrow> Some ''the message does not decompile against the lookup table''
                | Inr m \<Rightarrow> messageProblem L X c m)))"

section \<open>What passes\<close>

text \<open>
  The part the sponsor's signature may take before the last instruction: paying, as its one signer meta,
  for the user's asset account, Subscriptions authority or subscription to a plan of Laterite, or closing a
  subscription it recorded paying for; the user's own steps do without it.
\<close>

inductive sponsored :: "lib \<Rightarrow> shape_lib \<Rightarrow> shape_context \<Rightarrow> shape_instruction \<Rightarrow> bool" for L X c i where
  Asset_Account: "xi_program i = xl_ATA_PROGRAM X \<Longrightarrow> xl_isCreateIdempotent X i = Inr True \<Longrightarrow> xl_ataAccounts X i = Inr a
    \<Longrightarrow> ata_owner_of a = sc_user c \<Longrightarrow> ata_mint_of a \<in> asset_mint ` set (cfg_assets (sc_config c))
    \<Longrightarrow> ata_payer_of a = sc_sponsor c \<Longrightarrow> sponsorSigns (sc_sponsor c) i = 1 \<Longrightarrow> sponsored L X c i"
| Authority: "xi_program i = SUBSCRIPTIONS_PROGRAM_ADDRESS L \<Longrightarrow> xl_identifySubscriptions X i = Inr Sx_InitSubscriptionAuthority
    \<Longrightarrow> xl_authorityOwner X i = Inr (sc_user c) \<Longrightarrow> lastAccount i = Inr (sc_sponsor c)
    \<Longrightarrow> sponsorSigns (sc_sponsor c) i = 1 \<Longrightarrow> sponsored L X c i"
| Subscription: "xi_program i = SUBSCRIPTIONS_PROGRAM_ADDRESS L \<Longrightarrow> xl_identifySubscriptions X i = Inr Sx_Subscribe
    \<Longrightarrow> xl_subscribeAccounts X i = Inr p \<Longrightarrow> pa_subscriber p = sc_user c \<Longrightarrow> pa_merchant p = findVaultPda L
    \<Longrightarrow> pa_plan p \<in> set (sponsoredPlans L) \<Longrightarrow> lastAccount i = Inr (sc_sponsor c)
    \<Longrightarrow> sponsorSigns (sc_sponsor c) i = 1 \<Longrightarrow> sponsored L X c i"
| Resume: "xi_program i = SUBSCRIPTIONS_PROGRAM_ADDRESS L \<Longrightarrow> xl_identifySubscriptions X i = Inr Sx_ResumeSubscription
    \<Longrightarrow> xl_resumeAccounts X i = Inr p \<Longrightarrow> pa_subscriber p = sc_user c \<Longrightarrow> pa_plan p \<in> set (sponsoredPlans L)
    \<Longrightarrow> sponsorSigns (sc_sponsor c) i = 0 \<Longrightarrow> sponsored L X c i"
| Revoke: "xi_program i = SUBSCRIPTIONS_PROGRAM_ADDRESS L \<Longrightarrow> xl_identifySubscriptions X i = Inr Sx_RevokeDelegation
    \<Longrightarrow> xl_revokeAuthority X i = Inr (sc_user c) \<Longrightarrow> sponsorSigns (sc_sponsor c) i = 0 \<Longrightarrow> sponsored L X c i"
| Abandoned: "xi_program i = SUBSCRIPTIONS_PROGRAM_ADDRESS L \<Longrightarrow> xl_identifySubscriptions X i = Inr Sx_RevokeAbandonedSubscription
    \<Longrightarrow> xl_abandonedAccounts X i = Inr p \<Longrightarrow> pa_plan p \<in> set (sponsoredPlans L) \<Longrightarrow> pa_payer p = sc_sponsor c
    \<Longrightarrow> sponsorSigns (sc_sponsor c) i = 1 \<Longrightarrow> sponsored L X c i"

text \<open>The last: the user joins, the sponsor paying.\<close>

definition joins :: "lib \<Rightarrow> shape_context \<Rightarrow> shape_instruction \<Rightarrow> bool" where
  "joins L c i =
     (xi_program i = LATERITE_PROGRAM_ADDRESS \<and> sponsorSigns (sc_sponsor c) i = 1
      \<and> (if sc_kind c = Kind_Enroll
         then identifyLateriteInstruction (xi_data i) = Inr IxEnroll \<and> parseEnrollInstruction L i = Inr (sc_user c, sc_sponsor c)
         else identifyLateriteInstruction (xi_data i) = Inr IxReactivate \<and> parseReactivateInstruction L i = Inr (sc_user c, sc_sponsor c)))"

lemma rulesAt_simps [simp]:
  "sh_assets (rulesAt L c body k) = map asset_mint (cfg_assets (sc_config c))" "sh_index (rulesAt L c body k) = k"
  "sh_kind (rulesAt L c body k) = sc_kind c" "sh_last (rulesAt L c body k) = length body - 1"
  "sh_plans (rulesAt L c body k) = sponsoredPlans L" "sh_sponsor (rulesAt L c body k) = sc_sponsor c"
  "sh_sponsorSigns (rulesAt L c body k) = sponsorSigns (sc_sponsor c) (body ! k)"
  "sh_user (rulesAt L c body k) = sc_user c" "sh_vault (rulesAt L c body k) = findVaultPda L"
  by (simp_all add: rulesAt_def)

lemma unless_None: "unless bad reason rest = Inr None \<longleftrightarrow> \<not> bad \<and> rest = Inr None"
  by (simp add: unless_def)

lemma paid_None: "paid s payer = None \<longleftrightarrow> payer = sh_sponsor s \<and> sh_sponsorSigns s = 1"
  "unpaid s = None \<longleftrightarrow> sh_sponsorSigns s = 0" "notPart s \<noteq> None"
  by (simp_all add: paid_def unpaid_def notPart_def)

lemmas shape_simps = unless_None paid_None result_simps

lemma ata_passes:
  assumes "ataProblem X (rulesAt L c body k) (body ! k) = Inr None" "xi_program (body ! k) = xl_ATA_PROGRAM X"
  shows "k \<noteq> length body - 1 \<and> sponsored L X c (body ! k)"
  using assms by (auto simp: ataProblem_def shape_simps split: if_splits intro: sponsored.Asset_Account)

lemma subscriptions_pass:
  assumes "subscriptionsProblem X (rulesAt L c body k) (body ! k) = Inr None"
    "xi_program (body ! k) = SUBSCRIPTIONS_PROGRAM_ADDRESS L"
  shows "k \<noteq> length body - 1 \<and> sponsored L X c (body ! k)"
proof -
  from assms(1) obtain kind where kind: "k \<noteq> length body - 1" "xl_identifySubscriptions X (body ! k) = Inr kind"
    by (cases "xl_identifySubscriptions X (body ! k)") (auto simp: subscriptionsProblem_def shape_simps notPart_def split: if_splits)
  show ?thesis
    using assms kind by (cases kind) (auto simp: subscriptionsProblem_def shape_simps dest: sponsored.intros)
qed

lemma laterite_passes:
  assumes "lateriteProblem L (rulesAt L c body k) (body ! k) = Inr None" "xi_program (body ! k) = LATERITE_PROGRAM_ADDRESS"
  shows "k = length body - 1 \<and> joins L c (body ! k)"
proof -
  have "sc_kind c = Kind_Enroll \<or> sc_kind c = Kind_Reactivate" by (cases "sc_kind c") simp_all
  with assms show ?thesis by (auto simp: lateriteProblem_def joins_def shape_simps split: if_splits)
qed

lemma instruction_passes:
  assumes "instructionProblem L X (rulesAt L c body k) (body ! k) = None"
  shows "k = length body - 1 \<and> joins L c (body ! k) \<or> k \<noteq> length body - 1 \<and> sponsored L X c (body ! k)"
  using assms ata_passes [of X L c body k] subscriptions_pass [of X L c body k] laterite_passes [of L c body k]
  by (auto simp: instructionProblem_def Let_def paid_None split: sum.splits if_splits)

lemma body_passes:
  "bodyProblem L X c body ks = None \<Longrightarrow>
   body \<noteq> [] \<and> (\<forall>k \<in> set ks. instructionProblem L X (rulesAt L c body k) (body ! k) = None)"
  by (induction L X c body ks rule: bodyProblem.induct) (auto split: if_splits option.splits)

lemma two_first: "nth_opt xs 0 = Some a \<Longrightarrow> nth_opt xs 1 = Some b \<Longrightarrow> xs = a # b # drop 2 xs"
  by (cases xs; cases "tl xs") (auto simp: nth_opt_def split: if_splits)

lemma message_passes:
  assumes "messageProblem L X c m = None"
  obtains limit price body units where "dm_instructions m = limit # price # body"
    "xi_program limit = COMPUTE_BUDGET" "xi_program price = COMPUTE_BUDGET"
    "dm_unitLimit m = Some units" "units \<le> SPONSOR_MAX_UNITS"
    "\<forall>p. dm_unitPrice m = Some p \<longrightarrow> p \<le> fp_ceiling SPONSOR_PRIORITY_FEE"
    "body \<noteq> []" "joins L c (last body)" "list_all (sponsored L X c) (butlast body)"
proof -
  let ?body = "drop 2 (dm_instructions m)"
  from assms have checks: "isBudget 2 (nth_opt (dm_instructions m) 0)" "isBudget 3 (nth_opt (dm_instructions m) 1)"
    "bodyProblem L X c ?body [0..<length ?body] = None"
    "\<forall>p. dm_unitPrice m = Some p \<longrightarrow> p \<le> fp_ceiling SPONSOR_PRIORITY_FEE"
    and units: "\<exists>units. dm_unitLimit m = Some units \<and> units \<le> SPONSOR_MAX_UNITS"
    by (auto simp: messageProblem_def Let_def split: if_splits option.splits)
  from checks(1,2) obtain limit price where first: "nth_opt (dm_instructions m) 0 = Some limit" "nth_opt (dm_instructions m) 1 = Some price"
    "xi_program limit = COMPUTE_BUDGET" "xi_program price = COMPUTE_BUDGET" by (auto simp: isBudget_def split: option.splits)
  from body_passes [OF checks(3)] have body: "?body \<noteq> []"
    "\<And>k. k < length ?body \<Longrightarrow> instructionProblem L X (rulesAt L c ?body k) (?body ! k) = None" by auto
  have "joins L c (?body ! (length ?body - 1))"
    using instruction_passes [OF body(2), of "length ?body - 1"] body(1) by auto
  then have "joins L c (last ?body)" using body(1) by (simp add: last_conv_nth)
  moreover have "list_all (sponsored L X c) (butlast ?body)"
    unfolding list_all_length
  proof (intro allI impI)
    fix n assume n: "n < length (butlast ?body)"
    then have "n < length ?body" "n \<noteq> length ?body - 1" by auto
    then have "sponsored L X c (?body ! n)" using instruction_passes [OF body(2), of n] by blast
    then show "sponsored L X c (butlast ?body ! n)" using n by (simp only: nth_butlast)
  qed
  ultimately show thesis using units first body(1) checks(4) two_first [OF first(1,2)] by (auto intro: that)
qed

text \<open>
  C10: What the sponsor's signature can cost. A transaction that passes is signed by the sponsor, paying the
  fee, and the user; within the bounds of units and price; it ends with the user joining, and each instruction
  before that either has no signature of the sponsor, or has it once, as the payer of the user's own account
  for an asset of the config, authority or subscription to one of Laterite's plans, or closing one it paid for.
\<close>

theorem sponsor_pays_only:
  assumes "shapeProblem L X c t = None"
  shows "\<exists>h m limit price body units.
    xl_decode X (wt_message t) = Inr h \<and> ch_version h = 0 \<and> ch_numSigners h = 2
    \<and> take 2 (ch_staticAccounts h) = [sc_sponsor c, sc_user c]
    \<and> xl_decompile X (wt_message t) (sc_lookupTable c) = Inr m \<and> dm_instructions m = limit # price # body
    \<and> xi_program limit = COMPUTE_BUDGET \<and> xi_program price = COMPUTE_BUDGET
    \<and> dm_unitLimit m = Some units \<and> units \<le> 150000 \<and> (case dm_unitPrice m of None \<Rightarrow> True | Some p \<Rightarrow> p \<le> 100000)
    \<and> body \<noteq> [] \<and> joins L c (last body) \<and> list_all (sponsored L X c) (butlast body)"
proof -
  from assms obtain h m where h: "xl_decode X (wt_message t) = Inr h" "headerProblem c h (wt_signers t) = None"
    and m: "xl_decompile X (wt_message t) (sc_lookupTable c) = Inr m" "messageProblem L X c m = None"
    by (auto simp: shapeProblem_def split: sum.splits option.splits)
  from h(2) have head: "ch_version h = 0" "ch_numSigners h = 2" "nth_opt (ch_staticAccounts h) 0 = Some (sc_sponsor c)"
    "nth_opt (ch_staticAccounts h) 1 = Some (sc_user c)" by (auto simp: headerProblem_def split: if_splits)
  then have two: "take 2 (ch_staticAccounts h) = [sc_sponsor c, sc_user c]"
    by (cases "ch_staticAccounts h"; cases "tl (ch_staticAccounts h)") (auto simp: nth_opt_def split: if_splits)
  show ?thesis
  proof (rule message_passes [OF m(2)])
    fix limit price body units
    assume body: "dm_instructions m = limit # price # body"
      "xi_program limit = COMPUTE_BUDGET" "xi_program price = COMPUTE_BUDGET"
      "dm_unitLimit m = Some units" "units \<le> SPONSOR_MAX_UNITS"
      "\<forall>p. dm_unitPrice m = Some p \<longrightarrow> p \<le> fp_ceiling SPONSOR_PRIORITY_FEE"
      "body \<noteq> []" "joins L c (last body)" "list_all (sponsored L X c) (butlast body)"
    from body(5,6) have "units \<le> 150000" "case dm_unitPrice m of None \<Rightarrow> True | Some p \<Rightarrow> p \<le> 100000"
      by (simp_all add: SPONSOR_MAX_UNITS_def SPONSOR_PRIORITY_FEE_def split: option.split)
    with h(1) m(1) head(1,2) two body show ?thesis by blast
  qed
qed

text \<open>A reactivation of the demo wallet: its budget, its old subscription resumed, and \<open>reactivate\<close>.\<close>

definition demoShapeContext :: shape_context where
  "demoShapeContext = \<lparr>sc_config = demoConfig, sc_kind = Kind_Reactivate, sc_lookupTable = (\<lambda>t. if t = ''LUT'' then Some [] else None),
     sc_sponsor = ''S'', sc_user = ''U''\<rparr>"

definition demoBody :: "shape_instruction list" where
  "demoBody =
     [\<lparr>xi_program = COMPUTE_BUDGET, xi_accounts = [], xi_data = [2, 0]\<rparr>,
      \<lparr>xi_program = COMPUTE_BUDGET, xi_accounts = [], xi_data = [3, 0]\<rparr>,
      \<lparr>xi_program = ''SUBS'', xi_accounts = [\<lparr>meta_address = ''U'', meta_role = WritableSigner\<rparr>], xi_data = [1]\<rparr>,
      \<lparr>xi_program = LATERITE_PROGRAM_ADDRESS,
       xi_accounts = [\<lparr>meta_address = ''U'', meta_role = WritableSigner\<rparr>, \<lparr>meta_address = ''S'', meta_role = WritableSigner\<rparr>,
                      \<lparr>meta_address = ''C'', meta_role = Writable\<rparr>, \<lparr>meta_address = ''UC'', meta_role = Writable\<rparr>],
       xi_data = instructionDiscriminator IxReactivate @ replicate 70 0\<rparr>]"

definition demoShapeLib :: shape_lib where
  "demoShapeLib =
     \<lparr>xl_decode = (\<lambda>_. Inr \<lparr>ch_version = 0, ch_lifetimeToken = ''HASH'',
        ch_lookups = [\<lparr>lk_table = ''LUT'', lk_writable = [], lk_readonly = []\<rparr>], ch_programIndexes = [], ch_numSigners = 2, ch_staticAccounts = [''S'', ''U'']\<rparr>),
      xl_decompile = (\<lambda>_ _. Inr \<lparr>dm_instructions = demoBody, dm_unitLimit = Some 77000, dm_unitPrice = Some 1000\<rparr>),
      xl_isCreateIdempotent = (\<lambda>_. Inr True), xl_ataAccounts = (\<lambda>_. Inl TypeError),
      xl_identifySubscriptions = (\<lambda>_. Inr Sx_ResumeSubscription), xl_authorityOwner = (\<lambda>_. Inl TypeError),
      xl_subscribeAccounts = (\<lambda>_. Inl TypeError),
      xl_resumeAccounts = (\<lambda>_. Inr \<lparr>pa_subscriber = ''U'', pa_merchant = [], pa_plan = ''PLAN1'', pa_payer = []\<rparr>),
      xl_revokeAuthority = (\<lambda>_. Inl TypeError), xl_abandonedAccounts = (\<lambda>_. Inl TypeError), xl_ATA_PROGRAM = ''ATA''\<rparr>"

theorem sponsor_pays_only_witness:
  "shapeProblem demoLib demoShapeLib demoShapeContext \<lparr>wt_message = [], wt_signers = [''S'', ''U'']\<rparr> = None
   \<and> joins demoLib demoShapeContext (last demoBody) \<and> list_all (sponsored demoLib demoShapeLib demoShapeContext) (butlast (drop 2 demoBody))"
proof -
  have pass: "shapeProblem demoLib demoShapeLib demoShapeContext \<lparr>wt_message = [], wt_signers = [''S'', ''U'']\<rparr> = None"
    by code_simp
  from sponsor_pays_only [OF pass] obtain limit price body where body: "demoBody = limit # price # body" "body \<noteq> []"
    "joins demoLib demoShapeContext (last body)" "list_all (sponsored demoLib demoShapeLib demoShapeContext) (butlast body)"
    by (auto simp: demoShapeLib_def)
  have "last demoBody = last body" "drop 2 demoBody = body" unfolding body(1) using body(2) by simp_all
  with pass body show ?thesis by (simp del: body(1))
qed

end
