(* ===== verification/Faucet.thy ===== *)
theory Faucet
  imports Sponsorships
begin

text \<open>
  The devnet faucet's grants (\<open>apps/app/lib/faucet.ts\<close>): reserved under a lock within the limits, then
  marked landed or released. The sliding windows are those of \<open>Rate_Limits\<close>.
\<close>

definition FAUCET_AMOUNT :: int where "FAUCET_AMOUNT = 100 * 1000000"
definition FAUCET_WINDOW_MS :: int where "FAUCET_WINDOW_MS = 24 * 60 * 60 * 1000"
definition FAUCET_LIMIT_IP :: nat where "FAUCET_LIMIT_IP = 3"
definition FAUCET_LIMIT_WALLET :: nat where "FAUCET_LIMIT_WALLET = 1"

record faucet_grant =
  fg_id :: nat
  fg_wallet :: string
  fg_ip :: "string option"
  fg_grantedAt :: int
  fg_signature :: "string option"

record faucet_ledger =
  fl_rows :: "faucet_grant list"
  fl_nextId :: nat

definition emptyFaucet :: faucet_ledger where
  "emptyFaucet = \<lparr>fl_rows = [], fl_nextId = 1\<rparr>"

datatype reservation = Reserved nat | Retry_After int

definition grantedAt :: "(faucet_grant \<Rightarrow> bool) \<Rightarrow> faucet_grant \<Rightarrow> int option" where
  "grantedAt P g = (if P g then Some (fg_grantedAt g) else None)"

definition grantOf :: "string \<Rightarrow> faucet_grant \<Rightarrow> bool" where "grantOf wallet g = (fg_wallet g = wallet)"
definition grantFrom :: "string \<Rightarrow> faucet_grant \<Rightarrow> bool" where "grantFrom ip g = (fg_ip g = Some ip)"

text \<open>The first limit the request would pass: its wallet's, then its address's.\<close>

definition grantLimit :: "faucet_grant list \<Rightarrow> string \<Rightarrow> string option \<Rightarrow> int \<Rightarrow> limited_reply option" where
  "grantLimit rows wallet ip now = firstOf
     ([exceeded Limit_Wallet (grantedAt (grantOf wallet)) FAUCET_LIMIT_WALLET FAUCET_WINDOW_MS rows now]
      @ (case ip of None \<Rightarrow> []
         | Some a \<Rightarrow> [exceeded Limit_Ip (grantedAt (grantFrom a)) FAUCET_LIMIT_IP FAUCET_WINDOW_MS rows now]))"

definition reserveGrant :: "string \<Rightarrow> string option \<Rightarrow> int \<Rightarrow> faucet_ledger \<Rightarrow> reservation \<times> faucet_ledger" where
  "reserveGrant wallet ip now s =
     (case grantLimit (fl_rows s) wallet ip now of
        Some l \<Rightarrow> (Retry_After (li_retryAfterSeconds l), s)
      | None \<Rightarrow> (Reserved (fl_nextId s),
          \<lparr>fl_rows = fl_rows s @ [\<lparr>fg_id = fl_nextId s, fg_wallet = wallet, fg_ip = ip, fg_grantedAt = now, fg_signature = None\<rparr>],
           fl_nextId = fl_nextId s + 1\<rparr>))"

definition settleGrant :: "nat \<Rightarrow> string option \<Rightarrow> faucet_ledger \<Rightarrow> faucet_ledger" where
  "settleGrant i signature s =
     (case signature of
        Some sig \<Rightarrow> s\<lparr>fl_rows := map (\<lambda>g. if fg_id g = i then g\<lparr>fg_signature := Some sig\<rparr> else g) (fl_rows s)\<rparr>
      | None \<Rightarrow> s\<lparr>fl_rows := filter (\<lambda>g. fg_id g \<noteq> i) (fl_rows s)\<rparr>)"

section \<open>The limits hold\<close>

inductive faucet_step :: "int \<Rightarrow> faucet_ledger \<Rightarrow> faucet_ledger \<Rightarrow> bool" where
  Reserve: "faucet_step now s (snd (reserveGrant wallet ip now s))"
| Settle: "faucet_step now s (settleGrant i signature s)"

lemma times_filter: "times at (filter p rows) \<subseteq># times at rows"
  by (induction rows) (auto split: option.splits intro: subset_add_mset)

lemma settleGrant_counts: "times (grantedAt P) (fl_rows (settleGrant i signature s)) \<subseteq># times (grantedAt P) (fl_rows s)"
  if "\<And>g sig. P (g\<lparr>fg_signature := Some sig\<rparr>) = P g"
proof (cases signature)
  case None
  then show ?thesis by (simp add: settleGrant_def times_filter)
next
  case (Some sig)
  have "\<forall>g \<in> set (fl_rows s). grantedAt P (if fg_id g = i then g\<lparr>fg_signature := Some sig\<rparr> else g) = grantedAt P g"
    using that by (simp add: grantedAt_def)
  then show ?thesis by (simp add: settleGrant_def Some times_update_other)
qed

lemma reserveGrant_counts:
  assumes "\<And>g. g = \<lparr>fg_id = fl_nextId s, fg_wallet = wallet, fg_ip = ip, fg_grantedAt = now, fg_signature = None\<rparr> \<Longrightarrow> P g \<Longrightarrow>
      grantLimit (fl_rows s) wallet ip now = None \<Longrightarrow> since (now - window) (times (grantedAt P) (fl_rows s)) < most"
  shows "times (grantedAt P) (fl_rows (snd (reserveGrant wallet ip now s))) \<subseteq># times (grantedAt P) (fl_rows s)
    \<or> since (now - window) (times (grantedAt P) (fl_rows s)) < most
      \<and> times (grantedAt P) (fl_rows (snd (reserveGrant wallet ip now s))) \<subseteq># add_mset now (times (grantedAt P) (fl_rows s))"
  using assms by (auto simp: reserveGrant_def grantedAt_def split: option.split)

definition faucet_change :: "int \<Rightarrow> faucet_grant list \<Rightarrow> faucet_grant list \<Rightarrow> bool" where
  "faucet_change now rows rows' = (\<exists>s s'. fl_rows s = rows \<and> fl_rows s' = rows' \<and> faucet_step now s s')"

lemma grantLimit_None:
  assumes "grantLimit rows wallet ip now = None"
  shows "since (now - FAUCET_WINDOW_MS) (times (grantedAt (grantOf wallet)) rows) < FAUCET_LIMIT_WALLET"
    "ip = Some a \<Longrightarrow> since (now - FAUCET_WINDOW_MS) (times (grantedAt (grantFrom a)) rows) < FAUCET_LIMIT_IP"
  using assms by (auto simp: grantLimit_def firstOf_None exceeded_None)

lemma faucet_counts:
  assumes "faucet_change now rows rows'" "\<And>g sig. P (g\<lparr>fg_signature := Some sig\<rparr>) = P g"
    "\<And>wallet ip i. P \<lparr>fg_id = i, fg_wallet = wallet, fg_ip = ip, fg_grantedAt = now, fg_signature = None\<rparr> \<Longrightarrow>
       grantLimit rows wallet ip now = None \<Longrightarrow> since (now - window) (times (grantedAt P) rows) < most"
  shows "times (grantedAt P) rows' \<subseteq># times (grantedAt P) rows
    \<or> since (now - window) (times (grantedAt P) rows) < most \<and> times (grantedAt P) rows' \<subseteq># add_mset now (times (grantedAt P) rows)"
proof -
  from assms(1) obtain s s' where s: "fl_rows s = rows" "fl_rows s' = rows'" "faucet_step now s s'"
    by (auto simp: faucet_change_def)
  from s(3) show ?thesis
  proof cases
    case (Reserve wallet ip)
    with reserveGrant_counts [of s wallet ip now P window most] assms(3) s show ?thesis by simp
  next
    case (Settle i signature)
    with settleGrant_counts [OF assms(2), of i signature s] s show ?thesis by simp
  qed
qed

interpretation faucet_wallet: limited "grantedAt (grantOf w)" FAUCET_WINDOW_MS FAUCET_LIMIT_WALLET faucet_change for w
  by unfold_locales (erule faucet_counts, auto dest: grantLimit_None simp: grantOf_def)

interpretation faucet_ip: limited "grantedAt (grantFrom a)" FAUCET_WINDOW_MS FAUCET_LIMIT_IP faucet_change for a
  by unfold_locales (erule faucet_counts, auto dest: grantLimit_None simp: grantFrom_def)

inductive faucet_run :: "faucet_ledger \<Rightarrow> bool" where
  Empty: "faucet_run emptyFaucet"
| Step: "faucet_run s \<Longrightarrow> faucet_step now s s' \<Longrightarrow> faucet_run s'"

definition grantsIn :: "(faucet_grant \<Rightarrow> bool) \<Rightarrow> int \<Rightarrow> faucet_ledger \<Rightarrow> nat" where
  "grantsIn P t s = length (filter (\<lambda>g. P g \<and> t - FAUCET_WINDOW_MS < fg_grantedAt g \<and> fg_grantedAt g \<le> t) (fl_rows s))"

lemma windowed_grantsIn: "windowed (grantedAt P) FAUCET_WINDOW_MS most (fl_rows s) \<Longrightarrow> grantsIn P t s \<le> most"
proof -
  have "size (filter_mset (\<lambda>s. t - FAUCET_WINDOW_MS < s \<and> s \<le> t) (times (grantedAt P) rows))
      = length (filter (\<lambda>g. P g \<and> t - FAUCET_WINDOW_MS < fg_grantedAt g \<and> fg_grantedAt g \<le> t) rows)" for rows
    by (induction rows) (auto simp: grantedAt_def split: option.splits)
  then show "windowed (grantedAt P) FAUCET_WINDOW_MS most (fl_rows s) \<Longrightarrow> ?thesis"
    unfolding windowed_def grantsIn_def by metis
qed

text \<open>
  The faucet's limits hold over every sequence of reservations, releases and landed mints, in any
  order of their clocks: in any 24 hours a wallet holds at most one grant and an address at most three.
\<close>

theorem faucet_limits_hold:
  "faucet_run s \<Longrightarrow> grantsIn (grantOf w) t s \<le> 1 \<and> grantsIn (grantFrom a) t s \<le> 3"
proof -
  assume run: "faucet_run s"
  then have "windowed (grantedAt (grantOf w)) FAUCET_WINDOW_MS FAUCET_LIMIT_WALLET (fl_rows s)
    \<and> windowed (grantedAt (grantFrom a)) FAUCET_WINDOW_MS FAUCET_LIMIT_IP (fl_rows s)"
  proof induction
    case (Step s now s')
    then have "faucet_change now (fl_rows s) (fl_rows s')" by (auto simp: faucet_change_def)
    with Step.IH show ?case by (auto intro: faucet_wallet.keeps faucet_ip.keeps)
  qed (simp add: emptyFaucet_def)
  then show ?thesis by (auto dest: windowed_grantsIn [where t = t] simp: FAUCET_LIMIT_WALLET_def FAUCET_LIMIT_IP_def)
qed

theorem faucet_limits_hold_witness:
  "\<exists>s. faucet_run s \<and> length (fl_rows s) = 1 \<and> grantsIn (grantOf ''W'') 1000 s \<le> 1 \<and> grantsIn (grantFrom ''IP'') 1000 s \<le> 3"
proof (rule exI)
  let ?s = "snd (reserveGrant ''W'' (Some ''IP'') 1000 emptyFaucet)"
  have run: "faucet_run ?s" by (rule faucet_run.Step [OF faucet_run.Empty faucet_step.Reserve])
  have "length (fl_rows ?s) = 1" by code_simp
  with run faucet_limits_hold [OF run] show "faucet_run ?s \<and> length (fl_rows ?s) = 1 \<and>
    grantsIn (grantOf ''W'') 1000 ?s \<le> 1 \<and> grantsIn (grantFrom ''IP'') 1000 ?s \<le> 3" by simp
qed

end
