(* ===== verification/Watcher_Attest.thy ===== *)
theory Watcher_Attest
  imports History Failures "HOL-Library.AList"
begin

text \<open>
  What the watcher signs (\<open>services/operator/src/watcher/refusals.ts\<close> and \<open>Watcher.attest\<close>): whether
  the deployment and the user's state allow an attestation, and what a failed one means. Every signature
  of the attestor is kept in \<open>wt_signed\<close>, which the code does not have.
\<close>

section \<open>Refusals\<close>

definition deploymentMismatch :: "wire_lib \<Rightarrow> config \<Rightarrow> string \<Rightarrow> address \<Rightarrow> string option" where
  "deploymentMismatch W cfg clusterGenesis attestor =
     (if cfg_attestor cfg \<noteq> attestor
      then Some (''Config.attestor is '' @ cfg_attestor cfg @ '', not this service'' @ CHR 0x27 # ''s key '' @ attestor
                 @ '': set ATTESTOR_KEYPAIR to the key update_config named'')
      else let configured = base58Text W (genesisHash cfg)
           in if configured \<noteq> clusterGenesis
              then Some (''the RPC serves the cluster '' @ clusterGenesis @ '', not the one Laterite'' @ CHR 0x27 # ''s config names ('' @ configured @ '')'')
              else None)"

definition attestRefusal :: "user_config \<Rightarrow> attestation \<Rightarrow> int \<Rightarrow> laterite_error option" where
  "attestRefusal u a now =
     (if uc_status u \<noteq> Active then Some UserNotActive
      else if at_amount a = 0 \<or> at_eventTime a < uc_attestableFrom u \<or> at_eventTime a > now then Some InvalidAttestation
      else if at_eventTime a + ATTESTATION_TTL_SECONDS < now then Some AttestationExpired
      else if \<not> hasToken (uc_paymentTokens u) (at_paymentToken a) then Some UnknownPaymentToken
      else let invested = (if at_kind a = Income then incomeShare u (at_amount a) else change u (at_amount a))
           in if invested = 0 then Some NothingToInvest else None)"

definition FINAL :: "(laterite_error \<times> string) list" where
  "FINAL = [(AttestationExpired, ''AttestationExpired''), (InvalidAttestation, ''InvalidAttestation''),
     (NothingToInvest, ''NothingToInvest''), (UnknownPaymentToken, ''UnknownPaymentToken''), (UserNotActive, ''UserNotActive'')]"

datatype attest_failure = Counted | Refused laterite_error | Bad_Signature

text \<open>The first custom error of a chain of causes, and whether it is an error of Laterite at its instruction.\<close>

fun customError :: "error_node list \<Rightarrow> (int \<times> int) option" where
  "customError [] = None"
| "customError (CustomNode code index # _) = Some (code, index)"
| "customError (_ # causes) = customError causes"

definition isLateriteError :: "(int \<Rightarrow> address option) \<Rightarrow> int \<times> int \<Rightarrow> laterite_error \<Rightarrow> bool" where
  "isLateriteError programs failure e =
     (programs (snd failure) = Some LATERITE_PROGRAM_ADDRESS \<and> lateriteErrorOf (fst failure) = Some e)"

definition attestFailure :: "error_node list \<Rightarrow> (int \<Rightarrow> address option) \<Rightarrow> attest_failure option" where
  "attestFailure error programs =
     (case customError error of
        None \<Rightarrow> None
      | Some failure \<Rightarrow>
          if isLateriteError programs failure InvalidAttestationSignature then Some Bad_Signature
          else case find (isLateriteError programs failure) (map fst FINAL) of
                 Some reason \<Rightarrow> Some (Refused reason)
               | None \<Rightarrow>
                   if fst failure = 0 \<and> programs (snd failure) = Some LATERITE_PROGRAM_ADDRESS then Some Counted else None)"

section \<open>One attestation\<close>

record watcher =
  wt_config :: "config option"
  wt_checkedAt :: int
  wt_dirty :: "address list"
  wt_eventsSlot :: "int option"
  wt_failures :: nat
  wt_reconciledAt :: int
  wt_lastSuccessAt :: "int option"
  wt_subscriptions :: "address list"
  wt_users :: "(address \<times> user_config) list"
  wt_watched :: "(address \<times> watched_account) list"
  wt_cursors :: "(address \<times> string \<times> int) list"
  wt_alarms :: "(string \<times> string option) list"
  wt_signed :: "(bytes \<times> attestation) list"

text \<open>The libraries, the attestor's signer and the two keys.\<close>

record watcher_setup =
  ws_lib :: lib
  ws_wire :: wire_lib
  ws_identify :: "executed_instruction \<Rightarrow> token_instruction option"
  ws_sign :: "bytes \<Rightarrow> bytes option"
  ws_attestor :: address
  ws_crank :: address

text \<open>
  What one attestation finds: the user's account and whether the record exists, the programs of the built
  message's instructions, what became of the send, and whether an alarm cannot be stored.
\<close>

record attest_env =
  ae_accounts :: "(bytes option \<times> bool) outcome"
  ae_build :: "(int \<Rightarrow> address option) outcome"
  ae_send :: "caught_error + string"
  ae_alarm :: "js_error option"

text \<open>\<open>alarm\<close>, then \<open>result\<close>.\<close>

definition alarmThen :: "js_error option \<Rightarrow> string \<Rightarrow> string option \<Rightarrow> 'a outcome \<Rightarrow> watcher \<Rightarrow> 'a outcome \<times> watcher" where
  "alarmThen failure key message result w =
     (case failure of
        Some e \<Rightarrow> (Inl e, w)
      | None \<Rightarrow> (result, w\<lparr>wt_alarms := wt_alarms w @ [(key, message)]\<rparr>))"

definition signatureAlarm :: "address \<Rightarrow> string" where
  "signatureAlarm attestor =
     ''attest refused '' @ attestor @ CHR 0x27 # ''s signature although Config names it: check Config.attestor and the cluster''"

definition submitAttestation :: "watcher_setup \<Rightarrow> attest_env \<Rightarrow> watcher \<Rightarrow> bool outcome \<times> watcher" where
  "submitAttestation S e w =
     (case ae_build e of
        Inl err \<Rightarrow> (Inl err, w)
      | Inr programs \<Rightarrow>
          (case ae_send e of
             Inr _ \<Rightarrow> alarmThen (ae_alarm e) ''invalid-attestation-signature'' None (Inr True) w
           | Inl failed \<Rightarrow>
               (case attestFailure (ce_chain failed) programs of
                  Some Bad_Signature \<Rightarrow>
                    alarmThen (ae_alarm e) ''invalid-attestation-signature'' (Some (signatureAlarm (ws_attestor S))) (Inr False) w
                | Some (Refused _) \<Rightarrow> (Inr True, w)
                | Some Counted \<Rightarrow> (Inr True, w)
                | None \<Rightarrow> (Inl (PlainError (ce_text failed)), w))))"

definition attestUser ::
    "watcher_setup \<Rightarrow> attest_env \<Rightarrow> config \<Rightarrow> int \<Rightarrow> attestation \<Rightarrow> user_config \<Rightarrow> bool \<Rightarrow> watcher \<Rightarrow> bool outcome \<times> watcher" where
  "attestUser S e cfg now a user recorded w =
     (if attestRefusal user a now \<noteq> None then (Inr True, w)
      else if recorded then (Inr True, w)
      else case getAttestInstructions (ws_lib S) (ws_sign S) (ws_attestor S) a (genesisHash cfg) (ws_crank S) of
             Inl err \<Rightarrow> (Inl err, w)
           | Inr _ \<Rightarrow> submitAttestation S e (w\<lparr>wt_signed := wt_signed w @ [(genesisHash cfg, a)]\<rparr>))"

definition attest ::
    "watcher_setup \<Rightarrow> attest_env \<Rightarrow> config \<Rightarrow> int \<Rightarrow> attestation \<Rightarrow> watcher \<Rightarrow> bool outcome \<times> watcher" where
  "attest S e cfg now a w =
     (case ae_accounts e of
        Inl err \<Rightarrow> (Inl err, w)
      | Inr (None, _) \<Rightarrow> (Inl (PlainError ''The account does not exist''), w)
      | Inr (Some data, recorded) \<Rightarrow>
          (case decodeUserConfig (ws_lib S) data of
             Inl err \<Rightarrow> (Inl err, w)
           | Inr user \<Rightarrow>
               attestUser S e cfg now a user recorded (w\<lparr>wt_users := AList.update (at_user a) user (wt_users w)\<rparr>)))"

section \<open>What is signed, and what is done with\<close>

lemma attestRefusal_None:
  "attestRefusal u a now = None \<longleftrightarrow>
     uc_status u = Active \<and> at_amount a \<noteq> 0 \<and> uc_attestableFrom u \<le> at_eventTime a \<and> at_eventTime a \<le> now
     \<and> now \<le> at_eventTime a + ATTESTATION_TTL_SECONDS \<and> hasToken (uc_paymentTokens u) (at_paymentToken a)
     \<and> (if at_kind a = Income then incomeShare u (at_amount a) else change u (at_amount a)) \<noteq> 0"
  by (auto simp: attestRefusal_def Let_def not_less)

lemma attestRefusal_final: "attestRefusal u a now = Some r \<Longrightarrow> r \<in> fst ` set FINAL"
  by (auto simp: attestRefusal_def FINAL_def Let_def split: if_splits)

text \<open>A refusal the program raises for good, by its code at its instruction.\<close>

lemma attestFailure_Refused:
  "attestFailure error programs = Some (Refused r) \<longleftrightarrow>
     (\<exists>code index. customError error = Some (code, index) \<and> programs index = Some LATERITE_PROGRAM_ADDRESS
        \<and> lateriteErrorOf code = Some r \<and> r \<in> fst ` set FINAL)"
  by (auto simp: attestFailure_def isLateriteError_def FINAL_def split: option.splits if_splits)

lemma attestFailure_Counted:
  "attestFailure error programs = Some Counted \<longleftrightarrow>
     (\<exists>index. customError error = Some (0, index) \<and> programs index = Some LATERITE_PROGRAM_ADDRESS)"
  by (auto simp: attestFailure_def isLateriteError_def FINAL_def lateriteErrorOf_def split: option.splits if_splits)

text \<open>What the attestor may sign of \<open>a\<close>: nothing the user's state refuses or a record counts already.\<close>

definition may_sign :: "watcher_setup \<Rightarrow> attest_env \<Rightarrow> int \<Rightarrow> attestation \<Rightarrow> bool" where
  "may_sign S e now a = (\<exists>data user. ae_accounts e = Inr (Some data, False)
     \<and> decodeUserConfig (ws_lib S) data = Inr user \<and> attestRefusal user a now = None)"

text \<open>
  When a transfer is done with: the state read refuses it, its record exists, its attestation landed, or
  the program refused it for good or had counted it.
\<close>

definition send_settled :: "attest_env \<Rightarrow> bool" where
  "send_settled e = ((\<exists>signature. ae_send e = Inr signature)
     \<or> (\<exists>failed programs r. ae_send e = Inl failed \<and> ae_build e = Inr programs
          \<and> attestFailure (ce_chain failed) programs \<in> {Some (Refused r), Some Counted}))"

definition settled :: "watcher_setup \<Rightarrow> attest_env \<Rightarrow> int \<Rightarrow> attestation \<Rightarrow> bool" where
  "settled S e now a = (\<exists>data recorded user. ae_accounts e = Inr (Some data, recorded)
     \<and> decodeUserConfig (ws_lib S) data = Inr user \<and> (attestRefusal user a now \<noteq> None \<or> recorded \<or> send_settled e))"

lemma submitAttestation_True: "fst (submitAttestation S e w) = Inr True \<Longrightarrow> send_settled e"
  by (auto simp: submitAttestation_def alarmThen_def send_settled_def split: sum.splits option.splits attest_failure.splits)

lemma attest_settles: "fst (attest S e cfg now a w) = Inr True \<Longrightarrow> settled S e now a"
  by (auto simp: attest_def attestUser_def settled_def dest: submitAttestation_True split: sum.splits option.splits if_splits)

text \<open>The part of the watcher an attestation leaves alone, and what it adds to the signatures.\<close>

definition attest_keeps :: "watcher \<Rightarrow> watcher \<Rightarrow> bool" where
  "attest_keeps w w' = (wt_cursors w' = wt_cursors w \<and> wt_watched w' = wt_watched w \<and> wt_config w' = wt_config w
     \<and> wt_dirty w' = wt_dirty w)"

lemma submitAttestation_signed: "wt_signed (snd (submitAttestation S e w)) = wt_signed w"
  "attest_keeps w (snd (submitAttestation S e w))"
  by (auto simp: submitAttestation_def alarmThen_def attest_keeps_def split: sum.split option.split attest_failure.split)

lemma attest_signs:
  "wt_signed (snd (attest S e cfg now a w)) = wt_signed w
   \<or> may_sign S e now a \<and> wt_signed (snd (attest S e cfg now a w)) = wt_signed w @ [(genesisHash cfg, a)]"
  by (auto simp: attest_def attestUser_def may_sign_def submitAttestation_signed split: sum.splits option.splits)

lemma attest_keeps_rest: "attest_keeps w (snd (attest S e cfg now a w))"
  using submitAttestation_signed(2)
  by (auto simp: attest_def attestUser_def attest_keeps_def split: sum.splits option.splits)

end
