(* ===== verification/Watcher_Scan.thy ===== *)
theory Watcher_Scan
  imports Watcher_Attest Paging
begin

text \<open>
  Reading one account (\<open>Watcher.scan\<close> of \<open>services/operator/src/watcher/watcher.ts\<close>): its finalized
  transactions after its cursor, oldest first, each transfer attested, the cursor moved past what was
  handled whatever interrupts the rest.
\<close>

section \<open>The code\<close>

record signature_info =
  sg_blockTime :: "int option"
  sg_err :: bool
  sg_signature :: string
  sg_slot :: int

record scan_env =
  sn_read :: "js_error option" \<comment> \<open>why the cursor cannot be read\<close>
  sn_page :: "string option \<Rightarrow> string option \<Rightarrow> signature_info list outcome"
  sn_fetch :: "string \<Rightarrow> fetched_transaction option outcome"
  sn_attest :: "attestation \<Rightarrow> attest_env"
  sn_write :: "js_error option" \<comment> \<open>why the cursor cannot be stored\<close>

text \<open>The pages, newest first; a page that is not full or reaches below \<open>floor\<close> is the last. The loop may run forever.\<close>

definition lastPage :: "int \<Rightarrow> signature_info list \<Rightarrow> bool" where
  "lastPage floor page =
     (length page < 1000 \<or> (case sg_blockTime (last page) of None \<Rightarrow> False | Some t \<Rightarrow> t < floor))"

partial_function (option) accountPages ::
    "(string option \<Rightarrow> signature_info list outcome) \<Rightarrow> int \<Rightarrow> string option \<Rightarrow> signature_info list
     \<Rightarrow> signature_info list outcome option" where
  "accountPages rpc floor before newestFirst =
     (case rpc before of
        Inl e \<Rightarrow> Some (Inl e)
      | Inr page \<Rightarrow>
          if lastPage floor page then Some (Inr (newestFirst @ page))
          else accountPages rpc floor (Some (sg_signature (last page))) (newestFirst @ page))"

definition notAttestedYet :: "string \<Rightarrow> js_error" where
  "notAttestedYet signature = PlainError (''a transfer of '' @ signature @ '' is not attested yet'')"

definition notAvailableYet :: "string \<Rightarrow> js_error" where
  "notAvailableYet signature = PlainError (''finalized transaction '' @ signature @ '' is not available yet'')"

fun attestAll ::
    "watcher_setup \<Rightarrow> scan_env \<Rightarrow> config \<Rightarrow> int \<Rightarrow> string \<Rightarrow> attestation list \<Rightarrow> watcher \<Rightarrow> js_error option \<times> watcher" where
  "attestAll S e cfg now signature [] w = (None, w)"
| "attestAll S e cfg now signature (a # found) w =
     (case attest S (sn_attest e a) cfg now a w of
        (Inl err, w') \<Rightarrow> (Some err, w')
      | (Inr False, w') \<Rightarrow> (Some (notAttestedYet signature), w')
      | (Inr True, w') \<Rightarrow> attestAll S e cfg now signature found w')"

definition inWindow :: "int \<Rightarrow> signature_info \<Rightarrow> bool" where
  "inWindow floor x =
     (\<not> sg_err x \<and> (case sg_blockTime x of None \<Rightarrow> True | Some t \<Rightarrow> t \<ge> floor))"

definition foundIn :: "watcher_setup \<Rightarrow> scan_env \<Rightarrow> config \<Rightarrow> watched_account \<Rightarrow> string \<Rightarrow> attestation list outcome" where
  "foundIn S e cfg account signature =
     res_bind (sn_fetch e signature) (\<lambda>transaction.
     case transaction of
       None \<Rightarrow> Inl (notAvailableYet signature)
     | Some t \<Rightarrow>
         res_guard (ft_blockTime t = None) (notAvailableYet signature) (
         getAttestations (ws_wire S) (ws_identify S) signature t account (cfg_paymentTokens cfg) (findSwapAuthorityPda (ws_lib S))))"

fun scanRows ::
    "watcher_setup \<Rightarrow> scan_env \<Rightarrow> config \<Rightarrow> watched_account \<Rightarrow> int \<Rightarrow> int \<Rightarrow> signature_info list \<Rightarrow> (string \<times> int) option
     \<Rightarrow> watcher \<Rightarrow> js_error option \<times> (string \<times> int) option \<times> watcher" where
  "scanRows S e cfg account now floor [] handled w = (None, handled, w)"
| "scanRows S e cfg account now floor (x # rest) handled w =
     (if inWindow floor x
      then case foundIn S e cfg account (sg_signature x) of
             Inl err \<Rightarrow> (Some err, handled, w)
           | Inr found \<Rightarrow>
               (case attestAll S e cfg now (sg_signature x) found w of
                  (Some err, w') \<Rightarrow> (Some err, handled, w')
                | (None, w') \<Rightarrow> scanRows S e cfg account now floor rest (Some (sg_signature x, sg_slot x)) w')
      else scanRows S e cfg account now floor rest (Some (sg_signature x, sg_slot x)) w)"

text \<open>The \<open>finally\<close> block: the cursor moves, and an error of its own replaces the other.\<close>

definition moveCursor ::
    "scan_env \<Rightarrow> address \<Rightarrow> js_error option \<times> (string \<times> int) option \<times> watcher \<Rightarrow> js_error option \<times> watcher" where
  "moveCursor e account = (\<lambda>(failed, handled, w).
     case handled of
       None \<Rightarrow> (failed, w)
     | Some cursor \<Rightarrow>
         (case sn_write e of
            Some err \<Rightarrow> (Some err, w)
          | None \<Rightarrow> (failed, w\<lparr>wt_cursors := AList.update account cursor (wt_cursors w)\<rparr>)))"

definition scanFloor :: "user_config \<Rightarrow> int \<Rightarrow> int" where
  "scanFloor user now =
     (let windowStart = now - ATTESTATION_TTL_SECONDS
      in if uc_attestableFrom user > windowStart then uc_attestableFrom user else windowStart)"

text \<open>\<open>this.config!\<close> and \<open>this.users.get(account.user)!\<close> throw where there is none. \<open>None\<close> is paging without end.\<close>

definition scan ::
    "watcher_setup \<Rightarrow> scan_env \<Rightarrow> watched_account \<Rightarrow> int \<Rightarrow> watcher \<Rightarrow> (js_error option \<times> watcher) option" where
  "scan S e account now w =
     (case (map_of (wt_users w) (wa_user account), wt_config w) of
        (Some user, Some cfg) \<Rightarrow>
          (case sn_read e of
             Some err \<Rightarrow> Some (Some err, w)
           | None \<Rightarrow>
               let cursor = map_option fst (map_of (wt_cursors w) (wa_address account)); floor = scanFloor user now
               in (case accountPages (\<lambda>before. sn_page e before cursor) floor None [] of
                     None \<Rightarrow> None
                   | Some (Inl err) \<Rightarrow> Some (Some err, w)
                   | Some (Inr newestFirst) \<Rightarrow>
                       Some (moveCursor e (wa_address account)
                               (scanRows S e cfg account now floor (rev newestFirst) None w))))
      | _ \<Rightarrow> Some (Some TypeError, w))"

section \<open>Paging ends\<close>

text \<open>Newest first: a transaction below another in the list is not younger, where both times are known.\<close>

definition newest_first :: "signature_info list \<Rightarrow> bool" where
  "newest_first = sorted_wrt (\<lambda>x y. \<forall>t t'. sg_blockTime x = Some t \<longrightarrow> sg_blockTime y = Some t' \<longrightarrow> t' \<le> t)"

definition older_than :: "int \<Rightarrow> signature_info \<Rightarrow> bool" where
  "older_than floor x = (case sg_blockTime x of None \<Rightarrow> True | Some t \<Rightarrow> t < floor)"

lemma older_below:
  assumes "newest_first (xs @ ys)" "xs \<noteq> []" "sg_blockTime (last xs) = Some t" "t < floor"
  shows "list_all (older_than floor) ys"
proof -
  have "last xs \<in> set xs" using assms(2) by simp
  with assms(1) have "\<forall>y \<in> set ys. \<forall>t t'. sg_blockTime (last xs) = Some t \<longrightarrow> sg_blockTime y = Some t' \<longrightarrow> t' \<le> t"
    unfolding newest_first_def sorted_wrt_append by blast
  with assms(3,4) show ?thesis by (force simp: list_all_iff older_than_def split: option.split)
qed

lemma accountPages_reads:
  assumes "servesBy sg_signature rpc chain" "distinct (map sg_signature chain)" "newest_first chain"
    "chain = acc @ rest @ old" "newerBy sg_signature (rest @ old) until = rest"
    "before = (if acc = [] then None else Some (sg_signature (last acc)))"
  shows "\<exists>read unread. rest = read @ unread \<and> list_all (older_than floor) unread
    \<and> accountPages (\<lambda>b. rpc b until) floor before acc = Some (Inr (acc @ read))"
  using assms(4-6)
proof (induction "length rest" arbitrary: acc rest before rule: less_induct)
  case less
  note page = page_read [OF assms(1,2) less.prems]
  show ?case
  proof (cases "lastPage floor (take 1000 rest)")
    case True
    have "list_all (older_than floor) (drop 1000 rest)"
    proof (cases "length rest < 1000")
      case False
      with True obtain t where t: "sg_blockTime (last (take 1000 rest)) = Some t" "t < floor"
        by (auto simp: lastPage_def split: option.splits)
      have some: "take 1000 rest \<noteq> []" using False by auto
      have "newest_first ((take 1000 rest) @ drop 1000 rest)"
        using assms(3) less.prems(1) by (simp add: newest_first_def sorted_wrt_append)
      from older_below [OF this some t] show ?thesis .
    qed simp
    moreover have "accountPages (\<lambda>b. rpc b until) floor before acc = Some (Inr (acc @ take 1000 rest))"
      using page True by (subst accountPages.simps) simp
    ultimately show ?thesis by (metis append_take_drop_id)
  next
    case False
    then have "\<not> length (take 1000 rest) < 1000" by (simp add: lastPage_def)
    then have "1000 \<le> length rest" by simp
    note more = page_next [OF less.prems(1,2) this]
    from less.hyps [OF more(3,1,2) refl] more(4,5) obtain read unread where
      "drop 1000 rest = read @ unread" "list_all (older_than floor) unread"
      "accountPages (\<lambda>b. rpc b until) floor (Some (sg_signature (last (take 1000 rest)))) (acc @ take 1000 rest)
         = Some (Inr ((acc @ take 1000 rest) @ read))" by auto
    moreover have "accountPages (\<lambda>b. rpc b until) floor before acc =
        accountPages (\<lambda>b. rpc b until) floor (Some (sg_signature (last (take 1000 rest)))) (acc @ take 1000 rest)"
      using page False by (subst accountPages.simps) simp
    moreover have "rest = (take 1000 rest @ read) @ unread"
      using append_take_drop_id [of 1000 rest] \<open>drop 1000 rest = read @ unread\<close> by simp
    ultimately show ?thesis by (intro exI [of _ "take 1000 rest @ read"] exI [of _ unread]) simp
  qed
qed

section \<open>What a scan leaves\<close>

text \<open>A transaction is dealt with: failed, out of the window, or each of its transfers done with.\<close>

definition dealt :: "watcher_setup \<Rightarrow> scan_env \<Rightarrow> config \<Rightarrow> watched_account \<Rightarrow> int \<Rightarrow> int \<Rightarrow> signature_info \<Rightarrow> bool" where
  "dealt S e cfg account now floor x =
     (\<not> inWindow floor x
      \<or> (\<exists>found. foundIn S e cfg account (sg_signature x) = Inr found \<and> (\<forall>a \<in> set found. settled S (sn_attest e a) now a)))"

text \<open>What an attestation of this scan may add to the signatures; the rest of the watcher a scan leaves alone.\<close>

definition signable ::
    "watcher_setup \<Rightarrow> scan_env \<Rightarrow> config \<Rightarrow> watched_account \<Rightarrow> int \<Rightarrow> bytes \<times> attestation \<Rightarrow> bool" where
  "signable S e cfg account now p = (fst p = genesisHash cfg \<and> may_sign S (sn_attest e (snd p)) now (snd p)
     \<and> (\<exists>signature found. foundIn S e cfg account signature = Inr found \<and> snd p \<in> set found))"

definition signs_only :: "(bytes \<times> attestation \<Rightarrow> bool) \<Rightarrow> watcher \<Rightarrow> watcher \<Rightarrow> bool" where
  "signs_only P w w' = (wt_watched w' = wt_watched w \<and> wt_config w' = wt_config w \<and> wt_dirty w' = wt_dirty w
     \<and> (\<exists>new. wt_signed w' = wt_signed w @ new \<and> list_all P new))"

lemma signs_only_refl [simp]: "signs_only P w w"
  by (simp add: signs_only_def)

lemma signs_only_trans: "signs_only P w w' \<Longrightarrow> signs_only P w' w'' \<Longrightarrow> signs_only P w w''"
  by (auto simp: signs_only_def)

lemma signs_only_mono: "signs_only P w w' \<Longrightarrow> (\<And>p. P p \<Longrightarrow> Q p) \<Longrightarrow> signs_only Q w w'"
  by (auto simp: signs_only_def list_all_iff)

lemma attestAll_settles:
  "attestAll S e cfg now signature found w = (None, w') \<Longrightarrow> \<forall>a \<in> set found. settled S (sn_attest e a) now a"
proof (induction found arbitrary: w)
  case (Cons a found)
  from Cons.prems obtain w1 where a: "attest S (sn_attest e a) cfg now a w = (Inr True, w1)"
    and rest: "attestAll S e cfg now signature found w1 = (None, w')"
    by (auto split: prod.splits sum.splits bool.splits)
  from attest_settles [of S "sn_attest e a" cfg now a w] a Cons.IH [OF rest] show ?case by simp
qed simp

lemma attest_signs_only:
  assumes "foundIn S e cfg account signature = Inr found" "a \<in> set found"
  shows "signs_only (signable S e cfg account now) w (snd (attest S (sn_attest e a) cfg now a w))"
proof -
  have "signable S e cfg account now (genesisHash cfg, a)" if "may_sign S (sn_attest e a) now a"
    using assms that unfolding signable_def by auto
  with attest_keeps_rest [of w S "sn_attest e a" cfg now a] attest_signs [of S "sn_attest e a" cfg now a w]
  show ?thesis by (auto simp: signs_only_def attest_keeps_def)
qed

lemma attestAll_signs:
  assumes "foundIn S e cfg account signature = Inr all"
  shows "set found \<subseteq> set all \<Longrightarrow> attestAll S e cfg now signature found w = (r, w') \<Longrightarrow>
    signs_only (signable S e cfg account now) w w' \<and> wt_cursors w' = wt_cursors w"
proof (induction found arbitrary: w)
  case (Cons a found)
  obtain res w1 where a: "attest S (sn_attest e a) cfg now a w = (res, w1)" by fastforce
  with attest_keeps_rest [of w S "sn_attest e a" cfg now a] have keeps: "wt_cursors w1 = wt_cursors w"
    by (simp add: attest_keeps_def)
  have one: "signs_only (signable S e cfg account now) w w1"
    using attest_signs_only [OF assms, of a now w] Cons.prems(1) a by simp
  show ?case
  proof (cases "res = Inr True")
    case True
    with Cons.prems(2) a have rest: "attestAll S e cfg now signature found w1 = (r, w')" by simp
    from Cons.IH [OF _ rest] Cons.prems(1) signs_only_trans [OF one] keeps show ?thesis by simp
  next
    case False
    with Cons.prems(2) a have "w' = w1" by (auto split: sum.splits bool.splits)
    with keeps one show ?thesis by simp
  qed
qed simp

lemma scanRows_handles:
  assumes "scanRows S e cfg account now floor rows handled w = (failed, cursor, w')"
  shows "signs_only (signable S e cfg account now) w w' \<and> wt_cursors w' = wt_cursors w
    \<and> (\<exists>past left. rows = past @ left \<and> list_all (dealt S e cfg account now floor) past \<and> (failed = None \<longrightarrow> left = [])
         \<and> cursor = (if past = [] then handled else Some (sg_signature (last past), sg_slot (last past))))"
  using assms
proof (induction rows arbitrary: handled w)
  case Nil
  then show ?case by auto
next
  case (Cons x rest)
  let ?P = "signable S e cfg account now" and ?cursor = "Some (sg_signature x, sg_slot x)"
  have onward: "\<exists>past left. x # rest = past @ left \<and> list_all (dealt S e cfg account now floor) past \<and> (failed = None \<longrightarrow> left = [])
         \<and> cursor = (if past = [] then handled else Some (sg_signature (last past), sg_slot (last past)))"
    if "dealt S e cfg account now floor x" "rest = past @ left" "list_all (dealt S e cfg account now floor) past"
      "failed = None \<longrightarrow> left = []" "cursor = (if past = [] then ?cursor else Some (sg_signature (last past), sg_slot (last past)))"
    for past left
    using that by (intro exI [of _ "x # past"] exI [of _ left]) auto
  have stay: "\<exists>past left. x # rest = past @ left \<and> list_all (dealt S e cfg account now floor) past \<and> (failed = None \<longrightarrow> left = [])
         \<and> cursor = (if past = [] then handled else Some (sg_signature (last past), sg_slot (last past)))"
    if "failed \<noteq> None" "cursor = handled"
    using that by (intro exI [of _ "[]"] exI [of _ "x # rest"]) auto
  show ?case
  proof (cases "inWindow floor x")
    case False
    then have x: "dealt S e cfg account now floor x" by (simp add: dealt_def)
    from False Cons.prems have "scanRows S e cfg account now floor rest ?cursor w = (failed, cursor, w')" by simp
    from Cons.IH [OF this] onward [OF x] show ?thesis by blast
  next
    case True
    show ?thesis
    proof (cases "foundIn S e cfg account (sg_signature x)")
      case (Inl err)
      with True Cons.prems stay show ?thesis by auto
    next
      case (Inr found)
      obtain r w1 where all: "attestAll S e cfg now (sg_signature x) found w = (r, w1)" by fastforce
      from attestAll_signs [OF Inr subset_refl all] have one: "signs_only ?P w w1" "wt_cursors w1 = wt_cursors w" by simp_all
      show ?thesis
      proof (cases r)
        case (Some err)
        with True Inr all Cons.prems stay one show ?thesis by auto
      next
        case None
        with attestAll_settles [of S e cfg now _ found w w1] all Inr have x: "dealt S e cfg account now floor x"
          by (simp add: dealt_def)
        from True Inr all None Cons.prems have "scanRows S e cfg account now floor rest ?cursor w1 = (failed, cursor, w')" by simp
        from Cons.IH [OF this] onward [OF x] signs_only_trans [OF one(1)] one(2) show ?thesis by (metis (no_types, lifting))
      qed
    qed
  qed
qed

text \<open>
  C14: No payment is passed over. A scan of an account reads its finalized transactions after the cursor (paging
  ends) and moves the cursor only past what it dealt with: failed transactions, those out of the
  attestation window, and those of which every transfer is attested, counted or refused for good; it
  deals with all of them unless it throws, and signs only what the user's state, read for it, allows.
\<close>

theorem scan_deals:
  assumes "map_of (wt_users w) (wa_user account) = Some user" "wt_config w = Some cfg" "sn_read e = None"
    "servesBy sg_signature (sn_page e) (rev (old @ new))" "distinct (map sg_signature (old @ new))" "newest_first (rev (old @ new))"
    "map_option fst (map_of (wt_cursors w) (wa_address account)) = map_option sg_signature (if old = [] then None else Some (last old))"
  shows "\<exists>failed w' skipped past left. scan S e account now w = Some (failed, w')
    \<and> new = skipped @ past @ left \<and> list_all (older_than (scanFloor user now)) skipped
    \<and> list_all (dealt S e cfg account now (scanFloor user now)) past \<and> (failed = None \<longrightarrow> left = [])
    \<and> signs_only (signable S e cfg account now) w w'
    \<and> wt_cursors w' = (if past = [] \<or> sn_write e \<noteq> None then wt_cursors w
        else AList.update (wa_address account) (sg_signature (last past), sg_slot (last past)) (wt_cursors w))"
proof -
  let ?until = "map_option fst (map_of (wt_cursors w) (wa_address account))"
  let ?floor = "scanFloor user now"
  have "newerBy sg_signature (rev new @ rev old) ?until = rev new"
    unfolding assms(7) using newerBy_cursor [OF assms(5)] by simp
  moreover have "distinct (map sg_signature (rev (old @ new)))" using assms(5) by (simp only: rev_map [symmetric] distinct_rev)
  ultimately have "\<exists>read unread. rev new = read @ unread \<and> list_all (older_than ?floor) unread
      \<and> accountPages (\<lambda>b. sn_page e b ?until) ?floor None [] = Some (Inr ([] @ read))"
    by (intro accountPages_reads [OF assms(4) _ assms(6)]) simp_all
  then obtain read unread where pages: "rev new = read @ unread" "list_all (older_than ?floor) unread"
    "accountPages (\<lambda>b. sn_page e b ?until) ?floor None [] = Some (Inr read)" by auto
  obtain failed cursor w1 where rows: "scanRows S e cfg account now ?floor (rev read) None w = (failed, cursor, w1)"
    by (metis prod_cases3)
  from scanRows_handles [OF rows] obtain past left where one: "signs_only (signable S e cfg account now) w w1" "wt_cursors w1 = wt_cursors w"
    and past: "rev read = past @ left" "list_all (dealt S e cfg account now ?floor) past" "failed = None \<longrightarrow> left = []"
      "cursor = (if past = [] then None else Some (sg_signature (last past), sg_slot (last past)))" by blast
  obtain failed' w' where move: "moveCursor e (wa_address account) (failed, cursor, w1) = (failed', w')" by fastforce
  have "scan S e account now w = Some (failed', w')"
    using assms(1-3) pages(3) rows move by (simp add: scan_def Let_def)
  moreover have "new = rev unread @ past @ left" using pages(1) past(1) by (metis rev_append rev_rev_ident)
  moreover have "list_all (older_than ?floor) (rev unread)" using pages(2) by simp
  moreover from move past(3,4) one have "failed' = None \<longrightarrow> left = []" "signs_only (signable S e cfg account now) w w'"
    "wt_cursors w' = (if past = [] \<or> sn_write e \<noteq> None then wt_cursors w
        else AList.update (wa_address account) (sg_signature (last past), sg_slot (last past)) (wt_cursors w))"
    by (auto simp: moveCursor_def signs_only_def split: if_splits option.splits)
  ultimately show ?thesis using past(2) by blast
qed

text \<open>
  A payment can be lost. The watcher reads the clock once before it scans, and treats a transfer later
  than that clock as refused for good: although it would count at its own time, the attestation is
  done with, nothing is signed, and the scan moves its cursor past it.
\<close>

theorem late_transfer_lost:
  assumes "ae_accounts e = Inr (Some data, recorded)" "decodeUserConfig (ws_lib S) data = Inr user"
    "attestRefusal user a (at_eventTime a) = None" "now < at_eventTime a"
  shows "attest S e cfg now a w = (Inr True, w\<lparr>wt_users := AList.update (at_user a) user (wt_users w)\<rparr>)"
proof -
  from assms(3,4) have "attestRefusal user a now = Some InvalidAttestation"
    by (auto simp: attestRefusal_None) (simp add: attestRefusal_def)
  with assms(1,2) show ?thesis by (simp add: attest_def attestUser_def)
qed

text \<open>Whatever a scan meets, it signs only what is signable.\<close>

lemma scan_signs:
  assumes "scan S e account now w = Some (failed, w')"
  shows "\<exists>cfg. (wt_config w = Some cfg \<or> w' = w) \<and> signs_only (signable S e cfg account now) w w'"
proof (cases "w' = w")
  case False
  with assms obtain user cfg read where cfg: "wt_config w = Some cfg" and moved: "moveCursor e (wa_address account)
      (scanRows S e cfg account now (scanFloor user now) (rev read) None w) = (failed, w')"
    by (auto simp: scan_def Let_def split: option.splits sum.splits)
  obtain f cursor w1 where rows: "scanRows S e cfg account now (scanFloor user now) (rev read) None w = (f, cursor, w1)"
    by (metis prod_cases3)
  from scanRows_handles [OF rows] moved rows cfg show ?thesis
    by (auto simp: moveCursor_def signs_only_def split: option.splits if_splits)
qed simp

section \<open>A payment a second after the clock\<close>

definition demoPaid :: "executed_instruction \<Rightarrow> token_instruction option" where
  "demoPaid i = (case ei_accounts i of [a, b] \<Rightarrow> Some (TokenTransfer 50000000 a b) | _ \<Rightarrow> Some TokenOther)"

definition demoWatcherSetup :: watcher_setup where
  "demoWatcherSetup = \<lparr>ws_lib = demoLib, ws_wire = demoWire, ws_identify = demoPaid, ws_sign = (\<lambda>_. Some [7]),
     ws_attestor = ''T'', ws_crank = ''CRANK''\<rparr>"

definition demoInfo :: signature_info where
  "demoInfo = \<lparr>sg_blockTime = Some 1700, sg_err = False, sg_signature = ''SIG'', sg_slot = 5\<rparr>"

definition demoAttestEnv :: attest_env where
  "demoAttestEnv = \<lparr>ae_accounts = Inr (Some (encodeUserConfig demoLib demoUser), False),
     ae_build = Inr (\<lambda>_. None), ae_send = Inr ''SENT'', ae_alarm = None\<rparr>"

definition demoScanEnv :: scan_env where
  "demoScanEnv = \<lparr>sn_read = None, sn_page = (\<lambda>before until. Inr (take 1000 (newerBy sg_signature (olderBy sg_signature [demoInfo] before) until))),
     sn_fetch = (\<lambda>_. Inr (Some demoTransaction)), sn_attest = (\<lambda>_. demoAttestEnv), sn_write = None\<rparr>"

definition demoWatcher :: watcher where
  "demoWatcher = \<lparr>wt_config = Some demoConfig, wt_checkedAt = 0, wt_dirty = [''ACC''], wt_eventsSlot = Some 1, wt_failures = 0,
     wt_reconciledAt = 0, wt_lastSuccessAt = None, wt_subscriptions = [''ACC''],
     wt_users = [(''U'', demoUser)], wt_watched = [(''ACC'', demoWatched)], wt_cursors = [], wt_alarms = [], wt_signed = []\<rparr>"

definition demoPayment :: attestation where
  "demoPayment = demoIncome\<lparr>at_amount := 50000000\<rparr>"

lemma demo_page: "accountPages (\<lambda>before. sn_page demoScanEnv before None) floor None [] = Some (Inr [demoInfo])"
  by (subst accountPages.simps) (simp add: demoScanEnv_def newerBy_def olderBy_def lastPage_def)

lemma demo_scan_rows:
  "scanRows demoWatcherSetup demoScanEnv demoConfig demoWatched 1699 1000 [demoInfo] None demoWatcher
     = (None, Some (''SIG'', 5), demoWatcher\<lparr>wt_users := AList.update ''U'' demoUser (wt_users demoWatcher)\<rparr>)"
  by code_simp

lemma demo_late: "attestRefusal demoUser demoPayment (at_eventTime demoPayment) = None"
  by code_simp

lemma demo_scan_at:
  "scanRows demoWatcherSetup demoScanEnv demoConfig demoWatched 1800 1000 [demoInfo] None demoWatcher
     = (None, Some (''SIG'', 5), demoWatcher\<lparr>wt_users := [(''U'', demoUser)], wt_signed := [([], demoPayment)],
          wt_alarms := [(''invalid-attestation-signature'', None)]\<rparr>)"
  by code_simp

lemma demo_scan:
  assumes "now \<le> 600000" "wt_users w = [(''U'', demoUser)]" "wt_config w = Some demoConfig" "wt_cursors w = []"
  shows "scan demoWatcherSetup demoScanEnv demoWatched now w = Some (moveCursor demoScanEnv ''ACC''
     (scanRows demoWatcherSetup demoScanEnv demoConfig demoWatched now 1000 [demoInfo] None w))"
proof -
  have "scanFloor demoUser now = 1000" using assms(1) by (simp add: scanFloor_def demoUser_def ATTESTATION_TTL_SECONDS_def)
  moreover have "map_of (wt_users w) (wa_user demoWatched) = Some demoUser"
    "map_of (wt_cursors w) (wa_address demoWatched) = None" "wa_address demoWatched = ''ACC''" "sn_read demoScanEnv = None"
    using assms by (simp_all add: demoWatched_def demoScanEnv_def)
  ultimately show ?thesis using demo_page [of 1000] assms(3) by (simp add: scan_def)
qed

theorem scan_deals_witness:
  "scan demoWatcherSetup demoScanEnv demoWatched 1800 demoWatcher = Some (None, demoWatcher\<lparr>wt_users := [(''U'', demoUser)],
     wt_signed := [([], demoPayment)], wt_alarms := [(''invalid-attestation-signature'', None)], wt_cursors := [(''ACC'', ''SIG'', 5)]\<rparr>)
   \<and> (\<exists>past. past @ [] = [demoInfo] \<and> list_all (dealt demoWatcherSetup demoScanEnv demoConfig demoWatched 1800 1000) past)"
proof -
  have floor: "scanFloor demoUser 1800 = 1000" by (simp add: scanFloor_def demoUser_def ATTESTATION_TTL_SECONDS_def)
  have scanned: "scan demoWatcherSetup demoScanEnv demoWatched 1800 demoWatcher = Some (None, demoWatcher\<lparr>wt_users := [(''U'', demoUser)],
     wt_signed := [([], demoPayment)], wt_alarms := [(''invalid-attestation-signature'', None)], wt_cursors := [(''ACC'', ''SIG'', 5)]\<rparr>)"
    using demo_scan [of 1800 demoWatcher] unfolding demo_scan_at by (simp add: moveCursor_def demoScanEnv_def demoWatcher_def)
  have "\<exists>failed w' skipped past left. scan demoWatcherSetup demoScanEnv demoWatched 1800 demoWatcher = Some (failed, w')
    \<and> [demoInfo] = skipped @ past @ left \<and> list_all (older_than (scanFloor demoUser 1800)) skipped
    \<and> list_all (dealt demoWatcherSetup demoScanEnv demoConfig demoWatched 1800 (scanFloor demoUser 1800)) past
    \<and> (failed = None \<longrightarrow> left = [])
    \<and> signs_only (signable demoWatcherSetup demoScanEnv demoConfig demoWatched 1800) demoWatcher w'
    \<and> wt_cursors w' = (if past = [] \<or> sn_write demoScanEnv \<noteq> None then wt_cursors demoWatcher
        else AList.update (wa_address demoWatched) (sg_signature (last past), sg_slot (last past)) (wt_cursors demoWatcher))"
    by (rule scan_deals [of _ _ _ _ _ "[]"])
      (simp_all add: demoWatcher_def demoWatched_def demoScanEnv_def servesBy_def newest_first_def)
  then obtain skipped past where "[demoInfo] = skipped @ past" "list_all (older_than 1000) skipped"
    "list_all (dealt demoWatcherSetup demoScanEnv demoConfig demoWatched 1800 1000) past"
    unfolding scanned floor by auto
  then show ?thesis using scanned by (cases skipped) (auto simp: older_than_def demoInfo_def)
qed

theorem late_transfer_lost_witness:
  "scan demoWatcherSetup demoScanEnv demoWatched 1699 demoWatcher
     = Some (None, demoWatcher\<lparr>wt_users := [(''U'', demoUser)], wt_cursors := [(''ACC'', ''SIG'', 5)]\<rparr>)
   \<and> attestRefusal demoUser demoPayment 1700 = None
   \<and> attest demoWatcherSetup demoAttestEnv demoConfig 1699 demoPayment demoWatcher
       = (Inr True, demoWatcher\<lparr>wt_users := AList.update ''U'' demoUser (wt_users demoWatcher)\<rparr>)"
proof (intro conjI)
  show "scan demoWatcherSetup demoScanEnv demoWatched 1699 demoWatcher
     = Some (None, demoWatcher\<lparr>wt_users := [(''U'', demoUser)], wt_cursors := [(''ACC'', ''SIG'', 5)]\<rparr>)"
    using demo_scan [of 1699 demoWatcher] unfolding demo_scan_rows by (simp add: moveCursor_def demoScanEnv_def demoWatcher_def)
  have payment: "at_eventTime demoPayment = 1700" "at_user demoPayment = ''U''" by (simp_all add: demoPayment_def demoIncome_def)
  with demo_late show "attestRefusal demoUser demoPayment 1700 = None" by simp
  have "decodeUserConfig demoLib (encodeUserConfig demoLib demoUser) = Inr demoUser" by code_simp
  with late_transfer_lost [of demoAttestEnv _ False demoWatcherSetup demoUser demoPayment 1699 demoConfig demoWatcher] demo_late payment
  show "attest demoWatcherSetup demoAttestEnv demoConfig 1699 demoPayment demoWatcher
       = (Inr True, demoWatcher\<lparr>wt_users := AList.update ''U'' demoUser (wt_users demoWatcher)\<rparr>)"
    by (simp add: demoAttestEnv_def demoWatcherSetup_def)
qed

end
