(* ===== verification/Watcher.thy ===== *)
theory Watcher
  imports Watcher_Scan
begin

text \<open>
  The watcher's tick and its closing of records (\<open>Watcher\<close> of \<open>services/operator/src/watcher/watcher.ts\<close>):
  who is watched, what is read and when, and under which deployment it signs. The four scans at a time are
  modelled one after the other in the order of the accounts due; they share only the users and the alarms.
\<close>

section \<open>Following the users\<close>

definition RECONCILE_MS :: int where "RECONCILE_MS = 5 * 60 * 1000"
definition DEPLOYMENT_CHECK_MS :: int where "DEPLOYMENT_CHECK_MS = 60 * 1000"
definition FAILURES_TO_ALARM :: nat where "FAILURES_TO_ALARM = 3"
definition CLOSE_BATCH :: nat where "CLOSE_BATCH = 256"

text \<open>\<open>Set.add\<close> in the order of insertion.\<close>

definition setAdd :: "'a \<Rightarrow> 'a list \<Rightarrow> 'a list" where
  "setAdd x xs = (if x \<in> set xs then xs else xs @ [x])"

definition canInvest :: "user_config \<Rightarrow> bool" where
  "canInvest u = (\<not> (uc_status u \<noteq> Active \<or> (\<not> uc_incomeRule u \<and> uc_changeMultiplier u = 0)))"

definition watchedOf :: "lib \<Rightarrow> config \<Rightarrow> user_config \<Rightarrow> int \<Rightarrow> watched_account outcome" where
  "watchedOf L cfg u paymentToken =
     (case nth_opt (cfg_paymentTokens cfg) paymentToken of
        None \<Rightarrow> Inl TypeError
      | Some t \<Rightarrow> Inr \<lparr>wa_address = findAssociatedTokenPda L (token_mint t) (uc_user u) (token_tokenProgram t),
                       wa_paymentToken = paymentToken, wa_user = uc_user u\<rparr>)"

definition nextWatched :: "lib \<Rightarrow> config \<Rightarrow> user_config list \<Rightarrow> (address \<times> watched_account) list outcome" where
  "nextWatched L cfg users =
     res_bind (res_map (\<lambda>(u, t). watchedOf L cfg u t)
       (concat (map (\<lambda>u. if canInvest u then map (Pair u) (enabledPaymentTokens (uc_paymentTokens u)) else []) users)))
       (\<lambda>accounts. Inr (fold (\<lambda>a. AList.update (wa_address a) a) accounts []))"

definition follow :: "lib \<Rightarrow> watcher \<Rightarrow> js_error option \<times> watcher" where
  "follow L w =
     (case wt_config w of
        None \<Rightarrow> (Some TypeError, w)
      | Some cfg \<Rightarrow>
          (case nextWatched L cfg (map snd (wt_users w)) of
             Inl err \<Rightarrow> (Some err, w)
           | Inr following \<Rightarrow>
               let started = filter (\<lambda>a. map_of (wt_watched w) a = None) (map fst following)
               in (None, w\<lparr>wt_subscriptions := fold setAdd started (filter (\<lambda>a. a \<in> fst ` set following) (wt_subscriptions w)),
                           wt_dirty := fold setAdd started (wt_dirty w), wt_watched := following\<rparr>)))"

record tick_env =
  te_firstCheck :: "(config \<times> string) outcome"
  te_reloadAt :: int
  te_maxSlot :: "int option outcome"
  te_accounts :: "bytes list outcome"
  te_changed :: "int \<Rightarrow> (address \<times> int) list outcome"
  te_users :: "address list \<Rightarrow> bytes option list outcome"
  te_reconciledAt :: int
  te_dueAt :: int
  te_check :: "(config \<times> string) outcome"
  te_checkedAt :: int
  te_alarm :: "string \<Rightarrow> js_error option"
  te_clock :: "int outcome"
  te_scan :: "address \<Rightarrow> scan_env"
  te_finishedAt :: int

text \<open>Users set one by one as they decode; what was set before a failure stays.\<close>

fun loadUsers :: "lib \<Rightarrow> bytes list \<Rightarrow> watcher \<Rightarrow> js_error option \<times> watcher" where
  "loadUsers L [] w = (None, w)"
| "loadUsers L (data # rest) w =
     (case decodeUserConfig L data of
        Inl err \<Rightarrow> (Some err, w)
      | Inr u \<Rightarrow> loadUsers L rest (w\<lparr>wt_users := AList.update (uc_user u) u (wt_users w)\<rparr>))"

definition reloadUsers :: "lib \<Rightarrow> tick_env \<Rightarrow> watcher \<Rightarrow> js_error option \<times> watcher" where
  "reloadUsers L e w =
     (case te_maxSlot e of
        Inl err \<Rightarrow> (Some err, w)
      | Inr slot \<Rightarrow>
          (case te_accounts e of
             Inl err \<Rightarrow> (Some err, w)
           | Inr accounts \<Rightarrow>
               (case loadUsers L accounts (w\<lparr>wt_users := []\<rparr>) of
                  (Some err, w') \<Rightarrow> (Some err, w')
                | (None, w') \<Rightarrow> follow L (w'\<lparr>wt_eventsSlot := Some (case slot of None \<Rightarrow> - 1 | Some s \<Rightarrow> s)\<rparr>))))"

definition changedUsers :: "lib \<Rightarrow> tick_env \<Rightarrow> watcher \<Rightarrow> js_error option \<times> watcher" where
  "changedUsers L e w =
     (let since = (case wt_eventsSlot w of None \<Rightarrow> 0 | Some s \<Rightarrow> s)
      in case te_changed e since of
           Inl err \<Rightarrow> (Some err, w)
         | Inr rows \<Rightarrow>
             if rows = [] then (None, w)
             else (case res_bind (te_users e (map (\<lambda>(user, _). findUserConfigPda L user) rows))
                          (res_map (decodeUserConfig L) \<circ> List.map_filter id) of
                     Inl err \<Rightarrow> (Some err, w)
                   | Inr users \<Rightarrow>
                       follow L (w\<lparr>wt_users := fold (\<lambda>u. AList.update (uc_user u) u) users (wt_users w),
                                   wt_eventsSlot := Some (foldl max since (map snd rows))\<rparr>)))"

definition refresh :: "lib \<Rightarrow> tick_env \<Rightarrow> bool \<Rightarrow> watcher \<Rightarrow> js_error option \<times> watcher" where
  "refresh L e all = (if all then reloadUsers L e else changedUsers L e)"

definition reconcile :: "int \<Rightarrow> watcher \<Rightarrow> watcher" where
  "reconcile now w = w\<lparr>wt_dirty := fold setAdd (map fst (wt_watched w)) (wt_dirty w), wt_reconciledAt := now\<rparr>"

text \<open>A notification of an account's subscription.\<close>

definition notified :: "address \<Rightarrow> watcher \<Rightarrow> watcher" where
  "notified account w = w\<lparr>wt_dirty := setAdd account (wt_dirty w)\<rparr>"

section \<open>The tick\<close>

fun scanDue :: "watcher_setup \<Rightarrow> tick_env \<Rightarrow> int \<Rightarrow> address list \<Rightarrow> address list \<Rightarrow> watcher \<Rightarrow> (address list \<times> watcher) option" where
  "scanDue S e now [] failed w = Some (failed, w)"
| "scanDue S e now (a # due) failed w =
     (case map_of (wt_watched w) a of
        None \<Rightarrow> scanDue S e now due failed w
      | Some account \<Rightarrow>
          (case scan S (te_scan e a) account now w of
             None \<Rightarrow> None
           | Some (None, w') \<Rightarrow> scanDue S e now due failed w'
           | Some (Some _, w') \<Rightarrow>
               scanDue S e now due (failed @ [wa_address account])
                 (w'\<lparr>wt_dirty := setAdd (wa_address account) (wt_dirty w')\<rparr>)))"

definition watcherAlarm :: "address list \<Rightarrow> nat \<Rightarrow> string option" where
  "watcherAlarm failed failures =
     (if failures \<ge> FAILURES_TO_ALARM
      then Some (''the watcher could not read '' @ showNat (length failed) @ '' watched accounts '' @ showNat failures
                 @ '' times in a row ('' @ concat (map (\<lambda>a. a @ '', '') (butlast failed)) @ concat (drop (length failed - 1) failed)
                 @ ''): check the RPC'')
      else None)"

definition afterScans :: "tick_env \<Rightarrow> address list \<Rightarrow> watcher \<Rightarrow> js_error option \<times> watcher" where
  "afterScans e failed w =
     (let failures = (if failed = [] then 0 else wt_failures w + 1); w = w\<lparr>wt_failures := failures\<rparr>
      in case te_alarm e ''watcher'' of
           Some err \<Rightarrow> (Some err, w)
         | None \<Rightarrow>
             let w = w\<lparr>wt_alarms := wt_alarms w @ [(''watcher'', watcherAlarm failed failures)]\<rparr>
             in (None, if failed = [] then w\<lparr>wt_lastSuccessAt := Some (te_finishedAt e)\<rparr> else w))"

definition readDue ::
    "watcher_setup \<Rightarrow> tick_env \<Rightarrow> address list \<Rightarrow> config \<Rightarrow> watcher \<Rightarrow> (js_error option \<times> watcher) option" where
  "readDue S e due cfg w =
     (case te_clock e of
        Inl err \<Rightarrow> Some (Some err, w\<lparr>wt_config := Some cfg\<rparr>)
      | Inr now \<Rightarrow>
          map_option (\<lambda>(failed, w'). afterScans e failed w')
            (scanDue S e now due []
               (w\<lparr>wt_config := Some cfg, wt_dirty := filter (\<lambda>a. a \<notin> set due) (wt_dirty w)\<rparr>)))"

definition checkAndRead ::
    "watcher_setup \<Rightarrow> tick_env \<Rightarrow> address list \<Rightarrow> watcher \<Rightarrow> (js_error option \<times> watcher) option" where
  "checkAndRead S e due w =
     (case te_check e of
        Inl err \<Rightarrow> Some (Some err, w)
      | Inr (cfg, clusterGenesis) \<Rightarrow>
          let mismatch = deploymentMismatch (ws_wire S) cfg clusterGenesis (ws_attestor S);
              w = w\<lparr>wt_checkedAt := te_checkedAt e\<rparr>
          in case te_alarm e ''attestor-deployment'' of
               Some err \<Rightarrow> Some (Some err, w)
             | None \<Rightarrow>
                 let w = w\<lparr>wt_alarms := wt_alarms w @ [(''attestor-deployment'', mismatch)]\<rparr>
                 in if mismatch \<noteq> None then Some (None, w) else readDue S e due cfg w)"

definition tickConfigured :: "watcher_setup \<Rightarrow> tick_env \<Rightarrow> watcher \<Rightarrow> (js_error option \<times> watcher) option" where
  "tickConfigured S e w =
     (let reload = (wt_eventsSlot w = None \<or> te_reloadAt e - wt_reconciledAt w \<ge> RECONCILE_MS)
      in case refresh (ws_lib S) e reload w of
           (Some err, w') \<Rightarrow> Some (Some err, w')
         | (None, w') \<Rightarrow>
             let w' = (if reload then reconcile (te_reconciledAt e) w' else w'); due = wt_dirty w'
             in if due = [] \<and> te_dueAt e - wt_checkedAt w' < DEPLOYMENT_CHECK_MS
                then Some (None, w'\<lparr>wt_lastSuccessAt := Some (te_finishedAt e)\<rparr>)
                else checkAndRead S e due w')"

definition watcherTick :: "watcher_setup \<Rightarrow> tick_env \<Rightarrow> watcher \<Rightarrow> (js_error option \<times> watcher) option" where
  "watcherTick S e w =
     (case wt_config w of
        Some _ \<Rightarrow> tickConfigured S e w
      | None \<Rightarrow>
          (case te_firstCheck e of
             Inl err \<Rightarrow> Some (Some err, w)
           | Inr (cfg, _) \<Rightarrow> tickConfigured S e (w\<lparr>wt_config := Some cfg\<rparr>)))"

section \<open>Closing records\<close>

text \<open>The stored attestations whose records the crank may close, oldest first, once each.\<close>

definition expiredRecords :: "attestation_row list \<Rightarrow> address \<Rightarrow> int \<Rightarrow> address list" where
  "expiredRecords rows crank now =
     map snd (take CLOSE_BATCH (sort_key fst (remdups (map (\<lambda>r. (ar_expiresAtMs r, ar_record r))
       (filter (\<lambda>r. ar_closed r = None \<and> ar_payer r = crank \<and> ar_expiresAtMs r < now * 1000) rows)))))"

definition CLOSE_ATTESTATION_DISCRIMINATOR :: bytes where
  "CLOSE_ATTESTATION_DISCRIMINATOR = [249, 84, 133, 23, 48, 175, 252, 221]"

definition getCloseAttestationInstruction :: "address \<Rightarrow> address \<Rightarrow> instruction" where
  "getCloseAttestationInstruction payer record_address =
     RawInstruction LATERITE_PROGRAM_ADDRESS [writable record_address, writable payer] CLOSE_ATTESTATION_DISCRIMINATOR"

definition closeInstructions :: "attestation_row list \<Rightarrow> (address \<Rightarrow> bool) \<Rightarrow> address \<Rightarrow> int \<Rightarrow> instruction list" where
  "closeInstructions rows exists_on_chain crank now =
     map (getCloseAttestationInstruction crank) (filter exists_on_chain (expiredRecords rows crank now))"

section \<open>What a tick signs\<close>

text \<open>Due accounts are read without an error, or due again.\<close>

definition read_or_due :: "watcher_setup \<Rightarrow> tick_env \<Rightarrow> config \<Rightarrow> int \<Rightarrow> watcher \<Rightarrow> address \<Rightarrow> bool" where
  "read_or_due S e cfg now w' a = (\<forall>account. map_of (wt_watched w') a = Some account \<longrightarrow>
     wa_address account \<in> set (wt_dirty w')
     \<or> (\<exists>w1 w2. scan S (te_scan e a) account now w1 = Some (None, w2) \<and> wt_config w1 = Some cfg))"

definition tick_signable :: "watcher_setup \<Rightarrow> tick_env \<Rightarrow> config \<Rightarrow> int \<Rightarrow> watcher \<Rightarrow> bytes \<times> attestation \<Rightarrow> bool" where
  "tick_signable S e cfg now w p =
     (\<exists>a account. map_of (wt_watched w) a = Some account \<and> signable S (te_scan e a) cfg account now p)"

definition scans :: "watcher_setup \<Rightarrow> tick_env \<Rightarrow> config \<Rightarrow> int \<Rightarrow> address list \<Rightarrow> watcher \<Rightarrow> watcher \<Rightarrow> bool" where
  "scans S e cfg now due w w' = (wt_watched w' = wt_watched w \<and> wt_config w' = Some cfg \<and> set (wt_dirty w) \<subseteq> set (wt_dirty w')
     \<and> (\<exists>new. wt_signed w' = wt_signed w @ new \<and> list_all (tick_signable S e cfg now w) new)
     \<and> list_all (read_or_due S e cfg now w') due)"

lemma read_or_due_mono:
  "read_or_due S e cfg now w a \<Longrightarrow> wt_watched w' = wt_watched w \<Longrightarrow> set (wt_dirty w) \<subseteq> set (wt_dirty w') \<Longrightarrow> read_or_due S e cfg now w' a"
  unfolding read_or_due_def by auto

lemma scans_Cons:
  assumes "scans S e cfg now due w1 w'" "wt_watched w1 = wt_watched w" "set (wt_dirty w) \<subseteq> set (wt_dirty w1)"
    "\<exists>new. wt_signed w1 = wt_signed w @ new \<and> list_all (tick_signable S e cfg now w) new" "read_or_due S e cfg now w1 a"
  shows "scans S e cfg now (a # due) w w'"
proof -
  have same: "tick_signable S e cfg now w1 = tick_signable S e cfg now w"
    using assms(2) by (simp add: tick_signable_def fun_eq_iff)
  obtain one new where "wt_signed w' = (wt_signed w @ one) @ new" "list_all (tick_signable S e cfg now w) (one @ new)"
    using assms(1,4) unfolding scans_def same by auto
  moreover have "read_or_due S e cfg now w' a"
    using read_or_due_mono [OF assms(5)] assms(1) by (simp add: scans_def)
  ultimately show ?thesis using assms(1-3) unfolding scans_def by auto
qed

lemma scanDue_scans:
  "scanDue S e now due failed w = Some (failed', w') \<Longrightarrow> wt_config w = Some cfg \<Longrightarrow> scans S e cfg now due w w'"
proof (induction S e now due failed w rule: scanDue.induct)
  case (1 S e now failed w)
  then show ?case by (simp add: scans_def)
next
  case (2 S e now a due failed w)
  show ?case
  proof (cases "map_of (wt_watched w) a")
    case None
    with 2 have "scans S e cfg now due w w'" by simp
    then show ?thesis by (rule scans_Cons) (simp_all add: None read_or_due_def)
  next
    case (Some account)
    with 2(4) obtain r w1 where scan: "scan S (te_scan e a) account now w = Some (r, w1)" by (auto split: option.splits)
    from scan_signs [OF scan] 2(5) have signs: "signs_only (signable S (te_scan e a) cfg account now) w w1" by auto
    then have one: "wt_watched w1 = wt_watched w" "wt_config w1 = Some cfg" "wt_dirty w1 = wt_dirty w"
      "\<exists>new. wt_signed w1 = wt_signed w @ new \<and> list_all (tick_signable S e cfg now w) new"
      using 2(5) Some by (auto simp: signs_only_def tick_signable_def list_all_iff)
    show ?thesis
    proof (cases r)
      case None
      with 2(2) [OF Some scan] 2(4,5) Some scan one(2) have "scans S e cfg now due w1 w'" by simp
      moreover have "read_or_due S e cfg now w1 a"
        using scan None Some 2(5) one(1) unfolding read_or_due_def by auto
      ultimately show ?thesis using one by (intro scans_Cons [of S e cfg now due w1]) simp_all
    next
      case (Some err)
      let ?w = "w1\<lparr>wt_dirty := setAdd (wa_address account) (wt_dirty w1)\<rparr>"
      from Some 2(3) [OF \<open>map_of (wt_watched w) a = Some account\<close> scan] 2(4,5) \<open>map_of (wt_watched w) a = Some account\<close> scan one(2)
      have "scans S e cfg now due ?w w'" by simp
      then show ?thesis using one \<open>map_of (wt_watched w) a = Some account\<close>
        by (intro scans_Cons [of S e cfg now due ?w]) (auto simp: setAdd_def read_or_due_def)
    qed
  qed
qed

section \<open>Due accounts\<close>

definition watched_ok :: "(address \<times> watched_account) list \<Rightarrow> bool" where
  "watched_ok watched = list_all (\<lambda>(a, account). wa_address account = a) watched"

text \<open>What bringing the users up to date does to the rest.\<close>

definition updates :: "watcher \<Rightarrow> watcher \<Rightarrow> bool" where
  "updates w w' = (wt_signed w' = wt_signed w \<and> set (wt_dirty w) \<subseteq> set (wt_dirty w')
     \<and> fst ` set (wt_watched w') \<subseteq> fst ` set (wt_watched w) \<union> set (wt_dirty w')
     \<and> (watched_ok (wt_watched w) \<longrightarrow> watched_ok (wt_watched w')))"

lemma updates_refl [simp]: "updates w w"
  by (simp add: updates_def)

lemma updates_cong:
  "updates w1 w' \<Longrightarrow> wt_signed w1 = wt_signed w \<Longrightarrow> wt_dirty w1 = wt_dirty w \<Longrightarrow> wt_watched w1 = wt_watched w
   \<Longrightarrow> wt_config w1 = wt_config w \<Longrightarrow> updates w w'"
  by (simp add: updates_def)

lemma set_fold_setAdd: "set (fold setAdd xs ys) = set ys \<union> set xs"
  by (induction xs arbitrary: ys) (auto simp: setAdd_def)

lemma watched_ok_update: "watched_ok xs \<Longrightarrow> watched_ok (AList.update (wa_address a) a xs)"
  by (induction xs) (auto simp: watched_ok_def)

lemma nextWatched_ok: "nextWatched L cfg users = Inr following \<Longrightarrow> watched_ok following"
proof -
  have "watched_ok (fold (\<lambda>a. AList.update (wa_address a) a) accounts xs)" if "watched_ok xs" for accounts xs
    using that by (induction accounts arbitrary: xs) (simp_all add: watched_ok_update)
  then show "nextWatched L cfg users = Inr following \<Longrightarrow> ?thesis"
    by (auto simp: nextWatched_def result_simps watched_ok_def)
qed

lemma follow_updates: "updates w (snd (follow L w))"
proof (cases "wt_config w")
  case (Some cfg)
  show ?thesis
  proof (cases "nextWatched L cfg (map snd (wt_users w))")
    case (Inr following)
    have "a \<in> fst ` set (wt_watched w) \<or> map_of (wt_watched w) a = None" for a by (metis map_of_eq_None_iff)
    with Some Inr nextWatched_ok [OF Inr] show ?thesis
      by (auto simp: follow_def updates_def Let_def set_fold_setAdd map_of_eq_None_iff)
  qed (simp add: follow_def Some)
qed (simp add: follow_def)

lemma loadUsers_rest:
  "loadUsers L accounts w = (r, w') \<Longrightarrow> wt_signed w' = wt_signed w \<and> wt_dirty w' = wt_dirty w \<and> wt_watched w' = wt_watched w
     \<and> wt_config w' = wt_config w"
  by (induction L accounts w rule: loadUsers.induct) (auto split: sum.splits)

lemma refresh_updates: "updates w (snd (refresh L e all w))"
proof (cases all)
  case True
  show ?thesis
  proof (cases "te_maxSlot e")
    case slot: (Inr slot)
    show ?thesis
    proof (cases "te_accounts e")
      case (Inr accounts)
      obtain r w1 where load: "loadUsers L accounts (w\<lparr>wt_users := []\<rparr>) = (r, w1)" by fastforce
      from loadUsers_rest [OF load] have same: "wt_signed w1 = wt_signed w" "wt_dirty w1 = wt_dirty w"
        "wt_watched w1 = wt_watched w" "wt_config w1 = wt_config w" by simp_all
      show ?thesis
      proof (cases r)
        case None
        let ?w = "w1\<lparr>wt_eventsSlot := Some (case slot of None \<Rightarrow> - 1 | Some s \<Rightarrow> s)\<rparr>"
        have "refresh L e all w = follow L ?w" using True slot Inr load None by (simp add: refresh_def reloadUsers_def)
        then show ?thesis using updates_cong [OF follow_updates [of ?w L]] same by simp
      next
        case (Some err)
        then have "snd (refresh L e all w) = w1" using True slot Inr load by (simp add: refresh_def reloadUsers_def)
        then show ?thesis using updates_cong [OF updates_refl] same by simp
      qed
    qed (simp add: refresh_def reloadUsers_def True slot)
  qed (simp add: refresh_def reloadUsers_def True)
next
  case False
  have onward: "updates w (snd (follow L (w\<lparr>wt_users := us, wt_eventsSlot := s\<rparr>)))" for us s
    by (rule updates_cong [OF follow_updates]) simp_all
  show ?thesis using False onward
    by (simp add: refresh_def changedUsers_def Let_def split: sum.split)
qed

text \<open>
  What one tick does: it brings the users up to date, and stops there or checks the deployment, reads the
  clock and scans every account due then.
\<close>

definition tick_scanned :: "watcher_setup \<Rightarrow> tick_env \<Rightarrow> watcher \<Rightarrow> watcher \<Rightarrow> bool" where
  "tick_scanned S e w w' = (\<exists>cfg now w1 w2. te_check e = Inr (cfg, base58Text (ws_wire S) (genesisHash cfg))
     \<and> cfg_attestor cfg = ws_attestor S \<and> te_clock e = Inr now \<and> updates w w1
     \<and> scans S e cfg now (wt_dirty w1) (w1\<lparr>wt_config := Some cfg, wt_dirty := []\<rparr>) w2
     \<and> wt_signed w' = wt_signed w2 \<and> wt_dirty w' = wt_dirty w2 \<and> wt_watched w' = wt_watched w2)"

lemma deploymentMismatch_None:
  "deploymentMismatch W cfg genesis attestor = None \<longleftrightarrow> cfg_attestor cfg = attestor \<and> base58Text W (genesisHash cfg) = genesis"
  by (auto simp: deploymentMismatch_def Let_def)

lemma readDue_scans:
  assumes "readDue S e (wt_dirty w) cfg w = Some (failed, w')"
  shows "wt_signed w' = wt_signed w \<and> wt_dirty w' = wt_dirty w \<and> wt_watched w' = wt_watched w
    \<or> (\<exists>now w2. te_clock e = Inr now \<and> scans S e cfg now (wt_dirty w) (w\<lparr>wt_config := Some cfg, wt_dirty := []\<rparr>) w2
         \<and> wt_signed w' = wt_signed w2 \<and> wt_dirty w' = wt_dirty w2 \<and> wt_watched w' = wt_watched w2)"
proof (cases "te_clock e")
  case (Inl err)
  with assms show ?thesis by (auto simp: readDue_def)
next
  case (Inr now)
  with assms obtain bad w2 where scanned: "scanDue S e now (wt_dirty w) [] (w\<lparr>wt_config := Some cfg, wt_dirty := []\<rparr>) = Some (bad, w2)"
    "(failed, w') = afterScans e bad w2" by (auto simp: readDue_def)
  from scanned(2) have "wt_signed w' = wt_signed w2" "wt_dirty w' = wt_dirty w2" "wt_watched w' = wt_watched w2"
    by (auto simp: afterScans_def Let_def split: option.splits if_splits)
  with scanDue_scans [OF scanned(1), of cfg] Inr show ?thesis by auto
qed

lemma checkAndRead_scans:
  assumes "checkAndRead S e (wt_dirty w) w = Some (failed, w')" "updates w0 w"
  shows "updates w0 w' \<or> tick_scanned S e w0 w'"
proof (cases "te_check e")
  case (Inl err)
  with assms show ?thesis by (simp add: checkAndRead_def)
next
  case (Inr check)
  obtain cfg genesis where check: "check = (cfg, genesis)" by fastforce
  let ?w = "w\<lparr>wt_checkedAt := te_checkedAt e\<rparr>"
  show ?thesis
  proof (cases "te_alarm e ''attestor-deployment''")
    case (Some err)
    with assms Inr check have "w' = ?w" by (simp add: checkAndRead_def Let_def)
    with assms(2) show ?thesis by (simp add: updates_def)
  next
    case None
    let ?w = "?w\<lparr>wt_alarms := wt_alarms w @ [(''attestor-deployment'', deploymentMismatch (ws_wire S) cfg genesis (ws_attestor S))]\<rparr>"
    have up: "updates w0 ?w" using assms(2) by (simp add: updates_def)
    show ?thesis
    proof (cases "deploymentMismatch (ws_wire S) cfg genesis (ws_attestor S)")
      case (Some problem)
      with None assms(1) Inr check have "w' = ?w" by (simp add: checkAndRead_def Let_def)
      with up show ?thesis by simp
    next
      case ok: None
      with None assms(1) Inr check have "readDue S e (wt_dirty ?w) cfg ?w = Some (failed, w')" by (simp add: checkAndRead_def Let_def)
      from readDue_scans [OF this] show ?thesis
      proof (elim disjE exE conjE)
        assume "wt_signed w' = wt_signed ?w" "wt_dirty w' = wt_dirty ?w" "wt_watched w' = wt_watched ?w"
        with up show ?thesis by (simp add: updates_def)
      next
        fix now w2
        assume "te_clock e = Inr now" "scans S e cfg now (wt_dirty ?w) (?w\<lparr>wt_config := Some cfg, wt_dirty := []\<rparr>) w2"
          "wt_signed w' = wt_signed w2" "wt_dirty w' = wt_dirty w2" "wt_watched w' = wt_watched w2"
        with up Inr check ok show ?thesis unfolding tick_scanned_def deploymentMismatch_None by blast
      qed
    qed
  qed
qed

lemma reconcile_updates: "updates w w' \<Longrightarrow> updates w (reconcile now w')"
  by (auto simp: reconcile_def updates_def set_fold_setAdd)

lemma tickConfigured_scans:
  assumes "tickConfigured S e w = Some (failed, w')"
  shows "updates w w' \<or> tick_scanned S e w w'"
proof -
  define reload where "reload = (wt_eventsSlot w = None \<or> te_reloadAt e - wt_reconciledAt w \<ge> RECONCILE_MS)"
  obtain r w1 where refreshed: "refresh (ws_lib S) e reload w = (r, w1)" by fastforce
  with refresh_updates [of w "ws_lib S" e reload] have up: "updates w w1" by simp
  show ?thesis
  proof (cases r)
    case (Some err)
    with assms refreshed up show ?thesis by (simp add: tickConfigured_def flip: reload_def)
  next
    case None
    define w2 where "w2 = (if reload then reconcile (te_reconciledAt e) w1 else w1)"
    with up reconcile_updates have up2: "updates w w2" by simp
    have tick: "tickConfigured S e w =
        (if wt_dirty w2 = [] \<and> te_dueAt e - wt_checkedAt w2 < DEPLOYMENT_CHECK_MS
         then Some (None, w2\<lparr>wt_lastSuccessAt := Some (te_finishedAt e)\<rparr>) else checkAndRead S e (wt_dirty w2) w2)"
      using refreshed None by (simp add: tickConfigured_def Let_def w2_def flip: reload_def)
    show ?thesis
    proof (cases "wt_dirty w2 = [] \<and> te_dueAt e - wt_checkedAt w2 < DEPLOYMENT_CHECK_MS")
      case True
      with assms tick have "w' = w2\<lparr>wt_lastSuccessAt := Some (te_finishedAt e)\<rparr>" by simp
      with up2 show ?thesis by (simp add: updates_def)
    next
      case False
      with assms tick have "checkAndRead S e (wt_dirty w2) w2 = Some (failed, w')" by (simp only: if_False)
      then show ?thesis by (rule checkAndRead_scans [OF _ up2])
    qed
  qed
qed

lemma watcherTick_scans:
  assumes "watcherTick S e w = Some (failed, w')"
  shows "updates w w' \<or> tick_scanned S e w w'"
proof (cases "wt_config w")
  case (Some cfg)
  with assms show ?thesis by (simp add: watcherTick_def tickConfigured_scans)
next
  case None
  show ?thesis
  proof (cases "te_firstCheck e")
    case (Inl err)
    with None assms show ?thesis by (simp add: watcherTick_def)
  next
    case (Inr check)
    with None assms have "tickConfigured S e (w\<lparr>wt_config := Some (fst check)\<rparr>) = Some (failed, w')"
      by (simp add: watcherTick_def split: prod.splits)
    from tickConfigured_scans [OF this] show ?thesis by (simp add: updates_def tick_scanned_def)
  qed
qed

text \<open>
  C15: The watcher signs nothing unchecked. Whatever a tick adds to the attestor's signatures, it read in that
  tick a config that names this attestor and the genesis hash of the cluster its RPC serves, signs for that
  genesis, and each transfer comes from a finalized transaction of a watched account, of a user whose
  account, read for that signature, allows it at the tick's clock, and has no record yet.
\<close>

theorem watcher_signs_checked:
  assumes "watcherTick S e w = Some (failed, w')"
  shows "\<exists>new. wt_signed w' = wt_signed w @ new \<and> (new = [] \<or> (\<exists>cfg now.
      te_check e = Inr (cfg, base58Text (ws_wire S) (genesisHash cfg)) \<and> cfg_attestor cfg = ws_attestor S \<and> te_clock e = Inr now
      \<and> list_all (\<lambda>(genesis, a). genesis = genesisHash cfg
           \<and> (\<exists>address account signature found. map_of (wt_watched w') address = Some account
                \<and> foundIn S (te_scan e address) cfg account signature = Inr found \<and> a \<in> set found
                \<and> may_sign S (sn_attest (te_scan e address) a) now a)) new))"
  using watcherTick_scans [OF assms]
proof
  assume "updates w w'"
  then show ?thesis by (simp add: updates_def)
next
  assume "tick_scanned S e w w'"
  then obtain cfg now w1 w2 where tick: "te_check e = Inr (cfg, base58Text (ws_wire S) (genesisHash cfg))"
    "cfg_attestor cfg = ws_attestor S" "te_clock e = Inr now" "updates w w1" "wt_signed w' = wt_signed w2" "wt_watched w' = wt_watched w2"
    and scans: "scans S e cfg now (wt_dirty w1) (w1\<lparr>wt_config := Some cfg, wt_dirty := []\<rparr>) w2"
    unfolding tick_scanned_def by blast
  from scans have watched: "wt_watched w2 = wt_watched w1" by (simp add: scans_def)
  from scans tick(4,5) obtain new where new: "wt_signed w' = wt_signed w @ new"
    "list_all (tick_signable S e cfg now (w1\<lparr>wt_config := Some cfg, wt_dirty := []\<rparr>)) new"
    by (auto simp: scans_def updates_def)
  have "list_all (\<lambda>(genesis, a). genesis = genesisHash cfg
         \<and> (\<exists>address account signature found. map_of (wt_watched w') address = Some account
              \<and> foundIn S (te_scan e address) cfg account signature = Inr found \<and> a \<in> set found
              \<and> may_sign S (sn_attest (te_scan e address) a) now a)) new"
    by (rule list.pred_mono_strong [OF new(2)])
      (auto simp: tick_signable_def signable_def tick(6) watched, blast)
  with new(1) tick(1-3) show ?thesis by blast
qed

text \<open>
  C16: An account stays due until it is read. An account that was due before a tick, or that the tick begins to
  watch, is due after it too unless the tick scanned it without an error, under the config and clock it
  read.
\<close>

theorem due_until_read:
  assumes "watcherTick S e w = Some (failed, w')" "watched_ok (wt_watched w)"
    "map_of (wt_watched w') a = Some account" "a \<in> set (wt_dirty w) \<or> a \<notin> fst ` set (wt_watched w)"
  shows "a \<in> set (wt_dirty w') \<or> (\<exists>cfg now w1 w2. te_check e = Inr (cfg, base58Text (ws_wire S) (genesisHash cfg))
    \<and> te_clock e = Inr now \<and> wt_config w1 = Some cfg \<and> scan S (te_scan e a) account now w1 = Some (None, w2))"
proof -
  have member: "a \<in> fst ` set (wt_watched w')" using assms(3) by (metis map_of_eq_None_iff option.distinct(1))
  from watcherTick_scans [OF assms(1)] show ?thesis
  proof
    assume "updates w w'"
    with assms(4) member show ?thesis unfolding updates_def by blast
  next
    assume "tick_scanned S e w w'"
    then obtain cfg now w1 w2 where tick: "te_check e = Inr (cfg, base58Text (ws_wire S) (genesisHash cfg))"
      "te_clock e = Inr now" "updates w w1" "wt_dirty w' = wt_dirty w2" "wt_watched w' = wt_watched w2"
      and scans: "scans S e cfg now (wt_dirty w1) (w1\<lparr>wt_config := Some cfg, wt_dirty := []\<rparr>) w2"
      unfolding tick_scanned_def by blast
    from scans tick(5) have watched: "wt_watched w' = wt_watched w1" by (simp add: scans_def)
    with tick(3) assms(2,4) member have "a \<in> set (wt_dirty w1)" "watched_ok (wt_watched w')" unfolding updates_def by auto
    then have "read_or_due S e cfg now w2 a" "wa_address account = a"
      using scans map_of_SomeD [OF assms(3)] by (auto simp: scans_def list_all_iff watched_ok_def)
    with assms(3) tick show ?thesis unfolding read_or_due_def by auto
  qed
qed

section \<open>A tick that attests a payment\<close>

definition demoTick :: tick_env where
  "demoTick = \<lparr>te_firstCheck = Inl TypeError, te_reloadAt = 0, te_maxSlot = Inr None, te_accounts = Inr [],
     te_changed = (\<lambda>_. Inr []), te_users = (\<lambda>_. Inr []), te_reconciledAt = 0, te_dueAt = 0,
     te_check = Inr (demoConfig, ''s''), te_checkedAt = 0, te_alarm = (\<lambda>_. None), te_clock = Inr 1800,
     te_scan = (\<lambda>_. demoScanEnv), te_finishedAt = 1\<rparr>"

definition demoScanning :: watcher where
  "demoScanning = demoWatcher\<lparr>wt_dirty := [], wt_alarms := [(''attestor-deployment'', None)]\<rparr>"

definition demoTicked :: watcher where
  "demoTicked = demoScanning\<lparr>wt_lastSuccessAt := Some 1, wt_cursors := [(''ACC'', ''SIG'', 5)], wt_signed := [([], demoPayment)],
     wt_alarms := [(''attestor-deployment'', None), (''invalid-attestation-signature'', None), (''watcher'', None)]\<rparr>"

lemma demo_rows_scanning:
  "scanRows demoWatcherSetup demoScanEnv demoConfig demoWatched 1800 1000 [demoInfo] None demoScanning
     = (None, Some (''SIG'', 5), demoScanning\<lparr>wt_signed := [([], demoPayment)],
          wt_alarms := [(''attestor-deployment'', None), (''invalid-attestation-signature'', None)]\<rparr>)"
  by code_simp

lemma demo_tick: "watcherTick demoWatcherSetup demoTick demoWatcher = Some (None, demoTicked)"
proof -
  have "scan demoWatcherSetup demoScanEnv demoWatched 1800 demoScanning = Some (moveCursor demoScanEnv ''ACC''
     (scanRows demoWatcherSetup demoScanEnv demoConfig demoWatched 1800 1000 [demoInfo] None demoScanning))"
    by (rule demo_scan) (simp_all add: demoScanning_def demoWatcher_def)
  then have scan: "scan demoWatcherSetup demoScanEnv demoWatched 1800 demoScanning = Some (None, demoScanning\<lparr>
      wt_signed := [([], demoPayment)], wt_cursors := [(''ACC'', ''SIG'', 5)],
      wt_alarms := [(''attestor-deployment'', None), (''invalid-attestation-signature'', None)]\<rparr>)"
    unfolding demo_rows_scanning by (simp add: moveCursor_def demoScanEnv_def demoScanning_def demoWatcher_def)
  have "map_of (wt_watched demoScanning) ''ACC'' = Some demoWatched" by (simp add: demoScanning_def demoWatcher_def)
  with scan have "scanDue demoWatcherSetup demoTick 1800 [''ACC''] [] demoScanning = Some ([], demoScanning\<lparr>
      wt_signed := [([], demoPayment)], wt_cursors := [(''ACC'', ''SIG'', 5)],
      wt_alarms := [(''attestor-deployment'', None), (''invalid-attestation-signature'', None)]\<rparr>)"
    by (simp add: demoTick_def)
  moreover have "demoWatcher\<lparr>wt_checkedAt := 0, wt_alarms := [(''attestor-deployment'', None)], wt_config := Some demoConfig,
      wt_dirty := []\<rparr> = demoScanning" by (simp add: demoScanning_def demoWatcher_def)
  ultimately have "readDue demoWatcherSetup demoTick [''ACC''] demoConfig
      (demoWatcher\<lparr>wt_checkedAt := 0, wt_alarms := [(''attestor-deployment'', None)]\<rparr>) = Some (None, demoTicked)"
    by (simp add: readDue_def demoTick_def afterScans_def watcherAlarm_def demoTicked_def FAILURES_TO_ALARM_def)
      (simp add: demoWatcher_def demoScanning_def)
  then show ?thesis
    by (simp add: watcherTick_def tickConfigured_def refresh_def changedUsers_def checkAndRead_def demoTick_def demoWatcher_def
      RECONCILE_MS_def deploymentMismatch_def demoWatcherSetup_def demoConfig_def demoWire_def)
qed

theorem watcher_signs_checked_witness:
  "watcherTick demoWatcherSetup demoTick demoWatcher = Some (None, demoTicked) \<and> map snd (wt_signed demoTicked) = [demoPayment]
   \<and> (\<exists>cfg. te_check demoTick = Inr (cfg, base58Text demoWire (genesisHash cfg)) \<and> cfg_attestor cfg = ''T'')"
proof -
  have signed: "wt_signed demoTicked = [([], demoPayment)]" "wt_signed demoWatcher = []" by (simp_all add: demoTicked_def demoWatcher_def)
  with watcher_signs_checked [OF demo_tick] have "\<exists>cfg. te_check demoTick = Inr (cfg, base58Text demoWire (genesisHash cfg))
      \<and> cfg_attestor cfg = ''T''" by (auto simp: demoWatcherSetup_def)
  with demo_tick signed show ?thesis by simp
qed

theorem due_until_read_witness:
  "watcherTick demoWatcherSetup demoTick demoWatcher = Some (None, demoTicked) \<and> wt_dirty demoWatcher = [''ACC'']
   \<and> (\<exists>w1 w2. scan demoWatcherSetup demoScanEnv demoWatched 1800 w1 = Some (None, w2))"
proof -
  have "watched_ok (wt_watched demoWatcher)" "map_of (wt_watched demoTicked) ''ACC'' = Some demoWatched"
    "wt_dirty demoWatcher = [''ACC'']" "wt_dirty demoTicked = []" "te_clock demoTick = Inr 1800" "te_scan demoTick = (\<lambda>_. demoScanEnv)"
    by (simp_all add: watched_ok_def demoWatcher_def demoWatched_def demoTicked_def demoScanning_def demoTick_def)
  with due_until_read [OF demo_tick, of "''ACC''" demoWatched] demo_tick show ?thesis by auto
qed

end
