(* ===== verification/Sponsor_Routes.thy ===== *)
theory Sponsor_Routes
  imports Sponsor_Shape Sponsor_Desk Onboarding
begin

text \<open>
  The two routes of the sponsor (\<open>apps/app/app/api/sponsor/prepare/route.ts\<close> and \<open>submit/route.ts\<close>):
  every check in the code's order, every refusal with its status. The lemmas show that a submit is steps of
  the desk, so the desk's limits hold of the route, and what had to hold for the sponsor to sign.
\<close>

section \<open>Where a request comes from\<close>

definition BLOCKED_COUNTRIES :: "string list" where
  "BLOCKED_COUNTRIES =
     [''IR'', ''KP'', ''SY'', ''US'', ''AS'', ''GU'', ''MP'', ''PR'', ''UM'', ''VI'', ''AU'', ''CA'', ''GB'',
      ''AF'', ''BY'', ''CD'', ''CF'', ''CU'', ''ET'', ''HT'', ''IQ'', ''LB'', ''LY'', ''ML'', ''MM'', ''MZ'', ''NG'', ''NI'',
      ''PH'', ''RU'', ''SD'', ''SO'', ''SS'', ''VE'', ''YE'', ''ZW'']"

definition BLOCKED_REGIONS :: "string list" where
  "BLOCKED_REGIONS = [''UA-09'', ''UA-14'', ''UA-23'', ''UA-40'', ''UA-43'', ''UA-65'']"

record request_region =
  rr_country :: "string option"
  rr_region :: "string option"

text \<open>\<open>headers.get(...)?.toUpperCase() || null\<close>: header values are Latin; \<open>''''\<close> is falsy.\<close>

definition upperChar :: "char \<Rightarrow> char" where
  "upperChar c = (if 97 \<le> (of_char c :: int) \<and> (of_char c :: int) \<le> 122 then char_of (of_char c - 32 :: int) else c)"

definition headerUpper :: "string option \<Rightarrow> string option" where
  "headerUpper h = (case h of None \<Rightarrow> None | Some s \<Rightarrow> if s = [] then None else Some (map upperChar s))"

definition requestRegion :: "string option \<Rightarrow> string option \<Rightarrow> request_region" where
  "requestRegion countryHeader regionHeader =
     (let country = headerUpper countryHeader; subdivision = headerUpper regionHeader
      in \<lparr>rr_country = country,
          rr_region = (case (country, subdivision) of (Some c, Some s) \<Rightarrow> Some (c @ ''-'' @ s) | _ \<Rightarrow> None)\<rparr>)"

definition isBlocked :: "request_region \<Rightarrow> bool" where
  "isBlocked r =
     ((case rr_country r of None \<Rightarrow> False | Some c \<Rightarrow> c \<in> set BLOCKED_COUNTRIES)
      \<or> (case rr_region r of None \<Rightarrow> False | Some s \<Rightarrow> s \<in> set BLOCKED_REGIONS))"

section \<open>Refusals\<close>

definition closedReason :: "config \<Rightarrow> string option" where
  "closedReason cfg =
     (if cfg_paused cfg then Some ''paused'' else if userCount cfg \<ge> maxUsers cfg then Some ''full'' else None)"

text \<open>A thrown Solana error with the code and index of its context, or something else thrown.\<close>

datatype error_cause = Solana_Cause "int option" "int option" | Other_Cause

datatype failure_program = Fp_AssociatedToken | Fp_Laterite | Fp_Subscriptions | Fp_Other

record failure =
  fl_code :: "int option"
  fl_program :: failure_program

definition programName :: "shape_lib \<Rightarrow> lib \<Rightarrow> address option \<Rightarrow> failure_program" where
  "programName X L p =
     (if p = Some (xl_ATA_PROGRAM X) then Fp_AssociatedToken else if p = Some LATERITE_PROGRAM_ADDRESS then Fp_Laterite
      else if p = Some (SUBSCRIPTIONS_PROGRAM_ADDRESS L) then Fp_Subscriptions else Fp_Other)"

definition failureOf :: "shape_lib \<Rightarrow> lib \<Rightarrow> error_cause \<Rightarrow> address option list \<Rightarrow> failure" where
  "failureOf X L error programs =
     (case error of
        Other_Cause \<Rightarrow> \<lparr>fl_code = None, fl_program = Fp_Other\<rparr>
      | Solana_Cause code index \<Rightarrow>
          \<lparr>fl_code = code,
           fl_program = programName X L (case index of None \<Rightarrow> None | Some i \<Rightarrow>
             (case nth_opt programs i of None \<Rightarrow> None | Some p \<Rightarrow> p))\<rparr>)"

datatype reply =
    Refused_Reply string int
  | Limited_Reply limited_reply
  | Failure_Reply failure
  | Threw_Reply js_error
  | Signature_Reply string
  | Prepared_Reply wallet_transaction

section \<open>Submit\<close>

text \<open>The program of each instruction, the lookup tables resolved; a table that is not there throws.\<close>

definition instructionPrograms :: "compiled_header \<Rightarrow> (address \<rightharpoonup> address list) \<Rightarrow> address option list outcome" where
  "instructionPrograms h table =
     (if ch_version h \<noteq> 0 then Inr []
      else let resolve = (\<lambda>pick. res_map (\<lambda>l.
                 case table (lk_table l) of
                   Some addresses \<Rightarrow> Inr (map (nth_opt addresses) (pick l))
                 | None \<Rightarrow> if pick l = [] then Inr [] else Inl TypeError) (ch_lookups h))
      in res_bind (resolve lk_writable) (\<lambda>writable.
         res_bind (resolve lk_readonly) (\<lambda>readonly.
         let accounts = map Some (ch_staticAccounts h) @ concat writable @ concat readonly
         in Inr (map (\<lambda>i. case nth_opt accounts i of None \<Rightarrow> None | Some a \<Rightarrow> a) (ch_programIndexes h)))))"

text \<open>What the send of a co-cosigned transaction ends in; a preflight failure may have no cause.\<close>

datatype send_result =
    Send_Confirmed
  | Block_Height_Exceeded
  | Preflight_Failure "error_cause option"
  | Solana_Failure error_cause
  | Other_Failure string

record submit_request =
  sq_country :: "string option"
  sq_region :: "string option"
  sq_ip :: "string option"
  sq_text :: string

record submit_env =
  su_transaction :: "string \<Rightarrow> wallet_transaction outcome" \<comment> \<open>JSON, base64 and the transaction decoder\<close>
  su_signedBy :: "wallet_transaction \<Rightarrow> address \<Rightarrow> bool"
  su_hash :: "bytes \<Rightarrow> string"
  su_sponsor :: address
  su_config :: "config outcome"
  su_table :: "(address \<rightharpoonup> address list) outcome"
  su_cosign :: "wallet_transaction \<Rightarrow> string outcome"
  su_send :: send_result
  su_settle :: "js_error option"

definition MAX_SUBMIT_BODY :: nat where "MAX_SUBMIT_BODY = 4096"

type_synonym served = "reply \<times> sponsor_ledger \<times> (string \<times> string) list"

text \<open>Settle, then answer; a settle that cannot be stored throws instead.\<close>

definition settleThen :: "submit_env \<Rightarrow> nat \<Rightarrow> send_outcome \<Rightarrow> reply \<Rightarrow> sponsor_ledger \<Rightarrow> reply \<times> sponsor_ledger" where
  "settleThen e i outcome reply s =
     (case su_settle e of Some err \<Rightarrow> (Threw_Reply err, s) | None \<Rightarrow> (reply, settleSend i outcome s))"

definition failureReason :: "failure \<Rightarrow> string" where
  "failureReason f =
     (let name = (case fl_program f of Fp_AssociatedToken \<Rightarrow> ''associated-token'' | Fp_Laterite \<Rightarrow> ''laterite''
                  | Fp_Subscriptions \<Rightarrow> ''subscriptions'' | Fp_Other \<Rightarrow> ''other'')
      in case fl_code f of None \<Rightarrow> name | Some code \<Rightarrow> name @ '' '' @ showInt code)"

definition sendAndSettle ::
    "lib \<Rightarrow> shape_lib \<Rightarrow> submit_env \<Rightarrow> compiled_header \<Rightarrow> (address \<rightharpoonup> address list) \<Rightarrow> nat \<Rightarrow> string
     \<Rightarrow> sponsor_ledger \<Rightarrow> reply \<times> sponsor_ledger" where
  "sendAndSettle L X e h table i signature s =
     (let refused = (\<lambda>cause. case instructionPrograms h table of
            Inl err \<Rightarrow> (Threw_Reply err, s)
          | Inr programs \<Rightarrow>
              let failure = failureOf X L cause programs
              in settleThen e i (Send_Failed (failureReason failure) (Some signature)) (Failure_Reply failure) s);
          threw = (\<lambda>text. case instructionPrograms h table of
            Inl err \<Rightarrow> (Threw_Reply err, s)
          | Inr _ \<Rightarrow> settleThen e i (Send_Failed text (Some signature)) (Threw_Reply (PlainError text)) s)
      in case su_send e of
           Send_Confirmed \<Rightarrow> settleThen e i (Send_Landed signature) (Signature_Reply signature) s
         | Block_Height_Exceeded \<Rightarrow>
             settleThen e i (Send_Failed ''expired'' (Some signature)) (Refused_Reply ''expired'' 409) s
         | Preflight_Failure (Some cause) \<Rightarrow> refused cause
         | Preflight_Failure None \<Rightarrow> threw ''preflight''
         | Solana_Failure cause \<Rightarrow> refused cause
         | Other_Failure text \<Rightarrow> threw text)"

definition serveClaimed ::
    "lib \<Rightarrow> shape_lib \<Rightarrow> submit_env \<Rightarrow> config \<Rightarrow> address \<Rightarrow> wallet_transaction \<Rightarrow> compiled_header \<Rightarrow> sponsorship \<Rightarrow> sponsor_ledger \<Rightarrow> served" where
  "serveClaimed L X e cfg user t h row s =
     (case su_table e of
        Inl err \<Rightarrow> (Threw_Reply err, s, [])
      | Inr table \<Rightarrow>
          (case shapeProblem L X \<lparr>sc_config = cfg, sc_kind = sp_kind row, sc_lookupTable = table,
                                   sc_sponsor = su_sponsor e, sc_user = user\<rparr> t of
             Some shape \<Rightarrow>
               (let (reply, s') = settleThen e (sp_id row) (Send_Failed (''shape: '' @ shape) None) (Refused_Reply ''shape'' 400) s
                in (reply, s', []))
           | None \<Rightarrow>
               (case su_cosign e t of
                  Inl err \<Rightarrow> (Threw_Reply err, s, [])
                | Inr signature \<Rightarrow>
                    (let (reply, s') = sendAndSettle L X e h table (sp_id row) signature s
                     in (reply, s', [(sp_message row, sp_wallet row)])))))"

definition serveClaim ::
    "lib \<Rightarrow> shape_lib \<Rightarrow> submit_env \<Rightarrow> submit_request \<Rightarrow> config \<Rightarrow> address \<Rightarrow> wallet_transaction \<Rightarrow> compiled_header \<Rightarrow> int
     \<Rightarrow> sponsor_ledger \<Rightarrow> served" where
  "serveClaim L X e q cfg user t h now s =
     (case claimSend \<lparr>cq_ip = sq_ip q, cq_message = su_hash e (wt_message t), cq_wallet = user\<rparr> now s of
        (Claimed row, s') \<Rightarrow> serveClaimed L X e cfg user t h row s'
      | (Claim_Limited l, s') \<Rightarrow> (Limited_Reply l, s', [])
      | (Claim_Unknown, s') \<Rightarrow> (Refused_Reply ''unknown'' 400, s', [])
      | (Claim_Asset_Account, s') \<Rightarrow> (Refused_Reply ''asset-account'' 409, s', []))"

definition submit :: "lib \<Rightarrow> shape_lib \<Rightarrow> submit_env \<Rightarrow> submit_request \<Rightarrow> int \<Rightarrow> sponsor_ledger \<Rightarrow> served" where
  "submit L X e q now s =
     (if isBlocked (requestRegion (sq_country q) (sq_region q)) then (Refused_Reply ''unavailable'' 451, s, [])
      else if length (sq_text q) > MAX_SUBMIT_BODY then (Refused_Reply ''invalid'' 413, s, [])
      else case res_bind (su_transaction e (sq_text q)) (\<lambda>t. res_bind (xl_decode X (wt_message t)) (\<lambda>h. Inr (t, h))) of
        Inl _ \<Rightarrow> (Refused_Reply ''invalid'' 400, s, [])
      | Inr (t, h) \<Rightarrow>
          (case nth_opt (ch_staticAccounts h) 1 of
             None \<Rightarrow> (Refused_Reply ''signature'' 400, s, [])
           | Some user \<Rightarrow>
               if \<not> su_signedBy e t user then (Refused_Reply ''signature'' 400, s, [])
               else case su_config e of
                 Inl err \<Rightarrow> (Threw_Reply err, s, [])
               | Inr cfg \<Rightarrow>
                   (case closedReason cfg of
                      Some closed \<Rightarrow> (Refused_Reply closed 409, s, [])
                    | None \<Rightarrow>
                        if cfg_sponsor cfg \<noteq> su_sponsor e then (Refused_Reply ''sponsor'' 503, s, [])
                        else serveClaim L X e q cfg user t h now s)))"

section \<open>Prepare\<close>

text \<open>A JSON value, as far as the route reads it: an object's fields, or a string.\<close>

datatype json = Json_String string | Json_Object "(string \<times> json) list" | Json_Null | Json_Other

definition field :: "json option \<Rightarrow> string \<Rightarrow> json option" where
  "field j k = (case j of Some (Json_Object kvs) \<Rightarrow> map_of kvs k | _ \<Rightarrow> None)"

record intent =
  in_kind :: sponsorship_kind
  in_params :: enroll_params

definition ENROLL_PARAMS_SIZE :: nat where "ENROLL_PARAMS_SIZE = 70"

record base64_lib =
  b6_encode :: "string \<Rightarrow> bytes outcome"
  b6_decode :: "bytes \<Rightarrow> string"

definition readIntentBody :: "lib \<Rightarrow> base64_lib \<Rightarrow> json option \<Rightarrow> intent option" where
  "readIntentBody L B body =
     (case (field body ''kind'', field body ''params'') of
        (Some (Json_String kind), Some (Json_String params)) \<Rightarrow>
          if kind \<noteq> ''enroll'' \<and> kind \<noteq> ''reactivate'' then None
          else (case b6_encode B params of
                  Inl _ \<Rightarrow> None
                | Inr bytes \<Rightarrow>
                    if length bytes \<noteq> ENROLL_PARAMS_SIZE \<or> b6_decode B bytes \<noteq> params then None
                    else (case decodeWith (rdEnrollParams L) bytes of
                            Inl _ \<Rightarrow> None
                          | Inr p \<Rightarrow> Some \<lparr>in_kind = (if kind = ''enroll'' then Kind_Enroll else Kind_Reactivate), in_params = p\<rparr>))
      | _ \<Rightarrow> None)"

definition intentBody :: "lib \<Rightarrow> base64_lib \<Rightarrow> intent \<Rightarrow> json" where
  "intentBody L B i =
     Json_Object [(''kind'', Json_String (if in_kind i = Kind_Enroll then ''enroll'' else ''reactivate'')),
                  (''params'', Json_String (b6_decode B (encEnrollParams L (in_params i))))]"

definition buildSponsored :: "lib \<Rightarrow> cluster \<Rightarrow> config \<Rightarrow> intent \<Rightarrow> address \<Rightarrow> address \<Rightarrow> sponsored_instructions outcome" where
  "buildSponsored L C cfg i sponsor wallet =
     (let join = \<lparr>ji_config = cfg, ji_params = in_params i, ji_payers = [], ji_sponsor = sponsor, ji_user = wallet\<rparr>
      in if in_kind i = Kind_Enroll then getOnboardingInstructions L C join else getReactivationInstructions L C join)"

text \<open>What the cluster says of the exact message: its error or its balances, in \<open>simulateTransaction\<close>'s terms.\<close>

record simulation =
  sm_err :: "error_cause option"
  sm_preBalances :: "int list"
  sm_postBalances :: "int list"
  sm_unitsConsumed :: "int option"
  sm_fee :: "int option"

datatype estimate = Estimated int | Estimate_Refused error_cause | Estimate_Threw js_error

text \<open>The kit and the cluster: an instruction's metas and program, and what compiles, estimates and simulates.\<close>

record prepare_lib =
  pl_fees :: "address list \<Rightarrow> int list outcome"
  pl_metas :: "instruction \<Rightarrow> account_meta list"
  pl_program :: "instruction \<Rightarrow> address"
  pl_blockhash :: "(string \<times> int) outcome"
  pl_estimate :: estimate
  pl_compile :: "int \<Rightarrow> int \<Rightarrow> string \<Rightarrow> instruction list \<Rightarrow> wallet_transaction outcome"
  pl_simulate :: "wallet_transaction \<Rightarrow> simulation outcome"
  pl_hash :: "bytes \<Rightarrow> string"

record prepared_transaction =
  pd_computeUnitLimit :: int
  pd_computeUnitPrice :: int
  pd_computeUnits :: int
  pd_feeLamports :: int
  pd_lastValidBlockHeight :: int
  pd_messageHash :: string
  pd_sponsorLamports :: int
  pd_transaction :: wallet_transaction
  pd_userLamports :: int

datatype prepare_result = Prepared_Ok prepared_transaction | Simulation_Error failure | Prepare_Threw js_error

definition spent :: "simulation \<Rightarrow> int \<Rightarrow> int" where
  "spent v index =
     (let balance = (\<lambda>bs. case nth_opt bs index of None \<Rightarrow> 0 | Some b \<Rightarrow> b)
      in balance (sm_preBalances v) - balance (sm_postBalances v))"

definition simulateExact ::
    "shape_lib \<Rightarrow> lib \<Rightarrow> prepare_lib \<Rightarrow> address option list \<Rightarrow> int \<Rightarrow> int \<Rightarrow> int \<Rightarrow> wallet_transaction \<Rightarrow> prepare_result" where
  "simulateExact X L P programs limit price height t =
     (case pl_simulate P t of
        Inl err \<Rightarrow> Prepare_Threw err
      | Inr v \<Rightarrow>
          (case sm_err v of
             Some cause \<Rightarrow> Simulation_Error (failureOf X L cause programs)
           | None \<Rightarrow> Prepared_Ok
               \<lparr>pd_computeUnitLimit = limit, pd_computeUnitPrice = price,
                pd_computeUnits = (case sm_unitsConsumed v of None \<Rightarrow> 0 | Some u \<Rightarrow> u),
                pd_feeLamports = (case sm_fee v of None \<Rightarrow> 0 | Some f \<Rightarrow> f), pd_lastValidBlockHeight = height,
                pd_messageHash = pl_hash P (wt_message t), pd_sponsorLamports = spent v 0, pd_transaction = t,
                pd_userLamports = spent v 1\<rparr>))"

text \<open>The message's first two instructions are the compute budget's: the code puts two empty programs before.\<close>

definition prepareSponsored :: "shape_lib \<Rightarrow> lib \<Rightarrow> prepare_lib \<Rightarrow> instruction list \<Rightarrow> prepare_result" where
  "prepareSponsored X L P ixs =
     (let programs = map Some ([[], []] @ map (pl_program P) ixs)
      in case res_bind (recentPriorityFee (pl_fees P) SPONSOR_PRIORITY_FEE (writableAccounts (map (pl_metas P) ixs)))
                (\<lambda>price. res_bind (pl_blockhash P) (\<lambda>b. Inr (price, b))) of
           Inl err \<Rightarrow> Prepare_Threw err
         | Inr (price, blockhash, height) \<Rightarrow>
             (case pl_estimate P of
                Estimate_Threw err \<Rightarrow> Prepare_Threw err
              | Estimate_Refused cause \<Rightarrow> Simulation_Error (failureOf X L cause programs)
              | Estimated units \<Rightarrow>
                  (case pl_compile P price (withMargin units) blockhash ixs of
                     Inl err \<Rightarrow> Prepare_Threw err
                   | Inr t \<Rightarrow> simulateExact X L P programs (withMargin units) price height t)))"

record prepare_request =
  pq_country :: "string option"
  pq_region :: "string option"
  pq_ip :: "string option"
  pq_text :: string

record prepare_env =
  pe_json :: "string \<Rightarrow> json outcome"
  pe_isAddress :: "string \<Rightarrow> bool"
  pe_isDeclared :: "string \<Rightarrow> bool"
  pe_sponsor :: address
  pe_config :: "config outcome"
  pe_cluster :: cluster
  pe_table :: "(address \<rightharpoonup> address list) outcome"
  pe_lib :: prepare_lib

definition MAX_PREPARE_BODY :: nat where "MAX_PREPARE_BODY = 2048"

text \<open>How a builder's error is answered; the plain errors are told by their texts.\<close>

definition contains :: "string \<Rightarrow> string \<Rightarrow> bool" where
  "contains t s = (\<exists>k \<in> set [0..<Suc (length s)]. take (length t) (drop k s) = t)"

definition buildRefusal :: "js_error \<Rightarrow> reply" where
  "buildRefusal e =
     (case e of
        LateriteCheckError _ \<Rightarrow> Refused_Reply ''check'' 409
      | RestoreRequiredError _ _ \<Rightarrow> Refused_Reply ''frozen'' 409
      | PlainError t \<Rightarrow>
          if contains ''has enrolled before'' t then Refused_Reply ''enrolled'' 409
          else if contains ''has no account in'' t then Refused_Reply ''token-account'' 409
          else Threw_Reply e
      | _ \<Rightarrow> Threw_Reply e)"

definition storedPrepared :: "intent \<Rightarrow> string option \<Rightarrow> address \<Rightarrow> address option \<Rightarrow> prepared_transaction \<Rightarrow> prepared" where
  "storedPrepared i ip wallet assetAccount p =
     \<lparr>pr_assetAccount = assetAccount, pr_computeUnitLimit = pd_computeUnitLimit p, pr_computeUnitPrice = pd_computeUnitPrice p,
      pr_computeUnits = pd_computeUnits p, pr_ip = ip, pr_kind = in_kind i, pr_lastValidBlockHeight = pd_lastValidBlockHeight p,
      pr_message = pd_messageHash p, pr_sponsorLamports = pd_sponsorLamports p, pr_wallet = wallet\<rparr>"

text \<open>From the built instructions on; \<open>clock\<close> is the database's when the row is stored.\<close>

definition prepareBuilt ::
    "lib \<Rightarrow> shape_lib \<Rightarrow> prepare_env \<Rightarrow> config \<Rightarrow> intent \<Rightarrow> string option \<Rightarrow> address \<Rightarrow> sponsored_instructions \<Rightarrow> int
     \<Rightarrow> sponsor_ledger \<Rightarrow> reply \<times> sponsor_ledger" where
  "prepareBuilt L X e cfg i ip wallet built clock s =
     (case nth_opt (cfg_assets cfg) (ep_asset (in_params i)) of
        None \<Rightarrow> (Threw_Reply TypeError, s)
      | Some asset \<Rightarrow>
          let mint = asset_mint asset
          in if createsAssetAccount built \<and> assetAccountPaid (sl_rows s) wallet mint None
             then (Refused_Reply ''asset-account'' 409, s)
             else case pe_table e of
               Inl err \<Rightarrow> (Threw_Reply err, s)
             | Inr table \<Rightarrow>
                 (case prepareSponsored X L (pe_lib e) (spi_instructions built) of
                    Prepare_Threw err \<Rightarrow> (Threw_Reply err, s)
                  | Simulation_Error f \<Rightarrow> (Failure_Reply f, s)
                  | Prepared_Ok p \<Rightarrow>
                      (case shapeProblem L X \<lparr>sc_config = cfg, sc_kind = in_kind i, sc_lookupTable = table,
                              sc_sponsor = pe_sponsor e, sc_user = wallet\<rparr> (pd_transaction p) of
                         Some _ \<Rightarrow> (Refused_Reply ''shape'' 500, s)
                       | None \<Rightarrow>
                           (Prepared_Reply (pd_transaction p),
                            recordPrepared (storedPrepared i ip wallet (if createsAssetAccount built then Some mint else None) p)
                              clock s))))"

definition prepare ::
    "lib \<Rightarrow> shape_lib \<Rightarrow> base64_lib \<Rightarrow> prepare_env \<Rightarrow> prepare_request \<Rightarrow> int \<Rightarrow> int \<Rightarrow> sponsor_ledger
     \<Rightarrow> reply \<times> sponsor_ledger" where
  "prepare L X B e q now clock s =
     (if isBlocked (requestRegion (pq_country q) (pq_region q)) then (Refused_Reply ''unavailable'' 451, s)
      else if length (pq_text q) > MAX_PREPARE_BODY then (Refused_Reply ''invalid'' 413, s)
      else case pe_json e (pq_text q) of
        Inl _ \<Rightarrow> (Refused_Reply ''invalid'' 400, s)
      | Inr body \<Rightarrow>
          (case (field (Some body) ''wallet'', readIntentBody L B (field (Some body) ''intent'')) of
             (Some (Json_String wallet), Some i) \<Rightarrow>
               if \<not> pe_isAddress e wallet then (Refused_Reply ''invalid'' 400, s)
               else if \<not> pe_isDeclared e wallet then (Refused_Reply ''undeclared'' 403, s)
               else (case prepareLimit (sl_rows s) wallet (pq_ip q) (in_kind i) now of
                 Some l \<Rightarrow> (Limited_Reply l, s)
               | None \<Rightarrow>
                   (case pe_config e of
                      Inl err \<Rightarrow> (Threw_Reply err, s)
                    | Inr cfg \<Rightarrow>
                        (case closedReason cfg of
                           Some closed \<Rightarrow> (Refused_Reply closed 409, s)
                         | None \<Rightarrow>
                             if cfg_sponsor cfg \<noteq> pe_sponsor e then (Refused_Reply ''sponsor'' 503, s)
                             else case buildSponsored L (pe_cluster e) cfg i (pe_sponsor e) wallet of
                               Inl err \<Rightarrow> (buildRefusal err, s)
                             | Inr built \<Rightarrow> prepareBuilt L X e cfg i (pq_ip q) wallet built clock s)))
           | _ \<Rightarrow> (Refused_Reply ''invalid'' 400, s)))"

section \<open>What the routes do to the desk\<close>

definition settles :: "nat \<Rightarrow> sponsor_ledger \<Rightarrow> sponsor_ledger \<Rightarrow> bool" where
  "settles i s s' = (s' = s \<or> (\<exists>outcome. s' = settleSend i outcome s))"

lemma settleThen_ledger [simp]: "settles i s (snd (settleThen e i outcome reply s))"
  by (auto simp: settleThen_def settles_def split: option.split)

lemma settles_refl [simp]: "settles i s s"
  by (simp add: settles_def)

lemma sendAndSettle_ledger: "settles i s (snd (sendAndSettle L X e h table i signature s))"
  by (simp add: sendAndSettle_def Let_def split: send_result.split option.split sum.split)

definition served_as :: "(claim_request \<Rightarrow> bool) \<Rightarrow> desk \<Rightarrow> sponsor_ledger \<Rightarrow> (string \<times> string) list \<Rightarrow> bool" where
  "served_as Q d s cosigned = ((desk_step Q)\<^sup>*\<^sup>* d (d\<lparr>dk_ledger := s, dk_cosigned := dk_cosigned d @ cosigned\<rparr>))"

lemma served_unchanged: "served_as Q d (dk_ledger d) []"
  by (simp add: served_as_def)

lemma serveClaimed_desk:
  assumes "serveClaimed L X e cfg user t h row s = (reply, s', cosigned)"
    "dk_claims d = claims @ [row]" "dk_ledger d = s"
  shows "(desk_step Q)\<^sup>*\<^sup>* d (d\<lparr>dk_ledger := s', dk_claims := claims, dk_cosigned := dk_cosigned d @ cosigned\<rparr>)"
proof -
  have at: "dk_claims d = claims @ row # []" using assms(2) by simp
  have dropped: "(desk_step Q)\<^sup>*\<^sup>* d (d\<lparr>dk_ledger := s, dk_claims := claims, dk_cosigned := dk_cosigned d @ []\<rparr>)"
    using desk_step.Crash_Claim [OF at] assms(3) by (auto intro: r_into_rtranclp)
  show ?thesis
  proof (cases "su_table e")
    case (Inl err)
    with assms(1) dropped show ?thesis by (simp add: serveClaimed_def)
  next
    case table: (Inr table)
    let ?shape = "shapeProblem L X \<lparr>sc_config = cfg, sc_kind = sp_kind row, sc_lookupTable = table, sc_sponsor = su_sponsor e, sc_user = user\<rparr> t"
    show ?thesis
    proof (cases ?shape)
      case (Some shape)
      with assms(1) table have "cosigned = []" "s' \<in> {s, settleSend (sp_id row) (Send_Failed (''shape: '' @ shape) None) s}"
        by (auto simp: serveClaimed_def settleThen_def split: prod.splits option.splits)
      with dropped desk_step.Shape [OF at, of Q "''shape: '' @ shape"] assms(3) show ?thesis by (auto intro: r_into_rtranclp)
    next
      case None
      show ?thesis
      proof (cases "su_cosign e t")
        case (Inl err)
        with assms(1) table None dropped show ?thesis by (simp add: serveClaimed_def)
      next
        case (Inr signature)
        with assms(1) table None have sent: "cosigned = [(sp_message row, sp_wallet row)]"
          "s' = snd (sendAndSettle L X e h table (sp_id row) signature s)" by (auto simp: serveClaimed_def split: prod.splits)
        have s': "settles (sp_id row) s s'" unfolding sent(2) by (rule sendAndSettle_ledger)
        let ?d = "d\<lparr>dk_claims := claims @ [], dk_sends := sp_id row # dk_sends d, dk_cosigned := dk_cosigned d @ cosigned\<rparr>"
        let ?served = "d\<lparr>dk_ledger := s', dk_claims := claims, dk_cosigned := dk_cosigned d @ cosigned\<rparr>"
        have co: "desk_step Q d ?d" using desk_step.Cosign [OF at] sent(1) by simp
        have sends: "dk_sends ?d = [] @ sp_id row # dk_sends d" by simp
        have "desk_step Q ?d ?served"
        proof (cases "s' = s")
          case True
          then have "?served = ?d\<lparr>dk_sends := [] @ dk_sends d\<rparr>" using assms(3) by (cases d) simp
          with desk_step.Crash_Send [OF sends] show ?thesis by simp
        next
          case False
          with s' obtain outcome where "s' = settleSend (sp_id row) outcome s" by (auto simp: settles_def)
          then have "?served = ?d\<lparr>dk_ledger := settleSend (sp_id row) outcome (dk_ledger ?d), dk_sends := [] @ dk_sends d\<rparr>"
            using assms(3) by (cases d) simp
          with desk_step.Settle [OF sends] show ?thesis by simp
        qed
        with co show ?thesis by (meson converse_rtranclp_into_rtranclp r_into_rtranclp)
      qed
    qed
  qed
qed

lemma submit_cases:
  assumes "submit L X e q now s = (reply, s', cosigned)"
  obtains (refused) "s' = s" "cosigned = []"
  | (served) t h user cfg where "\<not> isBlocked (requestRegion (sq_country q) (sq_region q))" "su_transaction e (sq_text q) = Inr t"
      "xl_decode X (wt_message t) = Inr h" "nth_opt (ch_staticAccounts h) 1 = Some user" "su_signedBy e t user"
      "su_config e = Inr cfg" "closedReason cfg = None" "cfg_sponsor cfg = su_sponsor e"
      "serveClaim L X e q cfg user t h now s = (reply, s', cosigned)"
proof (cases "isBlocked (requestRegion (sq_country q) (sq_region q)) \<or> length (sq_text q) > MAX_SUBMIT_BODY")
  case True
  then have "snd (submit L X e q now s) = (s, [])"
    by (cases "isBlocked (requestRegion (sq_country q) (sq_region q))") (simp_all add: submit_def)
  with assms show thesis by (intro refused) simp_all
next
  case reached: False
  show thesis
  proof (cases "res_bind (su_transaction e (sq_text q)) (\<lambda>t. res_bind (xl_decode X (wt_message t)) (\<lambda>h. Inr (t, h)))")
    case (Inl err)
    with reached have "snd (submit L X e q now s) = (s, [])" by (simp add: submit_def)
    with assms show thesis by (intro refused) simp_all
  next
    case (Inr th)
    then obtain t h where t: "th = (t, h)" "su_transaction e (sq_text q) = Inr t" "xl_decode X (wt_message t) = Inr h"
      by (auto simp: result_simps)
    have at: "submit L X e q now s = (case nth_opt (ch_staticAccounts h) 1 of
             None \<Rightarrow> (Refused_Reply ''signature'' 400, s, [])
           | Some user \<Rightarrow>
               if \<not> su_signedBy e t user then (Refused_Reply ''signature'' 400, s, [])
               else case su_config e of
                 Inl err \<Rightarrow> (Threw_Reply err, s, [])
               | Inr cfg \<Rightarrow>
                   (case closedReason cfg of
                      Some closed \<Rightarrow> (Refused_Reply closed 409, s, [])
                    | None \<Rightarrow>
                        if cfg_sponsor cfg \<noteq> su_sponsor e then (Refused_Reply ''sponsor'' 503, s, [])
                        else serveClaim L X e q cfg user t h now s))"
      using reached Inr t(1) unfolding submit_def by simp
    show thesis
    proof (cases "\<exists>user cfg. nth_opt (ch_staticAccounts h) 1 = Some user \<and> su_signedBy e t user \<and> su_config e = Inr cfg
        \<and> closedReason cfg = None \<and> cfg_sponsor cfg = su_sponsor e")
      case True
      then obtain user cfg where ok: "nth_opt (ch_staticAccounts h) 1 = Some user" "su_signedBy e t user" "su_config e = Inr cfg"
        "closedReason cfg = None" "cfg_sponsor cfg = su_sponsor e" by blast
      with assms at have "serveClaim L X e q cfg user t h now s = (reply, s', cosigned)" by simp
      with reached t(2,3) ok show thesis by (intro served) auto
    next
      case False
      with assms at show thesis by (intro refused) (auto split: option.splits sum.splits if_splits)
    qed
  qed
qed

lemma serveClaim_cases:
  assumes "serveClaim L X e q cfg user t h now s = (reply, s', cosigned)"
  obtains (refused) "s' = s" "cosigned = []"
  | (claimed) row s1 where "claimSend \<lparr>cq_ip = sq_ip q, cq_message = su_hash e (wt_message t), cq_wallet = user\<rparr> now s = (Claimed row, s1)"
      "serveClaimed L X e cfg user t h row s1 = (reply, s', cosigned)"
proof -
  let ?q = "\<lparr>cq_ip = sq_ip q, cq_message = su_hash e (wt_message t), cq_wallet = user\<rparr>"
  obtain c s1 where claim: "claimSend ?q now s = (c, s1)" by fastforce
  show thesis
  proof (cases "\<exists>row. c = Claimed row")
    case True
    then obtain row where row: "c = Claimed row" ..
    with assms claim have "serveClaimed L X e cfg user t h row s1 = (reply, s', cosigned)" by (simp add: serveClaim_def)
    with claim row show thesis by (intro claimed) simp_all
  next
    case False
    have "s1 = s" by (rule claimSend_cases [of ?q now s]) (use False claim in auto)
    with False assms claim show thesis by (intro refused) (auto simp: serveClaim_def split: claim.splits)
  qed
qed

lemma submit_desk:
  assumes "submit L X e q now (dk_ledger d) = (reply, s', cosigned)" "\<And>m w. Q \<lparr>cq_ip = sq_ip q, cq_message = m, cq_wallet = w\<rparr>"
  shows "served_as Q d s' cosigned"
  using assms(1)
proof (cases rule: submit_cases)
  case refused
  then show ?thesis by (simp add: served_unchanged)
next
  case (served t h user cfg)
  from served(9) show ?thesis
  proof (cases rule: serveClaim_cases)
    case refused
    then show ?thesis by (simp add: served_unchanged)
  next
    case (claimed row s1)
    let ?d = "d\<lparr>dk_ledger := s1, dk_claims := dk_claims d @ [row]\<rparr>"
    have "desk_step Q d ?d" by (rule desk_step.Claim [of Q "\<lparr>cq_ip = sq_ip q, cq_message = su_hash e (wt_message t), cq_wallet = user\<rparr>", OF _ claimed(1)]) (rule assms(2))
    moreover have "(desk_step Q)\<^sup>*\<^sup>* ?d (?d\<lparr>dk_ledger := s', dk_claims := dk_claims d, dk_cosigned := dk_cosigned ?d @ cosigned\<rparr>)"
      by (rule serveClaimed_desk [OF claimed(2)]) simp_all
    moreover have "?d\<lparr>dk_ledger := s', dk_claims := dk_claims d, dk_cosigned := dk_cosigned ?d @ cosigned\<rparr>
        = d\<lparr>dk_ledger := s', dk_cosigned := dk_cosigned d @ cosigned\<rparr>" by (cases d) simp
    ultimately show ?thesis unfolding served_as_def by (metis converse_rtranclp_into_rtranclp)
  qed
qed

lemma claimed_row:
  assumes "claimSend q now s = (Claimed row, s1)"
  shows "sp_message row = cq_message q" "sp_wallet row = cq_wallet q"
proof -
  have "sp_message row = cq_message q \<and> sp_wallet row = cq_wallet q"
    by (rule claimSend_cases [of q now s]) (use assms in \<open>auto simp: sentRow_def claimable_def\<close>)
  then show "sp_message row = cq_message q" "sp_wallet row = cq_wallet q" by simp_all
qed

text \<open>
  C11: When the sponsor signs. A submit that co-signs comes from where Laterite is offered; its wallet signed the
  exact message; the program is open and names this sponsor; the ledger gave a claim for that message and
  wallet; and the message passed every check of its shape.
\<close>

theorem submit_signs_checked:
  assumes "submit L X e q now s = (reply, s', cosigned)" "cosigned \<noteq> []"
  shows "\<exists>t h user cfg table row s1. \<not> isBlocked (requestRegion (sq_country q) (sq_region q))
    \<and> su_transaction e (sq_text q) = Inr t \<and> xl_decode X (wt_message t) = Inr h \<and> nth_opt (ch_staticAccounts h) 1 = Some user
    \<and> su_signedBy e t user \<and> su_config e = Inr cfg \<and> \<not> cfg_paused cfg \<and> userCount cfg < maxUsers cfg \<and> cfg_sponsor cfg = su_sponsor e
    \<and> claimSend \<lparr>cq_ip = sq_ip q, cq_message = su_hash e (wt_message t), cq_wallet = user\<rparr> now s = (Claimed row, s1)
    \<and> su_table e = Inr table
    \<and> shapeProblem L X \<lparr>sc_config = cfg, sc_kind = sp_kind row, sc_lookupTable = table, sc_sponsor = su_sponsor e, sc_user = user\<rparr> t = None
    \<and> cosigned = [(su_hash e (wt_message t), user)]"
  using assms(1)
proof (cases rule: submit_cases)
  case refused
  with assms(2) show ?thesis by simp
next
  case (served t h user cfg)
  from served(9) show ?thesis
  proof (cases rule: serveClaim_cases)
    case refused
    with assms(2) show ?thesis by simp
  next
    case (claimed row s1)
    from claimed(2) assms(2) obtain table where table: "su_table e = Inr table"
      "shapeProblem L X \<lparr>sc_config = cfg, sc_kind = sp_kind row, sc_lookupTable = table, sc_sponsor = su_sponsor e, sc_user = user\<rparr> t = None"
      "cosigned = [(sp_message row, sp_wallet row)]"
      by (auto simp: serveClaimed_def split: sum.splits option.splits prod.splits)
    moreover have "\<not> cfg_paused cfg" "userCount cfg < maxUsers cfg" using served(7) by (auto simp: closedReason_def split: if_splits)
    ultimately show ?thesis using served claimed(1) claimed_row [OF claimed(1)] by auto
  qed
qed

lemma prepareBuilt_ledger: "\<exists>p. snd (prepareBuilt L X e cfg i ip wallet built clock s) \<in> {s, recordPrepared p clock s}"
  by (auto simp: prepareBuilt_def Let_def split: option.split sum.split prepare_result.split)

lemma prepare_ledger: "\<exists>p. snd (prepare L X B e q now clock s) \<in> {s, recordPrepared p clock s}"
proof -
  have built: "\<exists>p. snd (prepareBuilt L X e cfg i ip wallet built clock s) \<in> {s, recordPrepared p clock s}" for cfg i ip wallet built
    by (rule prepareBuilt_ledger)
  define none :: "reply \<Rightarrow> reply \<times> sponsor_ledger" where "none r = (r, s)" for r
  have none: "snd (none r) = s" for r by (simp add: none_def)
  show ?thesis unfolding prepare_def none_def [symmetric]
    using built none by (auto split: sum.split option.split json.split)
qed

text \<open>
  C12: The routes are the desk. Served at any moment between the steps of other requests, a submit is steps of the
  desk: a claim, its co-signing or its failure, and its settling or a crash; a prepare is its step or none. So
  what holds of every run of the desk holds of every ledger the routes leave.
\<close>

theorem routes_refine_desk:
  "(case submit L X e q now (dk_ledger d) of (reply, s', cosigned) \<Rightarrow>
      (desk_step (\<lambda>_. True))\<^sup>*\<^sup>* d (d\<lparr>dk_ledger := s', dk_cosigned := dk_cosigned d @ cosigned\<rparr>))
   \<and> (desk_step (\<lambda>_. True))\<^sup>*\<^sup>* d (d\<lparr>dk_ledger := snd (prepare L X B pe pq now clock (dk_ledger d))\<rparr>)"
proof
  obtain reply s' cosigned where "submit L X e q now (dk_ledger d) = (reply, s', cosigned)" by (metis prod_cases3)
  with submit_desk [OF this, of "\<lambda>_. True"]
  show "case submit L X e q now (dk_ledger d) of (reply, s', cosigned) \<Rightarrow>
      (desk_step (\<lambda>_. True))\<^sup>*\<^sup>* d (d\<lparr>dk_ledger := s', dk_cosigned := dk_cosigned d @ cosigned\<rparr>)"
    by (simp add: served_as_def)
  obtain p where "snd (prepare L X B pe pq now clock (dk_ledger d)) \<in> {dk_ledger d, recordPrepared p clock (dk_ledger d)}"
    using prepare_ledger by blast
  with desk_step.Prepare [of "\<lambda>_. True" d p clock]
  show "(desk_step (\<lambda>_. True))\<^sup>*\<^sup>* d (d\<lparr>dk_ledger := snd (prepare L X B pe pq now clock (dk_ledger d))\<rparr>)"
    by (auto intro: r_into_rtranclp)
qed

section \<open>A return, submitted\<close>

definition demoReturn :: prepared where
  "demoReturn = demoPrepared\<lparr>pr_wallet := ''U'', pr_kind := Kind_Reactivate, pr_assetAccount := None\<rparr>"

definition demoSubmitEnv :: submit_env where
  "demoSubmitEnv = \<lparr>su_transaction = (\<lambda>_. Inr \<lparr>wt_message = [], wt_signers = [''S'', ''U'']\<rparr>), su_signedBy = (\<lambda>_ _. True),
     su_hash = (\<lambda>_. ''hash''), su_sponsor = ''S'', su_config = Inr demoConfig,
     su_table = Inr (\<lambda>t. if t = ''LUT'' then Some [] else None), su_cosign = (\<lambda>_. Inr ''signature''), su_send = Send_Confirmed,
     su_settle = None\<rparr>"

definition demoSubmit :: submit_request where
  "demoSubmit = \<lparr>sq_country = Some ''co'', sq_region = None, sq_ip = Some ''192.0.2.1'', sq_text = ''body''\<rparr>"

lemma demo_submit:
  "submit demoLib demoShapeLib demoSubmitEnv demoSubmit 61000 (recordPrepared demoReturn 1000 emptyLedger)
     = (Signature_Reply ''signature'', settleSend 1 (Send_Landed ''signature'')
          (snd (claimSend \<lparr>cq_ip = Some ''192.0.2.1'', cq_message = ''hash'', cq_wallet = ''U''\<rparr> 61000
             (recordPrepared demoReturn 1000 emptyLedger))), [(''hash'', ''U'')])"
  by code_simp

theorem submit_signs_checked_witness:
  "\<exists>s'. submit demoLib demoShapeLib demoSubmitEnv demoSubmit 61000 (recordPrepared demoReturn 1000 emptyLedger)
      = (Signature_Reply ''signature'', s', [(''hash'', ''U'')]) \<and> \<not> isBlocked (requestRegion (Some ''co'') None)"
  using submit_signs_checked [OF demo_submit] demo_submit by (auto simp: demoSubmit_def)

end
