(* ===== verification/Onboarding_Choices.thy ===== *)
theory Onboarding_Choices
  imports Sponsor_Routes
begin

text \<open>
  The onboarding screen's choices (\<open>apps/app/lib/onboarding.ts\<close>): what a wallet may choose, why it cannot be
  signed yet, and the intent it becomes. The lemmas show that what the screen lets through is what the
  sponsor's route reads back and the builder accepts. A JavaScript text is the list of its code points.
\<close>

section \<open>Choices\<close>

type_synonym js_text = "int list"

definition DOLLAR :: int where "DOLLAR = 1000000"
definition GOAL_LABEL_BYTES :: nat where "GOAL_LABEL_BYTES = 32"

datatype paid_in = Paid_Savings | Paid_Stablecoins
datatype engine_choice = Choose_Daily | Choose_Off | Choose_Weekly

record choices =
  ch_paid :: paid_in
  ch_tier :: int
  ch_engine :: engine_choice
  ch_engineAmount :: int
  ch_incomeRule :: bool
  ch_changeMultiplier :: int
  ch_cushion :: int
  ch_goalLabel :: js_text
  ch_goalAmount :: int
  ch_asset :: int
  ch_paymentTokens :: int
  ch_replaceDelegates :: int

definition paidDefaults :: "paid_in \<Rightarrow> choices \<Rightarrow> choices" where
  "paidDefaults how c =
     (if how = Paid_Stablecoins
      then c\<lparr>ch_engine := Choose_Off, ch_engineAmount := 0, ch_incomeRule := True, ch_paid := how\<rparr>
      else c\<lparr>ch_engine := Choose_Daily, ch_engineAmount := DOLLAR, ch_incomeRule := False, ch_paid := how\<rparr>)"

definition initialChoices :: "int \<Rightarrow> choices" where
  "initialChoices offered = paidDefaults Paid_Stablecoins
     \<lparr>ch_paid = Paid_Stablecoins, ch_tier = 0, ch_engine = Choose_Off, ch_engineAmount = 0, ch_incomeRule = True,
      ch_changeMultiplier = 0, ch_cushion = 20 * DOLLAR, ch_goalLabel = [], ch_goalAmount = 0, ch_asset = 0,
      ch_paymentTokens = offered, ch_replaceDelegates = 0\<rparr>"

record token_offer =
  of_balance :: int
  of_delegate :: "(address \<times> int) option"
  of_frozen :: bool
  of_offered :: bool
  of_paymentToken :: int
  of_symbol :: "string option"

text \<open>\<open>tokens\<close> are the mints of \<open>@laterite/devnet/addresses\<close> with their symbols.\<close>

definition symbolOf :: "(string \<times> address) list \<Rightarrow> address \<Rightarrow> string option" where
  "symbolOf tokens mint = map_option fst (find (\<lambda>(_, m). m = mint) tokens)"

definition tokenOffer :: "(string \<times> address) list \<Rightarrow> config \<Rightarrow> token_state \<Rightarrow> token_offer outcome" where
  "tokenOffer tokens cfg t =
     (case nth_opt (cfg_paymentTokens cfg) (ts_paymentToken t) of
        None \<Rightarrow> Inl TypeError
      | Some token \<Rightarrow> Inr
          \<lparr>of_balance = (case ts_accountState t of None \<Rightarrow> 0 | Some a \<Rightarrow> ta_amount a),
           of_delegate = (case ts_accountState t of None \<Rightarrow> None | Some a \<Rightarrow>
             (case ta_delegate a of None \<Rightarrow> None
              | Some d \<Rightarrow> if d \<noteq> ts_authority t then Some (d, ta_delegatedAmount a) else None)),
           of_frozen = (case ts_accountState t of None \<Rightarrow> False | Some a \<Rightarrow> ta_frozen a),
           of_offered = (case ts_accountState t of None \<Rightarrow> False | Some a \<Rightarrow> \<not> ta_frozen a),
           of_paymentToken = ts_paymentToken t, of_symbol = symbolOf tokens (token_mint token)\<rparr>)"

definition tokenOffers :: "(string \<times> address) list \<Rightarrow> config \<Rightarrow> user_state \<Rightarrow> token_offer list outcome" where
  "tokenOffers tokens cfg state = res_map (tokenOffer tokens cfg) (ust_tokens state)"

definition offeredTiers :: "config \<Rightarrow> int list" where
  "offeredTiers cfg = concat (map (\<lambda>(cap, tier). if cap \<le> userWeeklyCap cfg then [tier] else []) (zip TIERS [0, 1]))"

section \<open>The goal label\<close>

text \<open>\<open>String.trim\<close>'s white space and line terminators, and \<open>TextEncoder\<close>'s UTF-8, a lone surrogate as U+FFFD.\<close>

definition isSpace :: "int \<Rightarrow> bool" where
  "isSpace c = (9 \<le> c \<and> c \<le> 13 \<or> c \<in> {32, 160, 5760, 8232, 8233, 8239, 8287, 12288, 65279} \<or> 8192 \<le> c \<and> c \<le> 8202)"

definition trim :: "js_text \<Rightarrow> js_text" where
  "trim t = rev (dropWhile isSpace (rev (dropWhile isSpace t)))"

definition utf8Char :: "int \<Rightarrow> bytes" where
  "utf8Char c =
     (if c < 128 then [word_of_int c]
      else if c < 2048 then [word_of_int (192 + c div 64), word_of_int (128 + c mod 64)]
      else if 55296 \<le> c \<and> c < 57344 then [239, 191, 189]
      else if c < 65536 then [word_of_int (224 + c div 4096), word_of_int (128 + c div 64 mod 64), word_of_int (128 + c mod 64)]
      else [word_of_int (240 + c div 262144), word_of_int (128 + c div 4096 mod 64), word_of_int (128 + c div 64 mod 64),
            word_of_int (128 + c mod 64)])"

definition utf8 :: "js_text \<Rightarrow> bytes" where
  "utf8 t = concat (map utf8Char t)"

definition goalLabelBytes :: "js_text \<Rightarrow> bytes outcome" where
  "goalLabelBytes label =
     (let encoded = utf8 (trim label)
      in if length encoded > GOAL_LABEL_BYTES then Inl RangeError
         else Inr (encoded @ replicate (GOAL_LABEL_BYTES - length encoded) 0))"

section \<open>Problems and the intent\<close>

datatype problem = Problem_Delegate | Problem_EngineAboveCap | Problem_EngineAmount | Problem_GoalLabel | Problem_NoToken | Problem_NothingInvests | Problem_Tier

definition chosenOffers :: "choices \<Rightarrow> token_offer list \<Rightarrow> token_offer list" where
  "chosenOffers c offers = filter (\<lambda>offer. hasToken (ch_paymentTokens c) (of_paymentToken offer)) offers"

definition problemOf :: "choices \<Rightarrow> config \<Rightarrow> token_offer list \<Rightarrow> problem option" where
  "problemOf c cfg offers =
     (if ch_tier c \<notin> set (offeredTiers cfg) then Some Problem_Tier
      else let cap = (case nth_opt TIERS (ch_tier c) of None \<Rightarrow> 0 | Some x \<Rightarrow> x)
      in if ch_engine c \<noteq> Choose_Off \<and> ch_engineAmount c = 0 then Some Problem_EngineAmount
      else if ch_engine c \<noteq> Choose_Off \<and> ch_engineAmount c > cap then Some Problem_EngineAboveCap
      else if ch_engine c = Choose_Off \<and> \<not> ch_incomeRule c \<and> ch_changeMultiplier c = 0 then Some Problem_NothingInvests
      else if length (utf8 (trim (ch_goalLabel c))) > GOAL_LABEL_BYTES then Some Problem_GoalLabel
      else let chosen = chosenOffers c offers
      in if chosen = [] \<or> list_ex (\<lambda>offer. \<not> of_offered offer) chosen then Some Problem_NoToken
      else if list_ex (\<lambda>offer. of_delegate offer \<noteq> None \<and> \<not> hasToken (ch_replaceDelegates c) (of_paymentToken offer)) chosen
           then Some Problem_Delegate else None)"

definition enrollParams :: "choices \<Rightarrow> enroll_params outcome" where
  "enrollParams c =
     res_bind (goalLabelBytes (ch_goalLabel c)) (\<lambda>label. Inr
       \<lparr>ep_tier = ch_tier c, ep_paymentTokens = ch_paymentTokens c, ep_asset = ch_asset c,
        ep_engine = (if ch_engine c = Choose_Weekly then Weekly else Daily),
        ep_engineAmount = (if ch_engine c = Choose_Off then 0 else ch_engineAmount c), ep_incomeRule = ch_incomeRule c,
        ep_changeMultiplier = ch_changeMultiplier c, ep_cushions = [ch_cushion c, ch_cushion c],
        ep_goalAmount = ch_goalAmount c, ep_goalLabel = label\<rparr>)"

definition onboardingIntent :: "choices \<Rightarrow> user_state \<Rightarrow> intent outcome" where
  "onboardingIntent c state =
     res_bind (enrollParams c) (\<lambda>params.
     res_bind (assertValidRules params) (\<lambda>_.
     let status = map_option uc_status (ust_userConfig state)
     in res_guard (status \<noteq> None \<and> status \<noteq> Some Exited) (PlainError ''the wallet is already enrolled'') (
        Inr \<lparr>in_kind = (if status = Some Exited then Kind_Reactivate else Kind_Enroll), in_params = params\<rparr>)))"

section \<open>What the screen lets through\<close>

text \<open>A base64 codec that reads back what it writes, which the kit's does.\<close>

definition base64_ok :: "base64_lib \<Rightarrow> bool" where
  "base64_ok B = (\<forall>bytes. b6_encode B (b6_decode B bytes) = Inr bytes)"

text \<open>What the screen's controls can set: numbers in their ranges, tokens and assets that there are.\<close>

definition choices_ok :: "choices \<Rightarrow> bool" where
  "choices_ok c = (ch_tier c \<in> {0, 1} \<and> ch_asset c \<in> {0, 1} \<and> ch_changeMultiplier c \<in> {0..3}
     \<and> ch_paymentTokens c \<in> {0..3} \<and> 0 \<le> ch_engineAmount c \<and> u64_ok (ch_cushion c) \<and> u64_ok (ch_goalAmount c))"

lemma TIERS_nth: "nth_opt TIERS 0 = Some 10000000" "nth_opt TIERS 1 = Some 25000000"
  by (simp_all add: TIERS_def nth_opt_def)

lemma goalLabelBytes_Inr: "length (utf8 (trim label)) \<le> GOAL_LABEL_BYTES \<Longrightarrow>
    \<exists>bs. goalLabelBytes label = Inr bs \<and> length bs = 32"
  by (simp add: goalLabelBytes_def GOAL_LABEL_BYTES_def Let_def)

lemma offeredTiers_mem: "t \<in> set (offeredTiers cfg) \<Longrightarrow> \<exists>cap. nth_opt TIERS t = Some cap \<and> cap \<le> userWeeklyCap cfg"
  by (auto simp: offeredTiers_def TIERS_def nth_opt_def split: if_splits)

lemma chosen_params:
  assumes "problemOf c cfg offers = None" "choices_ok c"
  obtains params where "enrollParams c = Inr params" "assertValidRules params = Inr ()" "enroll_fields_ok L params"
    "\<exists>cap. nth_opt TIERS (ep_tier params) = Some cap \<and> cap \<le> userWeeklyCap cfg"
proof -
  from assms(1) have ok: "ch_tier c \<in> set (offeredTiers cfg)" "length (utf8 (trim (ch_goalLabel c))) \<le> GOAL_LABEL_BYTES"
    "ch_engine c \<noteq> Choose_Off \<or> ch_incomeRule c \<or> ch_changeMultiplier c \<noteq> 0"
    "ch_engine c \<noteq> Choose_Off \<Longrightarrow> ch_engineAmount c \<noteq> 0"
    "\<And>cap. ch_engine c \<noteq> Choose_Off \<Longrightarrow> nth_opt TIERS (ch_tier c) = Some cap \<Longrightarrow> ch_engineAmount c \<le> cap"
    "chosenOffers c offers \<noteq> []"
    by (auto simp: problemOf_def Let_def split: if_splits option.splits)
  from offeredTiers_mem [OF ok(1)] obtain cap where cap: "nth_opt TIERS (ch_tier c) = Some cap" "cap \<le> userWeeklyCap cfg" by blast
  from goalLabelBytes_Inr [OF ok(2)] obtain label where label: "goalLabelBytes (ch_goalLabel c) = Inr label" "length label = 32" by blast
  have some: "ch_paymentTokens c \<noteq> 0" using ok(6) by (auto simp: chosenOffers_def hasToken_def)
  have few: "cap \<le> 25000000" using assms(2) cap(1) TIERS_nth by (auto simp: choices_ok_def)
  show thesis
  proof (rule that)
    show "enrollParams c = Inr \<lparr>ep_tier = ch_tier c, ep_paymentTokens = ch_paymentTokens c, ep_asset = ch_asset c,
        ep_engine = (if ch_engine c = Choose_Weekly then Weekly else Daily),
        ep_engineAmount = (if ch_engine c = Choose_Off then 0 else ch_engineAmount c), ep_incomeRule = ch_incomeRule c,
        ep_changeMultiplier = ch_changeMultiplier c, ep_cushions = [ch_cushion c, ch_cushion c],
        ep_goalAmount = ch_goalAmount c, ep_goalLabel = label\<rparr>" (is "_ = Inr ?p")
      using label(1) by (simp add: enrollParams_def)
    have "drop_bit 2 (ch_paymentTokens c) = 0" using assms(2) by (auto simp: choices_ok_def drop_bit_eq_div)
    then show "assertValidRules ?p = Inr ()"
      using assms(2) ok cap some by (auto simp: assertValidRules_iff choices_ok_def TIERS_nth)
    show "enroll_fields_ok L ?p"
      using assms(2) ok cap few label(2) by (auto simp: enroll_fields_ok_def choices_ok_def u8_ok_def u64_ok_def)
    show "\<exists>cap. nth_opt TIERS (ep_tier ?p) = Some cap \<and> cap \<le> userWeeklyCap cfg" using cap by simp
  qed
qed

lemma intent_read_back:
  assumes "kit_encoders L" "base64_ok B" "enroll_fields_ok L (in_params i)"
  shows "readIntentBody L B (Some (intentBody L B i)) = Some i"
proof -
  let ?enc = "encEnrollParams L (in_params i)"
  have "rdEnrollParams L ?enc = Inr (in_params i, [])" using readsD [OF rdEnrollParams_roundtrip [OF assms(1,3)], of "[]"] by simp
  then have "decodeWith (rdEnrollParams L) ?enc = Inr (in_params i)" by (simp add: decodeWith_def)
  moreover have "length (encPair (encodeUint L 8) (ep_cushions (in_params i))) = 2 * 8"
    using assms(1,3) by (intro encPair_length) (auto simp: enroll_fields_ok_def list_all_iff codec_lengths)
  then have "length ?enc = ENROLL_PARAMS_SIZE"
    using assms(1,3) by (simp del: One_nat_def add: encEnrollParams_def enroll_fields_ok_def codec_lengths ENROLL_PARAMS_SIZE_def)
  moreover obtain kind params where "i = \<lparr>in_kind = kind, in_params = params\<rparr>" by (cases i)
  ultimately show ?thesis
    using assms(2) by (cases kind) (simp_all add: readIntentBody_def intentBody_def field_def base64_ok_def)
qed

text \<open>
  C13: What the screen lets through, the route reads and the builder accepts. When the choices have no problem, the
  program is open and the wallet is not enrolled now, they become an intent; the sponsor's route reads exactly
  that intent back from the request; and it passes every check of joining, the beta's cap included.
\<close>

theorem chosen_intent_joins:
  assumes "problemOf c cfg offers = None" "choices_ok c" "closedReason cfg = None" "kit_encoders L" "base64_ok B"
    "map_option uc_status (ust_userConfig state) \<in> {None, Some Exited}"
  shows "\<exists>i. onboardingIntent c state = Inr i \<and> readIntentBody L B (Some (intentBody L B i)) = Some i
    \<and> in_kind i = (if ust_userConfig state = None then Kind_Enroll else Kind_Reactivate)
    \<and> assertCanJoin cfg (cfg_sponsor cfg) (in_params i) = Inr ()"
proof -
  from chosen_params [OF assms(1,2)] obtain params where params: "enrollParams c = Inr params" "assertValidRules params = Inr ()"
    "enroll_fields_ok L params" "\<exists>cap. nth_opt TIERS (ep_tier params) = Some cap \<and> cap \<le> userWeeklyCap cfg" by metis
  define i where "i = \<lparr>in_kind = (if map_option uc_status (ust_userConfig state) = Some Exited then Kind_Reactivate else Kind_Enroll),
    in_params = params\<rparr>"
  have "onboardingIntent c state = Inr i" using params(1,2) assms(6) by (auto simp: onboardingIntent_def i_def)
  moreover have "readIntentBody L B (Some (intentBody L B i)) = Some i"
    by (rule intent_read_back [OF assms(4,5)]) (simp add: i_def params(3))
  moreover have "in_kind i = (if ust_userConfig state = None then Kind_Enroll else Kind_Reactivate)" using assms(6) by (auto simp: i_def)
  moreover have "assertCanJoin cfg (cfg_sponsor cfg) (in_params i) = Inr ()"
    using assms(3) params(2,4) by (auto simp: assertCanJoin_Inr i_def closedReason_def split: if_splits)
  ultimately show ?thesis by blast
qed

definition demoChoices :: choices where
  "demoChoices = (initialChoices 1)\<lparr>ch_engine := Choose_Weekly, ch_engineAmount := 5000000, ch_goalLabel := [32, 66, 105, 99, 105, 32]\<rparr>"

definition demoOffer :: token_offer where
  "demoOffer = \<lparr>of_balance = 20000000, of_delegate = None, of_frozen = False, of_offered = True, of_paymentToken = 0, of_symbol = None\<rparr>"

definition demoNewcomer :: user_state where
  "demoNewcomer = \<lparr>ust_assets = [], ust_now = 0, ust_plans = [], ust_tokens = [], ust_userConfig = None, ust_userConfigAddress = ''UC''\<rparr>"

text \<open>A stand-in for base64: a byte is the character of its code.\<close>

definition demoBase64 :: base64_lib where
  "demoBase64 = \<lparr>b6_encode = (\<lambda>s. Inr (demoBytes s)), b6_decode = demoAscii\<rparr>"

theorem chosen_intent_joins_witness:
  "\<exists>i. onboardingIntent demoChoices demoNewcomer = Inr i
    \<and> readIntentBody demoLib demoBase64 (Some (intentBody demoLib demoBase64 i)) = Some i \<and> in_kind i = Kind_Enroll
    \<and> assertCanJoin demoConfig ''S'' (in_params i) = Inr () \<and> take 5 (ep_goalLabel (in_params i)) = [66, 105, 99, 105, 0]"
proof -
  have "problemOf demoChoices demoConfig [demoOffer] = None" "choices_ok demoChoices" "closedReason demoConfig = None"
    by code_simp+
  moreover have "base64_ok demoBase64" by (simp add: base64_ok_def demoBase64_def)
  moreover have "cfg_sponsor demoConfig = ''S''" "ust_userConfig demoNewcomer = None" by (simp_all add: demoConfig_def demoNewcomer_def)
  ultimately obtain i where i: "onboardingIntent demoChoices demoNewcomer = Inr i"
    "readIntentBody demoLib demoBase64 (Some (intentBody demoLib demoBase64 i)) = Some i" "in_kind i = Kind_Enroll"
    "assertCanJoin demoConfig ''S'' (in_params i) = Inr ()"
    using chosen_intent_joins [of demoChoices demoConfig "[demoOffer]" demoLib demoBase64 demoNewcomer] demo_kit_encoders by auto
  have "map_option (\<lambda>i. take 5 (ep_goalLabel (in_params i)))
      (case onboardingIntent demoChoices demoNewcomer of Inl _ \<Rightarrow> None | Inr i \<Rightarrow> Some i) = Some [66, 105, 99, 105, 0]"
    by code_simp
  with i show ?thesis by auto
qed

end
