(* ===== verification/Alarms.thy ===== *)
theory Alarms
  imports Laterite_Prelude "HOL-Library.AList"
begin

text \<open>
  The operations alarms (\<open>services/operator/src/alarms/alarms.ts\<close>): a row per alarm, and which notices the operator
  is sent as it fires, keeps firing and resolves. A message's text is a parameter \<open>'m\<close>.
\<close>

section \<open>The code\<close>

definition REPEAT_MS :: int where "REPEAT_MS = 6 * 60 * 60 * 1000"

record 'm alarm_row =
  al_changedAt :: int
  al_firing :: bool
  al_message :: 'm
  al_notifiedAt :: "int option"

datatype notice_label = Firing | Still_Firing | Resolved

text \<open>A notice: its label, the alarm's key and its message, as one line of text.\<close>

type_synonym 'm notice = "notice_label \<times> string \<times> 'm"

text \<open>One alarm brought to its state, \<open>row\<close> as stored before; what is sent, and the row after.\<close>

definition resolveAlarm :: "string \<Rightarrow> int \<Rightarrow> 'm alarm_row option \<Rightarrow> 'm alarm_row option \<times> 'm notice list" where
  "resolveAlarm key now row =
     (case row of
        None \<Rightarrow> (None, [])
      | Some r \<Rightarrow>
          if \<not> al_firing r then (Some r, [])
          else (Some (r\<lparr>al_changedAt := now, al_firing := False\<rparr>), [(Resolved, key, al_message r)]))"

definition fireAlarm ::
    "int \<Rightarrow> ('m notice \<Rightarrow> bool) \<Rightarrow> string \<Rightarrow> 'm \<Rightarrow> int \<Rightarrow> 'm alarm_row option \<Rightarrow> 'm alarm_row \<times> 'm notice list" where
  "fireAlarm repeatMs deliver key message now row =
     (let started = (case row of None \<Rightarrow> True | Some r \<Rightarrow> \<not> al_firing r);
          notifiedAt = (case row of None \<Rightarrow> None | Some r \<Rightarrow> al_notifiedAt r);
          due = (started \<or> (case notifiedAt of None \<Rightarrow> True | Some t \<Rightarrow> now - t \<ge> repeatMs));
          label = (if started \<or> notifiedAt = None then Firing else Still_Firing);
          notified = (due \<and> deliver (label, key, message))
      in (\<lparr>al_changedAt = (case row of None \<Rightarrow> now | Some r \<Rightarrow> if started then now else al_changedAt r),
           al_firing = True, al_message = message, al_notifiedAt = (if notified then Some now else notifiedAt)\<rparr>,
          if due then [(label, key, message)] else []))"

definition setAlarm ::
    "int \<Rightarrow> ('m notice \<Rightarrow> bool) \<Rightarrow> int \<Rightarrow> string \<Rightarrow> 'm option \<Rightarrow> 'm alarm_row option \<Rightarrow> 'm alarm_row option \<times> 'm notice list" where
  "setAlarm repeatMs deliver now key message row =
     (case message of
        None \<Rightarrow> resolveAlarm key now row
      | Some m \<Rightarrow> (let (r, sent) = fireAlarm repeatMs deliver key m now row in (Some r, sent)))"

text \<open>The whole \<open>set\<close>: the rows are read once, before the first state is applied.\<close>

definition putAlarm :: "string \<Rightarrow> 'm alarm_row option \<Rightarrow> (string \<times> 'm alarm_row) list \<Rightarrow> (string \<times> 'm alarm_row) list" where
  "putAlarm key row table = (case row of None \<Rightarrow> table | Some r \<Rightarrow> AList.update key r table)"

fun setStates ::
    "int \<Rightarrow> ('m notice \<Rightarrow> bool) \<Rightarrow> int \<Rightarrow> (string \<rightharpoonup> 'm alarm_row) \<Rightarrow> (string \<times> 'm option) list
     \<Rightarrow> (string \<times> 'm alarm_row) list \<Rightarrow> (string \<times> 'm alarm_row) list \<times> 'm notice list" where
  "setStates repeatMs deliver now stored [] table = (table, [])"
| "setStates repeatMs deliver now stored ((key, message) # states) table =
     (let (row, sent) = setAlarm repeatMs deliver now key message (stored key);
          (table', more) = setStates repeatMs deliver now stored states (putAlarm key row table)
      in (table', sent @ more))"

definition setAlarms ::
    "int \<Rightarrow> ('m notice \<Rightarrow> bool) \<Rightarrow> int \<Rightarrow> (string \<times> 'm option) list \<Rightarrow> (string \<times> 'm alarm_row) list
     \<Rightarrow> (string \<times> 'm alarm_row) list \<times> 'm notice list" where
  "setAlarms repeatMs deliver now states table = setStates repeatMs deliver now (map_of table) states table"

text \<open>\<open>firing\<close>: the alarms firing now, oldest first.\<close>

definition firingAlarms :: "(string \<times> 'm alarm_row) list \<Rightarrow> (string \<times> 'm \<times> int) list" where
  "firingAlarms table =
     map (\<lambda>(key, r). (key, al_message r, al_changedAt r))
       (sort_key (\<lambda>(key, r). al_changedAt r) (filter (\<lambda>(key, r). al_firing r) table))"

section \<open>Each alarm by itself\<close>

lemma putAlarm_other: "key \<noteq> other \<Longrightarrow> map_of (putAlarm key row table) other = map_of table other"
  by (simp add: putAlarm_def update_conv' split: option.split)

lemma setStates_other: "key \<notin> fst ` set states \<Longrightarrow>
   map_of (fst (setStates repeatMs deliver now stored states table)) key = map_of table key
   \<and> filter (\<lambda>n. fst (snd n) = key) (snd (setStates repeatMs deliver now stored states table)) = []"
proof (induction repeatMs deliver now stored states table rule: setStates.induct)
  case (2 repeatMs deliver now stored other message states table)
  obtain row sent where row: "setAlarm repeatMs deliver now other message (stored other) = (row, sent)" by fastforce
  have "filter (\<lambda>n. fst (snd n) = key) sent = []"
    using row 2(2) by (auto simp: setAlarm_def resolveAlarm_def fireAlarm_def Let_def filter_empty_conv split: option.splits if_splits)
  with 2 row show ?case by (auto simp: putAlarm_other split: prod.split)
qed simp

text \<open>With distinct keys, a \<open>set\<close> is one step of each alarm it names and nothing to the others.\<close>

lemma setStates_own:
  assumes "distinct (map fst states)" "(key, message) \<in> set states" "map_of table key = stored key"
  shows "map_of (fst (setStates repeatMs deliver now stored states table)) key = fst (setAlarm repeatMs deliver now key message (stored key))
    \<and> filter (\<lambda>n. fst (snd n) = key) (snd (setStates repeatMs deliver now stored states table))
        = snd (setAlarm repeatMs deliver now key message (stored key))"
  using assms
proof (induction states arbitrary: table)
  case (Cons s states)
  obtain other m where s: "s = (other, m)" by fastforce
  obtain row sent where row: "setAlarm repeatMs deliver now other m (stored other) = (row, sent)" by fastforce
  have names: "filter (\<lambda>n. fst (snd n) = other) sent = sent" "key \<noteq> other \<Longrightarrow> filter (\<lambda>n. fst (snd n) = key) sent = []"
    using row by (auto simp: setAlarm_def resolveAlarm_def fireAlarm_def Let_def split: option.splits if_splits)
  show ?case
  proof (cases "key = other")
    case True
    then have m: "message = m" "key \<notin> fst ` set states" using Cons.prems(1,2) s by (auto simp: rev_image_eqI)
    have "map_of (putAlarm key row table) key = row"
    proof (cases row)
      case None
      with row True m(1) Cons.prems(3) show ?thesis
        by (auto simp: putAlarm_def setAlarm_def resolveAlarm_def split: option.splits prod.splits if_splits)
    qed (simp add: putAlarm_def update_conv')
    with setStates_other [OF m(2), of repeatMs deliver now stored "putAlarm key row table"] row s m True names show ?thesis
      by (simp split: prod.split) (metis fst_conv snd_conv)
  next
    case False
    with Cons.prems s have "(key, message) \<in> set states" "map_of (putAlarm other row table) key = stored key"
      by (auto simp: putAlarm_other)
    with Cons.IH [of "putAlarm other row table"] Cons.prems(1) row s False names(2) show ?thesis
      by (simp split: prod.split) (metis fst_conv snd_conv)
  qed
qed simp

section \<open>Notices over a run\<close>

text \<open>A run of the table: each \<open>set\<close> with its clock and what it can deliver; the log of every notice tried.\<close>

type_synonym 'm alarm_set = "('m notice \<Rightarrow> bool) \<times> int \<times> (string \<times> 'm option) list"
type_synonym 'm tried = "int \<times> 'm notice \<times> bool"

fun tableRun :: "int \<Rightarrow> 'm alarm_set list \<Rightarrow> (string \<times> 'm alarm_row) list \<Rightarrow> (string \<times> 'm alarm_row) list \<times> 'm tried list" where
  "tableRun repeatMs [] table = (table, [])"
| "tableRun repeatMs ((deliver, now, states) # sets) table =
     (let (table', sent) = setAlarms repeatMs deliver now states table; (table'', log) = tableRun repeatMs sets table'
      in (table'', map (\<lambda>n. (now, n, deliver n)) sent @ log))"

text \<open>When the operator was last told that the alarm of a key fires.\<close>

definition tells :: "string \<Rightarrow> 'm tried \<Rightarrow> bool" where
  "tells key = (\<lambda>(t, (label, k, _), delivered). k = key \<and> label \<noteq> Resolved \<and> delivered)"

definition toldAfter :: "string \<Rightarrow> int option \<Rightarrow> 'm tried list \<Rightarrow> int option" where
  "toldAfter key told log = foldl (\<lambda>t x. if tells key x then Some (fst x) else t) told log"

definition about :: "string \<Rightarrow> 'm tried \<Rightarrow> bool" where
  "about key x = (fst (snd (fst (snd x))) = key)"

lemma toldAfter_simps [simp]:
  "toldAfter key told [] = told"
  "toldAfter key told (x # log) = toldAfter key (if tells key x then Some (fst x) else told) log"
  "toldAfter key told (xs @ ys) = toldAfter key (toldAfter key told xs) ys"
  by (simp_all add: toldAfter_def)

lemma tells_about: "tells key x \<Longrightarrow> about key x"
  by (cases x) (auto simp: tells_def about_def)

lemma toldAfter_about: "toldAfter key told (filter (about key) log) = toldAfter key told log"
  by (induction log arbitrary: told) (auto simp: tells_def about_def)

text \<open>What a row knows of the log so far, and which notices may follow it.\<close>

definition knows :: "'m alarm_row option \<Rightarrow> int option \<Rightarrow> bool" where
  "knows row told = ((case row of None \<Rightarrow> None | Some r \<Rightarrow> al_notifiedAt r) = told)"

fun timely :: "int \<Rightarrow> string \<Rightarrow> int option \<Rightarrow> 'm tried list \<Rightarrow> bool" where
  "timely repeatMs key told [] = True"
| "timely repeatMs key told (x # log) =
     ((about key x \<and> fst (fst (snd x)) = Still_Firing \<longrightarrow> (\<exists>t. told = Some t \<and> t + repeatMs \<le> fst x))
      \<and> timely repeatMs key (if tells key x then Some (fst x) else told) log)"

lemma timely_append:
  "timely repeatMs key told (xs @ ys) \<longleftrightarrow> timely repeatMs key told xs \<and> timely repeatMs key (toldAfter key told xs) ys"
  by (induction xs arbitrary: told) auto

lemma timely_about: "timely repeatMs key told (filter (about key) log) = timely repeatMs key told log"
proof (induction log arbitrary: told)
  case (Cons x log)
  show ?case
  proof (cases "about key x")
    case False
    then have "\<not> tells key x" using tells_about by blast
    with False Cons show ?thesis by simp
  qed (simp add: Cons)
qed simp

lemma setAlarm_timely:
  assumes "setAlarm repeatMs deliver now key message row = (row', sent)" "knows row told"
  defines "log \<equiv> map (\<lambda>n. (now, n, deliver n)) sent"
  shows "timely repeatMs key told log \<and> knows row' (toldAfter key told log)"
proof (cases message)
  case None
  with assms(1) have resolved: "resolveAlarm key now row = (row', sent)" by (simp add: setAlarm_def)
  show ?thesis
  proof (cases row)
    case (Some r)
    show ?thesis
    proof (cases "al_firing r")
      case True
      with resolved Some have "row' = Some (r\<lparr>al_changedAt := now, al_firing := False\<rparr>)" "sent = [(Resolved, key, al_message r)]"
        by (simp_all add: resolveAlarm_def)
      with assms(2) Some show ?thesis by (simp add: log_def knows_def tells_def about_def)
    next
      case False
      with resolved Some have "row' = Some r" "sent = []" by (simp_all add: resolveAlarm_def)
      with assms(2) Some show ?thesis by (simp add: log_def)
    qed
  qed (use resolved assms(2) in \<open>simp add: resolveAlarm_def log_def\<close>)
next
  case (Some m)
  define started where "started = (case row of None \<Rightarrow> True | Some r \<Rightarrow> \<not> al_firing r)"
  define due where "due = (started \<or> (case told of None \<Rightarrow> True | Some t \<Rightarrow> now - t \<ge> repeatMs))"
  define n where "n = (if started \<or> told = None then Firing else Still_Firing, key, m)"
  from assms(2) have told: "(case row of None \<Rightarrow> None | Some r \<Rightarrow> al_notifiedAt r) = told" by (simp add: knows_def)
  have after: "sent = (if due then [n] else [])" "row' \<noteq> None"
    "al_notifiedAt (the row') = (if due \<and> deliver n then Some now else told)"
    using assms(1) unfolding setAlarm_def fireAlarm_def Let_def Some told started_def [symmetric] due_def [symmetric] n_def [symmetric]
    by (auto simp: due_def n_def started_def split: if_splits option.splits)
  show ?thesis
  proof (cases due)
    case True
    have "\<exists>t. told = Some t \<and> t + repeatMs \<le> now" if "fst n = Still_Firing"
      using that True by (auto simp: n_def due_def split: if_splits option.splits)
    with True after show ?thesis by (auto simp: log_def knows_def tells_def about_def n_def split: if_splits)
  next
    case False
    with after show ?thesis by (auto simp: log_def knows_def)
  qed
qed

lemma about_log: "filter (about key) (map (\<lambda>n. (now, n, deliver n)) sent) = map (\<lambda>n. (now, n, deliver n)) (filter (\<lambda>n. fst (snd n) = key) sent)"
  by (simp add: filter_map comp_def about_def)

lemma tableRun_timely:
  assumes "\<forall>(deliver, now, states) \<in> set sets. distinct (map fst states)" "knows (map_of table key) told"
  shows "timely repeatMs key told (snd (tableRun repeatMs sets table))"
  using assms
proof (induction repeatMs sets table arbitrary: told rule: tableRun.induct)
  case (2 repeatMs deliver now states sets table)
  obtain table' sent where set: "setAlarms repeatMs deliver now states table = (table', sent)" by fastforce
  let ?log = "map (\<lambda>n. (now, n, deliver n)) sent"
  have "timely repeatMs key told ?log \<and> knows (map_of table' key) (toldAfter key told ?log)"
  proof (cases "key \<in> fst ` set states")
    case True
    then obtain message where message: "(key, message) \<in> set states" by auto
    obtain row' own where own: "setAlarm repeatMs deliver now key message (map_of table key) = (row', own)" by fastforce
    have names: "distinct (map fst states)" using 2(2) by simp
    from setStates_own [of states key message table "map_of table" repeatMs deliver now] names message own set
    have row: "map_of table' key = row'" and "filter (\<lambda>n. fst (snd n) = key) sent = own" by (simp_all add: setAlarms_def)
    then have own_log: "filter (about key) ?log = map (\<lambda>n. (now, n, deliver n)) own" by (simp add: about_log)
    from setAlarm_timely [OF own 2(3)]
    have "timely repeatMs key told (filter (about key) ?log) \<and> knows (map_of table' key) (toldAfter key told (filter (about key) ?log))"
      unfolding own_log row .
    then show ?thesis by (simp only: timely_about toldAfter_about)
  next
    case False
    from setStates_other [OF False, of repeatMs deliver now "map_of table" table] set
    have row: "map_of table' key = map_of table key" and "filter (\<lambda>n. fst (snd n) = key) sent = []" by (simp_all add: setAlarms_def)
    then have own_log: "filter (about key) ?log = []" by (simp add: about_log)
    have "timely repeatMs key told (filter (about key) ?log) \<and> knows (map_of table' key) (toldAfter key told (filter (about key) ?log))"
      unfolding own_log row using 2(3) by simp
    then show ?thesis by (simp only: timely_about toldAfter_about)
  qed
  moreover have "timely repeatMs key (toldAfter key told ?log) (snd (tableRun repeatMs sets table'))"
    by (rule 2(1) [OF set [symmetric] refl]) (use 2(2) calculation in simp_all)
  moreover have "snd (tableRun repeatMs ((deliver, now, states) # sets) table) = ?log @ snd (tableRun repeatMs sets table')"
    using set by (simp split: prod.split)
  ultimately show ?case by (simp only: timely_append simp_thms)
qed simp

text \<open>
  A firing alarm is not repeated early. Over any run of the alarms, with any clocks and any failures of
  delivery, every notice that an alarm still fires comes at least the repeat interval after the operator was
  last told of it.
\<close>

theorem repeats_spaced:
  assumes "\<forall>(deliver, now, states) \<in> set sets. distinct (map fst states)"
    "snd (tableRun repeatMs sets []) = earlier @ (t, (Still_Firing, key, m), delivered) # rest"
  shows "\<exists>t0. toldAfter key None earlier = Some t0 \<and> t0 + repeatMs \<le> t"
proof -
  have "knows (map_of [] key) None" by (simp add: knows_def)
  from tableRun_timely [OF assms(1) this, of repeatMs] show ?thesis
    unfolding assms(2) timely_append by (simp add: about_def)
qed

text \<open>
  A notice can be lost for hours. An alarm that fires again keeps the time of its earlier spell's notice, so
  when the new spell's first notice is not delivered, no set tries again until the repeat interval after that
  earlier notice, unlike the first spell, whose notice every set retries.
\<close>

theorem failed_notice_waits:
  assumes "\<not> al_firing r" "al_notifiedAt r = Some t0" "\<not> deliver (Firing, key, m)" "later - t0 < repeatMs"
  shows "\<exists>r'. setAlarm repeatMs deliver now key (Some m) (Some r) = (Some r', [(Firing, key, m)]) \<and> al_firing r'
    \<and> snd (setAlarm repeatMs deliver' later key (Some m') (Some r')) = []"
  using assms by (simp add: setAlarm_def fireAlarm_def Let_def)

section \<open>An alarm that fires, resolves and fires again\<close>

definition demoHour :: int where "demoHour = 3600000"

definition demoSets :: "string alarm_set list" where
  "demoSets = [(\<lambda>_. True, 0, [(''indexer'', Some ''stalled'')]), (\<lambda>_. True, demoHour, [(''indexer'', Some ''stalled'')]),
     (\<lambda>_. True, 6 * demoHour, [(''indexer'', Some ''stalled'')])]"

lemma demo_sets:
  "snd (tableRun REPEAT_MS demoSets []) =
     [(0, (Firing, ''indexer'', ''stalled''), True)] @ (6 * demoHour, (Still_Firing, ''indexer'', ''stalled''), True) # []"
  by code_simp

theorem repeats_spaced_witness:
  "\<exists>t0. toldAfter ''indexer'' None [(0, (Firing, ''indexer'', ''stalled''), True)] = Some t0 \<and> t0 + REPEAT_MS \<le> 6 * demoHour"
  by (rule repeats_spaced [OF _ demo_sets]) (simp add: demoSets_def)

theorem failed_notice_waits_witness:
  "\<exists>r'. setAlarm REPEAT_MS (\<lambda>_. False) demoHour ''indexer'' (Some ''stalled'')
      (Some \<lparr>al_changedAt = 1, al_firing = False, al_message = ''stalled'', al_notifiedAt = Some 0\<rparr>)
      = (Some r', [(Firing, ''indexer'', ''stalled'')]) \<and> al_firing r'
    \<and> snd (setAlarm REPEAT_MS (\<lambda>_. True) (5 * demoHour) ''indexer'' (Some ''stalled'') (Some r')) = []"
  by (rule failed_notice_waits [where ?t0.0 = 0]) (simp_all add: demoHour_def REPEAT_MS_def)

end
