(* ===== verification/Checks.thy ===== *)
theory Checks
  imports Alarms Pyth Indexer
begin

text \<open>
  The operations checks (\<open>services/operator/src/alarms/checks.ts\<close>): from what a check reads, the state of each of its
  alarms. Reads of the cluster and of Pyth Pro are parameters with their possible failures; the sweeps and the
  swap accounts are rows of the database. A message is a constructor with the values its text interpolates.
\<close>

section \<open>The code: thresholds and messages\<close>

record thresholds =
  th_crankLamports :: int
  th_sponsorLamports :: int
  th_treasuryLamports :: int
  th_treasuryTokens :: "(string \<times> int) list"
  th_calendarDays :: int
  th_priceAgeSeconds :: int
  th_assetUpdateBytes :: int
  th_headroomBps :: "(string \<times> int) list"
  th_swapAccountCreationsPerDay :: int
  th_indexerStallMs :: int

definition THRESHOLDS :: thresholds where
  "THRESHOLDS =
     \<lparr>th_crankLamports = 500000000, th_sponsorLamports = 500000000, th_treasuryLamports = 500000000,
      th_treasuryTokens = [(''QQQx'', 25 * 10 ^ 8), (''SPYx'', 25 * 10 ^ 8), (''USDC'', 20000 * 10 ^ 6), (''USDT'', 20000 * 10 ^ 6)],
      th_calendarDays = 90, th_priceAgeSeconds = 120, th_assetUpdateBytes = 1745,
      th_headroomBps = [(''devnet'', 5), (''mainnet'', 20)],
      th_swapAccountCreationsPerDay = 5, th_indexerStallMs = 5 * 60 * 1000\<rparr>"

datatype check_message =
    Calendar_uncovered string
  | Calendar_ends int int string
  | Crank_low address int
  | Sponsor_low address int string
  | Treasury_low address int string
  | Inventory_low int string int string
  | Price_missing string int
  | Price_stale string int
  | Price_incomplete string int
  | Update_too_large int int
  | Pyth_refused int
  | Headroom_low string int int string
  | Swap_accounts_bound int
  | Indexer_stalled int
  | Check_failed string nat js_error

text \<open>\<open>Record<string, string | null>\<close>: an object's keys in the order they were first set.\<close>

type_synonym states = "(string \<times> check_message option) list"

section \<open>The code: calendar and balances\<close>

definition calendarAlarm :: "market_calendar \<Rightarrow> int \<Rightarrow> string \<Rightarrow> check_message option" where
  "calendarAlarm calendar now cluster =
     (let today = divEuclid now DAY_SECONDS
      in if today < firstDay calendar \<or> today > validThrough calendar then Some (Calendar_uncovered cluster)
         else let left = validThrough calendar - today
              in if left < th_calendarDays THRESHOLDS then Some (Calendar_ends left (validThrough calendar) cluster)
                 else None)"

record wallets =
  wl_crank :: address
  wl_treasury :: address

record token_info =
  ti_mint :: address
  ti_tokenProgram :: address

text \<open>\<open>balance\<close> answers \<open>getBalance\<close>, \<open>inventory\<close> one \<open>fetchAllMaybeToken\<close>, each \<open>None\<close> an account that does not exist.\<close>

definition inventoryState :: "string \<Rightarrow> string \<times> int \<Rightarrow> int option \<Rightarrow> string \<times> check_message option" where
  "inventoryState cluster = (\<lambda>(symbol, minimum) account.
     (''inventory-'' @ symbol,
      let amount = (case account of None \<Rightarrow> 0 | Some a \<Rightarrow> a)
      in if amount < minimum then Some (Inventory_low amount symbol minimum cluster) else None))"

definition balanceAlarms ::
    "lib \<Rightarrow> (address \<Rightarrow> int outcome) \<Rightarrow> (address list \<Rightarrow> int option list outcome) \<Rightarrow> config \<Rightarrow> wallets
     \<Rightarrow> (string \<Rightarrow> token_info) \<Rightarrow> string \<Rightarrow> states outcome" where
  "balanceAlarms L balance fetchAllMaybeToken cfg w tokens cluster =
     res_bind (balance (wl_crank w)) (\<lambda>crank.
     res_bind (balance (cfg_sponsor cfg)) (\<lambda>sponsor.
     res_bind (balance (wl_treasury w)) (\<lambda>treasury.
     let accounts = map (\<lambda>(symbol, _). findAssociatedTokenPda L (ti_mint (tokens symbol)) (wl_treasury w)
                                          (ti_tokenProgram (tokens symbol))) (th_treasuryTokens THRESHOLDS)
     in res_bind (fetchAllMaybeToken accounts) (\<lambda>inventory.
     Inr ([(''balance-crank'', if crank < th_crankLamports THRESHOLDS then Some (Crank_low (wl_crank w) crank) else None),
           (''balance-sponsor'', if sponsor < th_sponsorLamports THRESHOLDS
                                then Some (Sponsor_low (cfg_sponsor cfg) sponsor cluster) else None),
           (''balance-treasury'', if treasury < th_treasuryLamports THRESHOLDS
                                 then Some (Treasury_low (wl_treasury w) treasury cluster) else None)]
          @ map2 (inventoryState cluster) (th_treasuryTokens THRESHOLDS) inventory)))))"

section \<open>The code: prices\<close>

text \<open>The state of a feed the relay has an update of.\<close>

definition updateState :: "lib \<Rightarrow> bytes \<Rightarrow> int \<Rightarrow> string \<Rightarrow> int \<Rightarrow> check_message option outcome" where
  "updateState L message feedId name now =
     (case quote L message feedId now (th_priceAgeSeconds THRESHOLDS) of
        Inr _ \<Rightarrow> Inr None
      | Inl (LateriteCheckError code) \<Rightarrow>
          Inr (if code = StalePrice then Some (Price_stale name feedId)
               else if code = PriceUnavailable then Some (Price_incomplete name feedId) else None)
      | Inl e \<Rightarrow> Inl e)"

fun priceStates :: "lib \<Rightarrow> (int \<rightharpoonup> bytes) \<Rightarrow> (int \<times> string) list \<Rightarrow> int \<Rightarrow> int \<Rightarrow> int \<Rightarrow> states \<Rightarrow> (states \<times> int) outcome" where
  "priceStates L latest [] now watchingSince largest states = Inr (states, largest)"
| "priceStates L latest ((feedId, name) # feeds) now watchingSince largest states =
     (case latest feedId of
        None \<Rightarrow>
          priceStates L latest feeds now watchingSince largest
            (AList.update (''price-'' @ name)
               (if now - watchingSince > th_priceAgeSeconds THRESHOLDS then Some (Price_missing name feedId) else None) states)
      | Some message \<Rightarrow>
          res_bind (updateState L message feedId name now) (\<lambda>state.
          priceStates L latest feeds now watchingSince (max largest (int (length message)))
            (AList.update (''price-'' @ name) state states)))"

definition kaminoAlarms :: "lib \<Rightarrow> (int \<rightharpoonup> bytes) \<Rightarrow> (int \<times> string) list \<Rightarrow> int \<Rightarrow> int \<Rightarrow> int \<Rightarrow> states outcome" where
  "kaminoAlarms L latest feeds now watchingSince maxBytes =
     res_bind (priceStates L latest feeds now watchingSince 0 []) (\<lambda>(states, largest).
     Inr (AList.update ''price-update-size''
            (if largest > maxBytes then Some (Update_too_large largest maxBytes) else None) states))"

text \<open>Pyth Pro's answer: an update, the status of a refused request, or another error.\<close>

datatype pyth_answer = Pyth_update | Pyth_request_error int | Pyth_other_error js_error

definition pythTokenAlarm :: "pyth_answer \<Rightarrow> states outcome" where
  "pythTokenAlarm answer =
     (case answer of
        Pyth_update \<Rightarrow> Inr [(''pyth-pro-token'', None)]
      | Pyth_request_error status \<Rightarrow>
          if status \<in> {401, 403, 429} then Inr [(''pyth-pro-token'', Some (Pyth_refused status))]
          else Inl (PlainError ''PythProRequestError'')
      | Pyth_other_error e \<Rightarrow> Inl e)"

section \<open>The code: sweeps, swap accounts and the indexer\<close>

text \<open>The generated column \<open>sweeps.headroom_bps\<close>, and a crank's latest sweep.\<close>

definition headroomBps :: "sweep_row \<Rightarrow> int" where
  "headroomBps r = js_div ((sw_received (sr_event r) - sw_minOut (sr_event r)) * 10000) (sw_minOut (sr_event r))"

fun latestBySlot :: "sweep_row list \<Rightarrow> sweep_row option" where
  "latestBySlot [] = None"
| "latestBySlot (r # rows) =
     (case latestBySlot rows of
        None \<Rightarrow> Some r
      | Some s \<Rightarrow> Some (if at_slot (sr_at s) > at_slot (sr_at r) then s else r))"

definition headroomAlarm :: "sweep_row list \<Rightarrow> address \<Rightarrow> string \<Rightarrow> states" where
  "headroomAlarm sweeps crank cluster =
     (let threshold = the (map_of (th_headroomBps THRESHOLDS) cluster)
      in [(''sweep-headroom'',
           case latestBySlot (filter (\<lambda>r. sr_feePayer r = crank) sweeps) of
             None \<Rightarrow> None
           | Some latest \<Rightarrow>
               if headroomBps latest < threshold
               then Some (Headroom_low (at_txSignature (sr_at latest)) (headroomBps latest) threshold cluster) else None)])"

text \<open>\<open>createdAt\<close> is the times, in milliseconds, of the rows of \<open>swap_account_creations\<close>.\<close>

definition swapAccountAlarm :: "int list \<Rightarrow> int \<Rightarrow> states" where
  "swapAccountAlarm createdAt nowMs =
     (let since = nowMs - DAY_SECONDS * 1000; created = int (length (filter (\<lambda>t. t > since) createdAt))
      in [(''swap-account-creations'',
           if created \<ge> th_swapAccountCreationsPerDay THRESHOLDS then Some (Swap_accounts_bound created) else None)])"

definition indexerAlarm :: "int option \<Rightarrow> int \<Rightarrow> int \<Rightarrow> states" where
  "indexerAlarm lastSuccessAt startedAt now =
     (let since = (case lastSuccessAt of None \<Rightarrow> startedAt | Some t \<Rightarrow> t)
      in [(''indexer'',
           if now - since > th_indexerStallMs THRESHOLDS then Some (Indexer_stalled ((2 * (now - since) + 60000) div 120000)) else None)])"

section \<open>Which alarm each check sets\<close>

text \<open>The alarms of the checks themselves are named \<open>check-...\<close>; no check's own states are.\<close>

definition checkKey :: "string \<Rightarrow> string" where
  "checkKey name = ''check-'' @ name"

definition foreign :: "states \<Rightarrow> bool" where
  "foreign states = list_all (\<lambda>(key, _). take 6 key \<noteq> ''check-'') states"

lemma foreign_key: "foreign states \<Longrightarrow> checkKey name \<notin> fst ` set states"
  by (fastforce simp: foreign_def checkKey_def list_all_iff)

lemma foreign_update: "foreign states \<Longrightarrow> take 6 key \<noteq> ''check-'' \<Longrightarrow> foreign (AList.update key v states)"
  by (induction states) (auto simp: foreign_def)

lemma priceStates_foreign: "priceStates L latest feeds now since largest states = Inr (states', n) \<Longrightarrow> foreign states \<Longrightarrow> foreign states'"
proof (induction L latest feeds now since largest states rule: priceStates.induct)
  case (2 L latest feedId name feeds now since largest states)
  have "foreign (AList.update (''price-'' @ name) v states)" for v
    by (rule foreign_update [OF 2(4)]) simp
  with 2(1,2,3) show ?case by (auto simp: result_simps split: option.splits)
qed simp

lemma map2_foreign: "list_all (\<lambda>x. \<forall>y. take 6 (fst (f x y)) \<noteq> ''check-'') xs \<Longrightarrow> foreign (map2 f xs ys)"
proof (induction xs arbitrary: ys)
  case (Cons x xs)
  then show ?case by (cases ys; simp add: foreign_def case_prod_beta')
qed (simp add: foreign_def)

lemma checks_foreign:
  "balanceAlarms L balance fetch cfg w tokens cluster = Inr states \<Longrightarrow> foreign states"
  "kaminoAlarms L latest feeds now since maxBytes = Inr states \<Longrightarrow> foreign states"
  "pythTokenAlarm answer = Inr states \<Longrightarrow> foreign states"
  "foreign (headroomAlarm sweeps crank cluster)"
  "foreign (swapAccountAlarm created nowMs)"
  "foreign (indexerAlarm lastSuccess started now)"
proof -
  have "foreign (map2 (inventoryState cluster) (th_treasuryTokens THRESHOLDS) ys)" for ys
    by (rule map2_foreign) (simp add: THRESHOLDS_def inventoryState_def)
  then show "foreign states" if "balanceAlarms L balance fetch cfg w tokens cluster = Inr states"
    using that by (auto simp: balanceAlarms_def result_simps Let_def foreign_def)
  show "foreign states" if "kaminoAlarms L latest feeds now since maxBytes = Inr states"
    using that by (auto simp: kaminoAlarms_def result_simps foreign_def [of "[]"] intro!: foreign_update elim!: priceStates_foreign)
  show "pythTokenAlarm answer = Inr states \<Longrightarrow> foreign states"
    by (auto simp: pythTokenAlarm_def foreign_def split: pyth_answer.splits if_splits)
qed (simp_all add: foreign_def headroomAlarm_def swapAccountAlarm_def indexerAlarm_def Let_def)

end
