(* ===== verification/Monitor.thy ===== *)
theory Monitor
  imports Checks Demo_Cluster
begin

text \<open>
  The operations monitor (\<open>services/operator/src/alarms/monitor.ts\<close>): it runs every check, brings its alarms to
  their states, and raises an alarm of its own for a check that fails three times in a row. A read of the alarms'
  table may fail, in which case nothing of that \<open>set\<close> happens; its writes do not.
\<close>

section \<open>The code\<close>

definition CHECK_FAILURES_TO_ALARM :: nat where "CHECK_FAILURES_TO_ALARM = 3"

record monitor_input =
  mi_cluster :: string
  mi_wallets :: wallets
  mi_tokens :: "string \<Rightarrow> token_info"
  mi_startedAt :: int

text \<open>What a tick reads, at its \<open>now\<close> in milliseconds, and what it can send and set.\<close>

record monitor_reads =
  mr_now :: int
  mr_config :: "string \<Rightarrow> config outcome"
  mr_balance :: "address \<Rightarrow> int outcome"
  mr_inventory :: "address list \<Rightarrow> int option list outcome"
  mr_sweeps :: "sweep_row list outcome"
  mr_swapAccounts :: "int list outcome"
  mr_indexerLast :: "int option"
  mr_kamino :: "int \<rightharpoonup> bytes"
  mr_pyth :: pyth_answer
  mr_deliver :: "check_message notice \<Rightarrow> bool"
  mr_setError :: "string \<Rightarrow> bool \<Rightarrow> js_error option"

record monitor_state =
  ms_failures :: "string \<rightharpoonup> nat"
  ms_alarms :: "(string \<times> check_message alarm_row) list"

text \<open>\<open>readConfig\<close>: the config is fetched once a tick, again after a fetch that failed.\<close>

definition readConfig :: "config option \<Rightarrow> config outcome \<Rightarrow> config outcome \<times> config option" where
  "readConfig cached fetched =
     (case cached of
        Some c \<Rightarrow> (Inr c, Some c)
      | None \<Rightarrow> (case fetched of Inr c \<Rightarrow> (Inr c, Some c) | Inl e \<Rightarrow> (Inl e, None)))"

fun decimalDigits :: "nat \<Rightarrow> string" where
  "decimalDigits n = (if n < 10 then [char_of (48 + n)] else decimalDigits (n div 10) @ [char_of (48 + n mod 10)])"

definition assetFeeds :: "config \<Rightarrow> (int \<times> string) list" where
  "assetFeeds cfg =
     map2 (\<lambda>asset index. (pythFeedId asset,
             if index < 2 then [''SPYX'', ''QQQX''] ! index else ''asset '' @ decimalDigits index))
       (cfg_assets cfg) [0..<length (cfg_assets cfg)]"

definition checkResults :: "lib \<Rightarrow> monitor_input \<Rightarrow> monitor_reads \<Rightarrow> (string \<times> states outcome) list" where
  "checkResults L i w =
     (let seconds = mr_now w div 1000;
          (forBalances, cached) = readConfig None (mr_config w ''balances'');
          (forCalendar, cached) = readConfig cached (mr_config w ''calendar'');
          (forKamino, _) = readConfig cached (mr_config w ''kamino'')
      in [(''balances'', res_bind forBalances (\<lambda>cfg.
             balanceAlarms L (mr_balance w) (mr_inventory w) cfg (mi_wallets i) (mi_tokens i) (mi_cluster i))),
          (''calendar'', res_bind forCalendar (\<lambda>cfg.
             Inr [(''market-calendar'', calendarAlarm (marketCalendar cfg) seconds (mi_cluster i))])),
          (''headroom'', res_bind (mr_sweeps w) (\<lambda>sweeps. Inr (headroomAlarm sweeps (wl_crank (mi_wallets i)) (mi_cluster i)))),
          (''indexer'', Inr (indexerAlarm (mr_indexerLast w) (mi_startedAt i) (mr_now w))),
          (''kamino'', res_bind forKamino (\<lambda>cfg.
             kaminoAlarms L (mr_kamino w) (assetFeeds cfg) seconds (mi_startedAt i div 1000) (th_assetUpdateBytes THRESHOLDS))),
          (''pyth-pro'', pythTokenAlarm (mr_pyth w)),
          (''swap-accounts'', res_bind (mr_swapAccounts w) (\<lambda>created. Inr (swapAccountAlarm created (mr_now w))))])"

text \<open>A check that failed, and one whose states were read; \<open>Inl\<close> is a tick that rejects.\<close>

definition failedCheck :: "monitor_reads \<Rightarrow> string \<Rightarrow> js_error \<Rightarrow> monitor_state \<Rightarrow> monitor_state + monitor_state" where
  "failedCheck w name reason s =
     (let failures = (case ms_failures s name of None \<Rightarrow> 0 | Some n \<Rightarrow> n) + 1;
          s = s\<lparr>ms_failures := (ms_failures s)(name \<mapsto> failures)\<rparr>
      in if failures \<ge> CHECK_FAILURES_TO_ALARM
         then case mr_setError w name False of
                None \<Rightarrow> Inr (s\<lparr>ms_alarms := fst (setAlarms REPEAT_MS (mr_deliver w) (mr_now w)
                                 [(checkKey name, Some (Check_failed name failures reason))] (ms_alarms s))\<rparr>)
              | Some e \<Rightarrow> Inl s
         else Inr s)"

definition runCheck :: "monitor_reads \<Rightarrow> string \<Rightarrow> states outcome \<Rightarrow> monitor_state \<Rightarrow> monitor_state + monitor_state" where
  "runCheck w name result s =
     (case result of
        Inl e \<Rightarrow> failedCheck w name e s
      | Inr states \<Rightarrow>
          let s = s\<lparr>ms_failures := (ms_failures s)(name := None)\<rparr>
          in (case mr_setError w name True of
                Some e \<Rightarrow> failedCheck w name e s
              | None \<Rightarrow> Inr (s\<lparr>ms_alarms := fst (setAlarms REPEAT_MS (mr_deliver w) (mr_now w)
                                  (AList.update (checkKey name) None states) (ms_alarms s))\<rparr>)))"

fun runChecks :: "monitor_reads \<Rightarrow> (string \<times> states outcome) list \<Rightarrow> monitor_state \<Rightarrow> monitor_state" where
  "runChecks w [] s = s"
| "runChecks w ((name, result) # checks) s =
     (case runCheck w name result s of Inl s \<Rightarrow> s | Inr s \<Rightarrow> runChecks w checks s)"

definition monitorTick :: "lib \<Rightarrow> monitor_input \<Rightarrow> monitor_reads \<Rightarrow> monitor_state \<Rightarrow> monitor_state" where
  "monitorTick L i w s = runChecks w (checkResults L i w) s"

definition monitorRun :: "lib \<Rightarrow> monitor_input \<Rightarrow> monitor_reads list \<Rightarrow> monitor_state \<Rightarrow> monitor_state" where
  "monitorRun L i = fold (monitorTick L i)"

section \<open>A set that names an alarm once\<close>

lemma setStates_append:
  "setStates repeatMs deliver now stored (xs @ ys) table =
     (let (t, sent) = setStates repeatMs deliver now stored xs table; (t', more) = setStates repeatMs deliver now stored ys t
      in (t', sent @ more))"
  by (induction xs arbitrary: table) (auto split: prod.split)

definition alarmFires :: "string \<Rightarrow> (string \<times> 'm alarm_row) list \<Rightarrow> bool" where
  "alarmFires key table = (case map_of table key of None \<Rightarrow> False | Some r \<Rightarrow> al_firing r)"

lemma setAlarm_fires:
  "(case fst (setAlarm repeatMs deliver now key message row) of None \<Rightarrow> False | Some r \<Rightarrow> al_firing r) = (message \<noteq> None)"
  by (cases message; cases row) (simp_all add: setAlarm_def resolveAlarm_def fireAlarm_def Let_def)

lemma putAlarm_self: "alarmFires key (putAlarm key (fst (setAlarm repeatMs deliver now key message (map_of table key))) table) = (message \<noteq> None)"
proof (cases "fst (setAlarm repeatMs deliver now key message (map_of table key))")
  case None
  then have "message = None \<and> map_of table key = None"
    by (cases message; cases "map_of table key") (auto simp: setAlarm_def resolveAlarm_def fireAlarm_def Let_def split: if_splits)
  with None show ?thesis by (simp add: putAlarm_def alarmFires_def)
next
  case (Some r)
  with setAlarm_fires [of repeatMs deliver now key message "map_of table key"] show ?thesis
    by (simp add: putAlarm_def alarmFires_def update_conv')
qed

lemma setAlarms_last:
  assumes "key \<notin> fst ` set states"
  shows "alarmFires key (fst (setAlarms repeatMs deliver now (states @ [(key, message)]) table)) = (message \<noteq> None)"
proof -
  obtain t sent where t: "setStates repeatMs deliver now (map_of table) states table = (t, sent)" by fastforce
  with setStates_other [OF assms, of repeatMs deliver now "map_of table" table] have "map_of t key = map_of table key" by simp
  with putAlarm_self [of key repeatMs deliver now message t] show ?thesis
    by (simp add: setAlarms_def setStates_append t case_prod_beta' Let_def)
qed

lemma setAlarms_others:
  "key \<notin> fst ` set states \<Longrightarrow> alarmFires key (fst (setAlarms repeatMs deliver now states table)) = alarmFires key table"
  using setStates_other [of key states repeatMs deliver now "map_of table" table] by (simp add: setAlarms_def alarmFires_def)

lemma update_new: "key \<notin> fst ` set xs \<Longrightarrow> AList.update key v xs = xs @ [(key, v)]"
  by (induction xs) auto

section \<open>One check over a run\<close>

text \<open>What the monitor knows of a check after \<open>n\<close> failures in a row.\<close>

definition counted :: "string \<Rightarrow> nat \<Rightarrow> monitor_state \<Rightarrow> bool" where
  "counted name n s \<longleftrightarrow> (case ms_failures s name of None \<Rightarrow> 0 | Some k \<Rightarrow> k) = n
     \<and> alarmFires (checkKey name) (ms_alarms s) = (n \<ge> CHECK_FAILURES_TO_ALARM)"

definition set_works :: "monitor_reads \<Rightarrow> bool" where
  "set_works w \<longleftrightarrow> (\<forall>name read. mr_setError w name read = None)"

lemma checkKey_inject: "checkKey a = checkKey b \<longleftrightarrow> a = b"
  by (simp add: checkKey_def)

lemma runCheck_own:
  assumes "set_works w" "counted name n s" "\<And>states. result = Inr states \<Longrightarrow> foreign states"
  shows "\<exists>s'. runCheck w name result s = Inr s' \<and> counted name (case result of Inl _ \<Rightarrow> n + 1 | Inr _ \<Rightarrow> 0) s'"
proof (cases result)
  case (Inl e)
  note works = assms(1) [unfolded set_works_def, rule_format]
  from assms(2) have n: "(case ms_failures s name of None \<Rightarrow> 0 | Some k \<Rightarrow> k) = n"
    and fires: "alarmFires (checkKey name) (ms_alarms s) = (n \<ge> CHECK_FAILURES_TO_ALARM)" by (simp_all add: counted_def)
  show ?thesis
  proof (cases "n + 1 \<ge> CHECK_FAILURES_TO_ALARM")
    case True
    with Inl n works show ?thesis
      using setAlarms_last [of "checkKey name" "[]" REPEAT_MS "mr_deliver w" "mr_now w" "Some (Check_failed name (Suc n) e)" "ms_alarms s"]
      by (simp add: runCheck_def failedCheck_def Let_def counted_def)
  next
    case False
    with Inl n works fires show ?thesis by (simp add: runCheck_def failedCheck_def Let_def counted_def)
  qed
next
  case (Inr states)
  note works = assms(1) [unfolded set_works_def, rule_format]
  from assms(3) [OF Inr] have key: "checkKey name \<notin> fst ` set states" by (rule foreign_key)
  from setAlarms_last [OF key, of REPEAT_MS "mr_deliver w" "mr_now w" None "ms_alarms s"] Inr works show ?thesis
    by (simp add: runCheck_def Let_def counted_def update_new [OF key] CHECK_FAILURES_TO_ALARM_def)
qed

lemma runCheck_others:
  assumes "set_works w" "counted name n s" "other \<noteq> name" "\<And>states. result = Inr states \<Longrightarrow> foreign states"
  shows "\<exists>s'. runCheck w other result s = Inr s' \<and> counted name n s'"
proof (cases result)
  case (Inl e)
  note works = assms(1) [unfolded set_works_def, rule_format]
  have "checkKey name \<notin> fst ` set [(checkKey other, Some (Check_failed other k e))]" for k
    using assms(3) by (simp add: checkKey_inject)
  note keeps = setAlarms_others [OF this]
  from assms(2,3) Inl works show ?thesis
    by (simp add: runCheck_def failedCheck_def Let_def counted_def keeps)
next
  case (Inr states)
  note works = assms(1) [unfolded set_works_def, rule_format]
  from assms(4) [OF Inr] have foreign: "checkKey k \<notin> fst ` set states" for k by (rule foreign_key)
  with assms(3) have "checkKey name \<notin> fst ` set (AList.update (checkKey other) None states)"
    by (simp add: update_new checkKey_inject)
  note keeps = setAlarms_others [OF this]
  from assms(2,3) Inr works show ?thesis by (simp add: runCheck_def Let_def counted_def keeps)
qed

lemma runChecks_others:
  assumes "set_works w" "counted name n s" "name \<notin> fst ` set checks" "\<forall>(other, result) \<in> set checks. \<forall>states. result = Inr states \<longrightarrow> foreign states"
  shows "counted name n (runChecks w checks s)"
  using assms
proof (induction w checks s rule: runChecks.induct)
  case (2 w other result checks s)
  then have "\<exists>s'. runCheck w other result s = Inr s' \<and> counted name n s'" by (intro runCheck_others) auto
  then obtain s' where "runCheck w other result s = Inr s'" "counted name n s'" by blast
  with 2 show ?case by simp
qed simp

lemma runChecks_own:
  assumes "set_works w" "counted name n s" "distinct (map fst checks)" "(name, result) \<in> set checks"
    "\<forall>(other, result) \<in> set checks. \<forall>states. result = Inr states \<longrightarrow> foreign states"
  shows "counted name (case result of Inl _ \<Rightarrow> n + 1 | Inr _ \<Rightarrow> 0) (runChecks w checks s)"
  using assms
proof (induction w checks s rule: runChecks.induct)
  case (2 w other found checks s)
  show ?case
  proof (cases "other = name")
    case True
    with 2(4,5) have found: "found = result" and rest: "name \<notin> fst ` set checks" by (auto simp: rev_image_eqI)
    have "\<exists>s'. runCheck w name result s = Inr s' \<and> counted name (case result of Inl _ \<Rightarrow> n + 1 | Inr _ \<Rightarrow> 0) s'"
      using 2(2,3,6) True found by (intro runCheck_own) auto
    then obtain s' where s': "runCheck w name result s = Inr s'" "counted name (case result of Inl _ \<Rightarrow> n + 1 | Inr _ \<Rightarrow> 0) s'" by blast
    with runChecks_others [OF 2(2) s'(2) rest] 2(6) True found show ?thesis by simp
  next
    case False
    with 2(2,3,6) have "\<exists>s'. runCheck w other found s = Inr s' \<and> counted name n s'" by (intro runCheck_others) auto
    then obtain s' where "runCheck w other found s = Inr s'" "counted name n s'" by blast
    with 2 False show ?thesis by simp
  qed
qed simp

lemma checkResults_shape:
  "distinct (map fst (checkResults L i w))"
  "\<forall>(name, result) \<in> set (checkResults L i w). \<forall>states. result = Inr states \<longrightarrow> foreign states"
proof -
  show "distinct (map fst (checkResults L i w))" by (simp add: checkResults_def Let_def split: prod.split)
  show "\<forall>(name, result) \<in> set (checkResults L i w). \<forall>states. result = Inr states \<longrightarrow> foreign states"
    by (auto simp: checkResults_def Let_def eq_commute [of "Inr _" "res_bind _ _"] eq_commute [of "Inr _" "pythTokenAlarm _"]
        result_simps checks_foreign foreign_def [of "[_]"] split: prod.splits elim: checks_foreign(1-3))
qed

section \<open>Failed rounds in a row\<close>

definition checkFails :: "lib \<Rightarrow> monitor_input \<Rightarrow> string \<Rightarrow> monitor_reads \<Rightarrow> bool" where
  "checkFails L i name w = list_ex (\<lambda>(n, result). n = name \<and> isl result) (checkResults L i w)"

definition failuresInARow :: "lib \<Rightarrow> monitor_input \<Rightarrow> string \<Rightarrow> monitor_reads list \<Rightarrow> nat" where
  "failuresInARow L i name ws = length (takeWhile (checkFails L i name) (rev ws))"

definition CHECKS :: "string list" where
  "CHECKS = [''balances'', ''calendar'', ''headroom'', ''indexer'', ''kamino'', ''pyth-pro'', ''swap-accounts'']"

lemma checkResults_names: "map fst (checkResults L i w) = CHECKS"
  by (simp add: checkResults_def Let_def CHECKS_def split: prod.split)

lemma monitorTick_counted:
  assumes "set_works w" "name \<in> set CHECKS" "counted name n s"
  shows "counted name (if checkFails L i name w then n + 1 else 0) (monitorTick L i w s)"
proof -
  from assms(2) checkResults_names [of L i w] obtain result where result: "(name, result) \<in> set (checkResults L i w)"
    by (metis (no_types, lifting) imageE list.set_map prod.collapse)
  with checkResults_shape(1) [of L i w] have "checkFails L i name w = (isl result)"
    by (auto simp: checkFails_def list_ex_iff dest: eq_key_imp_eq_value)
  with runChecks_own [OF assms(1,3) checkResults_shape(1) result checkResults_shape(2)] show ?thesis
    by (cases result) (simp_all add: monitorTick_def)
qed

lemma monitorRun_counted:
  assumes "\<forall>w \<in> set ws. set_works w" "name \<in> set CHECKS" "counted name 0 s"
  shows "counted name (failuresInARow L i name ws) (monitorRun L i ws s)"
  using assms(1)
proof (induction ws rule: rev_induct)
  case (snoc w ws)
  then have "counted name (failuresInARow L i name ws) (monitorRun L i ws s)" by simp
  from monitorTick_counted [OF _ assms(2) this, of w L i] snoc(2) show ?case
    by (simp add: monitorRun_def failuresInARow_def split: if_splits)
qed (simp add: assms(3) failuresInARow_def monitorRun_def)

section \<open>The properties\<close>

text \<open>
  C23: A check that cannot read its source is reported, and only then. Over any run of the monitor with a working
  alarms table, from a state without failures, the alarm named after a check fires at the end exactly if the
  check failed in the last three rounds or more, whatever the other checks did meanwhile.
\<close>

theorem failing_check_alarmed:
  assumes "\<forall>w \<in> set ws. set_works w" "name \<in> set CHECKS"
    "ms_failures s name = None" "\<not> alarmFires (checkKey name) (ms_alarms s)"
  shows "alarmFires (checkKey name) (ms_alarms (monitorRun L i ws s)) \<longleftrightarrow> failuresInARow L i name ws \<ge> 3"
proof -
  from assms(3,4) have "counted name 0 s" by (simp add: counted_def CHECK_FAILURES_TO_ALARM_def)
  from monitorRun_counted [OF assms(1,2) this, of L i] show ?thesis by (simp add: counted_def CHECK_FAILURES_TO_ALARM_def)
qed

lemma priceStates_others:
  "priceStates L latest feeds now since largest states = Inr (states', n) \<Longrightarrow> name \<notin> snd ` set feeds
   \<Longrightarrow> map_of states' (''price-'' @ name) = map_of states (''price-'' @ name)"
  by (induction L latest feeds now since largest states rule: priceStates.induct)
    (auto simp: result_simps update_conv' split: option.splits)

lemma priceStates_own:
  "priceStates L latest feeds now since largest states = Inr (states', n) \<Longrightarrow> distinct (map snd feeds)
   \<Longrightarrow> (feedId, name) \<in> set feeds \<Longrightarrow> latest feedId = Some message
   \<Longrightarrow> \<exists>state. updateState L message feedId name now = Inr state \<and> map_of states' (''price-'' @ name) = Some state"
proof (induction L latest feeds now since largest states rule: priceStates.induct)
  case (2 L latest feedId' name' feeds now since largest states)
  show ?case
  proof (cases "name' = name")
    case True
    with 2(4,5) have "feedId' = feedId" "name \<notin> snd ` set feeds" by (auto simp: rev_image_eqI)
    with 2(3,6) True show ?thesis by (auto simp: result_simps update_conv' dest!: priceStates_others)
  next
    case False
    with 2 show ?thesis by (auto simp: result_simps split: option.splits)
  qed
qed simp

text \<open>
  A price alarm is exact. For a feed with an update, its alarm is raised only if a sweep at that instant
  fails for it with any age bound up to the alarm's, so with the program's 60 seconds, and when it is not raised
  the update's price is at most 120 seconds old and complete, or the sweep is refused for another reason than age.
\<close>

theorem price_alarm_exact:
  assumes "kaminoAlarms L latest feeds now since maxBytes = Inr states" "distinct (map snd feeds)"
    "(feedId, name) \<in> set feeds" "latest feedId = Some message" "maxAge \<le> 120" "name \<noteq> ''update-size''"
  shows "\<exists>state. map_of states (''price-'' @ name) = Some state
    \<and> (if state = None
       then quote L message feedId now 120 \<notin> {Inl (LateriteCheckError StalePrice), Inl (LateriteCheckError PriceUnavailable)}
       else isl (quote L message feedId now maxAge))"
proof -
  have age: "th_priceAgeSeconds THRESHOLDS = 120" by (simp add: THRESHOLDS_def)
  from assms(1) obtain found n where found: "priceStates L latest feeds now since 0 [] = Inr (found, n)"
    and states: "map_of states (''price-'' @ name) = map_of found (''price-'' @ name)"
    using assms(6) by (auto simp: kaminoAlarms_def result_simps update_conv')
  from priceStates_own [OF found assms(2-4)] obtain state
    where state: "updateState L message feedId name now = Inr state" "map_of found (''price-'' @ name) = Some state" by blast
  have "quote L message feedId now maxAge \<noteq> Inr q" if "quote L message feedId now 120 = Inl e" for q e
    using quote_age_mono [of L message feedId now maxAge q 120] assms(5) that by auto
  then have "isl (quote L message feedId now maxAge)" if "quote L message feedId now 120 = Inl e" for e
    using that by (cases "quote L message feedId now maxAge") auto
  then have "if state = None
      then quote L message feedId now 120 \<notin> {Inl (LateriteCheckError StalePrice), Inl (LateriteCheckError PriceUnavailable)}
      else isl (quote L message feedId now maxAge)"
    using state(1) unfolding updateState_def age
    by (auto split: sum.splits js_error.splits if_splits)
  with state(2) states show ?thesis by auto
qed

section \<open>A run\<close>

definition demoInputs :: monitor_input where
  "demoInputs = \<lparr>mi_cluster = ''devnet'', mi_wallets = \<lparr>wl_crank = ''crank'', wl_treasury = ''treasury''\<rparr>,
     mi_tokens = (\<lambda>s. \<lparr>ti_mint = s, ti_tokenProgram = ''token''\<rparr>), mi_startedAt = 0\<rparr>"

definition demoRound :: "int \<Rightarrow> monitor_reads" where
  "demoRound now = \<lparr>mr_now = now, mr_config = (\<lambda>_. Inl (PlainError ''503'')), mr_balance = (\<lambda>_. Inr 0), mr_inventory = (\<lambda>_. Inr []),
     mr_sweeps = Inr [], mr_swapAccounts = Inr [], mr_indexerLast = None, mr_kamino = Map.empty, mr_pyth = Pyth_request_error 429,
     mr_deliver = (\<lambda>_. True), mr_setError = (\<lambda>_ _. None)\<rparr>"

definition demoStart :: monitor_state where
  "demoStart = \<lparr>ms_failures = Map.empty, ms_alarms = []\<rparr>"

lemma demo_checks: "checkFails L demoInputs ''calendar'' (demoRound now)"
  by (simp add: checkFails_def checkResults_def demoRound_def readConfig_def)

theorem failing_check_alarmed_witness:
  "alarmFires (checkKey ''calendar'') (ms_alarms (monitorRun demoLib demoInputs [demoRound 0, demoRound 1, demoRound 2] demoStart))"
proof -
  have "failuresInARow demoLib demoInputs ''calendar'' [demoRound 0, demoRound 1, demoRound 2] = 3"
    by (simp add: failuresInARow_def demo_checks)
  moreover have "\<forall>w \<in> set [demoRound 0, demoRound 1, demoRound 2]. set_works w" by (simp add: set_works_def demoRound_def)
  ultimately show ?thesis
    using failing_check_alarmed [of "[demoRound 0, demoRound 1, demoRound 2]" "''calendar''" demoStart demoLib demoInputs]
    by (simp add: CHECKS_def demoStart_def alarmFires_def)
qed

definition demoScope :: bytes where
  "demoScope = enc_update (replicate 64 1) (replicate 32 2) (enc_payload (replicate 9 3)
     [(9, [Price 6123400, Exponent (- 4), Confidence 700, UpdatedAt (Some 1700000000000000)])])"

lemma demo_prices:
  "kaminoAlarms demoLib [9 \<mapsto> demoScope] [(9, ''SPYX''), (8, ''QQQX'')] 1700000121 1700000100 1745
   = Inr [(''price-SPYX'', Some (Price_stale ''SPYX'' 9)), (''price-QQQX'', None), (''price-update-size'', None)]"
  by code_simp

theorem price_alarm_exact_witness:
  "isl (quote demoLib demoScope 9 1700000121 60)"
  using price_alarm_exact [OF demo_prices, of 9 "''SPYX''" demoScope 60] by simp

end
