(* ===== verification/Signed_Text.thy ===== *)
theory Signed_Text
  imports Civil_Calendar
begin

text \<open>
  Texts a wallet signs (\<open>apps/app/lib/signed.ts\<close>, \<open>declaration.ts\<close>, \<open>telegram.ts\<close> and the locales of
  \<open>packages/i18n\<close>): the link, the unlink and the declaration text, and the check of a signature with its issue
  time. A character is its Latin-1 code point. The translator is a parameter \<open>t\<close>; that it writes a message of
  the locale's file with its arguments in their places is the hypothesis \<open>formats_arguments\<close>.
\<close>

section \<open>Locales and messages\<close>

datatype js_locale = En | Es_AR

definition isLocale :: "string \<Rightarrow> js_locale option" where
  "isLocale v = (if v = ''en'' then Some En else if v = ''es-AR'' then Some Es_AR else None)"

datatype piece = Lit string | Arg string

type_synonym translator = "js_locale \<Rightarrow> string \<Rightarrow> (string \<times> string) list \<Rightarrow> string"

definition linkMessages :: "js_locale \<Rightarrow> (string \<times> piece list) list" where
  "linkMessages lang =
     (case lang of
        En \<Rightarrow>
          [(''bot.link.heading'', [Lit ''Laterite notifications on Telegram'']),
           (''bot.link.request'', [Arg ''domain'', Lit '' asks you to link a Telegram chat to this wallet. The chat will get your purchases, goal milestones and skipped days.'']),
           (''bot.link.unlink'', [Arg ''domain'', Lit '' asks you to unlink every Telegram chat from this wallet.'']),
           (''bot.link.wallet'', [Lit ''Wallet: '', Arg ''wallet'']),
           (''bot.link.issuedAt'', [Lit ''Issued at: '', Arg ''issuedAt''])]
      | Es_AR \<Rightarrow>
          [(''bot.link.heading'', [Lit ''Notificaciones de Laterite en Telegram'']),
           (''bot.link.request'', [Arg ''domain'', Lit (concat ['' te pide que vincules un chat de Telegram a esta billetera. El chat va a recibir tus compras, los hitos de tu meta y los d'', [CHR 0xED], ''as sin compra.''])]),
           (''bot.link.unlink'', [Arg ''domain'', Lit '' te pide que desvincules todos los chats de Telegram de esta billetera.'']),
           (''bot.link.wallet'', [Lit ''Billetera: '', Arg ''wallet'']),
           (''bot.link.issuedAt'', [Lit ''Emitida el: '', Arg ''issuedAt''])])"

definition declarationMessages :: "js_locale \<Rightarrow> (string \<times> piece list) list" where
  "declarationMessages lang =
     (case lang of
        En \<Rightarrow>
          [(''declaration.heading'', [Lit ''Laterite eligibility declaration'']),
           (''declaration.request'', [Arg ''domain'', Lit '' asks you to declare:'']),
           (''declaration.us'', [Lit ''I am not a U.S. person and I am not in the United States.'']),
           (''declaration.residence'', [Lit ''I do not live in the United Kingdom, Canada, Australia, or any country where xStocks are prohibited or not offered.'']),
           (''declaration.sanctions'', [Lit ''I am not subject to international sanctions.'']),
           (''declaration.wallet'', [Lit ''Wallet: '', Arg ''wallet'']),
           (''declaration.version'', [Lit ''Version: '', Arg ''version'']),
           (''declaration.issuedAt'', [Lit ''Issued at: '', Arg ''issuedAt''])]
      | Es_AR \<Rightarrow>
          [(''declaration.heading'', [Lit (concat [''Declaraci'', [CHR 0xF3], ''n de elegibilidad de Laterite''])]),
           (''declaration.request'', [Arg ''domain'', Lit '' te pide que declares:'']),
           (''declaration.us'', [Lit ''No soy una persona estadounidense y no estoy en los Estados Unidos.'']),
           (''declaration.residence'', [Lit (concat [''No vivo en el Reino Unido, Canad'', [CHR 0xE1], '', Australia ni en ning'', [CHR 0xFA], ''n pa'', [CHR 0xED], ''s donde los xStocks est'', [CHR 0xE9], ''n prohibidos o no se ofrezcan.''])]),
           (''declaration.sanctions'', [Lit ''No estoy sujeto a sanciones internacionales.'']),
           (''declaration.wallet'', [Lit ''Billetera: '', Arg ''wallet'']),
           (''declaration.version'', [Lit (concat [''Versi'', [CHR 0xF3], ''n: '']), Arg ''version'']),
           (''declaration.issuedAt'', [Lit ''Emitida el: '', Arg ''issuedAt''])])"

definition written :: "(string \<times> string) list \<Rightarrow> piece list \<Rightarrow> string" where
  "written values pieces = concat (map (\<lambda>p. case p of Lit s \<Rightarrow> s | Arg a \<Rightarrow> the (map_of values a)) pieces)"

definition formats_arguments :: "translator \<Rightarrow> bool" where
  "formats_arguments t \<longleftrightarrow> (\<forall>lang key pieces values.
     (key, pieces) \<in> set (linkMessages lang @ declarationMessages lang)
     \<longrightarrow> (\<forall>a. Arg a \<in> set pieces \<longrightarrow> map_of values a \<noteq> None) \<longrightarrow> t lang key values = written values pieces)"

section \<open>The texts\<close>

fun joinLines :: "string list \<Rightarrow> string" where
  "joinLines [] = []"
| "joinLines [l] = l"
| "joinLines (l # ls) = l @ CHR 0x0A # joinLines ls"

datatype link_action = Link_Chat | Unlink_Chats

definition telegramLinkMessage :: "translator \<Rightarrow> js_locale \<Rightarrow> link_action \<Rightarrow> string \<Rightarrow> string \<Rightarrow> string \<Rightarrow> string" where
  "telegramLinkMessage t lang action domain wallet issuedAt =
     joinLines
       [t lang ''bot.link.heading'' [],
        t lang (if action = Link_Chat then ''bot.link.request'' else ''bot.link.unlink'') [(''domain'', domain)],
        t lang ''bot.link.wallet'' [(''wallet'', wallet)],
        t lang ''bot.link.issuedAt'' [(''issuedAt'', issuedAt)]]"

definition DECLARATION_VERSION :: string where "DECLARATION_VERSION = ''1''"

definition DECLARATION_STATEMENTS :: "string list" where
  "DECLARATION_STATEMENTS = [''us'', ''residence'', ''sanctions'']"

definition declarationMessage :: "translator \<Rightarrow> js_locale \<Rightarrow> string \<Rightarrow> string \<Rightarrow> string \<Rightarrow> string" where
  "declarationMessage t lang domain wallet issuedAt =
     joinLines
       ([t lang ''declaration.heading'' [], t lang ''declaration.request'' [(''domain'', domain)]]
        @ map (\<lambda>statement. ''- '' @ t lang (''declaration.'' @ statement) []) DECLARATION_STATEMENTS
        @ [t lang ''declaration.wallet'' [(''wallet'', wallet)],
           t lang ''declaration.version'' [(''version'', DECLARATION_VERSION)],
           t lang ''declaration.issuedAt'' [(''issuedAt'', issuedAt)]])"

section \<open>Checking a signature\<close>

definition SIGNATURE_MAX_AGE_MS :: int where "SIGNATURE_MAX_AGE_MS = 10 * 60 * 1000"

text \<open>
  \<open>isoTime s\<close> is the time of \<open>s\<close>, in milliseconds, when \<open>s\<close> is the \<open>toISOString\<close> of a time: four digits of the year,
  or a sign and six for a year that four do not hold.
\<close>

definition decimal :: "string \<Rightarrow> int option" where
  "decimal s =
     (if list_all (\<lambda>c. 48 \<le> (of_char c :: int) \<and> of_char c \<le> (57 :: int)) s
      then Some (foldl (\<lambda>n c. 10 * n + (of_char c - 48)) 0 s) else None)"

definition isoYear :: "string \<Rightarrow> (int \<times> string) option" where
  "isoYear s =
     (if s = [] then None
      else if hd s \<in> {CHR ''+'', CHR ''-''}
      then case decimal (js_slice 1 7 s) of
             None \<Rightarrow> None
           | Some y \<Rightarrow> if length s = 27 \<and> (hd s = CHR ''-'' \<and> 0 < y \<or> hd s = CHR ''+'' \<and> 10000 \<le> y)
                       then Some (if hd s = CHR ''-'' then - y else y, drop 7 s) else None
      else case decimal (take 4 s) of None \<Rightarrow> None | Some y \<Rightarrow> if length s = 24 then Some (y, drop 4 s) else None)"

definition isoRest :: "string \<Rightarrow> (int list) option" where
  "isoRest r =
     (if map (\<lambda>i. r ! i) [0, 3, 6, 9, 12, 15, 19] = ''--T::.Z''
      then those (map (\<lambda>(a, b). decimal (js_slice a b r)) [(1, 3), (4, 6), (7, 9), (10, 12), (13, 15), (16, 19)]) else None)"

definition isoTime :: "string \<Rightarrow> int option" where
  "isoTime s =
     (case isoYear s of
        None \<Rightarrow> None
      | Some (y, r) \<Rightarrow>
          (case isoRest r of
             Some [m, d, h, mi, sec, ms] \<Rightarrow>
               let time = (((day_number y m d * 24 + h) * 60 + mi) * 60 + sec) * 1000 + ms
               in if valid_date y m d \<and> h < 24 \<and> mi < 60 \<and> sec < 60 \<and> \<bar>time\<bar> \<le> 8640000000000000 then Some time else None
           | _ \<Rightarrow> None))"

text \<open>The kit: an address's syntax, base58 (\<open>None\<close> when it throws) and a signature's verification.\<close>

record signing =
  sg_isAddress :: "string \<Rightarrow> bool"
  sg_base58 :: "string \<Rightarrow> bytes option"
  sg_verifies :: "string \<Rightarrow> bytes \<Rightarrow> string \<Rightarrow> bool"

definition signatureProblem :: "signing \<Rightarrow> string \<Rightarrow> string \<Rightarrow> string \<Rightarrow> string \<Rightarrow> int \<Rightarrow> string option" where
  "signatureProblem K wallet issuedAt signature message now =
     (if \<not> sg_isAddress K wallet then Some ''wallet is not an address''
      else case isoTime issuedAt of
        None \<Rightarrow> Some ''issuedAt is not an ISO time''
      | Some issued \<Rightarrow>
          if \<bar>now - issued\<bar> > SIGNATURE_MAX_AGE_MS then Some ''issuedAt is too far from now''
          else case sg_base58 K signature of
            None \<Rightarrow> Some ''signature is not base58''
          | Some bytes \<Rightarrow>
              if length bytes \<noteq> 64 then Some ''signature is not 64 bytes''
              else if sg_verifies K wallet bytes message then None else Some ''signature does not match'')"

definition declarationProblem :: "signing \<Rightarrow> translator \<Rightarrow> js_locale \<Rightarrow> string \<Rightarrow> string \<Rightarrow> string \<Rightarrow> string \<Rightarrow> int \<Rightarrow> string option" where
  "declarationProblem K t lang domain wallet issuedAt signature now =
     signatureProblem K wallet issuedAt signature (declarationMessage t lang domain wallet issuedAt) now"

lemma signatureProblem_None:
  "signatureProblem K wallet issuedAt signature message now = None \<longleftrightarrow>
   sg_isAddress K wallet \<and> (\<exists>issued bytes. isoTime issuedAt = Some issued \<and> \<bar>now - issued\<bar> \<le> SIGNATURE_MAX_AGE_MS
     \<and> sg_base58 K signature = Some bytes \<and> length bytes = 64 \<and> sg_verifies K wallet bytes message)"
  by (auto simp: signatureProblem_def split: option.splits if_splits)

section \<open>What a text says\<close>

definition one_line :: "string \<Rightarrow> bool" where
  "one_line s \<longleftrightarrow> CHR 0x0A \<notin> set s"

lemma one_line_append [simp]: "one_line (a @ b) \<longleftrightarrow> one_line a \<and> one_line b"
  by (auto simp: one_line_def)

lemma one_line_Cons [simp]: "one_line (c # s) \<longleftrightarrow> c \<noteq> CHR 0x0A \<and> one_line s"
  by (auto simp: one_line_def)

lemma line_split: "one_line a \<Longrightarrow> one_line b \<Longrightarrow> a @ CHR 0x0A # r = b @ CHR 0x0A # s \<Longrightarrow> a = b \<and> r = s"
  by (induction a arbitrary: b) (case_tac b; fastforce simp: one_line_def)+

lemma line_longer: "one_line a \<Longrightarrow> a \<noteq> b @ CHR 0x0A # s"
  by (auto simp: one_line_def)

lemma joinLines_inject:
  "list_all one_line xs \<Longrightarrow> list_all one_line ys \<Longrightarrow> xs \<noteq> [] \<Longrightarrow> ys \<noteq> [] \<Longrightarrow> joinLines xs = joinLines ys \<longleftrightarrow> xs = ys"
proof (induction xs arbitrary: ys rule: joinLines.induct)
  case (2 l)
  then show ?case by (cases ys rule: joinLines.cases) (auto dest: line_longer)
next
  case (3 l l' ls)
  note IH = "3.IH"
  show ?case
  proof (cases ys rule: joinLines.cases)
    case (2 k)
    with 3 show ?thesis by (auto simp: line_longer)
  next
    case (3 k k' ks)
    have ks: "one_line l" "one_line k" "list_all one_line (l' # ls)" "list_all one_line (k' # ks)"
      using \<open>list_all one_line (l # l' # ls)\<close> \<open>list_all one_line ys\<close> 3 by simp_all
    from ks(1,2) have "joinLines (l # l' # ls) = joinLines ys \<longleftrightarrow> l = k \<and> joinLines (l' # ls) = joinLines (k' # ks)"
      unfolding 3 joinLines.simps(3) by (metis line_split)
    with IH [OF ks(3,4)] show ?thesis unfolding 3 by simp
  qed (use 3 in simp)
qed simp

text \<open>What the signer reads of a text: which text it is, in which language, and its arguments.\<close>

datatype text_kind = Link_Text link_action | Declaration_Text

definition signedText :: "translator \<Rightarrow> js_locale \<Rightarrow> text_kind \<Rightarrow> string \<Rightarrow> string \<Rightarrow> string \<Rightarrow> string" where
  "signedText t lang kind domain wallet issuedAt =
     (case kind of
        Link_Text action \<Rightarrow> telegramLinkMessage t lang action domain wallet issuedAt
      | Declaration_Text \<Rightarrow> declarationMessage t lang domain wallet issuedAt)"

lemma line_written:
  assumes "formats_arguments t" "map_of (linkMessages lang @ declarationMessages lang) key = Some pieces"
    "\<forall>a. Arg a \<in> set pieces \<longrightarrow> map_of args a \<noteq> None"
  shows "t lang key args = written args pieces"
  using assms map_of_SomeD [OF assms(2)] unfolding formats_arguments_def by blast

definition linkParts :: "js_locale \<Rightarrow> link_action \<Rightarrow> string \<Rightarrow> string \<Rightarrow> string \<Rightarrow> string list" where
  "linkParts lang action domain wallet issuedAt =
     map2 written [[], [(''domain'', domain)], [(''wallet'', wallet)], [(''issuedAt'', issuedAt)]]
       (map (\<lambda>k. the (map_of (linkMessages lang) k))
          [''bot.link.heading'', if action = Link_Chat then ''bot.link.request'' else ''bot.link.unlink'', ''bot.link.wallet'', ''bot.link.issuedAt''])"

lemma link_lines:
  assumes "formats_arguments t"
  shows "telegramLinkMessage t lang action domain wallet issuedAt = joinLines (linkParts lang action domain wallet issuedAt)"
  by (cases lang; cases action)
    (simp_all add: telegramLinkMessage_def linkParts_def linkMessages_def line_written [OF assms])

definition declarationParts :: "js_locale \<Rightarrow> string \<Rightarrow> string \<Rightarrow> string \<Rightarrow> string list" where
  "declarationParts lang domain wallet issuedAt =
     map2 (@) [[], [], ''- '', ''- '', ''- '', [], [], []]
       (map2 written [[], [(''domain'', domain)], [], [], [], [(''wallet'', wallet)], [(''version'', ''1'')], [(''issuedAt'', issuedAt)]]
          (map snd (declarationMessages lang)))"

lemma declaration_lines:
  assumes "formats_arguments t"
  shows "declarationMessage t lang domain wallet issuedAt = joinLines (declarationParts lang domain wallet issuedAt)"
  by (cases lang)
    (simp_all add: declarationMessage_def declarationParts_def linkMessages_def declarationMessages_def DECLARATION_STATEMENTS_def
      DECLARATION_VERSION_def line_written [OF assms])

definition textParts :: "js_locale \<Rightarrow> text_kind \<Rightarrow> string \<Rightarrow> string \<Rightarrow> string \<Rightarrow> string list" where
  "textParts lang kind domain wallet issuedAt =
     (case kind of Link_Text action \<Rightarrow> linkParts lang action domain wallet issuedAt
      | Declaration_Text \<Rightarrow> declarationParts lang domain wallet issuedAt)"

lemma text_lines: "formats_arguments t \<Longrightarrow> signedText t lang kind domain wallet issuedAt = joinLines (textParts lang kind domain wallet issuedAt)"
  by (simp add: signedText_def textParts_def link_lines declaration_lines split: text_kind.split)

lemma textParts_lines:
  "one_line domain \<Longrightarrow> one_line wallet \<Longrightarrow> one_line issuedAt \<Longrightarrow>
   list_all one_line (textParts lang kind domain wallet issuedAt) \<and> textParts lang kind domain wallet issuedAt \<noteq> []"
proof (cases kind)
  case (Link_Text action)
  assume "one_line domain" "one_line wallet" "one_line issuedAt"
  moreover have "one_line []" by (simp add: one_line_def)
  ultimately show ?thesis using Link_Text by (cases lang; cases action) (simp_all add: textParts_def linkParts_def linkMessages_def written_def)
next
  case Declaration_Text
  assume "one_line domain" "one_line wallet" "one_line issuedAt"
  moreover have "one_line []" by (simp add: one_line_def)
  ultimately show ?thesis using Declaration_Text by (cases lang) (simp_all add: textParts_def declarationParts_def declarationMessages_def written_def)
qed

lemma linkParts_inject:
  assumes "linkParts lang action domain wallet issuedAt = linkParts lang' action' domain' wallet' issuedAt'"
  shows "lang = lang' \<and> action = action' \<and> domain = domain' \<and> wallet = wallet' \<and> issuedAt = issuedAt'"
proof -
  have lang: "lang = lang'"
    using arg_cong [OF assms, of hd] by (cases lang; cases lang') (simp_all add: linkParts_def linkMessages_def written_def)
  have action: "action = action'"
    using arg_cong [OF assms, of "\<lambda>ls. rev (ls ! 1)"] unfolding lang
    by (cases lang'; cases action; cases action') (simp_all add: linkParts_def linkMessages_def written_def)
  show ?thesis
    using assms unfolding lang action
    by (cases lang'; cases action') (simp_all add: linkParts_def linkMessages_def written_def)
qed

lemma declarationParts_inject:
  assumes "declarationParts lang domain wallet issuedAt = declarationParts lang' domain' wallet' issuedAt'"
  shows "lang = lang' \<and> domain = domain' \<and> wallet = wallet' \<and> issuedAt = issuedAt'"
proof -
  have lang: "lang = lang'"
    using arg_cong [OF assms, of hd] by (cases lang; cases lang') (simp_all add: declarationParts_def declarationMessages_def written_def)
  show ?thesis
    using assms unfolding lang
    by (cases lang') (simp_all add: declarationParts_def declarationMessages_def written_def)
qed

lemma link_not_declaration: "linkParts lang action domain wallet issuedAt \<noteq> declarationParts lang' domain' wallet' issuedAt'"
proof -
  have "length (linkParts lang action domain wallet issuedAt) = 4" by (simp add: linkParts_def)
  moreover have "length (declarationParts lang' domain' wallet' issuedAt') = 8"
    by (cases lang') (simp_all add: declarationParts_def declarationMessages_def)
  ultimately show ?thesis by (metis numeral_eq_iff semiring_norm(88) verit_eq_simplify(8) verit_eq_simplify(10))
qed

text \<open>
  C19: A signed text means one thing. For one-line arguments, two texts a wallet is asked to sign (to link a chat,
  to unlink, or the declaration, in either language) are equal only if they are the same request in the same
  language for the same site, wallet and time: a signature of one is never a signature of another.
\<close>

theorem signed_text_determines:
  assumes "formats_arguments t" "list_all one_line [domain, wallet, issuedAt, domain', wallet', issuedAt']"
    "signedText t lang kind domain wallet issuedAt = signedText t lang' kind' domain' wallet' issuedAt'"
  shows "lang = lang' \<and> kind = kind' \<and> domain = domain' \<and> wallet = wallet' \<and> issuedAt = issuedAt'"
proof -
  have "textParts lang kind domain wallet issuedAt = textParts lang' kind' domain' wallet' issuedAt'"
    using assms textParts_lines by (simp add: text_lines joinLines_inject)
  then show ?thesis
    using link_not_declaration linkParts_inject declarationParts_inject
    unfolding textParts_def by (cases kind; cases kind') (auto, metis+)
qed

definition plainTranslator :: translator where
  "plainTranslator lang key args =
     (case map_of (linkMessages lang @ declarationMessages lang) key of None \<Rightarrow> [] | Some pieces \<Rightarrow> written args pieces)"

lemma plain_formats: "formats_arguments plainTranslator"
proof -
  have "distinct (map fst (linkMessages lang @ declarationMessages lang))" for lang
    by (cases lang) (simp_all add: linkMessages_def declarationMessages_def)
  note known = map_of_is_SomeI [OF this]
  show ?thesis unfolding formats_arguments_def plainTranslator_def
  proof (intro allI impI)
    fix lang key pieces args
    assume "(key, pieces) \<in> set (linkMessages lang @ declarationMessages lang)"
    then show "(case map_of (linkMessages lang @ declarationMessages lang) key of None \<Rightarrow> [] | Some p \<Rightarrow> written args p) = written args pieces"
      by (simp only: known option.case)
  qed
qed

definition demoIssued :: string where "demoIssued = ''2026-07-01T12:00:00.000Z''"

lemma demo_issued: "isoTime demoIssued = Some 1782907200000"
  by code_simp

theorem signed_text_determines_witness:
  "signedText plainTranslator En (Link_Text Link_Chat) ''laterite.app'' ''W'' demoIssued
   \<noteq> signedText plainTranslator En (Link_Text Unlink_Chats) ''laterite.app'' ''W'' demoIssued"
  using signed_text_determines [OF plain_formats, of "''laterite.app''" "''W''" demoIssued "''laterite.app''" "''W''" demoIssued
      En "Link_Text Link_Chat" En "Link_Text Unlink_Chats"]
  by (auto simp: one_line_def demoIssued_def)

end
