(* ===== verification/Telegram_Links.thy ===== *)
theory Telegram_Links
  imports Signed_Text Onboarding_Choices
begin

text \<open>
  Linking a Telegram chat to a wallet: the app's route (\<open>apps/app/app/api/telegram/route.ts\<close>), which takes a
  wallet's signed request and makes its one-time token, and the product bot (\<open>services/operator/src/telegram/bot.ts\<close>),
  which a private chat gives the token to. SHA-256 is a parameter \<open>H\<close>; a token is drawn at random, an argument.
\<close>

section \<open>The tables\<close>

record link_request =
  lq_tokenHash :: string
  lq_wallet :: string
  lq_locale :: string
  lq_message :: string
  lq_signature :: string
  lq_expiresAt :: int
  lq_usedAt :: "int option"

record chat_link =
  tl_wallet :: string
  tl_chatId :: int
  tl_signature :: string
  tl_linkedAt :: int
  tl_revokedAt :: "int option"
  tl_locale :: string

record link_store =
  ls_requests :: "link_request list"
  ls_links :: "chat_link list"

section \<open>The route\<close>

definition LINK_TOKEN_TTL_MS :: int where "LINK_TOKEN_TTL_MS = 10 * 60 * 1000"
definition MAX_LINK_BODY :: int where "MAX_LINK_BODY = 4096"

text \<open>A request's body: its length and, when it is JSON, the fields that are strings.\<close>

record signed_body =
  sb_locale :: "string option"
  sb_wallet :: "string option"
  sb_issuedAt :: "string option"
  sb_signature :: "string option"

record link_http =
  lh_length :: int
  lh_body :: "signed_body option"
  lh_host :: "string option"
  lh_urlHost :: string

record signed_request =
  sd_lang :: js_locale
  sd_locale :: string
  sd_wallet :: string
  sd_issuedAt :: string
  sd_signature :: string
  sd_message :: string

definition signedRequest ::
    "signing \<Rightarrow> translator \<Rightarrow> link_action \<Rightarrow> link_http \<Rightarrow> int \<Rightarrow> string \<times> int + signed_request" where
  "signedRequest K t action r now =
     (if lh_length r > MAX_LINK_BODY then Inl (''the body is too large'', 413)
      else case lh_body r of
        None \<Rightarrow> Inl (''the body is not JSON'', 400)
      | Some b \<Rightarrow>
          (case Option.bind (sb_locale b) isLocale of
             None \<Rightarrow> Inl (''locale is not supported'', 400)
           | Some lang \<Rightarrow>
               (case (sb_wallet b, sb_issuedAt b, sb_signature b) of
                  (Some wallet, Some issuedAt, Some signature) \<Rightarrow>
                    let domain = (case lh_host r of Some h \<Rightarrow> h | None \<Rightarrow> lh_urlHost r);
                        message = telegramLinkMessage t lang action domain wallet issuedAt
                    in (case signatureProblem K wallet issuedAt signature message now of
                          Some problem \<Rightarrow> Inl (problem, 400)
                        | None \<Rightarrow> Inr \<lparr>sd_lang = lang, sd_locale = the (sb_locale b), sd_wallet = wallet, sd_issuedAt = issuedAt,
                                        sd_signature = signature, sd_message = message\<rparr>)
                | _ \<Rightarrow> Inl (''wallet, issuedAt and signature are required'', 400))))"

datatype link_reply = Link_Refused string int | Linked_Status bool | Link_Created int string string | Link_Threw

definition linkStatus :: "signing \<Rightarrow> string option \<Rightarrow> link_store \<Rightarrow> link_reply" where
  "linkStatus K wallet s =
     (case wallet of
        Some w \<Rightarrow>
          if w = [] \<or> \<not> sg_isAddress K w then Link_Refused ''wallet is not an address'' 400
          else Linked_Status (list_ex (\<lambda>l. tl_wallet l = w \<and> tl_revokedAt l = None) (ls_links s))
      | None \<Rightarrow> Link_Refused ''wallet is not an address'' 400)"

text \<open>A request's signature is unique, its token's hash is the key.\<close>

definition requestLink ::
    "signing \<Rightarrow> translator \<Rightarrow> (js_text \<Rightarrow> string) \<Rightarrow> string option \<Rightarrow> link_http \<Rightarrow> js_text \<Rightarrow> int \<Rightarrow> int
     \<Rightarrow> link_store \<Rightarrow> link_reply \<times> link_store" where
  "requestLink K t H username r token now later s =
     (if username = None \<or> username = Some [] then (Link_Refused ''Telegram is not configured'' 503, s)
      else case signedRequest K t Link_Chat r now of
        Inl (problem, status) \<Rightarrow> (Link_Refused problem status, s)
      | Inr sg \<Rightarrow>
          let expiresAt = later + LINK_TOKEN_TTL_MS;
              row = \<lparr>lq_tokenHash = H token, lq_wallet = sd_wallet sg, lq_locale = sd_locale sg, lq_message = sd_message sg,
                     lq_signature = sd_signature sg, lq_expiresAt = expiresAt, lq_usedAt = None\<rparr>
          in if list_ex (\<lambda>q. lq_signature q = sd_signature sg) (ls_requests s)
             then (Link_Refused ''the signature was already used'' 409, s)
             else if list_ex (\<lambda>q. lq_tokenHash q = H token) (ls_requests s) then (Link_Threw, s)
             else (Link_Created expiresAt (the username) (map char_of token), s\<lparr>ls_requests := ls_requests s @ [row]\<rparr>))"

definition revoke :: "(chat_link \<Rightarrow> bool) \<Rightarrow> int \<Rightarrow> chat_link list \<Rightarrow> chat_link list" where
  "revoke which now = map (\<lambda>l. if which l \<and> tl_revokedAt l = None then l\<lparr>tl_revokedAt := Some now\<rparr> else l)"

definition unlinkWallet :: "signing \<Rightarrow> translator \<Rightarrow> link_http \<Rightarrow> int \<Rightarrow> int \<Rightarrow> link_store \<Rightarrow> link_reply \<times> link_store" where
  "unlinkWallet K t r now later s =
     (case signedRequest K t Unlink_Chats r now of
        Inl (problem, status) \<Rightarrow> (Link_Refused problem status, s)
      | Inr sg \<Rightarrow> (Linked_Status False, s\<lparr>ls_links := revoke (\<lambda>l. tl_wallet l = sd_wallet sg) later (ls_links s)\<rparr>))"

section \<open>The bot's commands\<close>

definition jsText :: "string \<Rightarrow> js_text" where
  "jsText s = map of_char s"

text \<open>\<open>\\w\<close>, the characters of a token, and the two commands' regular expressions, on trimmed text.\<close>

definition isWord :: "int \<Rightarrow> bool" where
  "isWord c = (48 \<le> c \<and> c \<le> 57 \<or> 65 \<le> c \<and> c \<le> 90 \<or> c = 95 \<or> 97 \<le> c \<and> c \<le> 122)"

definition dropPrefix :: "'a list \<Rightarrow> 'a list \<Rightarrow> 'a list option" where
  "dropPrefix p s = (if take (length p) s = p then Some (drop (length p) s) else None)"

definition dropBotName :: "js_text \<Rightarrow> js_text" where
  "dropBotName r = (case r of [] \<Rightarrow> [] | c # cs \<Rightarrow> if c = 64 \<and> takeWhile isWord cs \<noteq> [] then dropWhile isWord cs else r)"

definition startToken :: "js_text \<Rightarrow> js_text option" where
  "startToken text =
     (case dropPrefix (jsText ''/start'') text of
        None \<Rightarrow> None
      | Some r \<Rightarrow>
          let r = dropBotName r; token = dropWhile isSpace r
          in if token \<noteq> r \<and> token \<noteq> [] \<and> length token \<le> 64 \<and> list_all (\<lambda>c. isWord c \<or> c = 45) token then Some token else None)"

definition isUnlink :: "js_text \<Rightarrow> bool" where
  "isUnlink text = (case dropPrefix (jsText ''/unlink'') text of None \<Rightarrow> False | Some r \<Rightarrow> dropBotName r = [])"

definition localeOf :: "string option \<Rightarrow> js_locale" where
  "localeOf languageCode = (case languageCode of None \<Rightarrow> En | Some c \<Rightarrow> if take 2 c = ''es'' then Es_AR else En)"

definition knownLocale :: "string \<Rightarrow> js_locale" where
  "knownLocale v = (case isLocale v of Some l \<Rightarrow> l | None \<Rightarrow> En)"

section \<open>The bot\<close>

datatype bot_reply = Reply_Linked string | Reply_Expired | Reply_Unlinked | Reply_NotLinked | Reply_Welcome

record incoming =
  im_chatId :: int
  im_private :: bool
  im_language :: "string option"
  im_text :: "js_text option"

definition putLink :: "chat_link \<Rightarrow> chat_link list \<Rightarrow> chat_link list" where
  "putLink l links =
     (if list_ex (\<lambda>x. tl_wallet x = tl_wallet l \<and> tl_chatId x = tl_chatId l) links
      then map (\<lambda>x. if tl_wallet x = tl_wallet l \<and> tl_chatId x = tl_chatId l then l else x) links else links @ [l])"

definition botLink :: "(js_text \<Rightarrow> string) \<Rightarrow> int \<Rightarrow> js_text \<Rightarrow> int \<Rightarrow> link_store \<Rightarrow> link_request option \<times> link_store" where
  "botLink H chatId token now s =
     (let spends = (\<lambda>q. lq_tokenHash q = H token \<and> lq_usedAt q = None \<and> lq_expiresAt q > now)
      in case List.find spends (ls_requests s) of
           None \<Rightarrow> (None, s)
         | Some q \<Rightarrow>
             (Some (q\<lparr>lq_usedAt := Some now\<rparr>),
              \<lparr>ls_requests = map (\<lambda>q. if spends q then q\<lparr>lq_usedAt := Some now\<rparr> else q) (ls_requests s),
               ls_links = putLink \<lparr>tl_wallet = lq_wallet q, tl_chatId = chatId, tl_signature = lq_signature q, tl_linkedAt = now,
                                   tl_revokedAt = None, tl_locale = lq_locale q\<rparr> (ls_links s)\<rparr>))"

definition answer :: "(js_text \<Rightarrow> string) \<Rightarrow> incoming \<Rightarrow> js_text \<Rightarrow> int \<Rightarrow> link_store \<Rightarrow> (js_locale \<times> bot_reply) \<times> link_store" where
  "answer H m raw now s =
     (let text = trim raw; speaks = localeOf (im_language m)
      in case startToken text of
           Some token \<Rightarrow>
             (case botLink H (im_chatId m) token now s of
                (Some q, s) \<Rightarrow> ((knownLocale (lq_locale q), Reply_Linked (lq_wallet q)), s)
              | (None, s) \<Rightarrow> ((speaks, Reply_Expired), s))
         | None \<Rightarrow>
             if isUnlink text
             then let mine = (\<lambda>l. tl_chatId l = im_chatId m); revoked = filter (\<lambda>l. mine l \<and> tl_revokedAt l = None) (ls_links s)
                  in ((case revoked of [] \<Rightarrow> (speaks, Reply_NotLinked) | l # _ \<Rightarrow> (knownLocale (tl_locale l), Reply_Unlinked)),
                      s\<lparr>ls_links := revoke mine now (ls_links s)\<rparr>)
             else ((speaks, Reply_Welcome), s))"

text \<open>
  A poll's updates, each an identifier with the message it carries if any, when it is answered and whether the
  answer is sent; one that is not ends the poll.
\<close>

record bot_update =
  bu_id :: int
  bu_message :: "incoming option"
  bu_at :: int
  bu_sends :: bool

type_synonym bot_log = "(int \<times> js_locale \<times> bot_reply) list"

fun answerUpdates :: "(js_text \<Rightarrow> string) \<Rightarrow> bot_update list \<Rightarrow> int \<Rightarrow> link_store \<Rightarrow> int \<times> link_store \<times> bot_log" where
  "answerUpdates H [] offset s = (offset, s, [])"
| "answerUpdates H (u # us) offset s =
     (let offset = bu_id u + 1
      in case bu_message u of
           None \<Rightarrow> answerUpdates H us offset s
         | Some m \<Rightarrow>
             (case im_text m of
                Some text \<Rightarrow>
                  if im_private m \<and> text \<noteq> []
                  then let (reply, s) = answer H m text (bu_at u) s
                       in if bu_sends u
                          then let (offset, s, log) = answerUpdates H us offset s in (offset, s, (im_chatId m, reply) # log)
                          else (offset, s, [])
                  else answerUpdates H us offset s
              | None \<Rightarrow> answerUpdates H us offset s))"

text \<open>\<open>poll\<close>: Telegram gives the updates from the offset on, oldest first.\<close>

definition botPoll :: "(js_text \<Rightarrow> string) \<Rightarrow> bot_update list \<Rightarrow> int \<times> link_store \<Rightarrow> int \<times> link_store" where
  "botPoll H updates = (\<lambda>(offset, s).
     let (offset, s, log) = answerUpdates H (filter (\<lambda>u. bu_id u \<ge> offset) updates) offset s in (offset, s))"

section \<open>Runs\<close>

text \<open>What happens to the tables, in any order: requests, unlinks, polls of the bot and restarts of it.\<close>

datatype link_step =
    Ask_Link link_http js_text int int
  | Ask_Unlink link_http int int
  | Poll_Bot "bot_update list"
  | Restart_Bot

definition linkStep ::
    "signing \<Rightarrow> translator \<Rightarrow> (js_text \<Rightarrow> string) \<Rightarrow> string \<Rightarrow> link_step \<Rightarrow> int \<times> link_store \<Rightarrow> int \<times> link_store" where
  "linkStep K t H username step = (\<lambda>(offset, s).
     case step of
       Ask_Link r token now later \<Rightarrow> (offset, snd (requestLink K t H (Some username) r token now later s))
     | Ask_Unlink r now later \<Rightarrow> (offset, snd (unlinkWallet K t r now later s))
     | Poll_Bot updates \<Rightarrow> botPoll H updates (offset, s)
     | Restart_Bot \<Rightarrow> (0, s))"

definition linkRun ::
    "signing \<Rightarrow> translator \<Rightarrow> (js_text \<Rightarrow> string) \<Rightarrow> string \<Rightarrow> link_step list \<Rightarrow> int \<times> link_store" where
  "linkRun K t H username steps = fold (linkStep K t H username) steps (0, \<lparr>ls_requests = [], ls_links = []\<rparr>)"

section \<open>The tables' invariant\<close>

definition link_key :: "chat_link \<Rightarrow> string \<times> int" where
  "link_key l = (tl_wallet l, tl_chatId l)"

text \<open>
  \<open>A wallet signature hash expiresAt\<close> says the wallet made the request, \<open>B chatId hash at\<close> that the chat gave its
  token to the bot.
\<close>

definition opened_by :: "(int \<Rightarrow> string \<Rightarrow> int \<Rightarrow> bool) \<Rightarrow> link_request \<Rightarrow> chat_link \<Rightarrow> bool" where
  "opened_by B q l \<longleftrightarrow> lq_usedAt q \<noteq> None \<and> lq_signature q = tl_signature l \<and> lq_wallet q = tl_wallet l
     \<and> B (tl_chatId l) (lq_tokenHash q) (tl_linkedAt l) \<and> tl_linkedAt l < lq_expiresAt q"

definition store_ok :: "(string \<Rightarrow> string \<Rightarrow> string \<Rightarrow> int \<Rightarrow> bool) \<Rightarrow> (int \<Rightarrow> string \<Rightarrow> int \<Rightarrow> bool) \<Rightarrow> link_store \<Rightarrow> bool" where
  "store_ok A B s \<longleftrightarrow>
     list_all (\<lambda>q. A (lq_wallet q) (lq_signature q) (lq_tokenHash q) (lq_expiresAt q)) (ls_requests s)
     \<and> distinct (map lq_signature (ls_requests s)) \<and> distinct (map lq_tokenHash (ls_requests s))
     \<and> list_all (\<lambda>l. list_ex (\<lambda>q. opened_by B q l) (ls_requests s)) (ls_links s)
     \<and> distinct (map tl_signature (ls_links s)) \<and> distinct (map link_key (ls_links s))"

lemma store_ok_mono:
  assumes "store_ok A B s" "\<And>w g h e. A w g h e \<Longrightarrow> A' w g h e" "\<And>c h a. B c h a \<Longrightarrow> B' c h a"
  shows "store_ok A' B' s"
  using assms unfolding store_ok_def opened_by_def list_all_iff list_ex_iff by blast

lemma revoke_keys:
  "map tl_signature (revoke which now links) = map tl_signature links" "map link_key (revoke which now links) = map link_key links"
  "list_all (\<lambda>l. list_ex (\<lambda>q. opened_by B q l) qs) (revoke which now links) = list_all (\<lambda>l. list_ex (\<lambda>q. opened_by B q l) qs) links"
  by (induction links) (auto simp: revoke_def link_key_def opened_by_def)

lemma revoke_keeps: "store_ok A B s \<Longrightarrow> store_ok A B (s\<lparr>ls_links := revoke which now (ls_links s)\<rparr>)"
  by (simp add: store_ok_def revoke_keys)

lemma putLink_set: "set (putLink l links) \<subseteq> insert l (set links)"
  by (auto simp: putLink_def)

lemma link_key_mem: "link_key l \<in> link_key ` set links \<longleftrightarrow> list_ex (\<lambda>x. tl_wallet x = tl_wallet l \<and> tl_chatId x = tl_chatId l) links"
  by (induction links) (auto simp: link_key_def)

lemma putLink_none: "link_key l \<notin> link_key ` set links \<Longrightarrow> putLink l links = links @ [l]"
  by (simp add: putLink_def link_key_mem)

lemma putLink_Cons: "putLink l (x # links) = (if link_key x = link_key l then l # (if link_key l \<in> link_key ` set links then putLink l links else links)
    else x # putLink l links)"
proof -
  have same: "map (\<lambda>x. if tl_wallet x = tl_wallet l \<and> tl_chatId x = tl_chatId l then l else x) links = links"
    if "link_key l \<notin> link_key ` set links" for links
    using that by (induction links) (auto simp: link_key_def)
  with same [of links] link_key_mem [of l links] show ?thesis by (auto simp: putLink_def link_key_def)
qed

lemma putLink_distinct:
  "distinct (map tl_signature links) \<Longrightarrow> distinct (map link_key links) \<Longrightarrow> tl_signature l \<notin> tl_signature ` set links
   \<Longrightarrow> distinct (map tl_signature (putLink l links)) \<and> distinct (map link_key (putLink l links))"
proof (induction links)
  case (Cons x links)
  then have IH: "distinct (map tl_signature (putLink l links))" "distinct (map link_key (putLink l links))" by simp_all
  show ?case
  proof (cases "link_key x = link_key l")
    case True
    with Cons.prems have "link_key l \<notin> link_key ` set links" by auto
    with True Cons.prems show ?thesis by (auto simp: putLink_Cons)
  next
    case False
    with Cons.prems have "tl_signature x \<notin> tl_signature ` set (putLink l links)" "link_key x \<notin> link_key ` set (putLink l links)"
      using putLink_set [of l links] by (auto dest!: subsetD)
    with IH False show ?thesis by (simp add: putLink_Cons)
  qed
qed (simp add: putLink_def)

lemma requestLink_keeps:
  assumes "store_ok A B s" "\<And>sg. signedRequest K t Link_Chat r now = Inr sg \<Longrightarrow> A (sd_wallet sg) (sd_signature sg) (H token) (later + LINK_TOKEN_TTL_MS)"
  shows "store_ok A B (snd (requestLink K t H username r token now later s))"
  using assms by (auto simp: requestLink_def Let_def store_ok_def list_all_iff list_ex_iff split: sum.split)

text \<open>The token's request is the only one that is spent.\<close>

definition spend :: "(link_request \<Rightarrow> bool) \<Rightarrow> int \<Rightarrow> link_request list \<Rightarrow> link_request list" where
  "spend spends now = map (\<lambda>q. if spends q then q\<lparr>lq_usedAt := Some now\<rparr> else q)"

lemma spend_keys:
  "map lq_signature (spend spends now qs) = map lq_signature qs" "map lq_tokenHash (spend spends now qs) = map lq_tokenHash qs"
  "list_all (\<lambda>q. A (lq_wallet q) (lq_signature q) (lq_tokenHash q) (lq_expiresAt q)) (spend spends now qs)
     = list_all (\<lambda>q. A (lq_wallet q) (lq_signature q) (lq_tokenHash q) (lq_expiresAt q)) qs"
  by (induction qs) (auto simp: spend_def)

lemma spend_opened: "list_ex (\<lambda>q. opened_by B q l) qs \<Longrightarrow> list_ex (\<lambda>q. opened_by B q l) (spend spends now qs)"
  by (induction qs) (auto simp: spend_def opened_by_def)

lemma botLink_keeps:
  assumes ok: "store_ok A B s" and opened: "B chatId (H token) now"
  shows "store_ok A B (snd (botLink H chatId token now s))"
proof -
  define spends :: "link_request \<Rightarrow> bool" where "spends = (\<lambda>q. lq_tokenHash q = H token \<and> lq_usedAt q = None \<and> lq_expiresAt q > now)"
  show ?thesis
  proof (cases "List.find spends (ls_requests s)")
    case None
    with ok show ?thesis by (simp add: botLink_def spends_def [symmetric] Let_def)
  next
    case (Some q)
    then have q: "q \<in> set (ls_requests s)" "spends q" by (auto simp: find_Some_iff)
    define l where "l = \<lparr>tl_wallet = lq_wallet q, tl_chatId = chatId, tl_signature = lq_signature q, tl_linkedAt = now,
                         tl_revokedAt = None, tl_locale = lq_locale q\<rparr>"
    have after: "snd (botLink H chatId token now s) = \<lparr>ls_requests = spend spends now (ls_requests s), ls_links = putLink l (ls_links s)\<rparr>"
      using Some by (simp add: botLink_def spends_def [symmetric] Let_def spend_def l_def)
    have "q\<lparr>lq_usedAt := Some now\<rparr> \<in> set (spend spends now (ls_requests s))"
      using q by (auto simp: spend_def image_iff intro!: bexI [of _ q])
    moreover have "opened_by B (q\<lparr>lq_usedAt := Some now\<rparr>) l"
      using q(2) opened by (simp add: opened_by_def l_def spends_def)
    ultimately have new: "list_ex (\<lambda>q. opened_by B q l) (spend spends now (ls_requests s))" unfolding list_ex_iff by blast
    have "tl_signature l \<notin> tl_signature ` set (ls_links s)"
    proof
      assume "tl_signature l \<in> tl_signature ` set (ls_links s)"
      then obtain k where "k \<in> set (ls_links s)" "tl_signature k = lq_signature q" by (auto simp: l_def)
      with ok obtain p where p: "p \<in> set (ls_requests s)" "lq_usedAt p \<noteq> None" "lq_signature p = lq_signature q"
        unfolding store_ok_def list_all_iff list_ex_iff opened_by_def by fastforce
      from ok have "distinct (map lq_signature (ls_requests s))" by (simp add: store_ok_def)
      with p q(1) have "p = q" by (auto simp: distinct_map dest: inj_onD)
      with p(2) q(2) show False by (simp add: spends_def)
    qed
    with putLink_distinct ok have "distinct (map tl_signature (putLink l (ls_links s)))" "distinct (map link_key (putLink l (ls_links s)))"
      by (auto simp: store_ok_def)
    moreover have "list_all (\<lambda>l. list_ex (\<lambda>q. opened_by B q l) (spend spends now (ls_requests s))) (putLink l (ls_links s))"
      using ok new putLink_set [of l "ls_links s"] spend_opened unfolding store_ok_def list_all_iff by blast
    ultimately show ?thesis
      using ok unfolding after by (simp add: store_ok_def spend_keys)
  qed
qed

section \<open>The invariant over runs\<close>

definition gives_token :: "(js_text \<Rightarrow> string) \<Rightarrow> bot_update \<Rightarrow> int \<Rightarrow> string \<Rightarrow> int \<Rightarrow> bool" where
  "gives_token H u chatId hash at \<longleftrightarrow>
     (\<exists>m text token. bu_message u = Some m \<and> im_private m \<and> im_chatId m = chatId \<and> im_text m = Some text
        \<and> startToken (trim text) = Some token \<and> H token = hash \<and> bu_at u = at)"

lemma answer_keeps:
  assumes "store_ok A B s" "\<And>token. startToken (trim raw) = Some token \<Longrightarrow> B (im_chatId m) (H token) now"
  shows "store_ok A B (snd (answer H m raw now s))"
proof (cases "startToken (trim raw)")
  case None
  with assms(1) show ?thesis by (simp add: answer_def Let_def revoke_keeps)
next
  case (Some token)
  from botLink_keeps [of A B s "im_chatId m" H token now, OF assms(1) assms(2) [OF Some]] Some show ?thesis
    by (cases "botLink H (im_chatId m) token now s"; cases "fst (botLink H (im_chatId m) token now s)") (simp_all add: answer_def Let_def)
qed

lemma answerUpdates_keeps:
  assumes "store_ok A B s" "\<forall>u \<in> set us. \<forall>chatId hash at. gives_token H u chatId hash at \<longrightarrow> B chatId hash at"
  shows "store_ok A B (fst (snd (answerUpdates H us offset s)))"
  using assms
proof (induction H us offset s rule: answerUpdates.induct)
  case (2 H u us offset s)
  show ?case
  proof (cases "\<exists>m text. bu_message u = Some m \<and> im_text m = Some text \<and> im_private m \<and> text \<noteq> []")
    case True
    then obtain m body where m: "bu_message u = Some m" "im_text m = Some body" "im_private m" "body \<noteq> []" by blast
    obtain reply s' where reply: "answer H m body (bu_at u) s = (reply, s')" by fastforce
    have "store_ok A B (snd (answer H m body (bu_at u) s))"
      using 2(6) m by (intro answer_keeps [OF 2(5)]) (auto simp: gives_token_def)
    then have kept: "store_ok A B s'" by (simp add: reply)
    show ?thesis
    proof (cases "bu_sends u")
      case True
      with 2 m reply kept have "store_ok A B (fst (snd (answerUpdates H us (bu_id u + 1) s')))" by simp
      with True m reply show ?thesis by (simp add: case_prod_beta' Let_def)
    qed (use m reply kept in simp)
  next
    case False
    with 2 show ?thesis by (auto simp: Let_def split: option.split)
  qed
qed simp

definition wallet_asked :: "signing \<Rightarrow> translator \<Rightarrow> (js_text \<Rightarrow> string) \<Rightarrow> link_step list \<Rightarrow> string \<Rightarrow> string \<Rightarrow> string \<Rightarrow> int \<Rightarrow> bool" where
  "wallet_asked K t H steps w g h e \<longleftrightarrow>
     (\<exists>r token now later sg. Ask_Link r token now later \<in> set steps \<and> signedRequest K t Link_Chat r now = Inr sg
        \<and> sd_wallet sg = w \<and> sd_signature sg = g \<and> H token = h \<and> e = later + LINK_TOKEN_TTL_MS)"

lemma wallet_askedI:
  "Ask_Link r token now later \<in> set steps \<Longrightarrow> signedRequest K t Link_Chat r now = Inr sg
   \<Longrightarrow> wallet_asked K t H steps (sd_wallet sg) (sd_signature sg) (H token) (later + LINK_TOKEN_TTL_MS)"
  unfolding wallet_asked_def by blast

definition chat_gave :: "(js_text \<Rightarrow> string) \<Rightarrow> link_step list \<Rightarrow> int \<Rightarrow> string \<Rightarrow> int \<Rightarrow> bool" where
  "chat_gave H steps c h a \<longleftrightarrow> (\<exists>updates u. Poll_Bot updates \<in> set steps \<and> u \<in> set updates \<and> gives_token H u c h a)"

lemma linkStep_keeps:
  assumes "store_ok (wallet_asked K t H steps) (chat_gave H steps) s"
  shows "store_ok (wallet_asked K t H (steps @ [step])) (chat_gave H (steps @ [step])) (snd (linkStep K t H username step (offset, s)))"
proof -
  from assms have kept: "store_ok (wallet_asked K t H (steps @ [step])) (chat_gave H (steps @ [step])) s"
    by (rule store_ok_mono) (unfold wallet_asked_def chat_gave_def set_append, blast+)
  show ?thesis
  proof (cases step)
    case (Ask_Link r token now later)
    then have "store_ok (wallet_asked K t H (steps @ [step])) (chat_gave H (steps @ [step]))
        (snd (requestLink K t H (Some username) r token now later s))"
      by (intro requestLink_keeps [OF kept] wallet_askedI) simp_all
    with Ask_Link show ?thesis by (simp add: linkStep_def)
  next
    case (Ask_Unlink r now later)
    with kept show ?thesis by (simp add: linkStep_def unlinkWallet_def revoke_keeps split: sum.split)
  next
    case (Poll_Bot updates)
    have "store_ok (wallet_asked K t H (steps @ [step])) (chat_gave H (steps @ [step]))
        (fst (snd (answerUpdates H (filter (\<lambda>u. bu_id u \<ge> offset) updates) offset s)))"
      by (rule answerUpdates_keeps [OF kept]) (use Poll_Bot in \<open>auto simp: chat_gave_def\<close>)
    with Poll_Bot show ?thesis by (simp add: linkStep_def botPoll_def case_prod_beta' Let_def)
  next
    case Restart_Bot
    with kept show ?thesis by (simp add: linkStep_def)
  qed
qed

lemma linkRun_keeps: "store_ok (wallet_asked K t H steps) (chat_gave H steps) (snd (linkRun K t H username steps))"
proof (induction steps rule: rev_induct)
  case Nil
  then show ?case by (simp add: linkRun_def store_ok_def)
next
  case (snoc step steps)
  from linkStep_keeps [OF snoc, of step username "fst (linkRun K t H username steps)"] show ?case by (simp add: linkRun_def)
qed

lemma signedRequest_Inr:
  assumes "signedRequest K t action r now = Inr sg"
  obtains domain issued bytes where "sg_verifies K (sd_wallet sg) bytes (signedText t (sd_lang sg) (Link_Text action) domain (sd_wallet sg) (sd_issuedAt sg))"
    "isoTime (sd_issuedAt sg) = Some issued" "\<bar>now - issued\<bar> \<le> SIGNATURE_MAX_AGE_MS" "sg_base58 K (sd_signature sg) = Some bytes"
  using assms
  by (auto simp: signedRequest_def Let_def signedText_def signatureProblem_None split: if_splits option.splits)

text \<open>
  C17: A chat is linked only by the wallet and from inside the chat. Over every run of link and unlink requests,
  of the bot's polls with any messages and of restarts, a link of a chat to a wallet has behind it a request with
  the wallet's own signature of the link text, issued at most ten minutes from when it was checked, and a
  private message of that chat with the request's token, less than ten minutes after the request.
\<close>

theorem linked_chats_authorised:
  assumes "l \<in> set (ls_links (snd (linkRun K t H username steps)))"
  shows "\<exists>r token now later lang domain issuedAt issued bytes updates u.
     Ask_Link r token now later \<in> set steps
     \<and> sg_base58 K (tl_signature l) = Some bytes
     \<and> sg_verifies K (tl_wallet l) bytes (signedText t lang (Link_Text Link_Chat) domain (tl_wallet l) issuedAt)
     \<and> isoTime issuedAt = Some issued \<and> \<bar>now - issued\<bar> \<le> 600000
     \<and> Poll_Bot updates \<in> set steps \<and> u \<in> set updates \<and> gives_token H u (tl_chatId l) (H token) (tl_linkedAt l)
     \<and> tl_linkedAt l < later + 600000"
proof -
  note ok = linkRun_keeps [of K t H steps username]
  from ok assms obtain q where q: "q \<in> set (ls_requests (snd (linkRun K t H username steps)))" "opened_by (chat_gave H steps) q l"
    unfolding store_ok_def list_all_iff list_ex_iff by blast
  from ok q(1) have "wallet_asked K t H steps (lq_wallet q) (lq_signature q) (lq_tokenHash q) (lq_expiresAt q)"
    unfolding store_ok_def list_all_iff by blast
  then obtain r token now later sg where sg: "Ask_Link r token now later \<in> set steps" "signedRequest K t Link_Chat r now = Inr sg"
    "sd_wallet sg = lq_wallet q" "sd_signature sg = lq_signature q" "H token = lq_tokenHash q" "lq_expiresAt q = later + LINK_TOKEN_TTL_MS"
    unfolding wallet_asked_def by auto
  from signedRequest_Inr [OF sg(2)] obtain domain issued bytes
    where signature: "sg_verifies K (sd_wallet sg) bytes (signedText t (sd_lang sg) (Link_Text Link_Chat) domain (sd_wallet sg) (sd_issuedAt sg))"
      "isoTime (sd_issuedAt sg) = Some issued" "\<bar>now - issued\<bar> \<le> SIGNATURE_MAX_AGE_MS" "sg_base58 K (sd_signature sg) = Some bytes" .
  from q(2) obtain updates u where u: "Poll_Bot updates \<in> set steps" "u \<in> set updates"
    "gives_token H u (tl_chatId l) (lq_tokenHash q) (tl_linkedAt l)"
    unfolding opened_by_def chat_gave_def by blast
  from q(2) have "lq_wallet q = tl_wallet l" "lq_signature q = tl_signature l" "tl_linkedAt l < lq_expiresAt q"
    by (simp_all add: opened_by_def)
  with sg signature u show ?thesis
    unfolding SIGNATURE_MAX_AGE_MS_def LINK_TOKEN_TTL_MS_def by (smt (verit, best))
qed

text \<open>
  C18: A token links once. Over every such run no two requests have the same signature or token, no two links come
  from the same request's signature, and a chat has at most one link to a wallet.
\<close>

theorem tokens_link_once:
  "distinct (map lq_signature (ls_requests (snd (linkRun K t H username steps))))
   \<and> distinct (map lq_tokenHash (ls_requests (snd (linkRun K t H username steps))))
   \<and> distinct (map tl_signature (ls_links (snd (linkRun K t H username steps))))
   \<and> distinct (map link_key (ls_links (snd (linkRun K t H username steps))))"
  using linkRun_keeps [of K t H steps username] by (simp add: store_ok_def)

section \<open>A run\<close>

definition demoSigning :: signing where
  "demoSigning = \<lparr>sg_isAddress = (\<lambda>_. True), sg_base58 = (\<lambda>_. Some (replicate 64 1)), sg_verifies = (\<lambda>_ _ _. True)\<rparr>"

definition demoAsk :: link_http where
  "demoAsk = \<lparr>lh_length = 200, lh_body = Some \<lparr>sb_locale = Some ''en'', sb_wallet = Some ''W'', sb_issuedAt = Some demoIssued, sb_signature = Some ''S''\<rparr>,
     lh_host = Some ''laterite.app'', lh_urlHost = ''''\<rparr>"

definition demoLinkSteps :: "link_step list" where
  "demoLinkSteps = [Ask_Link demoAsk (jsText ''tok'') 1782907210000 1782907210001,
     Poll_Bot [\<lparr>bu_id = 7, bu_message = Some \<lparr>im_chatId = 5, im_private = True, im_language = None, im_text = Some (jsText ''/start tok'')\<rparr>,
                bu_at = 1782907220000, bu_sends = True\<rparr>]]"

definition demoLink :: chat_link where
  "demoLink = \<lparr>tl_wallet = ''W'', tl_chatId = 5, tl_signature = ''S'', tl_linkedAt = 1782907220000, tl_revokedAt = None, tl_locale = ''en''\<rparr>"

lemma demo_linked: "ls_links (snd (linkRun demoSigning plainTranslator (map char_of) ''bot'' demoLinkSteps)) = [demoLink]"
  by code_simp

theorem linked_chats_authorised_witness:
  "\<exists>r token now later lang domain issuedAt issued bytes updates u.
     Ask_Link r token now later \<in> set demoLinkSteps
     \<and> sg_base58 demoSigning ''S'' = Some bytes
     \<and> sg_verifies demoSigning ''W'' bytes (signedText plainTranslator lang (Link_Text Link_Chat) domain ''W'' issuedAt)
     \<and> isoTime issuedAt = Some issued \<and> \<bar>now - issued\<bar> \<le> 600000
     \<and> Poll_Bot updates \<in> set demoLinkSteps \<and> u \<in> set updates \<and> gives_token (map char_of) u 5 (map char_of token) 1782907220000
     \<and> 1782907220000 < later + 600000"
  using linked_chats_authorised [of demoLink demoSigning plainTranslator "map char_of" "''bot''" demoLinkSteps]
  by (simp add: demo_linked, simp add: demoLink_def)

end
