(* ===== verification/Notices.thy ===== *)
theory Notices
  imports Telegram_Links Crank Indexer "HOL-Library.List_Lexorder" "HOL-Library.Char_ord"
begin

text \<open>
  The product bot's notifications (\<open>services/operator/src/telegram/notices.ts\<close>): which rows of the history make a
  notice for which chat, what each says, and the delivery that records a notice before it is sent. A text is its
  locale and lines, each a constructor with the values its message interpolates; the cluster's reads and Telegram's
  answers are parameters. The order of rows that SQL leaves open is that of the links.
\<close>

section \<open>The code: what is read\<close>

definition NOTICE_WINDOW_MS :: int where "NOTICE_WINDOW_MS = 24 * 60 * 60 * 1000"

definition GOAL_MILESTONES :: "int list" where "GOAL_MILESTONES = [25, 50, 75, 100]"

text \<open>A row of \<open>sweep_attempts\<close> with its identity and time.\<close>

record attempt_entry =
  ae_id :: int
  ae_at :: int
  ae_row :: attempt_row

datatype notice_key = Sweep_Key string nat | Event_Key string nat | Attempt_Key int | Goal_Key address int int

datatype skip_reason = Skip_Restore | Skip_Pull | Skip_Other

datatype notice_line =
    Purchase_Line string "int \<times> double_bits \<times> int" string int
  | Parts_Line int int
  | Cap_Reached_Line int int
  | Waiting_Line int
  | Goal_Line js_text int int int
  | Goal_Unnamed_Line int int int
  | Tier_Line "int option"
  | Tokens_Line "string list"
  | Paused_Line
  | Resumed_Line
  | Exited_Line
  | Reactivated_Line
  | Skipped_Line int skip_reason string

type_synonym notice_text = "js_locale \<times> notice_line list"

record notification =
  no_at :: int
  no_chatId :: int
  no_key :: notice_key
  no_text :: "notice_text option"

text \<open>The state of the process and of the bot's tables; a notification row is its chat, its key and \<open>sent\<close>.\<close>

record notice_state =
  ns_resumeAt :: int
  ns_links :: "chat_link list"
  ns_handled :: "((int \<times> notice_key) \<times> bool) list"

definition handled :: "notice_state \<Rightarrow> int \<Rightarrow> notice_key \<Rightarrow> bool" where
  "handled s chatId key = ((chatId, key) \<in> fst ` set (ns_handled s))"

text \<open>The three queries: a linked chat joined with the rows of its wallet, new since it was linked and recent.\<close>

definition linkedRows :: "notice_state \<Rightarrow> int \<Rightarrow> ('r \<Rightarrow> address) \<Rightarrow> ('r \<Rightarrow> int) \<Rightarrow> ('r \<Rightarrow> notice_key) \<Rightarrow> 'r list \<Rightarrow> (chat_link \<times> 'r) list" where
  "linkedRows s oldest user at key rows =
     filter (\<lambda>(l, r). tl_wallet l = user r \<and> tl_revokedAt l = None \<and> at r \<ge> oldest \<and> at r \<ge> tl_linkedAt l
               \<and> \<not> handled s (tl_chatId l) (key r))
       (List.product (ns_links s) rows)"

definition sweepKeyOf :: "sweep_row \<times> double_bits \<Rightarrow> notice_key" where
  "sweepKeyOf = (\<lambda>(r, _). Sweep_Key (at_txSignature (sr_at r)) (sr_eventIndex r))"

definition eventKeyOf :: "user_event_row \<Rightarrow> notice_key" where
  "eventKeyOf r = Event_Key (at_txSignature (ur_at r)) (ur_eventIndex r)"

definition attemptKeyOf :: "attempt_entry \<Rightarrow> notice_key" where
  "attemptKeyOf r = Attempt_Key (ae_id r)"

definition isControl :: "user_event_row \<Rightarrow> bool" where
  "isControl r = (ur_kind r \<in> {Ue_Paused, Ue_Resumed, Ue_Tier_Changed, Ue_Payment_Tokens_Changed, Ue_Exited, Ue_Reactivated})"

definition isSkipped :: "attempt_entry \<Rightarrow> bool" where
  "isSkipped r = (sa_outcome (row_attempt (ae_row r)) \<in> {Skipped_Day, Pull_Failed_Day})"

record notice_tables =
  nt_sweeps :: "(sweep_row \<times> double_bits) list"
  nt_events :: "user_event_row list"
  nt_attempts :: "attempt_entry list"

definition soldRows :: "notice_state \<Rightarrow> int \<Rightarrow> notice_tables \<Rightarrow> (chat_link \<times> sweep_row \<times> double_bits) list" where
  "soldRows s oldest T =
     linkedRows s oldest (\<lambda>(r, _). sw_user (sr_event r)) (\<lambda>(r, _). at_blockTimeMs (sr_at r)) sweepKeyOf (nt_sweeps T)"

definition eventRows :: "notice_state \<Rightarrow> int \<Rightarrow> notice_tables \<Rightarrow> (chat_link \<times> user_event_row) list" where
  "eventRows s oldest T =
     linkedRows s oldest ur_user (\<lambda>r. at_blockTimeMs (ur_at r)) eventKeyOf (filter isControl (nt_events T))"

definition attemptRows :: "notice_state \<Rightarrow> int \<Rightarrow> notice_tables \<Rightarrow> (chat_link \<times> attempt_entry) list" where
  "attemptRows s oldest T =
     linkedRows s oldest (\<lambda>r. row_user (ae_row r)) ae_at attemptKeyOf (filter isSkipped (nt_attempts T))"

text \<open>The reason of the token's last final word before the row's day, as the subquery orders them.\<close>

fun lastEntry :: "attempt_entry list \<Rightarrow> attempt_entry option" where
  "lastEntry [] = None"
| "lastEntry (r # rows) =
     (case lastEntry rows of
        None \<Rightarrow> Some r
      | Some q \<Rightarrow> Some (if row_day (ae_row r) > row_day (ae_row q) \<or> row_day (ae_row r) = row_day (ae_row q) \<and> ae_id r > ae_id q
                        then r else q))"

definition previousReason :: "notice_tables \<Rightarrow> attempt_entry \<Rightarrow> string option" where
  "previousReason T a =
     Option.bind
       (lastEntry (filter (\<lambda>p. row_user (ae_row p) = row_user (ae_row a) \<and> row_paymentToken (ae_row p) = row_paymentToken (ae_row a)
                      \<and> row_day (ae_row p) < row_day (ae_row a) \<and> sa_outcome (row_attempt (ae_row p)) \<noteq> Failed_Attempt) (nt_attempts T)))
       (\<lambda>p. sa_reason (row_attempt (ae_row p)))"

text \<open>\<open>invested\<close>: the sum up to a sweep, in the order of slot, signature and index; \<open>textLe\<close> is the database's order of texts.\<close>

definition upTo :: "(string \<Rightarrow> string \<Rightarrow> bool) \<Rightarrow> sweep_row \<Rightarrow> sweep_row \<Rightarrow> bool" where
  "upTo textLe p r =
     (let (a, b) = (sr_at p, sr_at r)
      in at_slot a < at_slot b
         \<or> at_slot a = at_slot b \<and> (textLe (at_txSignature a) (at_txSignature b) \<and> at_txSignature a \<noteq> at_txSignature b
                                  \<or> at_txSignature a = at_txSignature b \<and> sr_eventIndex p \<le> sr_eventIndex r))"

definition investedTo :: "(string \<Rightarrow> string \<Rightarrow> bool) \<Rightarrow> notice_tables \<Rightarrow> sweep_row \<Rightarrow> int" where
  "investedTo textLe T r =
     sum_list (map (\<lambda>(p, _). sw_engine (sr_event p) + sw_pending (sr_event p))
       (filter (\<lambda>(p, _). sw_user (sr_event p) = sw_user (sr_event r) \<and> upTo textLe p r) (nt_sweeps T)))"

section \<open>The code: the goal's label\<close>

text \<open>\<open>TextDecoder\<close>'s UTF-8: the code point so far, the bytes it needs, and the bounds of the next one.\<close>

fun utf8From :: "int \<Rightarrow> nat \<Rightarrow> int \<Rightarrow> int \<Rightarrow> int list \<Rightarrow> js_text" where
  "utf8From c n lower upper [] = (if n = 0 then [] else [65533])"
| "utf8From c 0 lower upper (b # bs) =
     (if b < 128 then b # utf8From 0 0 128 191 bs
      else if 194 \<le> b \<and> b \<le> 223 then utf8From (b - 192) 1 128 191 bs
      else if 224 \<le> b \<and> b \<le> 239 then utf8From (b - 224) 2 (if b = 224 then 160 else 128) (if b = 237 then 159 else 191) bs
      else if 240 \<le> b \<and> b \<le> 244 then utf8From (b - 240) 3 (if b = 240 then 144 else 128) (if b = 244 then 143 else 191) bs
      else 65533 # utf8From 0 0 128 191 bs)"
| "utf8From c (Suc n) lower upper (b # bs) =
     (if lower \<le> b \<and> b \<le> upper
      then let c = c * 64 + (b - 128) in if n = 0 then c # utf8From 0 0 128 191 bs else utf8From c n 128 191 bs
      else 65533 #
        (if b < 128 then b # utf8From 0 0 128 191 bs
         else if 194 \<le> b \<and> b \<le> 223 then utf8From (b - 192) 1 128 191 bs
         else if 224 \<le> b \<and> b \<le> 239 then utf8From (b - 224) 2 (if b = 224 then 160 else 128) (if b = 237 then 159 else 191) bs
         else if 240 \<le> b \<and> b \<le> 244 then utf8From (b - 240) 3 (if b = 240 then 144 else 128) (if b = 244 then 143 else 191) bs
         else 65533 # utf8From 0 0 128 191 bs))"

definition utf8Decode :: "bytes \<Rightarrow> js_text" where
  "utf8Decode bs = (let t = utf8From 0 0 128 191 (map uint bs) in if t \<noteq> [] \<and> hd t = 65279 then tl t else t)"

definition goalLabel :: "user_config \<Rightarrow> js_text" where
  "goalLabel u = trim (utf8Decode (takeWhile (\<lambda>b. b \<noteq> 0) (uc_goalLabel u)))"

section \<open>The code: what each row says\<close>

definition symbolOr :: "(string \<times> address) list \<Rightarrow> address \<Rightarrow> string" where
  "symbolOr tokens mint = (case symbolOf tokens mint of Some symbol \<Rightarrow> symbol | None \<Rightarrow> mint)"

text \<open>The highest milestone that the sweep's \<open>amount\<close> takes the total \<open>invested\<close> to.\<close>

definition reachedMilestone :: "int \<Rightarrow> int \<Rightarrow> int \<Rightarrow> int option" where
  "reachedMilestone goal invested amount =
     (case rev (filter (\<lambda>percent. goal > 0 \<and> invested - amount < js_div (goal * percent) 100 \<and> invested \<ge> js_div (goal * percent) 100)
                  GOAL_MILESTONES) of
        [] \<Rightarrow> None | percent # _ \<Rightarrow> Some percent)"

definition waitingLines :: "config \<Rightarrow> user_config \<Rightarrow> int \<Rightarrow> notice_line list" where
  "waitingLines cfg user now =
     (if uc_pending user > 0
      then let cap = weeklyCap user (userWeeklyCap cfg) now
           in [if spentAt user now \<ge> cap then Cap_Reached_Line cap (uc_pending user) else Waiting_Line (uc_pending user)]
      else [])"

definition purchase ::
    "(string \<times> address) list \<Rightarrow> chat_link \<Rightarrow> sweep_row \<times> double_bits \<Rightarrow> int \<Rightarrow> config \<Rightarrow> user_config option \<Rightarrow> notification list outcome" where
  "purchase tokens l row invested cfg found =
     (let (r, multiplier) = row; e = sr_event r; at = at_blockTimeMs (sr_at r); lang = knownLocale (tl_locale l);
          note = \<lparr>no_at = at, no_chatId = tl_chatId l, no_key = sweepKeyOf row, no_text = None\<rparr>
      in case found of
           None \<Rightarrow> Inr [note]
         | Some user \<Rightarrow>
             if uc_status user = Exited then Inr [note]
             else case (nth_opt (cfg_assets cfg) (sw_asset e), nth_opt (cfg_paymentTokens cfg) (sw_paymentToken e)) of
                    (Some asset, Some token) \<Rightarrow>
                      let bought = [Purchase_Line (symbolOr tokens (asset_mint asset)) (sw_received e, multiplier, asset_decimals asset)
                                      (symbolOr tokens (token_mint token)) (sw_engine e + sw_pending e)];
                          parts = (if sw_engine e > 0 \<and> sw_pending e > 0 then [Parts_Line (sw_engine e) (sw_pending e)] else []);
                          waits = waitingLines cfg user (at div 1000);
                          goal = uc_goalAmount user; label = goalLabel user
                      in Inr (note\<lparr>no_text := Some (lang, bought @ parts @ waits)\<rparr>
                           # (case reachedMilestone goal invested (sw_engine e + sw_pending e) of
                                None \<Rightarrow> []
                              | Some percent \<Rightarrow>
                                  [\<lparr>no_at = at, no_chatId = tl_chatId l, no_key = Goal_Key (sw_user e) goal percent,
                                    no_text = Some (lang, [if label \<noteq> [] then Goal_Line label goal invested percent
                                                           else Goal_Unnamed_Line goal invested percent])\<rparr>]))
                  | _ \<Rightarrow> Inl TypeError)"

definition numberField :: "History.json \<Rightarrow> string \<Rightarrow> int option" where
  "numberField data key =
     (case data of JObject kvs \<Rightarrow> (case map_of kvs key of Some (JNumber n) \<Rightarrow> Some n | _ \<Rightarrow> None) | _ \<Rightarrow> None)"

definition tokenNames :: "(string \<times> address) list \<Rightarrow> config \<Rightarrow> int \<Rightarrow> string list" where
  "tokenNames tokens cfg enabled =
     map (\<lambda>(token, i). symbolOr tokens (token_mint token))
       (filter (\<lambda>(token, i). hasToken enabled i) (zip (cfg_paymentTokens cfg) (map int [0..<length (cfg_paymentTokens cfg)])))"

definition controlLine :: "(string \<times> address) list \<Rightarrow> config \<Rightarrow> user_event_row \<Rightarrow> notice_line option" where
  "controlLine tokens cfg r =
     (case ur_kind r of
        Ue_Tier_Changed \<Rightarrow> Some (Tier_Line (Option.bind (numberField (ur_data r) ''tier'') (nth_opt TIERS)))
      | Ue_Payment_Tokens_Changed \<Rightarrow>
          Some (Tokens_Line (tokenNames tokens cfg (case numberField (ur_data r) ''paymentTokens'' of Some n \<Rightarrow> n | None \<Rightarrow> 0)))
      | Ue_Paused \<Rightarrow> Some Paused_Line
      | Ue_Resumed \<Rightarrow> Some Resumed_Line
      | Ue_Exited \<Rightarrow> Some Exited_Line
      | Ue_Reactivated \<Rightarrow> Some Reactivated_Line
      | _ \<Rightarrow> None)"

definition control :: "(string \<times> address) list \<Rightarrow> chat_link \<Rightarrow> user_event_row \<Rightarrow> config \<Rightarrow> user_config option \<Rightarrow> notification" where
  "control tokens l r cfg found =
     \<lparr>no_at = at_blockTimeMs (ur_at r), no_chatId = tl_chatId l, no_key = eventKeyOf r,
      no_text = (case found of
         None \<Rightarrow> None
       | Some user \<Rightarrow>
           if uc_status user = Exited \<and> ur_kind r \<noteq> Ue_Exited then None
           else map_option (\<lambda>line. (knownLocale (tl_locale l), [line])) (controlLine tokens cfg r))\<rparr>"

definition isRestore :: "string option \<Rightarrow> bool" where
  "isRestore reason = (case reason of None \<Rightarrow> False | Some r \<Rightarrow> take 15 r = ''RestoreRequired'')"

definition skipped :: "(string \<times> address) list \<Rightarrow> chat_link \<Rightarrow> attempt_entry \<Rightarrow> string option \<Rightarrow> config \<Rightarrow> user_config option \<Rightarrow> notification outcome" where
  "skipped tokens l r previous cfg found =
     (let restore = isRestore (sa_reason (row_attempt (ae_row r)));
          note = \<lparr>no_at = ae_at r, no_chatId = tl_chatId l, no_key = attemptKeyOf r, no_text = None\<rparr>
      in case found of
           None \<Rightarrow> Inr note
         | Some user \<Rightarrow>
             if uc_status user \<noteq> Active \<or> restore \<and> isRestore previous then Inr note
             else case nth_opt (cfg_paymentTokens cfg) (row_paymentToken (ae_row r)) of
                    None \<Rightarrow> Inl TypeError
                  | Some token \<Rightarrow>
                      Inr (note\<lparr>no_text := Some (knownLocale (tl_locale l),
                             [Skipped_Line (row_day (ae_row r))
                                (if restore then Skip_Restore
                                 else if sa_outcome (row_attempt (ae_row r)) = Pull_Failed_Day then Skip_Pull else Skip_Other)
                                (symbolOr tokens (token_mint token))])\<rparr>))"

section \<open>The code: a tick\<close>

text \<open>
  What happens to a send: it is delivered, refused by Telegram with a code and perhaps a wait, or fails otherwise,
  in which case it may have been delivered; or the process ends before its answer.
\<close>

datatype send_end = Sent_Notice | Refused_Notice int "int option" | Failed_Notice bool | Crashed_Notice bool

text \<open>The clock that a refusal reads is \<open>Date.now()\<close>, \<open>clock\<close> here.\<close>

definition deliver :: "int \<Rightarrow> (notification \<Rightarrow> send_end) \<Rightarrow> notification \<Rightarrow> notice_state \<Rightarrow> bool \<times> notice_state \<times> notification list" where
  "deliver clock send n s =
     (if handled s (no_chatId n) (no_key n) then (True, s, [])
      else let s' = s\<lparr>ns_handled := ns_handled s @ [((no_chatId n, no_key n), no_text n \<noteq> None)]\<rparr>
      in if no_text n = None then (True, s', [])
         else case send n of
             Sent_Notice \<Rightarrow> (True, s', [n])
           | Refused_Notice code retry \<Rightarrow>
               if code = 403
               then (True, s'\<lparr>ns_links := revoke (\<lambda>l. tl_chatId l = no_chatId n) clock (ns_links s)\<rparr>, [])
               else (False, s\<lparr>ns_resumeAt := (case retry of Some sec \<Rightarrow> if sec \<noteq> 0 then clock + sec * 1000 else ns_resumeAt s
                                                          | None \<Rightarrow> ns_resumeAt s)\<rparr>, [])
           | Failed_Notice delivered \<Rightarrow> (False, s, if delivered then [n] else [])
           | Crashed_Notice delivered \<Rightarrow> (False, s'\<lparr>ns_resumeAt := 0\<rparr>, if delivered then [n] else []))"

fun deliverAll :: "int \<Rightarrow> (notification \<Rightarrow> send_end) \<Rightarrow> notification list \<Rightarrow> notice_state \<Rightarrow> notice_state \<times> notification list" where
  "deliverAll clock send [] s = (s, [])"
| "deliverAll clock send (n # ns) s =
     (let (go, s, log) = deliver clock send n s
      in if go then let (s, more) = deliverAll clock send ns s in (s, log @ more) else (s, log))"

record notice_env =
  ne_now :: int
  ne_clock :: int
  ne_tables :: notice_tables
  ne_config :: "config outcome"
  ne_users :: "(address \<Rightarrow> user_config option) outcome"
  ne_textLe :: "string \<Rightarrow> string \<Rightarrow> bool"
  ne_tokens :: "(string \<times> address) list"
  ne_send :: "notification \<Rightarrow> send_end"

definition noticesOf :: "notice_env \<Rightarrow> config \<Rightarrow> (address \<Rightarrow> user_config option) \<Rightarrow> notice_state \<Rightarrow> notification list outcome" where
  "noticesOf e cfg users s =
     (let T = ne_tables e; oldest = ne_now e - NOTICE_WINDOW_MS
      in res_bind (res_map (\<lambda>(l, row). purchase (ne_tokens e) l row (investedTo (ne_textLe e) T (fst row)) cfg
                                           (users (sw_user (sr_event (fst row))))) (soldRows s oldest T)) (\<lambda>purchases.
         res_bind (res_map (\<lambda>(l, a). skipped (ne_tokens e) l a (previousReason T a) cfg (users (row_user (ae_row a))))
                     (attemptRows s oldest T)) (\<lambda>skips.
         Inr (sort_key no_at
           (concat purchases @ map (\<lambda>(l, r). control (ne_tokens e) l r cfg (users (ur_user r))) (eventRows s oldest T) @ skips)))))"

definition noticesTick :: "notice_env \<Rightarrow> notice_state \<Rightarrow> notice_state \<times> notification list" where
  "noticesTick e s =
     (let T = ne_tables e; oldest = ne_now e - NOTICE_WINDOW_MS
      in if ne_now e < ns_resumeAt s \<or> soldRows s oldest T = [] \<and> eventRows s oldest T = [] \<and> attemptRows s oldest T = []
         then (s, [])
         else case res_bind (ne_config e) (\<lambda>cfg. res_bind (ne_users e) (\<lambda>users. noticesOf e cfg users s)) of
                Inl _ \<Rightarrow> (s, [])
              | Inr notices \<Rightarrow> deliverAll (ne_clock e) (ne_send e) notices s)"

section \<open>Runs\<close>

text \<open>Ticks, with the links as the route and the bot leave them in between, and restarts of the process.\<close>

datatype notice_step = Notify notice_env | Relink "chat_link list" | Restart_Notices

fun noticeRun :: "notice_step list \<Rightarrow> notice_state \<Rightarrow> notice_state \<times> notification list" where
  "noticeRun [] s = (s, [])"
| "noticeRun (Notify e # steps) s =
     (let (s, log) = noticesTick e s; (s, more) = noticeRun steps s in (s, log @ more))"
| "noticeRun (Relink links # steps) s = noticeRun steps (s\<lparr>ns_links := links\<rparr>)"
| "noticeRun (Restart_Notices # steps) s = noticeRun steps (s\<lparr>ns_resumeAt := 0\<rparr>)"

section \<open>Handled once\<close>

definition chat_key :: "notification \<Rightarrow> int \<times> notice_key" where
  "chat_key n = (no_chatId n, no_key n)"

text \<open>What a delivery does to the handled keys: they grow, and what is sent is new and then handled.\<close>

definition handled_keys :: "notice_state \<Rightarrow> (int \<times> notice_key) set" where
  "handled_keys s = fst ` set (ns_handled s)"

definition sends_new :: "notice_state \<Rightarrow> notice_state \<times> notification list \<Rightarrow> bool" where
  "sends_new s r \<longleftrightarrow> handled_keys s \<subseteq> handled_keys (fst r) \<and> distinct (map chat_key (snd r))
     \<and> chat_key ` set (snd r) \<inter> handled_keys s = {} \<and> chat_key ` set (snd r) \<subseteq> handled_keys (fst r)"

lemma sends_nothing [simp]: "handled_keys s' = handled_keys s \<Longrightarrow> sends_new s (s', [])"
  by (simp add: sends_new_def)

lemma handled_keys_update [simp]:
  "handled_keys (s\<lparr>ns_links := x\<rparr>) = handled_keys s" "handled_keys (s\<lparr>ns_resumeAt := t\<rparr>) = handled_keys s"
  by (simp_all add: handled_keys_def)

lemma sets_chain:
  "H \<subseteq> H' \<Longrightarrow> H' \<subseteq> H'' \<Longrightarrow> A \<inter> H = {} \<Longrightarrow> A \<subseteq> H' \<Longrightarrow> B \<inter> H' = {} \<Longrightarrow> B \<subseteq> H''
   \<Longrightarrow> A \<inter> B = {} \<and> (A \<union> B) \<inter> H = {} \<and> A \<union> B \<subseteq> H'' \<and> H \<subseteq> H''"
  by blast

lemma sends_new_trans:
  assumes "sends_new s (s', log)" "sends_new s' (s'', log')"
  shows "sends_new s (s'', log @ log')"
proof -
  note new = assms [unfolded sends_new_def fst_conv snd_conv]
  note a = new(1) [THEN conjunct1] new(1) [THEN conjunct2, THEN conjunct1] new(1) [THEN conjunct2, THEN conjunct2, THEN conjunct1]
    new(1) [THEN conjunct2, THEN conjunct2, THEN conjunct2]
  note b = new(2) [THEN conjunct1] new(2) [THEN conjunct2, THEN conjunct1] new(2) [THEN conjunct2, THEN conjunct2, THEN conjunct1]
    new(2) [THEN conjunct2, THEN conjunct2, THEN conjunct2]
  note chain = sets_chain [OF a(1) b(1) a(3,4) b(3,4)]
  show ?thesis
    unfolding sends_new_def fst_conv snd_conv map_append distinct_append set_append set_map image_Un
    using a(2) b(2) chain by (intro conjI) simp_all
qed

lemma deliver_new:
  assumes "send n \<noteq> Failed_Notice True"
  shows "sends_new s (snd (deliver clock send n s))"
proof (cases "handled s (no_chatId n) (no_key n)")
  case False
  then have new: "chat_key n \<notin> handled_keys s" by (simp add: handled_def handled_keys_def chat_key_def)
  define s' where "s' = s\<lparr>ns_handled := ns_handled s @ [((no_chatId n, no_key n), no_text n \<noteq> None)]\<rparr>"
  have keys: "handled_keys s' = insert (chat_key n) (handled_keys s)"
    by (auto simp: s'_def handled_keys_def chat_key_def)
  have one: "sends_new s (x, [n])" "sends_new s (x, [])" if "handled_keys x = handled_keys s'" for x
    using new that by (auto simp: sends_new_def keys)
  have "deliver clock send n s =
     (if no_text n = None then (True, s', [])
      else case send n of
          Sent_Notice \<Rightarrow> (True, s', [n])
        | Refused_Notice code retry \<Rightarrow>
            if code = 403 then (True, s'\<lparr>ns_links := revoke (\<lambda>l. tl_chatId l = no_chatId n) clock (ns_links s)\<rparr>, [])
            else (False, s\<lparr>ns_resumeAt := (case retry of Some sec \<Rightarrow> if sec \<noteq> 0 then clock + sec * 1000 else ns_resumeAt s
                                                       | None \<Rightarrow> ns_resumeAt s)\<rparr>, [])
        | Failed_Notice delivered \<Rightarrow> (False, s, if delivered then [n] else [])
        | Crashed_Notice delivered \<Rightarrow> (False, s'\<lparr>ns_resumeAt := 0\<rparr>, if delivered then [n] else []))"
    using False unfolding deliver_def s'_def Let_def by (simp only: if_False)
  with assms one show ?thesis by (cases "send n") simp_all
qed (simp add: deliver_def)

lemma deliverAll_new:
  "(\<And>n. send n \<noteq> Failed_Notice True) \<Longrightarrow> sends_new s (deliverAll clock send ns s)"
proof (induction clock send ns s rule: deliverAll.induct)
  case (2 clock send n ns s)
  obtain go s' log where d: "deliver clock send n s = (go, s', log)" by (cases "deliver clock send n s") auto
  have first: "sends_new s (s', log)" using deliver_new [of send n s clock] 2(2) d by fastforce
  show ?case
  proof (cases go)
    case True
    with 2 d have "sends_new s' (deliverAll clock send ns s')" by fastforce
    then obtain s'' log' where "deliverAll clock send ns s' = (s'', log')" "sends_new s' (s'', log')"
      by (cases "deliverAll clock send ns s'") auto
    with True d sends_new_trans [OF first] show ?thesis by simp
  qed (use d first in simp)
qed simp

lemma noticesTick_new: "(\<And>n. ne_send e n \<noteq> Failed_Notice True) \<Longrightarrow> sends_new s (noticesTick e s)"
  by (auto simp: noticesTick_def Let_def deliverAll_new split: sum.split)

definition certain :: "notice_step \<Rightarrow> bool" where
  "certain step = (case step of Notify e \<Rightarrow> \<forall>n. ne_send e n \<noteq> Failed_Notice True | _ \<Rightarrow> True)"

lemma noticeRun_new: "\<forall>step \<in> set steps. certain step \<Longrightarrow> sends_new s (noticeRun steps s)"
proof (induction steps s rule: noticeRun.induct)
  case (2 e steps s)
  obtain s' log where tick: "noticesTick e s = (s', log)" by fastforce
  with 2(2) have first: "sends_new s (s', log)" using noticesTick_new [of e s] by (simp add: certain_def)
  obtain s'' log' where rest: "noticeRun steps s' = (s'', log')" by fastforce
  with 2 tick have "sends_new s' (s'', log')" by fastforce
  from sends_new_trans [OF first this] tick rest show ?case by simp
next
  case (3 links steps s)
  then have "sends_new (s\<lparr>ns_links := links\<rparr>) (noticeRun steps (s\<lparr>ns_links := links\<rparr>))" by simp
  then show ?case by (simp add: sends_new_def)
next
  case (4 steps s)
  then have "sends_new (s\<lparr>ns_resumeAt := 0\<rparr>) (noticeRun steps (s\<lparr>ns_resumeAt := 0\<rparr>))" by simp
  then show ?case by (simp add: sends_new_def)
qed simp

text \<open>
  C20: A notice is sent at most once. Over every run of ticks, with restarts and crashes between recording and
  sending, changing links and any refusals, no chat is sent two notices of the same key, given that a send that
  fails without an answer was not delivered.
\<close>

theorem notice_sent_once:
  assumes "\<forall>step \<in> set steps. certain step"
  shows "distinct (map chat_key (snd (noticeRun steps s)))"
  using noticeRun_new [OF assms, of s] by (simp add: sends_new_def)

section \<open>Who gets what\<close>

text \<open>
  What a notice comes from: a link active at the tick and a row of its own wallet, a purchase, a control or a day
  without one, recent and after the link, not handled for the chat yet, which the notice is written from for that link and that wallet's user.
\<close>

definition sourced :: "notice_env \<Rightarrow> notice_state \<Rightarrow> config \<Rightarrow> (address \<Rightarrow> user_config option) \<Rightarrow> chat_link \<Rightarrow> notification \<Rightarrow> bool" where
  "sourced e s cfg users l n \<longleftrightarrow> l \<in> set (ns_links s) \<and> tl_revokedAt l = None \<and> no_chatId n = tl_chatId l
     \<and> no_at n \<ge> tl_linkedAt l \<and> no_at n \<ge> ne_now e - NOTICE_WINDOW_MS
     \<and> ((\<exists>row \<in> set (nt_sweeps (ne_tables e)). sw_user (sr_event (fst row)) = tl_wallet l \<and> no_at n = at_blockTimeMs (sr_at (fst row))
           \<and> \<not> handled s (tl_chatId l) (sweepKeyOf row)
           \<and> (no_key n = sweepKeyOf row \<or> (\<exists>goal percent. no_key n = Goal_Key (tl_wallet l) goal percent))
           \<and> (\<exists>ns. purchase (ne_tokens e) l row (investedTo (ne_textLe e) (ne_tables e) (fst row)) cfg (users (tl_wallet l)) = Inr ns \<and> n \<in> set ns))
        \<or> (\<exists>r \<in> set (nt_events (ne_tables e)). isControl r \<and> ur_user r = tl_wallet l \<and> no_at n = at_blockTimeMs (ur_at r)
           \<and> no_key n = eventKeyOf r \<and> \<not> handled s (tl_chatId l) (eventKeyOf r) \<and> n = control (ne_tokens e) l r cfg (users (tl_wallet l)))
        \<or> (\<exists>a \<in> set (nt_attempts (ne_tables e)). isSkipped a \<and> row_user (ae_row a) = tl_wallet l \<and> no_at n = ae_at a
           \<and> no_key n = attemptKeyOf a \<and> \<not> handled s (tl_chatId l) (attemptKeyOf a)
           \<and> skipped (ne_tokens e) l a (previousReason (ne_tables e) a) cfg (users (tl_wallet l)) = Inr n))"

lemma linkedRows_mem:
  "(l, r) \<in> set (linkedRows s oldest user at key rows) \<longleftrightarrow>
   l \<in> set (ns_links s) \<and> r \<in> set rows \<and> tl_wallet l = user r \<and> tl_revokedAt l = None \<and> at r \<ge> oldest \<and> at r \<ge> tl_linkedAt l
   \<and> \<not> handled s (tl_chatId l) (key r)"
  by (auto simp: linkedRows_def)

lemma res_map_source: "res_map f xs = Inr ys \<Longrightarrow> y \<in> set ys \<Longrightarrow> \<exists>x \<in> set xs. f x = Inr y"
  by (induction xs arbitrary: ys) (auto simp: result_simps)

lemma purchase_notices:
  assumes "purchase tokens l row invested cfg found = Inr ns" "n \<in> set ns"
  shows "no_at n = at_blockTimeMs (sr_at (fst row)) \<and> no_chatId n = tl_chatId l
    \<and> (no_key n = sweepKeyOf row \<or> (\<exists>percent. no_key n = Goal_Key (sw_user (sr_event (fst row))) (uc_goalAmount (the found)) percent
         \<and> reachedMilestone (uc_goalAmount (the found)) invested (sw_engine (sr_event (fst row)) + sw_pending (sr_event (fst row))) = Some percent))
    \<and> (no_text n \<noteq> None \<longrightarrow> (\<exists>user. found = Some user \<and> uc_status user \<noteq> Exited))"
proof (cases found)
  case None
  with assms show ?thesis by (auto simp: purchase_def Let_def case_prod_beta')
next
  case (Some user)
  show ?thesis
  proof (cases "uc_status user = Exited")
    case True
    with assms Some show ?thesis by (auto simp: purchase_def Let_def case_prod_beta')
  next
    case False
    with assms Some show ?thesis
      by (auto simp: purchase_def Let_def case_prod_beta' split: option.splits)
  qed
qed

lemma skipped_notice:
  assumes "skipped tokens l r previous cfg found = Inr n"
  shows "no_at n = ae_at r \<and> no_chatId n = tl_chatId l \<and> no_key n = attemptKeyOf r
    \<and> (no_text n \<noteq> None \<longrightarrow> (\<exists>user. found = Some user \<and> uc_status user = Active))"
proof (cases found)
  case None
  with assms show ?thesis by (auto simp: skipped_def Let_def)
next
  case (Some user)
  show ?thesis
  proof (cases "uc_status user \<noteq> Active \<or> isRestore (sa_reason (row_attempt (ae_row r))) \<and> isRestore previous")
    case True
    with assms Some have "n = \<lparr>no_at = ae_at r, no_chatId = tl_chatId l, no_key = attemptKeyOf r, no_text = None\<rparr>"
      unfolding skipped_def Let_def by (simp only: option.case if_True sum.inject)
    then show ?thesis by simp
  next
    case False
    with assms Some show ?thesis unfolding skipped_def Let_def option.case
      by (auto split: option.splits)
  qed
qed

definition may_hear :: "notification \<Rightarrow> user_config option \<Rightarrow> bool" where
  "may_hear n found \<longleftrightarrow> no_text n \<noteq> None \<longrightarrow>
     (\<exists>user. found = Some user \<and> (uc_status user = Exited \<longrightarrow> (\<exists>lang. no_text n = Some (lang, [Exited_Line]))))"

lemma control_notice:
  "may_hear (control tokens l r cfg found) found \<and> no_at (control tokens l r cfg found) = at_blockTimeMs (ur_at r)
   \<and> no_chatId (control tokens l r cfg found) = tl_chatId l \<and> no_key (control tokens l r cfg found) = eventKeyOf r"
  by (auto simp: control_def may_hear_def controlLine_def split: option.splits)

lemma noticesOf_sourced:
  assumes "noticesOf e cfg users s = Inr ns" "n \<in> set ns"
  shows "\<exists>l. sourced e s cfg users l n \<and> may_hear n (users (tl_wallet l))"
proof -
  from assms(1) obtain purchases skips
    where bought: "res_map (\<lambda>(l, row). purchase (ne_tokens e) l row (investedTo (ne_textLe e) (ne_tables e) (fst row)) cfg
        (users (sw_user (sr_event (fst row))))) (soldRows s (ne_now e - NOTICE_WINDOW_MS) (ne_tables e)) = Inr purchases"
      and waits: "res_map (\<lambda>(l, a). skipped (ne_tokens e) l a (previousReason (ne_tables e) a) cfg (users (row_user (ae_row a))))
        (attemptRows s (ne_now e - NOTICE_WINDOW_MS) (ne_tables e)) = Inr skips"
      and ns: "ns = sort_key no_at (concat purchases
        @ map (\<lambda>(l, r). control (ne_tokens e) l r cfg (users (ur_user r))) (eventRows s (ne_now e - NOTICE_WINDOW_MS) (ne_tables e)) @ skips)"
    unfolding noticesOf_def Let_def result_simps by blast
  from assms(2) [unfolded ns set_sort set_append set_concat] consider (purchase) p where "p \<in> set purchases" "n \<in> set p"
    | (control) "n \<in> set (map (\<lambda>(l, r). control (ne_tokens e) l r cfg (users (ur_user r))) (eventRows s (ne_now e - NOTICE_WINDOW_MS) (ne_tables e)))"
    | (skip) "n \<in> set skips" by blast
  then show ?thesis
  proof cases
    case purchase
    from res_map_source [OF bought purchase(1)] obtain l row
      where row: "(l, row) \<in> set (soldRows s (ne_now e - NOTICE_WINDOW_MS) (ne_tables e))"
        "Notices.purchase (ne_tokens e) l row (investedTo (ne_textLe e) (ne_tables e) (fst row)) cfg (users (sw_user (sr_event (fst row)))) = Inr p"
      by auto
    have at: "row \<in> set (nt_sweeps (ne_tables e))" "tl_wallet l = sw_user (sr_event (fst row))" "l \<in> set (ns_links s)" "tl_revokedAt l = None"
      "at_blockTimeMs (sr_at (fst row)) \<ge> ne_now e - NOTICE_WINDOW_MS" "at_blockTimeMs (sr_at (fst row)) \<ge> tl_linkedAt l"
      "\<not> handled s (tl_chatId l) (sweepKeyOf row)"
      using row(1) unfolding soldRows_def linkedRows_mem case_prod_beta' by auto
    note n = purchase_notices [OF row(2) purchase(2)]
    have written: "\<exists>row \<in> set (nt_sweeps (ne_tables e)). sw_user (sr_event (fst row)) = tl_wallet l \<and> no_at n = at_blockTimeMs (sr_at (fst row))
        \<and> \<not> handled s (tl_chatId l) (sweepKeyOf row)
        \<and> (no_key n = sweepKeyOf row \<or> (\<exists>goal percent. no_key n = Goal_Key (tl_wallet l) goal percent))
        \<and> (\<exists>ns. Notices.purchase (ne_tokens e) l row (investedTo (ne_textLe e) (ne_tables e) (fst row)) cfg (users (tl_wallet l)) = Inr ns \<and> n \<in> set ns)"
      by (rule bexI [of _ row]) (use at n row(2) purchase(2) in auto)
    have "sourced e s cfg users l n"
      unfolding sourced_def using at n by (intro conjI disjI1 [OF written]) auto
    moreover have "may_hear n (users (tl_wallet l))" using n at(2) by (auto simp: may_hear_def)
    ultimately show ?thesis by blast
  next
    case control
    then obtain l r where row: "(l, r) \<in> set (eventRows s (ne_now e - NOTICE_WINDOW_MS) (ne_tables e))"
      "n = Notices.control (ne_tokens e) l r cfg (users (ur_user r))" by auto
    note n = control_notice [of "ne_tokens e" l r cfg "users (ur_user r)", folded row(2)]
    have at: "r \<in> set (nt_events (ne_tables e))" "isControl r" "tl_wallet l = ur_user r" "l \<in> set (ns_links s)" "tl_revokedAt l = None"
      "at_blockTimeMs (ur_at r) \<ge> ne_now e - NOTICE_WINDOW_MS" "at_blockTimeMs (ur_at r) \<ge> tl_linkedAt l"
      "\<not> handled s (tl_chatId l) (eventKeyOf r)"
      using row(1) unfolding eventRows_def linkedRows_mem by auto
    have "sourced e s cfg users l n"
      unfolding sourced_def using at n row(2) by (intro conjI disjI2 [OF disjI1] bexI [of _ r]) auto
    with n at(3) show ?thesis by auto
  next
    case skip
    from res_map_source [OF waits skip] obtain l a
      where row: "(l, a) \<in> set (attemptRows s (ne_now e - NOTICE_WINDOW_MS) (ne_tables e))"
        "skipped (ne_tokens e) l a (previousReason (ne_tables e) a) cfg (users (row_user (ae_row a))) = Inr n" by auto
    have at: "a \<in> set (nt_attempts (ne_tables e))" "isSkipped a" "tl_wallet l = row_user (ae_row a)" "l \<in> set (ns_links s)" "tl_revokedAt l = None"
      "ae_at a \<ge> ne_now e - NOTICE_WINDOW_MS" "ae_at a \<ge> tl_linkedAt l"
      "\<not> handled s (tl_chatId l) (attemptKeyOf a)"
      using row(1) unfolding attemptRows_def linkedRows_mem by auto
    note n = skipped_notice [OF row(2)]
    have "sourced e s cfg users l n"
      unfolding sourced_def using at n row(2) by (intro conjI disjI2 [OF disjI2] bexI [of _ a]) auto
    moreover have "may_hear n (users (tl_wallet l))" using n at(3) by (auto simp: may_hear_def)
    ultimately show ?thesis by blast
  qed
qed

lemma deliverAll_sent: "n \<in> set (snd (deliverAll clock send ns s)) \<Longrightarrow> n \<in> set ns \<and> no_text n \<noteq> None"
proof (induction clock send ns s rule: deliverAll.induct)
  case (2 clock send m ns s)
  obtain go s' log where d: "deliver clock send m s = (go, s', log)" by (cases "deliver clock send m s") auto
  then have log: "x \<in> set log \<Longrightarrow> x = m \<and> no_text m \<noteq> None" for x
    unfolding deliver_def Let_def by (auto split: if_splits send_end.splits)
  obtain s'' log' where rest: "deliverAll clock send ns s' = (s'', log')" by fastforce
  show ?case
  proof (cases go)
    case True
    with 2(2) d rest have "n \<in> set log \<or> n \<in> set (snd (deliverAll clock send ns s'))" by auto
    moreover have "n \<in> set (snd (deliverAll clock send ns s')) \<Longrightarrow> n \<in> set ns \<and> no_text n \<noteq> None"
      using 2(1) d True by simp
    moreover have "n \<in> set log \<Longrightarrow> n = m \<and> no_text n \<noteq> None" using log [of n] by simp
    ultimately show ?thesis by (metis list.set_intros)
  qed (use 2(2) d log in auto)
qed simp

lemma tick_sends_sourced:
  assumes "n \<in> set (snd (noticesTick e s))"
  obtains cfg users l where "ne_config e = Inr cfg" "ne_users e = Inr users" "sourced e s cfg users l n"
    "may_hear n (users (tl_wallet l))" "no_text n \<noteq> None"
proof -
  from assms obtain ns where ns: "res_bind (ne_config e) (\<lambda>cfg. res_bind (ne_users e) (\<lambda>users. noticesOf e cfg users s)) = Inr ns"
    and n: "n \<in> set (snd (deliverAll (ne_clock e) (ne_send e) ns s))"
    unfolding noticesTick_def Let_def by (auto split: if_splits sum.splits)
  from ns obtain cfg users where cu: "ne_config e = Inr cfg" "ne_users e = Inr users" "noticesOf e cfg users s = Inr ns"
    unfolding result_simps by blast
  with noticesOf_sourced [OF cu(3)] deliverAll_sent [OF n] that show ?thesis by blast
qed

text \<open>
  C21: A notice goes only where it was asked for. Whatever a tick sends is written from a row of the history of the
  wallet its chat is linked to (a purchase, a control or a skipped day of that wallet, with that wallet's user), and
  the link is not revoked; the row is no older than a day and not from before the link; and a wallet that left
  Laterite gets only the notice that it left.
\<close>

theorem notice_only_linked:
  assumes "n \<in> set (snd (noticesTick e s))"
  shows "\<exists>l cfg users. sourced e s cfg users l n \<and> ne_config e = Inr cfg \<and> ne_users e = Inr users
    \<and> may_hear n (users (tl_wallet l)) \<and> no_text n \<noteq> None"
  using tick_sends_sourced [OF assms] by metis

section \<open>A milestone that is lost\<close>

lemma purchase_pair:
  assumes "purchase tokens l row invested cfg found = Inr [p, g]"
  shows "no_key p = sweepKeyOf row" "no_chatId p = tl_chatId l" "no_text p \<noteq> None" "no_text g \<noteq> None"
    "no_chatId g = tl_chatId l" "\<exists>goal percent. no_key g = Goal_Key (sw_user (sr_event (fst row))) goal percent
       \<and> reachedMilestone goal invested (sw_engine (sr_event (fst row)) + sw_pending (sr_event (fst row))) = Some percent"
  using assms by (auto simp: purchase_def Let_def case_prod_beta' split: option.splits if_splits)

text \<open>A milestone is reached by the purchase that takes the total across it.\<close>

lemma reachedMilestone_crosses:
  assumes "reachedMilestone goal invested amount = Some percent"
  shows "invested - amount < js_div (goal * percent) 100 \<and> js_div (goal * percent) 100 \<le> invested"
proof -
  let ?reached = "rev (filter (\<lambda>percent. goal > 0 \<and> invested - amount < js_div (goal * percent) 100
      \<and> invested \<ge> js_div (goal * percent) 100) GOAL_MILESTONES)"
  obtain more where "?reached = percent # more"
    using assms unfolding reachedMilestone_def by (cases ?reached) simp_all
  then have "percent \<in> set ?reached" by (metis list.set_intros(1))
  then show ?thesis by simp
qed

text \<open>A history: every sweep stored once, its amounts not negative, in an order of the database's.\<close>

definition text_order :: "(string \<Rightarrow> string \<Rightarrow> bool) \<Rightarrow> bool" where
  "text_order le \<longleftrightarrow> (\<forall>a b. le a b \<or> le b a) \<and> (\<forall>a b. le a b \<and> le b a \<longrightarrow> a = b) \<and> (\<forall>a b c. le a b \<and> le b c \<longrightarrow> le a c)"

definition sweep_history :: "notice_tables \<Rightarrow> bool" where
  "sweep_history T \<longleftrightarrow> distinct (map (\<lambda>(r, _). (at_slot (sr_at r), at_txSignature (sr_at r), sr_eventIndex r)) (nt_sweeps T))
     \<and> (\<forall>(r, _) \<in> set (nt_sweeps T). 0 \<le> sw_engine (sr_event r) + sw_pending (sr_event r))"

lemma upTo_iff:
  "upTo le p q \<longleftrightarrow> at_slot (sr_at p) < at_slot (sr_at q)
     \<or> at_slot (sr_at p) = at_slot (sr_at q)
       \<and> (le (at_txSignature (sr_at p)) (at_txSignature (sr_at q)) \<and> at_txSignature (sr_at p) \<noteq> at_txSignature (sr_at q)
          \<or> at_txSignature (sr_at p) = at_txSignature (sr_at q) \<and> sr_eventIndex p \<le> sr_eventIndex q)"
  by (simp add: upTo_def Let_def)

lemma upTo_slot: "upTo le p q \<Longrightarrow> at_slot (sr_at p) \<le> at_slot (sr_at q)"
  unfolding upTo_iff by linarith

lemma upTo_order:
  assumes "text_order le"
  shows "upTo le r r" "upTo le p q \<or> upTo le q p" "upTo le p q \<Longrightarrow> upTo le q r \<Longrightarrow> upTo le p r"
    "upTo le p q \<Longrightarrow> upTo le q p \<Longrightarrow> at_slot (sr_at p) = at_slot (sr_at q) \<and> at_txSignature (sr_at p) = at_txSignature (sr_at q)
       \<and> sr_eventIndex p = sr_eventIndex q"
proof -
  let ?s = "\<lambda>r. at_txSignature (sr_at r)"
  note le = assms [unfolded text_order_def]
  have total: "le (?s p) (?s q) \<or> le (?s q) (?s p)" using le by blast
  have anti1: "le (?s p) (?s q) \<Longrightarrow> le (?s q) (?s p) \<Longrightarrow> ?s p = ?s q" using le by blast
  have anti2: "?s p = ?s q" if "le (?s p) (?s q)" "le (?s q) (?s r)" "?s p = ?s r"
    using anti1 that(1) that(2) [folded that(3)] by blast
  have trans: "le (?s p) (?s q) \<Longrightarrow> le (?s q) (?s r) \<Longrightarrow> le (?s p) (?s r)" using le by blast
  show "upTo le r r" by (simp add: upTo_iff)
  show "upTo le p q \<or> upTo le q p" 
  proof -
    have "at_slot (sr_at p) < at_slot (sr_at q) \<or> at_slot (sr_at q) < at_slot (sr_at p) \<or> at_slot (sr_at p) = at_slot (sr_at q)"
      "sr_eventIndex p \<le> sr_eventIndex q \<or> sr_eventIndex q \<le> sr_eventIndex p" by linarith+
    with total show ?thesis unfolding upTo_iff by (elim disjE) simp_all
  qed
  show "upTo le p r" if "upTo le p q" "upTo le q r"
  proof (cases "at_slot (sr_at p) < at_slot (sr_at r)")
    case False
    with that have slots: "at_slot (sr_at p) = at_slot (sr_at q)" "at_slot (sr_at q) = at_slot (sr_at r)"
      using upTo_slot [OF that(1)] upTo_slot [OF that(2)] by linarith+
    have "le (?s p) (?s q) \<and> ?s p \<noteq> ?s q \<or> ?s p = ?s q \<and> sr_eventIndex p \<le> sr_eventIndex q"
      "le (?s q) (?s r) \<and> ?s q \<noteq> ?s r \<or> ?s q = ?s r \<and> sr_eventIndex q \<le> sr_eventIndex r"
      using that slots unfolding upTo_iff by simp_all
    then have "le (?s p) (?s r) \<and> ?s p \<noteq> ?s r \<or> ?s p = ?s r \<and> sr_eventIndex p \<le> sr_eventIndex r"
      using anti2 trans by (metis order_trans)
    with slots show ?thesis unfolding upTo_iff by simp
  qed (simp add: upTo_iff)
  show "at_slot (sr_at p) = at_slot (sr_at q) \<and> ?s p = ?s q \<and> sr_eventIndex p = sr_eventIndex q" if "upTo le p q" "upTo le q p"
  proof -
    have slots: "at_slot (sr_at p) = at_slot (sr_at q)" using upTo_slot [OF that(1)] upTo_slot [OF that(2)] by linarith
    have "le (?s p) (?s q) \<and> ?s p \<noteq> ?s q \<or> ?s p = ?s q \<and> sr_eventIndex p \<le> sr_eventIndex q"
      "le (?s q) (?s p) \<and> ?s q \<noteq> ?s p \<or> ?s q = ?s p \<and> sr_eventIndex q \<le> sr_eventIndex p"
      using that slots unfolding upTo_iff by simp_all
    with slots anti1 show ?thesis by (metis le_antisym)
  qed
qed

lemma investedTo_sum:
  assumes "sweep_history T"
  shows "investedTo le T r = (\<Sum>(p, _) \<in> {(p, m) \<in> set (nt_sweeps T). sw_user (sr_event p) = sw_user (sr_event r) \<and> upTo le p r}.
     sw_engine (sr_event p) + sw_pending (sr_event p))"
proof -
  have "distinct (nt_sweeps T)" using assms unfolding sweep_history_def by (meson distinct_map)
  then show ?thesis
    unfolding investedTo_def by (simp add: sum_list_distinct_conv_sum_set case_prod_beta')
qed

lemma later_total:
  assumes "text_order le" "sweep_history T" "(q, m) \<in> set (nt_sweeps T)" "(r, m') \<in> set (nt_sweeps T)"
    "sw_user (sr_event q) = sw_user (sr_event r)" "upTo le q r" "(q, m) \<noteq> (r, m')"
  shows "investedTo le T q + (sw_engine (sr_event r) + sw_pending (sr_event r)) \<le> investedTo le T r"
proof -
  let ?before = "\<lambda>x. {(p, n) \<in> set (nt_sweeps T). sw_user (sr_event p) = sw_user (sr_event x) \<and> upTo le p x}"
  let ?amount = "\<lambda>(p, _). sw_engine (sr_event p) + sw_pending (sr_event p)"
  have "\<not> upTo le r q"
  proof
    assume "upTo le r q"
    have "inj_on (\<lambda>(r, _). (at_slot (sr_at r), at_txSignature (sr_at r), sr_eventIndex r)) (set (nt_sweeps T))"
      using assms(2) by (simp add: sweep_history_def distinct_map)
    from inj_onD [OF this _ assms(3,4)] upTo_order(4) [OF assms(1,6) \<open>upTo le r q\<close>] assms(7) show False by simp
  qed
  then have new: "(r, m') \<notin> ?before q" by simp
  have sub: "insert (r, m') (?before q) \<subseteq> ?before r"
    using assms(4-6) upTo_order(1,3) [OF assms(1)] by auto
  have fin: "finite (?before q)" "finite (?before r)" by (rule finite_subset [OF _ finite_set [of "nt_sweeps T"]]; auto)+
  have "sum ?amount (insert (r, m') (?before q)) \<le> sum ?amount (?before r)"
    by (rule sum_mono2 [OF fin(2) sub]) (use assms(2) in \<open>auto simp: sweep_history_def\<close>)
  moreover have "sum ?amount (insert (r, m') (?before q)) = (sw_engine (sr_event r) + sw_pending (sr_event r)) + sum ?amount (?before q)"
    using new fin(1) by (subst sum.insert) auto
  ultimately show ?thesis using assms(5) by (simp add: investedTo_sum [OF assms(2)])
qed

text \<open>So one purchase of a user at most reaches a milestone of a goal.\<close>

lemma milestone_once:
  assumes "text_order le" "sweep_history T" "(q, m) \<in> set (nt_sweeps T)" "(r, m') \<in> set (nt_sweeps T)"
    "sw_user (sr_event q) = sw_user (sr_event r)"
    "reachedMilestone goal (investedTo le T q) (sw_engine (sr_event q) + sw_pending (sr_event q)) = Some percent"
    "reachedMilestone goal (investedTo le T r) (sw_engine (sr_event r) + sw_pending (sr_event r)) = Some percent"
  shows "(q, m) = (r, m')"
proof (rule ccontr)
  assume other: "(q, m) \<noteq> (r, m')"
  note cross = reachedMilestone_crosses [OF assms(6)] reachedMilestone_crosses [OF assms(7)]
  from upTo_order(2) [OF assms(1), of q r] show False
  proof
    assume "upTo le q r"
    from later_total [OF assms(1-5) this other] cross show False by linarith
  next
    assume "upTo le r q"
    from later_total [OF assms(1,2,4,3) assms(5) [symmetric] this other [symmetric]] cross show False by linarith
  qed
qed

text \<open>Handled keys are never forgotten, whatever a send ends with.\<close>

lemma deliver_keeps: "handled_keys s \<subseteq> handled_keys (fst (snd (deliver clock send n s)))"
  by (auto simp: deliver_def Let_def handled_keys_def split: send_end.splits)

lemma deliverAll_keeps: "handled_keys s \<subseteq> handled_keys (fst (deliverAll clock send ns s))"
proof (induction clock send ns s rule: deliverAll.induct)
  case (2 clock send n ns s)
  obtain go s' log where d: "deliver clock send n s = (go, s', log)" by (cases "deliver clock send n s") auto
  have first: "handled_keys s \<subseteq> handled_keys s'" using deliver_keeps [of s clock send n] d by simp
  show ?case
  proof (cases go)
    case True
    obtain s'' more where rest: "deliverAll clock send ns s' = (s'', more)" by fastforce
    with 2 d True have "handled_keys s' \<subseteq> handled_keys s''" by fastforce
    with first d True rest show ?thesis by auto
  qed (use first d in simp)
qed simp

lemma noticesTick_keeps: "handled_keys s \<subseteq> handled_keys (fst (noticesTick e s))"
  using deliverAll_keeps by (auto simp: noticesTick_def Let_def split: sum.split)

text \<open>The tables a later tick reads still hold the purchase and all it was counted with.\<close>

definition later_history :: "(string \<Rightarrow> string \<Rightarrow> bool) \<Rightarrow> sweep_row \<times> double_bits \<Rightarrow> int \<Rightarrow> notice_env \<Rightarrow> bool" where
  "later_history le row invested e \<longleftrightarrow> ne_textLe e = le \<and> sweep_history (ne_tables e)
     \<and> row \<in> set (nt_sweeps (ne_tables e)) \<and> investedTo le (ne_tables e) (fst row) = invested"

lemma milestone_not_sent:
  assumes "text_order le" "later_history le row invested e" "handled s chat (sweepKeyOf row)"
    "reachedMilestone goal invested (sw_engine (sr_event (fst row)) + sw_pending (sr_event (fst row))) = Some percent"
    "n \<in> set (snd (noticesTick e s))"
  shows "chat_key n \<noteq> (chat, Goal_Key (sw_user (sr_event (fst row))) goal percent)"
proof
  assume key: "chat_key n = (chat, Goal_Key (sw_user (sr_event (fst row))) goal percent)"
  obtain cfg users l where n: "sourced e s cfg users l n" using tick_sends_sourced [OF assms(5)] .
  have kind: "no_key n = Goal_Key (sw_user (sr_event (fst row))) goal percent" "no_chatId n = chat"
    using key by (simp_all add: chat_key_def)
  with n obtain q ns where q: "q \<in> set (nt_sweeps (ne_tables e))" "sw_user (sr_event (fst q)) = tl_wallet l"
    "\<not> handled s (tl_chatId l) (sweepKeyOf q)" "n \<in> set ns" "no_chatId n = tl_chatId l"
    "purchase (ne_tokens e) l q (investedTo (ne_textLe e) (ne_tables e) (fst q)) cfg (users (tl_wallet l)) = Inr ns"
    unfolding sourced_def by (auto simp: eventKeyOf_def attemptKeyOf_def)
  have reached: "sw_user (sr_event (fst q)) = sw_user (sr_event (fst row))"
    "reachedMilestone goal (investedTo (ne_textLe e) (ne_tables e) (fst q)) (sw_engine (sr_event (fst q)) + sw_pending (sr_event (fst q))) = Some percent"
    using purchase_notices [OF q(6,4)] kind(1) by (auto simp: sweepKeyOf_def case_prod_beta')
  note h = assms(2) [unfolded later_history_def]
  have "(fst q, snd q) = (fst row, snd row)"
    by (rule milestone_once [OF assms(1), of "ne_tables e"]) (use h q(1) reached assms(4) in auto)
  then have "q = row" by (simp add: prod_eq_iff)
  with q(3,5) kind(2) assms(3) show False by simp
qed

lemma milestone_never_sent:
  assumes "text_order le" "reachedMilestone goal invested (sw_engine (sr_event (fst row)) + sw_pending (sr_event (fst row))) = Some percent"
  shows "handled s chat (sweepKeyOf row) \<Longrightarrow> \<forall>e. Notify e \<in> set steps \<longrightarrow> later_history le row invested e
    \<Longrightarrow> (chat, Goal_Key (sw_user (sr_event (fst row))) goal percent) \<notin> chat_key ` set (snd (noticeRun steps s))"
proof (induction steps s rule: noticeRun.induct)
  case (2 e steps s)
  obtain s' log where tick: "noticesTick e s = (s', log)" by fastforce
  obtain s'' more where rest: "noticeRun steps s' = (s'', more)" by fastforce
  have "handled s' chat (sweepKeyOf row)"
    using noticesTick_keeps [of s e] 2(2) tick by (auto simp: handled_keys_def handled_def)
  with 2 tick rest have later: "(chat, Goal_Key (sw_user (sr_event (fst row))) goal percent) \<notin> chat_key ` set more" by fastforce
  have "later_history le row invested e" using 2(3) by simp
  then have "chat_key n \<noteq> (chat, Goal_Key (sw_user (sr_event (fst row))) goal percent)" if "n \<in> set log" for n
    using milestone_not_sent [OF assms(1) _ 2(2) assms(2)] that tick by simp
  then have "(chat, Goal_Key (sw_user (sr_event (fst row))) goal percent) \<notin> chat_key ` set log" by (metis imageE)
  with later tick rest show ?case by (simp add: image_Un)
next
  case (3 links steps s)
  then show ?case by (simp add: handled_def)
next
  case (4 steps s)
  then show ?case by (simp add: handled_def)
qed simp

text \<open>
  C22: A goal milestone can be lost for good. When a purchase's notice is sent and its milestone's notice, next, is
  refused for any reason but a blocked bot (flood control, say), the milestone is left to be tried again; but over
  every later run of ticks and restarts, with whatever links, users and config, that chat is never sent a notice of
  that milestone again, as long as the history keeps the purchase and the total up to it: the purchase, handled, is
  not read again for the chat, and no other purchase reaches that milestone.
\<close>

theorem goal_notice_lost:
  assumes "purchase tokens l row (investedTo le T (fst row)) cfg found = Inr [p, g]"
    "\<not> handled s (no_chatId p) (no_key p)" "\<not> handled s (no_chatId g) (no_key g)"
    "send p = Sent_Notice" "send g = Refused_Notice code retry" "code \<noteq> 403" "text_order le"
    "\<forall>e. Notify e \<in> set steps \<longrightarrow> later_history le row (investedTo le T (fst row)) e"
  shows "\<exists>s'. deliverAll clock send (p # g # ns) s = (s', [p]) \<and> \<not> handled s' (no_chatId g) (no_key g)
    \<and> chat_key g \<notin> chat_key ` set (snd (noticeRun steps s'))"
proof -
  note pair = purchase_pair [OF assms(1)]
  define s1 where "s1 = s\<lparr>ns_handled := ns_handled s @ [((no_chatId p, no_key p), True)]\<rparr>"
  have p: "deliver clock send p s = (True, s1, [p])"
    using assms(2,4) pair(3) by (simp add: deliver_def s1_def Let_def)
  have differ: "no_key g \<noteq> no_key p" using pair(1,6) by (auto simp: sweepKeyOf_def case_prod_beta')
  have new: "\<not> handled s1 (no_chatId g) (no_key g)" using assms(3) differ by (simp add: handled_def s1_def)
  then obtain s' where g: "deliver clock send g s1 = (False, s', [])" "ns_handled s' = ns_handled s1"
    using assms(5,6) pair(4) unfolding deliver_def Let_def by (cases retry) auto
  obtain goal percent where milestone: "no_key g = Goal_Key (sw_user (sr_event (fst row))) goal percent"
    "reachedMilestone goal (investedTo le T (fst row)) (sw_engine (sr_event (fst row)) + sw_pending (sr_event (fst row))) = Some percent"
    using pair(6) by blast
  have "handled s' (tl_chatId l) (sweepKeyOf row)" using g(2) pair(1,2) by (simp add: handled_def s1_def)
  from milestone_never_sent [OF assms(7) milestone(2) this assms(8)]
  have "chat_key g \<notin> chat_key ` set (snd (noticeRun steps s'))"
    unfolding chat_key_def [of g] pair(5) milestone(1) .
  moreover have "deliverAll clock send (p # g # ns) s = (s', [p])" using p g by simp
  moreover have "\<not> handled s' (no_chatId g) (no_key g)" using new g(2) by (simp add: handled_def)
  ultimately show ?thesis by blast
qed

section \<open>The goal's label, from the form to the chat\<close>

definition scalar :: "int \<Rightarrow> bool" where
  "scalar c \<longleftrightarrow> 0 < c \<and> c \<le> 1114111 \<and> \<not> (55296 \<le> c \<and> c < 57344)"

lemma byte_value: "0 \<le> x \<Longrightarrow> x < 256 \<Longrightarrow> uint (word_of_int x :: u8) = x"
  by (simp add: unsigned_of_int take_bit_int_eq_self)

lemma byte_sum: "0 \<le> x \<Longrightarrow> numeral k + x < 256 \<Longrightarrow> uint (numeral k + word_of_int x :: u8) = numeral k + x"
  using byte_value [of "numeral k + x"] by simp

text \<open>The bytes of a character as numbers, by the number of bytes.\<close>

lemma utf8Char_bytes:
  assumes "scalar c"
  obtains (one) "c < 128" "map uint (utf8Char c) = [c]"
  | (two) h m where "c = h * 64 + m" "0 \<le> m" "m < 64" "2 \<le> h" "h < 32" "map uint (utf8Char c) = [192 + h, 128 + m]"
  | (three) h n m where "c = (h * 64 + n) * 64 + m" "0 \<le> m" "m < 64" "0 \<le> n" "n < 64" "0 \<le> h" "h < 16" "h = 0 \<longrightarrow> 32 \<le> n" "h = 13 \<longrightarrow> n < 32"
      "map uint (utf8Char c) = [224 + h, 128 + n, 128 + m]"
  | (four) k h n m where "c = ((k * 64 + h) * 64 + n) * 64 + m" "0 \<le> m" "m < 64" "0 \<le> n" "n < 64" "0 \<le> h" "h < 64" "0 \<le> k" "k < 5"
      "k = 0 \<longrightarrow> 16 \<le> h" "k = 4 \<longrightarrow> h < 16" "map uint (utf8Char c) = [240 + k, 128 + h, 128 + n, 128 + m]"
proof -
  have c: "0 < c" "c \<le> 1114111" "\<not> (55296 \<le> c \<and> c < 57344)" using assms by (simp_all add: scalar_def)
  consider (1) "c < 128" | (2) "128 \<le> c" "c < 2048" | (3) "2048 \<le> c" "c < 65536" | (4) "65536 \<le> c" by linarith
  then show thesis
  proof cases
    case 1
    with c show ?thesis by (intro one) (simp_all add: utf8Char_def byte_value)
  next
    case 2
    with c show ?thesis by (intro two [of "c div 64" "c mod 64"]) (auto simp: utf8Char_def byte_value byte_sum)
  next
    case 3
    have q: "c div 4096 = c div 64 div 64" using zdiv_zmult2_eq [of 64 c 64] by simp
    have surrogates: "c div 64 mod 64 < 32" if h: "c div 64 div 64 = 13"
    proof -
      have "c div 64 = 832 + c div 64 mod 64" using mult_div_mod_eq [of 64 "c div 64"] h by simp
      moreover have "c = 64 * (c div 64) + c mod 64" by simp
      moreover have "0 \<le> c mod 64" "c mod 64 < 64" "c div 64 mod 64 < 64" by simp_all
      ultimately show ?thesis using c(3) by linarith
    qed
    from 3 c show ?thesis
      by (intro three [of "c div 4096" "c div 64 mod 64" "c mod 64"]) (auto simp: utf8Char_def byte_value byte_sum q surrogates)
  next
    case 4
    have q: "c div 4096 = c div 64 div 64" "c div 262144 = c div 64 div 64 div 64"
      using zdiv_zmult2_eq [of 64 c 64] zdiv_zmult2_eq [of 64 c 4096] zdiv_zmult2_eq [of 64 "c div 64" 64] by simp_all
    have top: "c div 64 div 64 mod 64 < 16" if h: "c div 64 div 64 div 64 = 4"
    proof -
      have "c div 64 div 64 = 256 + c div 64 div 64 mod 64" using mult_div_mod_eq [of 64 "c div 64 div 64"] h by simp
      moreover have "c = 4096 * (c div 64 div 64) + c mod 4096" using q(1) by (metis mult_div_mod_eq)
      moreover have "0 \<le> c mod 4096" by simp
      ultimately show ?thesis using c(2) by linarith
    qed
    from 4 c show ?thesis
      by (intro four [of "c div 262144" "c div 4096 mod 64" "c div 64 mod 64" "c mod 64"]) (auto simp: utf8Char_def byte_value byte_sum q top)
  qed
qed

lemma utf8From_char: "scalar c \<Longrightarrow> utf8From 0 0 128 191 (map uint (utf8Char c) @ bs) = c # utf8From 0 0 128 191 bs"
  by (erule utf8Char_bytes) (auto simp: numeral_2_eq_2 numeral_3_eq_3)

lemma utf8From_utf8: "list_all scalar t \<Longrightarrow> utf8From 0 0 128 191 (map uint (utf8 t)) = t"
  by (induction t) (simp_all add: utf8_def utf8From_char)

lemma trim_prefix: "\<exists>rest. dropWhile isSpace t = trim t @ rest"
proof -
  let ?x = "dropWhile isSpace t"
  have "?x = rev (takeWhile isSpace (rev ?x) @ dropWhile isSpace (rev ?x))" by simp
  then show ?thesis unfolding trim_def by (metis rev_append)
qed

lemma trim_hd: "trim t \<noteq> [] \<Longrightarrow> \<not> isSpace (hd (trim t))"
  using trim_prefix [of t] hd_dropWhile [of isSpace t] by (metis Nil_is_append_conv hd_append2)

lemma dropWhile_head: "t = [] \<or> \<not> P (hd t) \<Longrightarrow> dropWhile P t = t"
  by (cases t) auto

lemma trim_trim: "trim (trim t) = trim t"
proof -
  have "dropWhile isSpace (trim t) = trim t" using trim_hd [of t] dropWhile_head by blast
  moreover have "dropWhile isSpace (rev (trim t)) = rev (trim t)" by (simp add: trim_def)
  ultimately show ?thesis by (simp add: trim_def [of "trim t"])
qed

lemma trim_set: "set (trim t) \<subseteq> set t"
  by (auto simp: trim_def dest!: set_dropWhileD)

lemma utf8_nonzero: "list_all scalar t \<Longrightarrow> 0 \<notin> set (utf8 t)"
proof (induction t)
  case (Cons c t)
  then have c: "scalar c" by simp
  have "0 \<notin> set (map uint (utf8Char c))" by (rule utf8Char_bytes [OF c]) (use c in \<open>auto simp: scalar_def\<close>)
  then have "0 \<notin> set (utf8Char c)" by (metis (mono_tags, lifting) imageI list.set_map uint_0_eq)
  with Cons show ?case by (simp add: utf8_def)
qed (simp add: utf8_def)

lemma takeWhile_padded: "0 \<notin> set bs \<Longrightarrow> takeWhile (\<lambda>b. b \<noteq> 0) (bs @ replicate k (0 :: u8)) = bs"
  by (induction bs) (auto simp: takeWhile_replicate)

text \<open>
  A goal's label reaches the chat as it was typed. The label the onboarding form encodes into the account's 32
  bytes, read from the account and decoded for a milestone's notice, is the text that was typed less its outer
  white space, for every text of scalar values without NUL that fits.
\<close>

theorem goal_label_read_back:
  assumes "goalLabelBytes label = Inr bs" "list_all scalar label" "uc_goalLabel u = bs"
  shows "goalLabel u = trim label"
proof -
  let ?t = "trim label"
  from assms(2) trim_set [of label] have t: "list_all scalar ?t" by (auto simp: list_all_iff)
  from assms(1) obtain k where "bs = utf8 ?t @ replicate k 0" by (auto simp: goalLabelBytes_def Let_def split: if_splits)
  with assms(3) have "takeWhile (\<lambda>b. b \<noteq> 0) (uc_goalLabel u) = utf8 ?t" by (simp add: takeWhile_padded utf8_nonzero [OF t])
  moreover have "utf8Decode (utf8 ?t) = ?t"
    using trim_hd [of label] by (auto simp: utf8Decode_def utf8From_utf8 [OF t] isSpace_def Let_def)
  ultimately show ?thesis by (simp add: goalLabel_def trim_trim)
qed

section \<open>Runs of the model\<close>

definition demoSweepRow :: "sweep_row \<times> double_bits" where
  "demoSweepRow = (\<lparr>sr_at = \<lparr>at_blockTimeMs = 1000, at_txSignature = ''sig'', at_slot = 5\<rparr>,
     sr_event = \<lparr>sw_user = ''U'', sw_paymentToken = 0, sw_asset = 0, sw_engine = 5000000, sw_pending = 0, sw_assetPrice = 1,
                 sw_assetExponent = 0, sw_received = 7, sw_minOut = 6\<rparr>, sr_eventIndex = 0, sr_feePayer = ''C''\<rparr>, 1)"

definition demoChat :: chat_link where
  "demoChat = \<lparr>tl_wallet = ''U'', tl_chatId = 5, tl_signature = ''S'', tl_linkedAt = 0, tl_revokedAt = None, tl_locale = ''en''\<rparr>"

definition demoSaver :: user_config where
  "demoSaver = demoUser\<lparr>uc_goalAmount := 10000000, uc_goalLabel := replicate 32 0, uc_pending := 0\<rparr>"

definition demoNoticeStart :: notice_state where
  "demoNoticeStart = \<lparr>ns_resumeAt = 0, ns_links = [demoChat], ns_handled = []\<rparr>"

definition demoSendGoal :: "notification \<Rightarrow> send_end" where
  "demoSendGoal n = (case no_key n of Goal_Key _ _ _ \<Rightarrow> Refused_Notice 429 (Some 3) | _ \<Rightarrow> Sent_Notice)"

definition demoEnv :: notice_env where
  "demoEnv = \<lparr>ne_now = 2000, ne_clock = 2001, ne_tables = \<lparr>nt_sweeps = [demoSweepRow], nt_events = [], nt_attempts = []\<rparr>,
     ne_config = Inr demoConfig, ne_users = Inr (\<lambda>_. Some demoSaver), ne_textLe = (\<le>), ne_tokens = [], ne_send = demoSendGoal\<rparr>"

definition demoPurchase :: notification where
  "demoPurchase = \<lparr>no_at = 1000, no_chatId = 5, no_key = Sweep_Key ''sig'' 0,
     no_text = Some (En, [Purchase_Line ''SPYX'' (7, 1, 8) ''USDC'' 5000000])\<rparr>"

definition demoGoal :: notification where
  "demoGoal = \<lparr>no_at = 1000, no_chatId = 5, no_key = Goal_Key ''U'' 10000000 50,
     no_text = Some (En, [Goal_Unnamed_Line 10000000 5000000 50])\<rparr>"

lemma demo_purchase: "purchase [] demoChat demoSweepRow 5000000 demoConfig (Some demoSaver) = Inr [demoPurchase, demoGoal]"
  by code_simp

lemma demo_notices: "snd (noticesTick demoEnv demoNoticeStart) = [demoPurchase]"
  by code_simp

theorem notice_only_linked_witness:
  "\<exists>l cfg users. sourced demoEnv demoNoticeStart cfg users l demoPurchase \<and> ne_config demoEnv = Inr cfg \<and> ne_users demoEnv = Inr users
     \<and> may_hear demoPurchase (users (tl_wallet l)) \<and> no_text demoPurchase \<noteq> None"
  by (rule notice_only_linked) (simp add: demo_notices)

theorem notice_sent_once_witness:
  "distinct (map chat_key (snd (noticeRun [Notify demoEnv, Restart_Notices, Notify demoEnv] demoNoticeStart)))"
proof (rule notice_sent_once)
  have "certain (Notify demoEnv)"
    by (simp add: certain_def demoEnv_def demoSendGoal_def split: notice_key.split)
  then show "\<forall>step \<in> set [Notify demoEnv, Restart_Notices, Notify demoEnv]. certain step" by (simp add: certain_def)
qed

text \<open>The milestone's notice, refused once, is not sent by the ticks that follow.\<close>

lemma demo_history:
  "text_order (\<le>)" "investedTo (\<le>) (ne_tables demoEnv) (fst demoSweepRow) = 5000000"
  "later_history (\<le>) demoSweepRow (investedTo (\<le>) (ne_tables demoEnv) (fst demoSweepRow)) demoEnv"
proof -
  show total: "investedTo (\<le>) (ne_tables demoEnv) (fst demoSweepRow) = 5000000"
    by (simp add: investedTo_def demoEnv_def demoSweepRow_def upTo_def)
  show "text_order (\<le>)" by (auto simp: text_order_def)
  show "later_history (\<le>) demoSweepRow (investedTo (\<le>) (ne_tables demoEnv) (fst demoSweepRow)) demoEnv"
    unfolding later_history_def total by (simp add: sweep_history_def demoEnv_def demoSweepRow_def investedTo_def upTo_def)
qed

theorem goal_notice_lost_witness:
  "\<exists>s'. deliverAll 2001 demoSendGoal [demoPurchase, demoGoal] demoNoticeStart = (s', [demoPurchase]) \<and> \<not> handled s' 5 (no_key demoGoal)
     \<and> chat_key demoGoal \<notin> chat_key ` set (snd (noticeRun [Notify demoEnv, Restart_Notices, Notify demoEnv] s'))"
proof -
  have "\<exists>s'. deliverAll 2001 demoSendGoal (demoPurchase # demoGoal # []) demoNoticeStart = (s', [demoPurchase])
      \<and> \<not> handled s' (no_chatId demoGoal) (no_key demoGoal)
      \<and> chat_key demoGoal \<notin> chat_key ` set (snd (noticeRun [Notify demoEnv, Restart_Notices, Notify demoEnv] s'))"
  proof (rule goal_notice_lost)
    show "purchase [] demoChat demoSweepRow (investedTo (\<le>) (ne_tables demoEnv) (fst demoSweepRow)) demoConfig (Some demoSaver)
        = Inr [demoPurchase, demoGoal]"
      unfolding demo_history(2) by (rule demo_purchase)
    show "demoSendGoal demoGoal = Refused_Notice 429 (Some 3)" by (simp add: demoSendGoal_def demoGoal_def)
    show "\<forall>e. Notify e \<in> set [Notify demoEnv, Restart_Notices, Notify demoEnv] \<longrightarrow>
        later_history (\<le>) demoSweepRow (investedTo (\<le>) (ne_tables demoEnv) (fst demoSweepRow)) e"
      using demo_history(3) by simp
  qed (simp_all add: demoNoticeStart_def handled_def demoSendGoal_def demoPurchase_def demo_history(1))
  then show ?thesis by (simp add: demoGoal_def)
qed

theorem goal_label_read_back_witness:
  "goalLabel (demoSaver\<lparr>uc_goalLabel := utf8 (jsText ''Casa'') @ replicate 28 0\<rparr>) = jsText ''Casa''"
proof -
  have "goalLabelBytes (jsText '' Casa'') = Inr (utf8 (jsText ''Casa'') @ replicate 28 0)" by code_simp
  moreover have "list_all scalar (jsText '' Casa'')" by code_simp
  moreover have "trim (jsText '' Casa'') = jsText ''Casa''" by code_simp
  ultimately show ?thesis
    using goal_label_read_back [of "jsText '' Casa''" _ "demoSaver\<lparr>uc_goalLabel := utf8 (jsText ''Casa'') @ replicate 28 0\<rparr>"] by simp
qed

end
