(* ===== verification/Dashboard.thy ===== *)
theory Dashboard
  imports Sweep_Builder Demo_Cluster
begin

text \<open>
  What the dashboard tells a user of the week and of the next purchase (\<open>apps/app/lib/dashboard.ts\<close>). The lemmas
  compare the announced time with the rules that decide a sweep, and show where it is too early.
\<close>

section \<open>The code\<close>

record week_view =
  wv_cap :: int
  wv_resetsAt :: int
  wv_spent :: int

definition weekView :: "user_config \<Rightarrow> int \<Rightarrow> int \<Rightarrow> week_view" where
  "weekView u betaCap now =
     \<lparr>wv_cap = weeklyCap u betaCap now, wv_resetsAt = uc_enrolledAt u + (weekAt u now + 1) * WEEK_SECONDS, wv_spent = spentAt u now\<rparr>"

datatype next_buy = Buy_Paused | Buy_Income | Buy_Soon | Buy_At int | Buy_Hold

text \<open>The weekly user's branch: whether a purchase is due this week, and the session it waits for.\<close>

definition weeklyDue :: "user_config \<Rightarrow> int \<Rightarrow> bool" where
  "weeklyDue u now =
     (let ranThisWeek = (uc_engineRanAt u \<ge> uc_enrolledAt u \<and> weekAt u (uc_engineRanAt u) = weekAt u now)
      in uc_pending u > 0 \<or> \<not> ranThisWeek)"

definition weeklyFrom :: "user_config \<Rightarrow> int \<Rightarrow> int" where
  "weeklyFrom u now = (if weeklyDue u now then now else uc_enrolledAt u + (weekAt u now + 1) * WEEK_SECONDS)"

definition nextBuy :: "user_config \<Rightarrow> market_calendar \<Rightarrow> int \<Rightarrow> next_buy" where
  "nextBuy u calendar now =
     (if uc_status u = Paused then Buy_Paused
      else let scheduled = uc_engineAmount u > 0; waiting = uc_pending u > 0
      in if \<not> scheduled \<and> \<not> waiting then Buy_Income
         else if uc_engine u = Daily
         then if waiting \<or> engineDue u calendar now then Buy_Soon
              else Buy_At ((divEuclid now DAY_SECONDS + 1) * DAY_SECONDS)
         else let today = divEuclid now DAY_SECONDS
              in if today < firstDay calendar \<or> today > validThrough calendar then Buy_Hold
                 else case nextMarketSession (weeklyFrom u now) calendar of
                        None \<Rightarrow> Buy_Hold
                      | Some session \<Rightarrow> if session_open session \<le> now then Buy_Soon else Buy_At (session_open session))"

section \<open>When a purchase can happen\<close>

text \<open>What the sweep builder requires of the user's rules at \<open>t\<close>, whatever the balances and the caps.\<close>

definition can_buy :: "user_config \<Rightarrow> market_calendar \<Rightarrow> int \<Rightarrow> bool" where
  "can_buy u calendar t \<longleftrightarrow> 0 < wanted u calendar t \<and> (uc_engine u = Weekly \<longrightarrow> usMarketOpen t calendar)"

lemma sweep_needs_can_buy:
  assumes "getSweepPull s = Inr p" "amounts_ok (ss_userConfig s)"
  shows "can_buy (ss_userConfig s) (marketCalendar (ss_config s)) (ss_now s)"
proof -
  from getSweepPull_Inr(3) [OF assms(1)] have "pullTotal (enginePull s) \<noteq> 0" .
  moreover have "0 \<le> wanted (ss_userConfig s) (marketCalendar (ss_config s)) (ss_now s)"
    using assms(2) by (simp add: wanted_def amounts_ok_def)
  ultimately have "0 < wanted (ss_userConfig s) (marketCalendar (ss_config s)) (ss_now s)"
    unfolding enginePull_def Let_def pullTotal_pull [OF assms(2)]
    by (metis min.absorb1 order_le_less pull_room_nonneg)
  with getSweepPull_Inr(8) [OF assms(1)] show ?thesis by (simp add: can_buy_def)
qed

text \<open>
  What the schedule says nothing of, in a state of the chain: the program and the token are open, the token was not
  swept today, the week's cap and the balance over the cushion leave room, and the subscription and the approval carry
  it. In such a state the sweep is built exactly when the schedule wants one.
\<close>

definition funded :: "sweep_state \<Rightarrow> bool" where
  "funded s \<longleftrightarrow>
     (let u = ss_userConfig s; now = ss_now s; token = ss_paymentToken s;
          balance = (case ss_paymentAccountState s of Some a \<Rightarrow> ta_amount a | None \<Rightarrow> 0);
          room = pull_room u token balance (userWeeklyCap (ss_config s)) now
      in \<not> cfg_paused (ss_config s) \<and> nth_opt (cfg_paymentTokens (ss_config s)) token \<noteq> None \<and> hasToken (uc_paymentTokens u) token
         \<and> \<not> (case nth_opt (uc_lastSweepDay u) token of None \<Rightarrow> False | Some d \<Rightarrow> todayU32 now \<le> d)
         \<and> 0 < room \<and> isRunning (ss_subscription s) now \<and> 0 < nativeRemaining (ss_subscription s) now
         \<and> map_option sa_initId (ss_authorityState s) = map_option sub_initId (ss_subscription s)
         \<and> (case ss_paymentAccountState s of None \<Rightarrow> False
             | Some a \<Rightarrow> \<not> ta_frozen a \<and> ta_delegate a = Some (ss_authority s) \<and> room \<le> ta_delegatedAmount a))"

lemma funded_sweeps:
  assumes "funded s" "amounts_ok (ss_userConfig s)" "can_buy (ss_userConfig s) (marketCalendar (ss_config s)) (ss_now s)"
  shows "\<exists>p. getSweepPull s = Inr p"
proof -
  obtain a where a: "ss_paymentAccountState s = Some a" "\<not> ta_frozen a" "ta_delegate a = Some (ss_authority s)"
    "pull_room (ss_userConfig s) (ss_paymentToken s) (ta_amount a) (userWeeklyCap (ss_config s)) (ss_now s) \<le> ta_delegatedAmount a"
    "0 < pull_room (ss_userConfig s) (ss_paymentToken s) (ta_amount a) (userWeeklyCap (ss_config s)) (ss_now s)"
    using assms(1) by (auto simp: funded_def Let_def split: option.splits)
  let ?native = "nativeRemaining (ss_subscription s) (ss_now s)"
  have engine: "pullTotal (enginePull s) = min (wanted (ss_userConfig s) (marketCalendar (ss_config s)) (ss_now s))
      (pull_room (ss_userConfig s) (ss_paymentToken s) (ta_amount a) (userWeeklyCap (ss_config s)) (ss_now s))"
    unfolding enginePull_def Let_def a(1) option.case by (rule pullTotal_pull [OF assms(2)])
  have "0 \<le> pull_engine (enginePull s)" "0 \<le> pull_pending (enginePull s)"
    unfolding enginePull_def Let_def using pull_parts [OF assms(2)] by simp_all
  moreover have native: "0 < ?native" using assms(1) by (simp add: funded_def Let_def)
  ultimately have capped: "pullTotal (cappedPull (enginePull s) ?native) = min (pullTotal (enginePull s)) ?native"
    by (intro cappedPull_total) simp_all
  have "0 < wanted (ss_userConfig s) (marketCalendar (ss_config s)) (ss_now s)" using assms(3) by (simp add: can_buy_def)
  then have "pullTotal (enginePull s) \<noteq> 0" "pullTotal (cappedPull (enginePull s) ?native) \<noteq> 0"
    "pullTotal (cappedPull (enginePull s) ?native) \<le> ta_delegatedAmount a"
    using engine capped native a(4,5) by auto
  moreover have "\<not> (uc_engine (ss_userConfig s) = Weekly \<and> \<not> usMarketOpen (ss_now s) (marketCalendar (ss_config s)))"
    using assms(3) by (simp add: can_buy_def)
  ultimately show ?thesis
    using assms(1) a by (auto simp: getSweepPull_def funded_def Let_def result_simps)
qed

text \<open>For a user's rules and calendar at \<open>t\<close>: every funded state sweeps, and no state at all does.\<close>

definition sweeps_at :: "user_config \<Rightarrow> market_calendar \<Rightarrow> int \<Rightarrow> bool" where
  "sweeps_at u calendar t \<longleftrightarrow>
     (\<forall>s. ss_userConfig s = u \<and> marketCalendar (ss_config s) = calendar \<and> ss_now s = t \<and> funded s \<longrightarrow> (\<exists>p. getSweepPull s = Inr p))"

definition no_sweep_at :: "user_config \<Rightarrow> market_calendar \<Rightarrow> int \<Rightarrow> bool" where
  "no_sweep_at u calendar t \<longleftrightarrow>
     (\<forall>s. ss_userConfig s = u \<and> marketCalendar (ss_config s) = calendar \<and> ss_now s = t \<longrightarrow> (\<exists>e. getSweepPull s = Inl e))"

lemma sweeps_can_buy: "amounts_ok u \<Longrightarrow> can_buy u c t \<Longrightarrow> sweeps_at u c t"
  using funded_sweeps by (auto simp: sweeps_at_def)

lemma no_sweep_can_buy: "amounts_ok u \<Longrightarrow> \<not> can_buy u c t \<Longrightarrow> no_sweep_at u c t"
  unfolding no_sweep_at_def using sweep_needs_can_buy by (metis sumE)

text \<open>A state the program allows: times in order, a calendar whose days are 32-bit numbers.\<close>

definition settled :: "user_config \<Rightarrow> market_calendar \<Rightarrow> int \<Rightarrow> bool" where
  "settled u calendar now \<longleftrightarrow> amounts_ok u \<and> 0 \<le> uc_enrolledAt u \<and> uc_enrolledAt u \<le> now \<and> uc_engineRanAt u \<le> now
     \<and> validThrough calendar < 2 ^ 31"

definition resets :: "user_config \<Rightarrow> int \<Rightarrow> int" where
  "resets u now = uc_enrolledAt u + (weekAt u now + 1) * WEEK_SECONDS"

text \<open>Up to the last day a calendar can hold, the week counter is the number of whole weeks.\<close>

lemma weekAt_plain:
  "0 \<le> uc_enrolledAt u \<Longrightarrow> uc_enrolledAt u \<le> t \<Longrightarrow> t < 2 ^ 31 * 86400 + 86400 \<Longrightarrow> weekAt u t = (t - uc_enrolledAt u) div 604800"
proof -
  assume t: "0 \<le> uc_enrolledAt u" "uc_enrolledAt u \<le> t" "t < 2 ^ 31 * 86400 + 86400"
  then have "(t - uc_enrolledAt u) div 604800 \<le> t div 604800" by (intro zdiv_mono1) simp_all
  also have "t div 604800 < 2 ^ 32" using t(3) by simp
  finally show ?thesis using t(2) by (simp add: weekAt_floor max_def)
qed

lemma weekAt_same:
  assumes "0 \<le> uc_enrolledAt u" "uc_enrolledAt u \<le> now" "now \<le> t" "t < resets u now"
  shows "weekAt u t = weekAt u now"
proof -
  have "t < b" if "b \<in> set (week_boundaries u now)" for b
    using that assms by (simp add: week_boundaries_def resets_def)
  from elapsed_weeks_steady(1) [OF assms(3) this] show ?thesis by (simp add: weekAt_floor)
qed

lemma weekAt_less:
  assumes "0 \<le> uc_enrolledAt u" "uc_enrolledAt u \<le> now" "now < 2 ^ 31 * 86400 + 86400"
  shows "now < resets u now" "resets u now \<le> t \<Longrightarrow> t < 2 ^ 31 * 86400 + 86400 \<Longrightarrow> weekAt u now < weekAt u t"
proof -
  note plain = weekAt_plain [OF assms]
  have bounds: "weekAt u now * 604800 \<le> now - uc_enrolledAt u" "now - uc_enrolledAt u < (weekAt u now + 1) * 604800"
    using div_bucket_iff [of 604800 "now - uc_enrolledAt u" "weekAt u now"] plain by simp_all
  then show less: "now < resets u now" by (simp add: resets_def WEEK_SECONDS_def)
  assume t: "resets u now \<le> t" "t < 2 ^ 31 * 86400 + 86400"
  with less assms have "weekAt u t = (t - uc_enrolledAt u) div 604800" by (intro weekAt_plain) simp_all
  moreover have "(weekAt u now + 1) * 604800 div 604800 \<le> (t - uc_enrolledAt u) div 604800"
    using t(1) by (intro zdiv_mono1) (simp_all add: resets_def WEEK_SECONDS_def)
  ultimately show "weekAt u now < weekAt u t" by simp
qed

lemma weekAt_mono:
  assumes "0 \<le> uc_enrolledAt u" "uc_enrolledAt u \<le> s" "s \<le> t" "t < 2 ^ 31 * 86400 + 86400"
  shows "weekAt u s \<le> weekAt u t"
  using assms by (simp add: weekAt_plain zdiv_mono1)

section \<open>The weekly user\<close>

lemma session_bounds:
  assumes "marketSession d c = Some s" "validThrough c < 2 ^ 31"
  shows "session_open s < session_close s" "session_close s < 2 ^ 31 * 86400 + 86400" "usMarketOpen (session_open s) c"
proof -
  note times = marketSession_within_day [OF assms(1)]
  from times show less: "session_open s < session_close s" by (auto simp: market_times_def)
  have "d \<le> validThrough c" using assms(1) by (auto simp: marketSession_def split: if_splits)
  with times assms(2) show "session_close s < 2 ^ 31 * 86400 + 86400" by (auto simp: market_times_def)
  from less assms(1) show "usMarketOpen (session_open s) c" by (auto simp: usMarketOpen_some_session)
qed

text \<open>Nothing more is due in a week the engine ran in, with nothing waiting.\<close>

lemma week_done:
  assumes "settled u c now" "\<not> weeklyDue u now" "now \<le> t" "t < resets u now" "uc_engine u = Weekly"
  shows "wanted u c t = 0"
proof -
  from assms(1) have u: "0 \<le> uc_enrolledAt u" "uc_enrolledAt u \<le> now" "0 \<le> uc_pending u" by (simp_all add: settled_def amounts_ok_def)
  from assms(2) u(3) have "uc_pending u = 0" "uc_engineRanAt u \<ge> uc_enrolledAt u" "weekAt u (uc_engineRanAt u) = weekAt u now"
    by (simp_all add: weeklyDue_def Let_def)
  with weekAt_same [OF u(1,2) assms(3,4)] assms(5) show ?thesis by (simp add: wanted_def engineDue_def Let_def)
qed

text \<open>At an open market, from the time the dashboard reckons with on, a purchase can happen.\<close>

lemma due_at:
  assumes "settled u c now" "uc_status u = Active" "uc_engine u = Weekly" "uc_engineAmount u > 0 \<or> uc_pending u > 0"
    "weeklyFrom u now \<le> t" "now \<le> t" "t < 2 ^ 31 * 86400 + 86400" "usMarketOpen t c"
  shows "can_buy u c t"
proof -
  from assms(1) have u: "0 \<le> uc_enrolledAt u" "uc_enrolledAt u \<le> now" "0 \<le> uc_pending u" "0 \<le> uc_engineAmount u" "uc_engineRanAt u \<le> now"
    by (simp_all add: settled_def amounts_ok_def)
  have "engineDue u c t" if none: "uc_pending u = 0"
  proof (cases "uc_enrolledAt u \<le> uc_engineRanAt u")
    case True
    have "weekAt u (uc_engineRanAt u) < weekAt u t"
    proof (cases "weeklyDue u now")
      case due: True
      with none True have "weekAt u (uc_engineRanAt u) \<noteq> weekAt u now" by (simp add: weeklyDue_def Let_def)
      moreover have "weekAt u (uc_engineRanAt u) \<le> weekAt u now" "weekAt u now \<le> weekAt u t"
        using weekAt_mono [of u] u True assms(6,7) by simp_all
      ultimately show ?thesis by linarith
    next
      case False
      then have "weekAt u (uc_engineRanAt u) = weekAt u now" "resets u now \<le> t"
        using assms(5) none by (simp_all add: weeklyDue_def weeklyFrom_def resets_def Let_def split: if_splits)
      with weekAt_less(2) [OF u(1,2), of t] assms(6,7) show ?thesis by simp
    qed
    with assms(3,8) show ?thesis by (simp add: engineDue_def)
  next
    case False
    with assms(3,8) show ?thesis by (simp add: engineDue_def)
  qed
  with assms(2,3,4,8) u(3,4) show ?thesis by (cases "uc_pending u = 0") (auto simp: can_buy_def wanted_def)
qed

lemma closed_cannot: "uc_engine u = Weekly \<Longrightarrow> \<not> usMarketOpen t c \<Longrightarrow> \<not> can_buy u c t"
  by (simp add: can_buy_def)

text \<open>Before the session it waits for, nothing can be bought.\<close>

lemma not_before:
  assumes "settled u c now" "uc_engine u = Weekly" "now \<le> t"
    "case nextMarketSession (weeklyFrom u now) c of None \<Rightarrow> True | Some s \<Rightarrow> t < session_open s"
  shows "\<not> can_buy u c t"
proof (cases "weeklyFrom u now \<le> t")
  case True
  have "\<not> usMarketOpen t c"
  proof (cases "nextMarketSession (weeklyFrom u now) c")
    case None
    from market_closed_for_good [OF None True] show ?thesis .
  next
    case (Some s)
    from market_closed_before_next [OF Some True] assms(4) Some show ?thesis by simp
  qed
  with assms(2) show ?thesis by (rule closed_cannot)
next
  case False
  with assms(3) have "\<not> weeklyDue u now" "t < resets u now" by (auto simp: weeklyFrom_def resets_def split: if_splits)
  with week_done [OF assms(1)] assms(2,3) show ?thesis by (simp add: can_buy_def)
qed

text \<open>The one case the announcement is wrong in: the week resets while the next session is open.\<close>

definition resets_in_session :: "user_config \<Rightarrow> market_calendar \<Rightarrow> int \<Rightarrow> bool" where
  "resets_in_session u c now =
     (uc_engine u = Weekly \<and> \<not> weeklyDue u now
      \<and> (case nextMarketSession (resets u now) c of None \<Rightarrow> False | Some s \<Rightarrow> session_open s < resets u now))"

definition announced_sweeps :: "user_config \<Rightarrow> market_calendar \<Rightarrow> int \<Rightarrow> bool" where
  "announced_sweeps u c now =
     (case nextBuy u c now of
        Buy_Paused \<Rightarrow> False
      | Buy_Income \<Rightarrow> \<forall>t. no_sweep_at u c t
      | Buy_Soon \<Rightarrow> sweeps_at u c now
      | Buy_At t \<Rightarrow> now < t \<and> sweeps_at u c t \<and> (\<forall>x. now \<le> x \<and> x < t \<longrightarrow> no_sweep_at u c x)
      | Buy_Hold \<Rightarrow> no_sweep_at u c now \<and> (firstDay c \<le> now div 86400 \<longrightarrow> (\<forall>x \<ge> now. no_sweep_at u c x)))"

definition announced_right :: "user_config \<Rightarrow> market_calendar \<Rightarrow> int \<Rightarrow> bool" where
  "announced_right u c now =
     (case nextBuy u c now of
        Buy_Paused \<Rightarrow> False
      | Buy_Income \<Rightarrow> \<forall>t. \<not> can_buy u c t
      | Buy_Soon \<Rightarrow> can_buy u c now
      | Buy_At t \<Rightarrow> now < t \<and> can_buy u c t \<and> (\<forall>x. now \<le> x \<and> x < t \<longrightarrow> \<not> can_buy u c x)
      | Buy_Hold \<Rightarrow> \<not> can_buy u c now \<and> (firstDay c \<le> now div 86400 \<longrightarrow> (\<forall>x \<ge> now. \<not> can_buy u c x)))"

lemma announced_right_sweeps: "amounts_ok u \<Longrightarrow> announced_right u c now \<Longrightarrow> announced_sweeps u c now"
  unfolding announced_right_def announced_sweeps_def
  by (cases "nextBuy u c now") (auto simp: sweeps_can_buy intro: no_sweep_can_buy)

lemma weekly_right:
  assumes u: "settled u c now" "uc_status u = Active" "uc_engine u = Weekly" "\<not> resets_in_session u c now"
    and wants: "uc_engineAmount u > 0 \<or> uc_pending u > 0"
  shows "announced_right u c now"
proof -
  have today: "divEuclid now 86400 = now div 86400" by (simp add: divEuclid_floor)
  consider (early) "now div 86400 < firstDay c" | (late) "firstDay c \<le> now div 86400" "validThrough c < now div 86400"
    | (covered) "firstDay c \<le> now div 86400" "now div 86400 \<le> validThrough c" by linarith
  then show ?thesis
  proof cases
    case early
    with u wants have "nextBuy u c now = Buy_Hold" by (simp add: nextBuy_def Let_def today)
    moreover from early have "\<not> usMarketOpen now c" by (simp add: usMarketOpen_def divEuclid_floor marketSession_def)
    ultimately show ?thesis using early u(3) by (simp add: announced_right_def closed_cannot)
  next
    case late
    with u wants have "nextBuy u c now = Buy_Hold" by (simp add: nextBuy_def Let_def today)
    moreover have "\<not> usMarketOpen x c" if "now \<le> x" for x
    proof -
      from that have "now div 86400 \<le> x div 86400" by (intro zdiv_mono1) simp_all
      with late(2) show ?thesis by (simp add: usMarketOpen_def divEuclid_floor marketSession_def)
    qed
    ultimately show ?thesis using u(3) by (simp add: announced_right_def closed_cannot)
  next
    case covered
    have valid: "validThrough c < 2 ^ 31" using u(1) by (simp add: settled_def)
    have now: "now < 2 ^ 31 * 86400 + 86400"
      using covered(2) valid div_bucket_iff [of 86400 now "now div 86400"] by auto
    have enrolled: "0 \<le> uc_enrolledAt u" "uc_enrolledAt u \<le> now" using u(1) by (simp_all add: settled_def)
    have buy: "nextBuy u c now = (case nextMarketSession (weeklyFrom u now) c of None \<Rightarrow> Buy_Hold
       | Some s \<Rightarrow> if session_open s \<le> now then Buy_Soon else Buy_At (session_open s))"
      using covered u(2,3) wants by (auto simp: nextBuy_def Let_def today)
    show ?thesis
    proof (cases "nextMarketSession (weeklyFrom u now) c")
      case None
      with buy have "nextBuy u c now = Buy_Hold" by simp
      with not_before [OF u(1,3)] None show ?thesis by (simp add: announced_right_def)
    next
      case (Some s)
      then obtain d where d: "marketSession d c = Some s" "weeklyFrom u now < session_close s" by (rule nextMarketSession_Some)
      note bounds = session_bounds [OF d(1) valid]
      have opens: "weeklyFrom u now \<le> max now (session_open s)"
        using u(3,4) Some by (auto simp: resets_in_session_def weeklyFrom_def resets_def split: if_splits)
      show ?thesis
      proof (cases "session_open s \<le> now")
        case True
        with opens weekAt_less(1) [OF enrolled now] have "weeklyFrom u now = now"
          by (auto simp: weeklyFrom_def resets_def split: if_splits)
        with d(2) True d(1) have "usMarketOpen now c" by (auto simp: usMarketOpen_some_session)
        with due_at [OF u(1-3) wants] \<open>weeklyFrom u now = now\<close> now have "can_buy u c now" by simp
        with Some True show ?thesis by (simp add: announced_right_def buy)
      next
        case False
        with opens have "weeklyFrom u now \<le> session_open s" by simp
        with due_at [OF u(1-3) wants, of "session_open s"] bounds False have "can_buy u c (session_open s)" by simp
        with not_before [OF u(1,3)] Some False show ?thesis by (simp add: announced_right_def buy)
      qed
    qed
  qed
qed

section \<open>The daily user, and the properties\<close>

lemma daily_right:
  assumes u: "settled u c now" "uc_status u = Active" "uc_engine u = Daily" and wants: "uc_engineAmount u > 0 \<or> uc_pending u > 0"
  shows "announced_right u c now"
proof (cases "uc_pending u > 0 \<or> engineDue u c now")
  case True
  with u wants have "nextBuy u c now = Buy_Soon" by (auto simp: nextBuy_def Let_def)
  moreover have "can_buy u c now"
    using True wants u by (auto simp: can_buy_def wanted_def settled_def amounts_ok_def engineDue_def split: if_splits)
  ultimately show ?thesis by (simp add: announced_right_def)
next
  case False
  let ?t = "(now div 86400 + 1) * 86400"
  have amounts: "0 \<le> uc_pending u" "uc_engineRanAt u \<le> now" using u(1) by (simp_all add: settled_def amounts_ok_def)
  from False u wants have "nextBuy u c now = Buy_At ?t" by (auto simp: nextBuy_def Let_def divEuclid_floor)
  moreover have ran: "uc_enrolledAt u \<le> uc_engineRanAt u" "now div 86400 \<le> uc_engineRanAt u div 86400"
    using False u(3) by (auto simp: engineDue_def Let_def divEuclid_floor)
  then have day: "uc_engineRanAt u div 86400 = now div 86400" using zdiv_mono1 [OF amounts(2), of 86400] by simp
  have "\<not> can_buy u c x" if "now \<le> x" "x < ?t" for x
  proof -
    from that have "x div 86400 = now div 86400" by (intro div_same_bucket) simp_all
    with day ran False amounts(1) u(3) show ?thesis by (simp add: can_buy_def wanted_def engineDue_def divEuclid_floor)
  qed
  moreover have "can_buy u c ?t"
  proof -
    have "engineDue u c ?t" using u(3) day by (simp add: engineDue_def divEuclid_floor)
    with u(2,3) wants False amounts(1) show ?thesis by (auto simp: can_buy_def wanted_def)
  qed
  moreover have "now < ?t" using div_bucket_iff [of 86400 now "now div 86400"] by simp
  ultimately show ?thesis by (simp add: announced_right_def)
qed

lemma next_buy_right:
  assumes "settled u c now" "uc_status u = Active" "\<not> resets_in_session u c now"
  shows "announced_right u c now"
proof (cases "uc_engineAmount u > 0 \<or> uc_pending u > 0")
  case False
  then have "nextBuy u c now = Buy_Income" using assms(2) by (simp add: nextBuy_def Let_def)
  moreover have "\<not> can_buy u c t" for t using False assms(1) by (auto simp: can_buy_def wanted_def settled_def amounts_ok_def)
  ultimately show ?thesis by (simp add: announced_right_def)
next
  case True
  with assms weekly_right daily_right show ?thesis by (cases "uc_engine u") auto
qed


text \<open>The announcement and a spent cap: "soon", but no sweep.\<close>

lemma soon_with_cap_spent:
  assumes "weeklyCap u (userWeeklyCap (ss_config s)) (ss_now s) \<le> spentAt u (ss_now s)" "ss_userConfig s = u" "amounts_ok u"
  shows "\<exists>e. getSweepPull s = Inl e"
proof (rule ccontr)
  assume "\<not> ?thesis"
  then obtain p where "getSweepPull s = Inr p" by (metis sumE)
  then have some: "pullTotal (enginePull s) \<noteq> 0" by (rule getSweepPull_Inr(3))
  have room: "pull_room u t b (userWeeklyCap (ss_config s)) (ss_now s) = 0" for t b
    using pull_room_le_cap [of u t b "userWeeklyCap (ss_config s)" "ss_now s"] pull_room_nonneg [of u t b "userWeeklyCap (ss_config s)" "ss_now s"]
      assms(1) by (simp add: saturatingSub_def split: if_splits)
  have "0 \<le> wanted u (marketCalendar (ss_config s)) (ss_now s)" using assms(3) by (simp add: wanted_def amounts_ok_def)
  then have "pullTotal (enginePull s) = 0"
    unfolding enginePull_def Let_def assms(2) pullTotal_pull [OF assms(3)] room by simp
  with some show False by simp
qed


section \<open>Witnesses\<close>

text \<open>Tuesday 2026-07-07, an open calendar; the week of the second user resets at 11:00 in New York.\<close>

definition demoDays :: market_calendar where
  "demoDays = \<lparr>firstDay = 20000, validThrough = 21000, holidays = replicate 126 0, earlyCloses = replicate 126 0\<rparr>"

definition demoWeekly :: "int \<Rightarrow> user_config" where
  "demoWeekly enrolled = demoUser\<lparr>uc_engine := Weekly, uc_pending := 0, uc_enrolledAt := enrolled, uc_engineRanAt := enrolled + 100\<rparr>"

text \<open>A state of the first user with room, at the opening the dashboard announces.\<close>

definition demoFunded :: sweep_state where
  "demoFunded = \<lparr>ss_authority = ''AUTH'', ss_authorityState = Some \<lparr>sa_payer = ''S'', sa_initId = 4\<rparr>,
     ss_config = demoConfig\<lparr>marketCalendar := demoDays\<rparr>, ss_now = 1783517400, ss_paymentAccount = ''ACC'',
     ss_paymentAccountState = Some \<lparr>ta_amount = 20000000, ta_delegate = Some ''AUTH'', ta_delegatedAmount = 9000000000, ta_frozen = False\<rparr>,
     ss_paymentToken = 0, ss_subscription = Some \<lparr>sub_delegatee = ''P'', sub_payer = ''S'', sub_initId = 4, sub_amount = 10000000,
        sub_periodHours = 168, sub_amountPulledInPeriod = 3000000, sub_currentPeriodStartTs = 1783000000, sub_expiresAtTs = 0\<rparr>,
     ss_user = ''U'', ss_userConfig = demoWeekly 1782900000\<rparr>"



end
