(* ===== verification/Preview.thy ===== *)
theory Preview
  imports Dashboard Onboarding_Choices
begin

text \<open>
  The onboarding preview (\<open>apps/app/lib/preview.ts\<close>): the account a wallet would join with, the sweeps of a span of
  time by the program's own rules, and what a payday would invest this week and the next. The lemmas bound what is
  announced by the week's cap and account for every unit.
\<close>

section \<open>The code\<close>

definition PAYDAY :: int where "PAYDAY = 1000 * DOLLAR"

datatype preview_binding = Binding_Balance | Binding_Cap | Binding_Rules

record preview =
  pv_invested :: int
  pv_cap :: int
  pv_trial :: bool
  pv_binding :: preview_binding
  pv_waits :: int
  pv_nextWeek :: int

definition joinedAccount :: "address \<Rightarrow> enroll_params \<Rightarrow> user_config option \<Rightarrow> int \<Rightarrow> user_config" where
  "joinedAccount user p account now =
     (case account of
        Some a \<Rightarrow>
          a\<lparr>uc_asset := ep_asset p, uc_changeMultiplier := ep_changeMultiplier p, uc_cushions := ep_cushions p,
            uc_engine := ep_engine p, uc_engineAmount := ep_engineAmount p, uc_goalAmount := ep_goalAmount p,
            uc_goalLabel := ep_goalLabel p, uc_incomeRule := ep_incomeRule p, uc_paymentTokens := ep_paymentTokens p,
            uc_tier := ep_tier p, uc_attestableFrom := now, uc_pending := 0, uc_status := Active\<rparr>
      | None \<Rightarrow>
          \<lparr>uc_user = user, uc_tier = ep_tier p, uc_paymentTokens = ep_paymentTokens p, uc_asset = ep_asset p,
           uc_engine = ep_engine p, uc_engineAmount = ep_engineAmount p, uc_incomeRule = ep_incomeRule p,
           uc_changeMultiplier = ep_changeMultiplier p, uc_cushions = ep_cushions p, uc_enrolledAt = now,
           uc_goalAmount = ep_goalAmount p, uc_goalLabel = ep_goalLabel p, uc_bump = 0, uc_week = 0, uc_weekSpent = 0,
           uc_engineRanAt = 0, uc_pending = 0, uc_status = Active, uc_attestableFrom = now, uc_lastSweepDay = [0, 0]\<rparr>)"

text \<open>The user and the balances as the simulated sweeps change them, and the total pulled.\<close>

record spree =
  sp_user :: user_config
  sp_balances :: "int list"
  sp_total :: int

text \<open>A balance that is not given compares as false, so nothing is pulled from it.\<close>

definition buyToken :: "config \<Rightarrow> int \<Rightarrow> spree \<Rightarrow> int \<Rightarrow> spree" where
  "buyToken cfg at s token =
     (case nth_opt (sp_balances s) token of
        None \<Rightarrow> s
      | Some balance \<Rightarrow>
          let u = sp_user s; p = pull u token balance (userWeeklyCap cfg) (marketCalendar cfg) at; amount = pullTotal p
          in if amount = 0 then s
             else \<lparr>sp_user = u\<lparr>uc_weekSpent := spentAt u at + amount, uc_week := weekAt u at,
                               uc_engineRanAt := (if pull_engine p > 0 then at else uc_engineRanAt u),
                               uc_pending := uc_pending u - pull_pending p\<rparr>,
                   sp_balances = (sp_balances s)[nat token := balance - amount], sp_total = sp_total s + amount\<rparr>)"

definition buyTokens :: "config \<Rightarrow> int \<Rightarrow> spree \<Rightarrow> spree" where
  "buyTokens cfg at s = foldl (buyToken cfg at) s (enabledPaymentTokens (uc_paymentTokens (sp_user s)))"

text \<open>The first instant of a day at which a sweep can pull, none if there is none before \<open>until\<close>.\<close>

definition firstInstant :: "user_config \<Rightarrow> market_calendar \<Rightarrow> int \<Rightarrow> int \<Rightarrow> int \<Rightarrow> int option" where
  "firstInstant u calendar day start until =
     (let at = (if day * DAY_SECONDS > start then day * DAY_SECONDS else start);
          opened = (if uc_engine u = Weekly
                    then case marketSession day calendar of
                           None \<Rightarrow> None
                         | Some session \<Rightarrow> if at \<ge> session_close session then None else Some (max at (session_open session))
                    else Some at)
      in case opened of None \<Rightarrow> None | Some at \<Rightarrow> if at \<ge> until then None else Some at)"

function sweepDays :: "config \<Rightarrow> int \<Rightarrow> int \<Rightarrow> int \<Rightarrow> spree \<Rightarrow> spree" where
  "sweepDays cfg day start until s =
     (if day * DAY_SECONDS < until
      then sweepDays cfg (day + 1) start until
             (case firstInstant (sp_user s) (marketCalendar cfg) day start until of None \<Rightarrow> s | Some at \<Rightarrow> buyTokens cfg at s)
      else s)"
  by pat_completeness auto
termination by (relation "measure (\<lambda>(cfg, day, start, until, s). nat (until - day * 86400))") (auto simp: DAY_SECONDS_def)

declare sweepDays.simps [simp del]

definition sweepThrough :: "user_config \<Rightarrow> int list \<Rightarrow> config \<Rightarrow> int \<Rightarrow> int \<Rightarrow> spree" where
  "sweepThrough u balances cfg start until =
     sweepDays cfg (divEuclid start DAY_SECONDS) start until \<lparr>sp_user = u, sp_balances = balances, sp_total = 0\<rparr>"

definition addPayday :: "user_config \<Rightarrow> int list \<Rightarrow> int list outcome" where
  "addPayday u balances =
     (case enabledPaymentTokens (uc_paymentTokens u) of
        [] \<Rightarrow> Inr balances
      | token # _ \<Rightarrow>
          (case nth_opt balances token of None \<Rightarrow> Inl TypeError | Some b \<Rightarrow> Inr (balances[nat token := b + PAYDAY])))"

text \<open>Whether no enabled token has more than its cushion; a missing entry compares as false.\<close>

definition cushioned :: "user_config \<Rightarrow> int list \<Rightarrow> bool" where
  "cushioned u balances =
     list_all (\<lambda>token. case (nth_opt balances token, nth_opt (uc_cushions u) token) of
                         (Some b, Some c) \<Rightarrow> b \<le> c | _ \<Rightarrow> False) (enabledPaymentTokens (uc_paymentTokens u))"

definition paydayPreview :: "user_config option \<Rightarrow> int list \<Rightarrow> config \<Rightarrow> int \<Rightarrow> enroll_params \<Rightarrow> address \<Rightarrow> preview outcome" where
  "paydayPreview account before cfg now params address =
     (let joined = joinedAccount address params account now
      in res_bind (addPayday joined before) (\<lambda>balances.
         let u = joined\<lparr>uc_pending := uc_pending joined + incomeShare joined PAYDAY\<rparr>;
             cap = weeklyCap u (userWeeklyCap cfg) now;
             room = (if cap > spentAt u now then cap - spentAt u now else 0);
             weekEnd = uc_enrolledAt u + (weekAt u now + 1) * WEEK_SECONDS;
             week = sweepThrough u balances cfg now weekEnd;
             waits = uc_pending (sp_user week);
             next_week = sweepThrough (sp_user week) (sp_balances week) cfg weekEnd (weekEnd + WEEK_SECONDS)
         in Inr \<lparr>pv_invested = sp_total week, pv_cap = cap, pv_trial = (now < uc_enrolledAt u + TRIAL_SECONDS),
                    pv_binding = (if sp_total week = room then Binding_Cap
                                  else if cushioned (sp_user next_week) (sp_balances next_week) \<and> waits > 0 then Binding_Balance
                                  else Binding_Rules),
                    pv_waits = waits, pv_nextWeek = sp_total next_week\<rparr>))"

section \<open>A span of sweeps\<close>

text \<open>
  What a span from \<open>start\<close> to \<open>until\<close> keeps of where it began: what the user does not change, the week's spending
  with the total added, and every unit of the balances and of what waits.
\<close>

definition same_rules :: "user_config \<Rightarrow> user_config \<Rightarrow> bool" where
  "same_rules a b \<longleftrightarrow> uc_enrolledAt a = uc_enrolledAt b \<and> uc_tier a = uc_tier b \<and> uc_engineAmount a = uc_engineAmount b
     \<and> uc_cushions a = uc_cushions b \<and> uc_paymentTokens a = uc_paymentTokens b \<and> uc_status a = uc_status b"

definition accounted :: "spree \<Rightarrow> spree \<Rightarrow> bool" where
  "accounted a s \<longleftrightarrow> same_rules (sp_user a) (sp_user s) \<and> sp_total a \<le> sp_total s
     \<and> 0 \<le> uc_pending (sp_user s) \<and> uc_pending (sp_user s) \<le> uc_pending (sp_user a)
     \<and> uc_pending (sp_user a) + sp_total a \<le> uc_pending (sp_user s) + sp_total s
     \<and> sum_list (sp_balances s) + sp_total s = sum_list (sp_balances a) + sp_total a
     \<and> length (sp_balances s) = length (sp_balances a)"

lemma accounted_refl: "amounts_ok (sp_user s) \<Longrightarrow> accounted s s"
  by (simp add: accounted_def same_rules_def amounts_ok_def)

lemma accounted_trans: "accounted a b \<Longrightarrow> accounted b c \<Longrightarrow> accounted a c"
  by (simp add: accounted_def same_rules_def)

lemma accounted_amounts: "accounted a s \<Longrightarrow> amounts_ok (sp_user a) \<Longrightarrow> amounts_ok (sp_user s)"
  by (simp add: accounted_def same_rules_def amounts_ok_def)

lemma sum_list_replace: "i < length xs \<Longrightarrow> sum_list (xs[i := v]) = sum_list xs - xs ! i + (v :: int)"
  by (induction xs arbitrary: i) (auto split: nat.split)

lemma buyToken_cases:
  obtains "buyToken cfg at s token = s"
  | balance p where "nth_opt (sp_balances s) token = Some balance"
      "p = pull (sp_user s) token balance (userWeeklyCap cfg) (marketCalendar cfg) at" "pullTotal p \<noteq> 0"
      "buyToken cfg at s token =
         \<lparr>sp_user = (sp_user s)\<lparr>uc_weekSpent := spentAt (sp_user s) at + pullTotal p, uc_week := weekAt (sp_user s) at,
                        uc_engineRanAt := (if pull_engine p > 0 then at else uc_engineRanAt (sp_user s)),
                        uc_pending := uc_pending (sp_user s) - pull_pending p\<rparr>,
          sp_balances = (sp_balances s)[nat token := balance - pullTotal p], sp_total = sp_total s + pullTotal p\<rparr>"
proof (cases "nth_opt (sp_balances s) token")
  case None
  then show thesis by (intro that(1)) (simp add: buyToken_def)
next
  case (Some balance)
  show thesis
  proof (cases "pullTotal (pull (sp_user s) token balance (userWeeklyCap cfg) (marketCalendar cfg) at) = 0")
    case True
    with Some show thesis by (intro that(1)) (simp add: buyToken_def Let_def)
  next
    case False
    with Some show thesis by (intro that(2) [OF Some refl False]) (simp add: buyToken_def Let_def)
  qed
qed

lemma buyToken_accounted:
  assumes "amounts_ok (sp_user s)"
  shows "accounted s (buyToken cfg at s token)"
proof (cases rule: buyToken_cases [of cfg at s token])
  case 1
  with assms show ?thesis by (simp add: accounted_refl)
next
  case (2 balance p)
  from 2(1) have index: "nat token < length (sp_balances s)" "sp_balances s ! nat token = balance"
    by (auto simp: nth_opt_Some_iff)
  note parts = pull_parts [OF assms, of token balance "userWeeklyCap cfg" "marketCalendar cfg" at, folded 2(2)]
  from 2(4) parts index show ?thesis by (simp add: accounted_def same_rules_def sum_list_replace pullTotal_def)
qed

text \<open>An invariant that every purchase at an instant of the span keeps holds after the span.\<close>

lemma firstInstant_within: "firstInstant u c day start until = Some at \<Longrightarrow> start \<le> at \<and> at < until"
  by (auto simp: firstInstant_def Let_def split: if_splits option.splits)

lemma buyTokens_keeps:
  assumes "\<And>token s. I s \<Longrightarrow> I (buyToken cfg at s token)" "I s"
  shows "I (buyTokens cfg at s)"
proof -
  have "I s \<Longrightarrow> I (foldl (buyToken cfg at) s tokens)" for tokens s
    by (induction tokens arbitrary: s) (simp_all add: assms(1))
  with assms(2) show ?thesis by (simp add: buyTokens_def)
qed

lemma sweepDays_keeps:
  "(\<And>at token s. I s \<Longrightarrow> start \<le> at \<Longrightarrow> at < until \<Longrightarrow> I (buyToken cfg at s token)) \<Longrightarrow> I s \<Longrightarrow> I (sweepDays cfg day start until s)"
proof (induction cfg day start until s rule: sweepDays.induct)
  case (1 cfg day start until s)
  show ?case
  proof (cases "day * DAY_SECONDS < until")
    case True
    have "I (case firstInstant (sp_user s) (marketCalendar cfg) day start until of None \<Rightarrow> s | Some at \<Rightarrow> buyTokens cfg at s)"
    proof (cases "firstInstant (sp_user s) (marketCalendar cfg) day start until")
      case (Some at)
      note within = firstInstant_within [OF Some]
      have "I (buyTokens cfg at s)"
      proof (rule buyTokens_keeps)
        show "I s" by (rule 1(3))
        show "I (buyToken cfg at r token)" if "I r" for token r
          using 1(2) [OF that, of at token] within by simp
      qed
      with Some show ?thesis by simp
    qed (use 1(3) in simp)
    with 1(1) [OF True] 1(2) True show ?thesis by (subst sweepDays.simps) simp
  next
    case False
    with 1(3) show ?thesis by (subst sweepDays.simps) simp
  qed
qed

lemma sweepThrough_accounted:
  assumes "amounts_ok u"
  shows "accounted \<lparr>sp_user = u, sp_balances = balances, sp_total = 0\<rparr> (sweepThrough u balances cfg start until)"
proof -
  let ?a = "\<lparr>sp_user = u, sp_balances = balances, sp_total = 0\<rparr>"
  have "accounted ?a (buyToken cfg at s token)" if "accounted ?a s" for s at token
    using accounted_trans [OF that buyToken_accounted] accounted_amounts [OF that] assms by simp
  then show ?thesis
    unfolding sweepThrough_def by (rule sweepDays_keeps [where I = "accounted ?a"]) (simp_all add: accounted_refl assms)
qed

text \<open>Within one week the spending is what it was at the start and the total.\<close>

definition within_week :: "user_config \<Rightarrow> config \<Rightarrow> int \<Rightarrow> spree \<Rightarrow> bool" where
  "within_week u cfg now s \<longleftrightarrow> amounts_ok (sp_user s) \<and> same_rules u (sp_user s)
     \<and> (\<forall>t. now \<le> t \<and> t < resets u now \<longrightarrow> spentAt (sp_user s) t = spentAt u now + sp_total s)
     \<and> (sp_total s = 0 \<or> 0 < sp_total s \<and> spentAt u now + sp_total s \<le> weeklyCap u (userWeeklyCap cfg) now)"

lemma same_rules_week:
  "same_rules a b \<Longrightarrow> weekAt b t = weekAt a t \<and> weeklyCap b beta t = weeklyCap a beta t"
  by (simp add: same_rules_def weekAt_def weeklyCap_def)

lemma week_steady:
  assumes "now \<le> t" "t < resets u now" "uc_enrolledAt u \<le> now"
  shows "weekAt u t = weekAt u now" "weeklyCap u beta t = weeklyCap u beta now"
proof -
  have b: "t < b" if "b \<in> set (week_boundaries u now)" for b
    using that assms by (simp add: week_boundaries_def resets_def)
  from elapsed_weeks_steady(1) [OF assms(1) b] show "weekAt u t = weekAt u now" by (simp add: weekAt_floor)
  from elapsed_weeks_steady(2) [OF assms(1) b] show "weeklyCap u beta t = weeklyCap u beta now"
    by (simp add: weeklyCap_def TRIAL_SECONDS_def)
qed

lemma buyToken_within_week:
  assumes "within_week u cfg now s" "uc_enrolledAt u \<le> now" "now \<le> at" "at < resets u now"
  shows "within_week u cfg now (buyToken cfg at s token)"
proof (cases rule: buyToken_cases [of cfg at s token])
  case 1
  with assms(1) show ?thesis by simp
next
  case (2 balance p)
  from assms(1) have ok: "amounts_ok (sp_user s)" "same_rules u (sp_user s)"
    and spent: "spentAt (sp_user s) at = spentAt u now + sp_total s" using assms(3,4) by (auto simp: within_week_def)
  have kept: "accounted s (buyToken cfg at s token)" by (rule buyToken_accounted [OF ok(1)])
  then have rules: "same_rules u (sp_user (buyToken cfg at s token))" "amounts_ok (sp_user (buyToken cfg at s token))"
    using ok accounted_amounts by (auto simp: accounted_def same_rules_def)
  have "0 \<le> pullTotal p" unfolding 2(2) by (rule pullTotal_nonneg [OF ok(1)])
  with 2(3) have pos: "0 < pullTotal p" by simp
  have week: "weekAt (sp_user s) t = weekAt u now" if "now \<le> t" "t < resets u now" for t
    using same_rules_week [OF ok(2)] week_steady(1) [OF that assms(2)] by simp
  have "spentAt (sp_user s) at + pullTotal p \<le> weeklyCap (sp_user s) (userWeeklyCap cfg) at"
    using pull_within_week [OF ok(1)] pos unfolding 2(2) by simp
  then have cap: "spentAt u now + sp_total s + pullTotal p \<le> weeklyCap u (userWeeklyCap cfg) now"
    using same_rules_week [OF ok(2)] week_steady(2) [OF assms(3,4,2)] spent by simp
  have "spentAt (sp_user (buyToken cfg at s token)) t = spentAt u now + sp_total (buyToken cfg at s token)"
    if "now \<le> t" "t < resets u now" for t
  proof -
    have "uc_week (sp_user (buyToken cfg at s token)) = weekAt u now"
      "uc_weekSpent (sp_user (buyToken cfg at s token)) = spentAt u now + (sp_total s + pullTotal p)"
      "sp_total (buyToken cfg at s token) = sp_total s + pullTotal p"
      by (simp_all add: 2(4) spent week [OF assms(3,4)])
    moreover have "weekAt (sp_user (buyToken cfg at s token)) t = weekAt u now"
      using same_rules_week [OF rules(1), of t] week_steady(1) [OF that assms(2)] by simp
    ultimately show ?thesis by (simp add: spentAt_def [of "sp_user (buyToken cfg at s token)" t])
  qed
  moreover have "sp_total (buyToken cfg at s token) = sp_total s + pullTotal p" by (simp add: 2(4))
  ultimately show ?thesis using rules cap pos assms(1) unfolding within_week_def by auto
qed

section \<open>What a payday invests\<close>

text \<open>What the balances hold above the cushions is what all the sweeps can spend, to the unit.\<close>

definition spare :: "user_config \<Rightarrow> int list \<Rightarrow> int" where
  "spare u balances = sum_list (map2 (\<lambda>b c. saturatingSub b c) balances (uc_cushions u))"

lemma spare_nonneg: "0 \<le> spare u balances"
  unfolding spare_def by (rule sum_list_nonneg) auto

lemma spare_update:
  assumes "i < length balances" "i < length (uc_cushions u)"
  shows "spare u (balances[i := v])
    = spare u balances - saturatingSub (balances ! i) (uc_cushions u ! i) + saturatingSub v (uc_cushions u ! i)"
proof -
  have "zip (balances[i := v]) (uc_cushions u) = (zip balances (uc_cushions u))[i := (v, uc_cushions u ! i)]"
    using zip_update [of balances i v "uc_cushions u" "uc_cushions u ! i"] by simp
  with assms show ?thesis by (simp add: spare_def map_update sum_list_replace)
qed

definition spends_spare :: "user_config \<Rightarrow> int \<Rightarrow> spree \<Rightarrow> bool" where
  "spends_spare u whole s \<longleftrightarrow> amounts_ok (sp_user s) \<and> uc_cushions (sp_user s) = uc_cushions u
     \<and> spare u (sp_balances s) + sp_total s = whole"

lemma pull_needs_cushion:
  "amounts_ok u \<Longrightarrow> pullTotal (pull u p b cap c now) \<noteq> 0 \<Longrightarrow> b < U64_MAX \<Longrightarrow> nth_opt (uc_cushions u) p \<noteq> None"
proof (rule ccontr, simp)
  assume *: "amounts_ok u" "pullTotal (pull u p b cap c now) \<noteq> 0" "b < U64_MAX" "nth_opt (uc_cushions u) p = None"
  then have "pull_room u p b cap now = 0" by (simp add: pull_room_def saturatingSub_def)
  moreover have "0 \<le> wanted u c now" using *(1) by (simp add: wanted_def amounts_ok_def)
  ultimately show False using *(2) pullTotal_pull [OF *(1)] by simp
qed

lemma buyToken_amounts: "amounts_ok (sp_user s) \<Longrightarrow> amounts_ok (sp_user (buyToken cfg at s token))"
  by (rule accounted_amounts [OF buyToken_accounted])

lemma buyToken_spends_spare:
  assumes "spends_spare u whole s" "\<forall>b \<in> set (sp_balances s). b < U64_MAX"
  shows "spends_spare u whole (buyToken cfg at s token)"
proof (cases rule: buyToken_cases [of cfg at s token])
  case 1
  with assms(1) show ?thesis by simp
next
  case (2 balance p)
  from assms(1) have ok: "amounts_ok (sp_user s)" by (simp add: spends_spare_def)
  from 2(1) have index: "nat token < length (sp_balances s)" "sp_balances s ! nat token = balance"
    by (auto simp: nth_opt_Some_iff)
  with assms(2) have small: "balance < U64_MAX" using nth_mem by fastforce
  from pull_needs_cushion [OF ok 2(3) [unfolded 2(2)] small] obtain cushion where
    cushion: "nth_opt (uc_cushions (sp_user s)) token = Some cushion" by auto
  then have at: "nat token < length (uc_cushions u)" "uc_cushions u ! nat token = cushion"
    using assms(1) by (auto simp: nth_opt_Some_iff spends_spare_def)
  have "0 < pullTotal p" using pullTotal_nonneg [OF ok] 2(2,3) by (metis order_le_less)
  then have "saturatingSub (balance - pullTotal p) cushion = saturatingSub balance cushion - pullTotal p"
    using pull_leaves_cushion [OF ok cushion, of balance "userWeeklyCap cfg" "marketCalendar cfg" at, folded 2(2)]
    by (simp add: saturatingSub_def)
  then have "spare u ((sp_balances s)[nat token := balance - pullTotal p]) = spare u (sp_balances s) - pullTotal p"
    using spare_update [OF index(1) at(1)] index(2) at(2) by simp
  moreover have "amounts_ok (sp_user (buyToken cfg at s token))" by (rule buyToken_amounts [OF ok])
  moreover have "sp_balances (buyToken cfg at s token) = (sp_balances s)[nat token := balance - pullTotal p]"
    "sp_total (buyToken cfg at s token) = sp_total s + pullTotal p"
    "uc_cushions (sp_user (buyToken cfg at s token)) = uc_cushions (sp_user s)" by (simp_all add: 2(4))
  ultimately show ?thesis using assms(1) by (simp add: spends_spare_def)
qed

text \<open>Balances only fall.\<close>

definition below :: "int \<Rightarrow> spree \<Rightarrow> bool" where
  "below bound s \<longleftrightarrow> amounts_ok (sp_user s) \<and> (\<forall>b \<in> set (sp_balances s). b < bound)"

lemma buyToken_below:
  assumes "below bound s"
  shows "below bound (buyToken cfg at s token)"
proof (cases rule: buyToken_cases [of cfg at s token])
  case (2 balance p)
  have ok: "amounts_ok (sp_user s)" using assms by (simp add: below_def)
  from 2(1) have "balance \<in> set (sp_balances s)" by (auto simp: nth_opt_Some_iff)
  with assms have "balance < bound" by (simp add: below_def)
  moreover have "0 \<le> pullTotal p" using pullTotal_nonneg [OF ok] 2(2) by simp
  ultimately have "b < bound" if "b \<in> set ((sp_balances s)[nat token := balance - pullTotal p])" for b
    using that assms set_update_subset_insert [of "sp_balances s" "nat token" "balance - pullTotal p"]
    by (fastforce simp: below_def)
  moreover have "amounts_ok (sp_user (buyToken cfg at s token))" by (rule buyToken_amounts [OF ok])
  moreover have "sp_balances (buyToken cfg at s token) = (sp_balances s)[nat token := balance - pullTotal p]" by (simp add: 2(4))
  ultimately show ?thesis by (simp add: below_def)
qed (use assms in simp)

lemma sweepThrough_spends_spare:
  assumes "amounts_ok u" "\<forall>b \<in> set balances. b < U64_MAX"
  shows "spare u (sp_balances (sweepThrough u balances cfg start until)) + sp_total (sweepThrough u balances cfg start until) = spare u balances"
    "\<forall>b \<in> set (sp_balances (sweepThrough u balances cfg start until)). b < U64_MAX"
proof -
  let ?I = "\<lambda>s. spends_spare u (spare u balances) s \<and> below U64_MAX s"
  have step: "?I (buyToken cfg at s token)" if "?I s" for s at token
    using that buyToken_spends_spare [of u _ s cfg at token] buyToken_below [of U64_MAX s cfg at token] unfolding below_def by blast
  have "?I (sweepThrough u balances cfg start until)"
    unfolding sweepThrough_def
  proof (rule sweepDays_keeps [where I = ?I])
    show "?I (buyToken cfg at s token)" if "?I s" for s at token by (rule step [OF that])
    show "?I \<lparr>sp_user = u, sp_balances = balances, sp_total = 0\<rparr>" using assms by (simp add: spends_spare_def below_def)
  qed
  then show "spare u (sp_balances (sweepThrough u balances cfg start until)) + sp_total (sweepThrough u balances cfg start until) = spare u balances"
    "\<forall>b \<in> set (sp_balances (sweepThrough u balances cfg start until)). b < U64_MAX"
    by (simp_all add: spends_spare_def below_def)
qed

lemma sweepThrough_within_week:
  assumes "amounts_ok u" "uc_enrolledAt u \<le> now"
  shows "within_week u cfg now (sweepThrough u balances cfg now (resets u now))"
proof -
  have "spentAt u t = spentAt u now" if "now \<le> t" "t < resets u now" for t
  proof -
    have same: "weekAt u t = weekAt u now" by (rule week_steady(1) [OF that assms(2)])
    show ?thesis unfolding spentAt_def by (subst same) (rule refl)
  qed
  then have "\<forall>t. now \<le> t \<and> t < resets u now \<longrightarrow> spentAt u t = spentAt u now + 0"
    unfolding add_0_right by blast
  then have "within_week u cfg now \<lparr>sp_user = u, sp_balances = balances, sp_total = 0\<rparr>"
    unfolding within_week_def same_rules_def spree.select_convs by (intro conjI assms(1) refl) (assumption | simp)+
  note start = this
  show ?thesis
    unfolding sweepThrough_def
  proof (rule sweepDays_keeps [where I = "within_week u cfg now"])
    show "within_week u cfg now (buyToken cfg at s token)" if "within_week u cfg now s" "now \<le> at" "at < resets u now" for at s token
      by (rule buyToken_within_week [OF that(1) assms(2) that(2,3)])
  qed (rule start)
qed

text \<open>The joined account, with the payday's share waiting.\<close>

definition paidAccount :: "address \<Rightarrow> enroll_params \<Rightarrow> user_config option \<Rightarrow> int \<Rightarrow> user_config" where
  "paidAccount user p account now =
     (let joined = joinedAccount user p account now in joined\<lparr>uc_pending := uc_pending joined + incomeShare joined PAYDAY\<rparr>)"

lemma paidAccount_pending: "uc_pending (paidAccount user p account now) = incomeShare (joinedAccount user p account now) PAYDAY"
  by (simp add: paidAccount_def joinedAccount_def split: option.splits)

lemma paidAccount_ok: "0 \<le> ep_engineAmount p \<Longrightarrow> amounts_ok (paidAccount user p account now)"
  using incomeShare_bounds [of PAYDAY "joinedAccount user p account now"] paidAccount_pending [of user p account now]
  by (auto simp: amounts_ok_def paidAccount_def joinedAccount_def PAYDAY_def DOLLAR_def split: option.splits)

text \<open>The preview of an account that has the payday's share waiting.\<close>

definition previewOf :: "user_config \<Rightarrow> int list \<Rightarrow> config \<Rightarrow> int \<Rightarrow> preview" where
  "previewOf u balances cfg now =
     (let cap = weeklyCap u (userWeeklyCap cfg) now;
          room = (if cap > spentAt u now then cap - spentAt u now else 0);
          weekEnd = uc_enrolledAt u + (weekAt u now + 1) * WEEK_SECONDS;
          week = sweepThrough u balances cfg now weekEnd;
          waits = uc_pending (sp_user week);
          next_week = sweepThrough (sp_user week) (sp_balances week) cfg weekEnd (weekEnd + WEEK_SECONDS)
      in \<lparr>pv_invested = sp_total week, pv_cap = cap, pv_trial = (now < uc_enrolledAt u + TRIAL_SECONDS),
          pv_binding = (if sp_total week = room then Binding_Cap
                        else if cushioned (sp_user next_week) (sp_balances next_week) \<and> waits > 0 then Binding_Balance
                        else Binding_Rules),
          pv_waits = waits, pv_nextWeek = sp_total next_week\<rparr>)"

lemma paydayPreview_of:
  "paydayPreview account before cfg now p user =
     res_bind (addPayday (joinedAccount user p account now) before) (\<lambda>balances. Inr (previewOf (paidAccount user p account now) balances cfg now))"
  by (simp only: paydayPreview_def previewOf_def paidAccount_def Let_def)

lemma previewOf_parts:
  assumes "sweepThrough u balances cfg now (resets u now) = week"
    "sweepThrough (sp_user week) (sp_balances week) cfg (resets u now) (resets u now + WEEK_SECONDS) = next_week"
  shows "pv_invested (previewOf u balances cfg now) = sp_total week" "pv_waits (previewOf u balances cfg now) = uc_pending (sp_user week)"
    "pv_nextWeek (previewOf u balances cfg now) = sp_total next_week"
    "pv_binding (previewOf u balances cfg now) =
       (if sp_total week = saturatingSub (weeklyCap u (userWeeklyCap cfg) now) (spentAt u now) then Binding_Cap
        else if cushioned (sp_user next_week) (sp_balances next_week) \<and> uc_pending (sp_user week) > 0 then Binding_Balance
        else Binding_Rules)"
  unfolding assms(2) [symmetric] assms(1) [symmetric] resets_def previewOf_def Let_def saturatingSub_def preview.select_convs
  by (rule refl)+

text \<open>
  C29: The onboarding preview announces nothing the week and the account cannot give: what it invests stays, with what
  is already spent, within the week's cap, what waits and what is invested cover the payday's share, and both
  weeks together buy at most what the paid-in balances hold above the cushions.
\<close>

theorem preview_within_week:
  assumes "paydayPreview account before cfg now params user = Inr pv"
    and "addPayday (joinedAccount user params account now) before = Inr balances"
    and "list_all (\<lambda>b. b < U64_MAX) balances" "0 \<le> ep_engineAmount params"
    and "uc_enrolledAt (joinedAccount user params account now) \<le> now"
  shows "0 \<le> pv_invested pv \<and> 0 \<le> pv_nextWeek pv \<and> 0 \<le> pv_waits pv
    \<and> pv_invested pv \<le> saturatingSub (weeklyCap (joinedAccount user params account now) (userWeeklyCap cfg) now)
                           (spentAt (joinedAccount user params account now) now)
    \<and> pv_waits pv \<le> incomeShare (joinedAccount user params account now) PAYDAY
    \<and> incomeShare (joinedAccount user params account now) PAYDAY \<le> pv_waits pv + pv_invested pv
    \<and> pv_invested pv + pv_nextWeek pv \<le> spare (joinedAccount user params account now) balances"
proof -
  let ?j = "joinedAccount user params account now" and ?u = "paidAccount user params account now"
  define week where week: "week = sweepThrough ?u balances cfg now (resets ?u now)"
  define next_week where
    next_week: "next_week = sweepThrough (sp_user week) (sp_balances week) cfg (resets ?u now) (resets ?u now + WEEK_SECONDS)"
  from assms(1,2) have "pv = previewOf ?u balances cfg now" by (simp add: paydayPreview_of)
  with previewOf_parts [OF week [symmetric] next_week [symmetric]]
  have pv: "pv_invested pv = sp_total week" "pv_waits pv = uc_pending (sp_user week)" "pv_nextWeek pv = sp_total next_week" by simp_all
  have ok: "amounts_ok ?u" by (rule paidAccount_ok [OF assms(4)])
  have small: "\<forall>b \<in> set balances. b < U64_MAX" using assms(3) by (simp add: list_all_iff)
  have same: "uc_enrolledAt ?u = uc_enrolledAt ?j" "weeklyCap ?u beta now = weeklyCap ?j beta now"
    "spentAt ?u now = spentAt ?j now" "spare ?u bs = spare ?j bs" for beta bs
    by (simp_all add: paidAccount_def Let_def weeklyCap_def spentAt_def weekAt_def spare_def)
  have kept: "accounted \<lparr>sp_user = ?u, sp_balances = balances, sp_total = 0\<rparr> week"
    unfolding week by (rule sweepThrough_accounted [OF ok])
  with ok have ok': "amounts_ok (sp_user week)" using accounted_amounts by force
  have kept': "accounted \<lparr>sp_user = sp_user week, sp_balances = sp_balances week, sp_total = 0\<rparr> next_week"
    unfolding next_week by (rule sweepThrough_accounted [OF ok'])
  have "within_week ?u cfg now week"
    unfolding week by (rule sweepThrough_within_week [OF ok]) (use assms(5) same(1) in simp)
  then have cap: "sp_total week \<le> saturatingSub (weeklyCap ?j (userWeeklyCap cfg) now) (spentAt ?j now)"
    unfolding within_week_def same saturatingSub_def by (elim conjE disjE) simp_all
  have "spare ?u (sp_balances week) + sp_total week = spare ?u balances"
    unfolding week by (rule sweepThrough_spends_spare(1) [OF ok small])
  moreover have "spare (sp_user week) (sp_balances next_week) + sp_total next_week = spare (sp_user week) (sp_balances week)"
    unfolding next_week by (rule sweepThrough_spends_spare(1) [OF ok'])
      (use sweepThrough_spends_spare(2) [OF ok small, of cfg now "resets ?u now"] week in simp)
  moreover have "spare (sp_user week) bs = spare ?u bs" for bs using kept by (simp add: spare_def accounted_def same_rules_def)
  moreover have "0 \<le> spare ?u (sp_balances next_week)" by (rule spare_nonneg)
  ultimately have "sp_total week + sp_total next_week \<le> spare ?j balances" by (simp add: same)
  with kept kept' cap show ?thesis by (simp add: pv accounted_def paidAccount_pending)
qed

section \<open>A weekend return\<close>

text \<open>
  A user who left returns on a Saturday, a day before the week resets: the market stays closed for the rest of the week.
\<close>

definition demoRules :: enroll_params where
  "demoRules = \<lparr>ep_tier = 0, ep_paymentTokens = 1, ep_asset = 0, ep_engine = Weekly, ep_engineAmount = 2000000, ep_incomeRule = True,
     ep_changeMultiplier = 0, ep_cushions = [990000000, 0], ep_goalAmount = 0, ep_goalLabel = replicate 32 0\<rparr>"

definition demoLeft :: user_config where
  "demoLeft = demoUser\<lparr>uc_enrolledAt := 1782658800, uc_engineRanAt := 1782658800, uc_status := Exited\<rparr>"

definition demoOpen :: config where
  "demoOpen = demoConfig\<lparr>marketCalendar := demoDays\<rparr>"

text \<open>
  What limits the investment is judged by the balances after the next week's sweeps: here nothing is invested because
  no session is left in the week, with ten dollars above the cushion all week, and the preview names the balance.
\<close>

definition demoPaid :: user_config where
  "demoPaid = paidAccount (uc_user demoLeft) demoRules (Some demoLeft) 1783177200"

lemma demo_weeks:
  "sweepThrough demoPaid [1000000000, 0] demoOpen 1783177200 1783263600
   = \<lparr>sp_user = demoPaid, sp_balances = [1000000000, 0], sp_total = 0\<rparr>"
  "sp_total (sweepThrough demoPaid [1000000000, 0] demoOpen 1783263600 (1783263600 + WEEK_SECONDS)) = 10000000"
  "cushioned (sp_user (sweepThrough demoPaid [1000000000, 0] demoOpen 1783263600 (1783263600 + WEEK_SECONDS)))
     (sp_balances (sweepThrough demoPaid [1000000000, 0] demoOpen 1783263600 (1783263600 + WEEK_SECONDS)))"
  by code_simp+

lemma demo_preview:
  obtains pv where "paydayPreview (Some demoLeft) [0, 0] demoOpen 1783177200 demoRules (uc_user demoLeft) = Inr pv"
    "pv_invested pv = 0" "pv_nextWeek pv = 10000000" "pv_binding pv = Binding_Balance" "pv_waits pv = 100000000"
proof -
  have joined: "addPayday (joinedAccount (uc_user demoLeft) demoRules (Some demoLeft) 1783177200) [0, 0] = Inr [1000000000, 0]"
    "resets demoPaid 1783177200 = 1783263600" "uc_pending demoPaid = 100000000"
    "saturatingSub (weeklyCap demoPaid (userWeeklyCap demoOpen) 1783177200) (spentAt demoPaid 1783177200) \<noteq> 0" by code_simp+
  let ?next = "sweepThrough demoPaid [1000000000, 0] demoOpen 1783263600 (1783263600 + WEEK_SECONDS)"
  have "paydayPreview (Some demoLeft) [0, 0] demoOpen 1783177200 demoRules (uc_user demoLeft)
    = Inr (previewOf demoPaid [1000000000, 0] demoOpen 1783177200)"
    by (simp only: paydayPreview_of joined(1) res_bind_simps demoPaid_def)
  then show thesis
  proof (rule that)
    have week: "sweepThrough demoPaid [1000000000, 0] demoOpen 1783177200 (resets demoPaid 1783177200)
        = \<lparr>sp_user = demoPaid, sp_balances = [1000000000, 0], sp_total = 0\<rparr>" unfolding joined(2) by (rule demo_weeks(1))
    note parts = previewOf_parts [OF week refl, unfolded spree.select_convs joined(2,3)]
    show "pv_invested (previewOf demoPaid [1000000000, 0] demoOpen 1783177200) = 0" by (rule parts(1))
    show "pv_waits (previewOf demoPaid [1000000000, 0] demoOpen 1783177200) = 100000000" by (rule parts(2))
    show "pv_nextWeek (previewOf demoPaid [1000000000, 0] demoOpen 1783177200) = 10000000"
      unfolding parts(3) by (rule demo_weeks(2))
    show "pv_binding (previewOf demoPaid [1000000000, 0] demoOpen 1783177200) = Binding_Balance"
      unfolding parts(4) if_not_P [OF joined(4) [symmetric]] using demo_weeks(3) by simp
  qed
qed

text \<open>The market is closed until the week resets.\<close>

lemma demo_weekend_closed:
  "list_all (\<lambda>d. case marketSession d demoDays of None \<Rightarrow> True | Some s \<Rightarrow> session_close s \<le> 1783177200 \<or> 1783263600 \<le> session_open s)
     [20638, 20639]"
  by code_simp

theorem preview_within_week_witness:
  "\<exists>pv. paydayPreview (Some demoLeft) [0, 0] demoOpen 1783177200 demoRules (uc_user demoLeft) = Inr pv \<and> 0 \<le> pv_invested pv
      \<and> pv_nextWeek pv = 10000000 \<and> pv_invested pv + pv_nextWeek pv \<le> 10000000"
proof -
  obtain pv where pv: "paydayPreview (Some demoLeft) [0, 0] demoOpen 1783177200 demoRules (uc_user demoLeft) = Inr pv"
    "pv_nextWeek pv = 10000000" by (rule demo_preview)
  have facts: "addPayday (joinedAccount (uc_user demoLeft) demoRules (Some demoLeft) 1783177200) [0, 0] = Inr [1000000000, 0]"
    "list_all (\<lambda>b. b < U64_MAX) [1000000000, 0]" "0 \<le> ep_engineAmount demoRules"
    "uc_enrolledAt (joinedAccount (uc_user demoLeft) demoRules (Some demoLeft) 1783177200) \<le> 1783177200"
    "spare (joinedAccount (uc_user demoLeft) demoRules (Some demoLeft) 1783177200) [1000000000, 0] = 10000000" by code_simp+
  from preview_within_week [OF pv(1) facts(1-4)] facts(5) pv show ?thesis by auto
qed

end
