(* ===== verification/Price_Relay.thy ===== *)
theory Price_Relay
  imports Crank Client_Contracts
begin

text \<open>
  The crank's price updates (\<open>services/operator/src/crank/prices.ts\<close>): the relay of Kamino Scope's posts and the
  payment token's update from Pyth Pro (\<open>clients/typescript/src/node/pyth-pro.ts\<close>). Reading a post, reading the Pyth
  storage and the signature check are arguments. Runs interleave the posts being read at every \<open>await\<close>; the lemmas
  show what the relay holds and hands out in every one.
\<close>

section \<open>The code: KaminoRelay\<close>

definition KAMINO_WAIT_MS :: int where "KAMINO_WAIT_MS = 50000"
definition PAYMENT_UPDATE_REUSE_SECONDS :: int where "PAYMENT_UPDATE_REUSE_SECONDS = 20"
definition POLL_AFTER_SILENCE_MS :: int where "POLL_AFTER_SILENCE_MS = 50000"
definition POLL_INTERVAL_MS :: int where "POLL_INTERVAL_MS = 15000"
definition POST_READS :: nat where "POST_READS = 3"
definition TRUSTED_MS :: int where "TRUSTED_MS = 600000"

record timed_update =
  tu_message :: bytes
  tu_updatedAt :: int

record kept_update = timed_update +
  ku_signature :: string

text \<open>
  The maps \<open>latest\<close> and \<open>storage\<close> are the code's; \<open>seen\<close> is a list without repetitions, and \<open>posted\<close> counts the
  times the wake-up signal was aborted and replaced.
\<close>

record relay =
  rl_latest :: "int \<Rightarrow> kept_update option"
  rl_seen :: "string list"
  rl_lastPollAt :: int
  rl_lastPostAt :: int
  rl_posted :: nat
  rl_storage :: "(int \<times> pyth_storage) option"

definition newRelay :: relay where
  "newRelay = \<lparr>rl_latest = (\<lambda>_. None), rl_seen = [], rl_lastPollAt = 0, rl_lastPostAt = 0, rl_posted = 0, rl_storage = None\<rparr>"

definition markSeen :: "string \<Rightarrow> relay \<Rightarrow> relay" where
  "markSeen signature r =
     (let seen = (if signature \<in> set (rl_seen r) then rl_seen r else rl_seen r @ [signature])
      in r\<lparr>rl_seen := (if length seen > 10000 then [] else seen)\<rparr>)"

text \<open>\<open>trusted\<close> reads the storage again after ten minutes; the time kept is the one before the read.\<close>

definition trustedNeedsRead :: "int \<Rightarrow> relay \<Rightarrow> bool" where
  "trustedNeedsRead now r = (case rl_storage r of None \<Rightarrow> True | Some (at, _) \<Rightarrow> now - at > TRUSTED_MS)"

definition trusted :: "int \<Rightarrow> pyth_storage outcome \<Rightarrow> relay \<Rightarrow> pyth_storage outcome \<times> relay" where
  "trusted now reading r =
     (if trustedNeedsRead now r
      then case reading of Inl e \<Rightarrow> (Inl e, r) | Inr s \<Rightarrow> (Inr s, r\<lparr>rl_storage := Some (now, s)\<rparr>)
      else (case rl_storage r of Some (_, s) \<Rightarrow> (Inr s, r) | None \<Rightarrow> (Inl TypeError, r)))"

text \<open>The loop of \<open>keep\<close> over the feeds: whether a feed's update was newer, and the map; a throw ends it.\<close>

fun keepFeeds :: "lib \<Rightarrow> string \<Rightarrow> bytes \<Rightarrow> int list \<Rightarrow> (int \<Rightarrow> kept_update option) \<Rightarrow> bool outcome \<times> (int \<Rightarrow> kept_update option)" where
  "keepFeeds L signature message [] latest = (Inr False, latest)"
| "keepFeeds L signature message (feedId # rest) latest =
     (if \<not> hasFeed L message feedId then keepFeeds L signature message rest latest
      else case feedUpdatedAt L message feedId of
             Inl e \<Rightarrow> (Inl e, latest)
           | Inr None \<Rightarrow> keepFeeds L signature message rest latest
           | Inr (Some updatedAt) \<Rightarrow>
               if (case latest feedId of Some current \<Rightarrow> tu_updatedAt current \<ge> updatedAt | None \<Rightarrow> False)
               then keepFeeds L signature message rest latest
               else (case keepFeeds L signature message rest
                            (latest(feedId \<mapsto> \<lparr>tu_message = message, tu_updatedAt = updatedAt, ku_signature = signature\<rparr>)) of
                       (Inl e, l) \<Rightarrow> (Inl e, l)
                     | (Inr _, l) \<Rightarrow> (Inr True, l)))"

text \<open>What \<open>keep\<close> does once the update is verified, at \<open>now\<close>.\<close>

definition keepStore :: "lib \<Rightarrow> int list \<Rightarrow> string \<Rightarrow> bytes \<Rightarrow> int \<Rightarrow> relay \<Rightarrow> unit outcome \<times> relay" where
  "keepStore L feedIds signature message now r =
     (case keepFeeds L signature message feedIds (rl_latest r) of
        (Inl e, latest) \<Rightarrow> (Inl e, r\<lparr>rl_latest := latest\<rparr>)
      | (Inr kept, latest) \<Rightarrow>
          if \<not> kept then (Inr (), r\<lparr>rl_latest := latest\<rparr>)
          else (Inr (), r\<lparr>rl_latest := latest, rl_lastPostAt := now, rl_posted := rl_posted r + 1\<rparr>))"

text \<open>\<open>keep\<close> with nothing in between: its clock readings and the storage read are arguments.\<close>

record keep_env =
  ke_trustedAt :: int
  ke_reading :: "pyth_storage outcome"
  ke_verifiedAt :: int
  ke_storedAt :: int

definition keep :: "lib \<Rightarrow> (address \<Rightarrow> bytes \<Rightarrow> bytes \<Rightarrow> bool) \<Rightarrow> int list \<Rightarrow> keep_env \<Rightarrow> string \<Rightarrow> bytes \<Rightarrow> relay \<Rightarrow> unit outcome \<times> relay" where
  "keep L verified feedIds env signature message r =
     (case trusted (ke_trustedAt env) (ke_reading env) (markSeen signature r) of
        (Inl e, r) \<Rightarrow> (Inl e, r)
      | (Inr storage, r) \<Rightarrow>
          (case verifyPythUpdate L verified message storage (ke_verifiedAt env div 1000) of
             Inl e \<Rightarrow> (Inl e, r)
           | Inr _ \<Rightarrow> keepStore L feedIds signature message (ke_storedAt env) r))"

text \<open>\<open>ingest\<close>: the result of each read of the post, at most \<open>POST_READS\<close>, and what is kept of it.\<close>

datatype ingested = Already_Seen | To_Keep bytes | Not_Returned | Read_Threw js_error

fun readPost :: "nat \<Rightarrow> (nat \<Rightarrow> bytes option outcome) \<Rightarrow> nat \<Rightarrow> ingested" where
  "readPost 0 post n = Not_Returned"
| "readPost (Suc left) post n =
     (case post n of
        Inl e \<Rightarrow> Read_Threw e
      | Inr (Some message) \<Rightarrow> To_Keep message
      | Inr None \<Rightarrow> readPost left post (Suc n))"

definition ingest :: "(nat \<Rightarrow> bytes option outcome) \<Rightarrow> string \<Rightarrow> relay \<Rightarrow> ingested" where
  "ingest post signature r = (if signature \<in> set (rl_seen r) then Already_Seen else readPost POST_READS post 1)"

text \<open>Which notifications of the subscription are posts of Pyth Pro.\<close>

definition invokedPyth :: "string option \<Rightarrow> string list \<Rightarrow> bool" where
  "invokedPyth err logs =
     (err = None \<and> list_ex (\<lambda>line. take (length (''Program '' @ PYTH_PRO_PROGRAM_ADDRESS @ '' invoke'')) line
                                    = ''Program '' @ PYTH_PRO_PROGRAM_ADDRESS @ '' invoke'') logs)"

section \<open>The code: waiting for an asset's update\<close>

datatype asset_wake =
    Handed timed_update int
  | Gave_Up
  | Must_Poll int
  | Asleep nat int

definition asleep :: "int \<Rightarrow> int \<Rightarrow> int \<Rightarrow> relay \<Rightarrow> asset_wake" where
  "asleep waitMs waitedMs now r = Asleep (rl_posted r) (now + min POLL_INTERVAL_MS (waitMs - waitedMs))"

text \<open>
  One pass of \<open>asset\<close>'s loop, up to its poll or its sleep. A sleep ends when \<open>posted\<close> is no longer the count it began
  with, or at its deadline.
\<close>

definition freshUpdate :: "relay \<Rightarrow> int \<Rightarrow> int \<Rightarrow> int \<Rightarrow> timed_update option" where
  "freshUpdate r feedId now waitedMs =
     (case rl_latest r feedId of
        None \<Rightarrow> None
      | Some u \<Rightarrow> if now + waitedMs div 1000 - tu_updatedAt u \<le> MAX_ASSET_UPDATE_AGE_SECONDS
                  then Some \<lparr>tu_message = tu_message u, tu_updatedAt = tu_updatedAt u\<rparr> else None)"

definition assetPass :: "int \<Rightarrow> int \<Rightarrow> int \<Rightarrow> int \<Rightarrow> int \<Rightarrow> relay \<Rightarrow> asset_wake" where
  "assetPass waitMs started feedId now clock r =
     (let waitedMs = clock - started
      in case freshUpdate r feedId now waitedMs of
           Some update \<Rightarrow> Handed update waitedMs
         | None \<Rightarrow>
             if waitedMs \<ge> waitMs then Gave_Up
             else if clock - rl_lastPollAt r \<ge> POLL_INTERVAL_MS then Must_Poll waitedMs
             else asleep waitMs waitedMs clock r)"

text \<open>After the poll, whatever it kept or threw, the pass sleeps.\<close>

definition assetPolled :: "int \<Rightarrow> int \<Rightarrow> int \<Rightarrow> relay \<Rightarrow> asset_wake" where
  "assetPolled waitMs waitedMs clock r = asleep waitMs waitedMs clock r"

definition wakes :: "asset_wake \<Rightarrow> int \<Rightarrow> relay \<Rightarrow> bool" where
  "wakes a clock r = (case a of Asleep n deadline \<Rightarrow> rl_posted r \<noteq> n \<or> clock \<ge> deadline | _ \<Rightarrow> False)"

section \<open>The code: PythProUpdates and the price service\<close>

record price_response =
  pr_ok :: bool
  pr_status :: nat
  pr_text :: string
  pr_solana :: "(string \<times> string) option"

text \<open>A refusal carries the status, a response without the update in hexadecimal is an error; \<open>base16\<close> is kit's encoder.\<close>

definition fetchPythProUpdate :: "(string \<Rightarrow> bytes) \<Rightarrow> (nat \<Rightarrow> string) \<Rightarrow> price_response outcome \<Rightarrow> bytes outcome" where
  "fetchPythProUpdate base16 decimal response =
     res_bind response (\<lambda>r.
     res_guard (\<not> pr_ok r) (PlainError (''Pyth Pro latest_price '' @ decimal (pr_status r) @ '': '' @ pr_text r)) (
     (case pr_solana r of
        Some (data, encoding) \<Rightarrow>
          if encoding = ''hex'' then Inr (base16 data) else Inl (PlainError ''Pyth Pro returned no Solana-format update'')
      | None \<Rightarrow> Inl (PlainError ''Pyth Pro returned no Solana-format update''))))"

text \<open>
  \<open>payment\<close>: the map of updates is its state, and the fetch and the storage are what its calls return. The update is
  returned although it names no time; then it is not kept.
\<close>

definition fetchPayment ::
    "lib \<Rightarrow> (address \<Rightarrow> bytes \<Rightarrow> bytes \<Rightarrow> bool) \<Rightarrow> bytes outcome \<Rightarrow> pyth_storage outcome \<Rightarrow> int \<Rightarrow> int
     \<Rightarrow> (int \<Rightarrow> timed_update option) \<Rightarrow> bytes outcome \<times> (int \<Rightarrow> timed_update option)" where
  "fetchPayment L verified fetched storage feedId now latest =
     (case res_bind fetched (\<lambda>message. res_bind storage (\<lambda>s. res_bind (verifyPythUpdate L verified message s now) (\<lambda>_.
             res_bind (feedUpdatedAt L message feedId) (\<lambda>t. Inr (message, t))))) of
        Inl e \<Rightarrow> (Inl e, latest)
      | Inr (message, None) \<Rightarrow> (Inr message, latest)
      | Inr (message, Some t) \<Rightarrow> (Inr message, latest(feedId \<mapsto> \<lparr>tu_message = message, tu_updatedAt = t\<rparr>)))"

definition payment ::
    "lib \<Rightarrow> (address \<Rightarrow> bytes \<Rightarrow> bytes \<Rightarrow> bool) \<Rightarrow> bytes outcome \<Rightarrow> pyth_storage outcome \<Rightarrow> int \<Rightarrow> int
     \<Rightarrow> (int \<Rightarrow> timed_update option) \<Rightarrow> bytes outcome \<times> (int \<Rightarrow> timed_update option)" where
  "payment L verified fetched storage feedId now latest =
     (case latest feedId of
        Some cached \<Rightarrow>
          if now - tu_updatedAt cached \<le> PAYMENT_UPDATE_REUSE_SECONDS then (Inr (tu_message cached), latest)
          else fetchPayment L verified fetched storage feedId now latest
      | None \<Rightarrow> fetchPayment L verified fetched storage feedId now latest)"

section \<open>What a post changes\<close>

text \<open>What the relay holds of a feed after a message was kept.\<close>

definition newer :: "lib \<Rightarrow> string \<Rightarrow> bytes \<Rightarrow> int \<Rightarrow> kept_update option \<Rightarrow> kept_update option" where
  "newer L signature message feedId old =
     (if hasFeed L message feedId
      then case feedUpdatedAt L message feedId of
             Inr (Some t) \<Rightarrow>
               (case old of
                  Some current \<Rightarrow> if tu_updatedAt current \<ge> t then old
                                   else Some \<lparr>tu_message = message, tu_updatedAt = t, ku_signature = signature\<rparr>
                | None \<Rightarrow> Some \<lparr>tu_message = message, tu_updatedAt = t, ku_signature = signature\<rparr>)
           | _ \<Rightarrow> old
      else old)"

lemma newer_newer [simp]: "newer L s m f (newer L s m f old) = newer L s m f old"
  by (auto simp: newer_def split: sum.split option.split)

lemma hasFeed_time: "hasFeed L message feedId \<Longrightarrow> \<exists>t. feedUpdatedAt L message feedId = Inr t"
  by (auto simp: hasFeed_def feedUpdatedAt_def res_bind_def split: sum.splits option.splits)

lemma keepFeeds_newer:
  "snd (keepFeeds L s m feedIds latest) = (\<lambda>f. if f \<in> set feedIds then newer L s m f (latest f) else latest f)
   \<and> (\<exists>b. fst (keepFeeds L s m feedIds latest) = Inr b)"
proof (induction feedIds arbitrary: latest)
  case (Cons f rest)
  let ?l = "latest(f := newer L s m f (latest f))"
  have after: "(\<lambda>g. if g \<in> set rest then newer L s m g (?l g) else ?l g)
      = (\<lambda>g. if g \<in> set (f # rest) then newer L s m g (latest g) else latest g)" by auto
  have step: "keepFeeds L s m (f # rest) latest = keepFeeds L s m rest ?l
      \<or> (\<exists>l b. keepFeeds L s m rest ?l = (Inr b, l) \<and> keepFeeds L s m (f # rest) latest = (Inr True, l))"
  proof (cases "hasFeed L m f")
    case False
    then show ?thesis by (simp add: newer_def)
  next
    case True
    then obtain t where t: "feedUpdatedAt L m f = Inr t" using hasFeed_time by blast
    obtain b where b: "fst (keepFeeds L s m rest ?l) = Inr b" using Cons.IH by blast
    then obtain l where l: "keepFeeds L s m rest ?l = (Inr b, l)" by (cases "keepFeeds L s m rest ?l") simp
    from True t l show ?thesis
      by (cases t; cases "latest f") (auto simp: newer_def fun_upd_idem)
  qed
  from Cons.IH [of ?l] step show ?case unfolding after by (elim disjE exE conjE) (simp_all only: fst_conv snd_conv, auto)
qed (simp, blast)

lemma keepStore_newer:
  "rl_latest (snd (keepStore L feedIds s m now r)) = (\<lambda>f. if f \<in> set feedIds then newer L s m f (rl_latest r f) else rl_latest r f)"
  "rl_storage (snd (keepStore L feedIds s m now r)) = rl_storage r"
  "fst (keepStore L feedIds s m now r) = Inr ()"
  using keepFeeds_newer [of L s m feedIds "rl_latest r"]
  by (auto simp: keepStore_def split: prod.split sum.split)

section \<open>Runs of the relay\<close>

text \<open>
  A post being read is in flight: waiting for the storage, with the time its check of the storage's age was made, or
  waiting for the signature check, with the storage, the time its check began and the time the check is given.
  \<open>begun\<close> logs every post whose check began, with the clock then, \<open>reads\<close> the storages the cluster gave, with the
  times the reads began, and \<open>kept\<close> the messages that were kept, each with the storage it was checked with and the
  times its check began and was given.
\<close>

datatype flight = Reading string bytes int | Verifying string bytes pyth_storage int int

record relay_world =
  rw_relay :: relay
  rw_clock :: int
  rw_flights :: "flight list"
  rw_reads :: "(int \<times> pyth_storage) list"
  rw_begun :: "(string \<times> bytes \<times> int) list"
  rw_kept :: "(string \<times> bytes \<times> pyth_storage \<times> int \<times> int) list"

inductive relay_step ::
    "lib \<Rightarrow> (address \<Rightarrow> bytes \<Rightarrow> bytes \<Rightarrow> bool) \<Rightarrow> int list \<Rightarrow> relay_world \<Rightarrow> relay_world \<Rightarrow> bool" for L V feedIds where
  rs_clock: "rw_clock w \<le> t \<Longrightarrow> relay_step L V feedIds w (w\<lparr>rw_clock := t\<rparr>)"
| rs_poll: "relay_step L V feedIds w (w\<lparr>rw_relay := (rw_relay w)\<lparr>rl_lastPollAt := rw_clock w\<rparr>\<rparr>)"
| rs_cached: "\<not> trustedNeedsRead (rw_clock w) (markSeen s (rw_relay w)) \<Longrightarrow>
    trusted (rw_clock w) reading (markSeen s (rw_relay w)) = (Inr storage, r) \<Longrightarrow>
    relay_step L V feedIds w (w\<lparr>rw_relay := r, rw_flights := Verifying s m storage (rw_clock w) (rw_clock w) # rw_flights w,
         rw_begun := (s, m, rw_clock w) # rw_begun w\<rparr>)"
| rs_reading: "trustedNeedsRead (rw_clock w) (markSeen s (rw_relay w)) \<Longrightarrow>
    relay_step L V feedIds w
      (w\<lparr>rw_relay := markSeen s (rw_relay w), rw_flights := Reading s m (rw_clock w) # rw_flights w,
         rw_begun := (s, m, rw_clock w) # rw_begun w\<rparr>)"
| rs_read: "Reading s m t \<in> set (rw_flights w) \<Longrightarrow>
    relay_step L V feedIds w
      (w\<lparr>rw_relay := (rw_relay w)\<lparr>rl_storage := Some (t, storage)\<rparr>,
         rw_flights := Verifying s m storage t (rw_clock w) # remove1 (Reading s m t) (rw_flights w),
         rw_reads := (t, storage) # rw_reads w\<rparr>)"
| rs_dropped: "f \<in> set (rw_flights w) \<Longrightarrow> relay_step L V feedIds w (w\<lparr>rw_flights := remove1 f (rw_flights w)\<rparr>)"
| rs_kept: "Verifying s m storage b t \<in> set (rw_flights w) \<Longrightarrow>
    verifyPythUpdate L V m storage (t div 1000) = Inr u \<Longrightarrow>
    relay_step L V feedIds w
      (w\<lparr>rw_relay := snd (keepStore L feedIds s m (rw_clock w) (rw_relay w)),
         rw_flights := remove1 (Verifying s m storage b t) (rw_flights w), rw_kept := (s, m, storage, b, t) # rw_kept w\<rparr>)"

inductive relay_run :: "lib \<Rightarrow> (address \<Rightarrow> bytes \<Rightarrow> bytes \<Rightarrow> bool) \<Rightarrow> int list \<Rightarrow> relay_world \<Rightarrow> bool" for L V feedIds where
  run_start: "relay_run L V feedIds
    \<lparr>rw_relay = newRelay, rw_clock = 0, rw_flights = [], rw_reads = [], rw_begun = [], rw_kept = []\<rparr>"
| run_step: "relay_run L V feedIds w \<Longrightarrow> relay_step L V feedIds w w' \<Longrightarrow> relay_run L V feedIds w'"

text \<open>
  A post was checked: its check began at the clock \<open>b\<close>, with a storage whose read began at most ten minutes before,
  and its signature was verified at \<open>t\<close>, a time that has passed.
\<close>

definition storage_read :: "relay_world \<Rightarrow> pyth_storage \<Rightarrow> int \<Rightarrow> bool" where
  "storage_read w storage b \<longleftrightarrow> (\<exists>at. (at, storage) \<in> set (rw_reads w) \<and> at \<le> b \<and> b - at \<le> 600000)"

definition checked :: "lib \<Rightarrow> (address \<Rightarrow> bytes \<Rightarrow> bytes \<Rightarrow> bool) \<Rightarrow> relay_world \<Rightarrow> string \<times> bytes \<times> pyth_storage \<times> int \<times> int \<Rightarrow> bool" where
  "checked L V w = (\<lambda>(s, m, storage, b, t). (s, m, b) \<in> set (rw_begun w) \<and> storage_read w storage b \<and> b \<le> t \<and> t \<le> rw_clock w
     \<and> (\<exists>u. verifyPythUpdate L V m storage (t div 1000) = Inr u))"

definition flight_ok :: "relay_world \<Rightarrow> flight \<Rightarrow> bool" where
  "flight_ok w f = (case f of Reading s m t \<Rightarrow> (s, m, t) \<in> set (rw_begun w) \<and> t \<le> rw_clock w
                    | Verifying s m storage b t \<Rightarrow> (s, m, b) \<in> set (rw_begun w) \<and> storage_read w storage b \<and> b \<le> t \<and> t \<le> rw_clock w)"

text \<open>What the relay holds of a feed is the newest of what was kept.\<close>

definition newest_of :: "lib \<Rightarrow> int \<Rightarrow> (string \<times> bytes \<times> pyth_storage \<times> int \<times> int) list \<Rightarrow> kept_update option" where
  "newest_of L feedId kept = foldr (\<lambda>(s, m, _). newer L s m feedId) kept None"

definition relay_ok :: "lib \<Rightarrow> (address \<Rightarrow> bytes \<Rightarrow> bytes \<Rightarrow> bool) \<Rightarrow> int list \<Rightarrow> relay_world \<Rightarrow> bool" where
  "relay_ok L V feedIds w \<longleftrightarrow>
     (\<forall>f \<in> set (rw_flights w). flight_ok w f)
     \<and> (\<forall>at storage. rl_storage (rw_relay w) = Some (at, storage) \<longrightarrow> (at, storage) \<in> set (rw_reads w) \<and> at \<le> rw_clock w)
     \<and> (\<forall>k \<in> set (rw_kept w). checked L V w k)
     \<and> (\<forall>f. rl_latest (rw_relay w) f = (if f \<in> set feedIds then newest_of L f (rw_kept w) else None))"

definition later :: "relay_world \<Rightarrow> relay_world \<Rightarrow> bool" where
  "later w w' \<longleftrightarrow> rw_clock w \<le> rw_clock w' \<and> set (rw_reads w) \<subseteq> set (rw_reads w') \<and> set (rw_begun w) \<subseteq> set (rw_begun w')"

lemma later_read: "later w w' \<Longrightarrow> storage_read w s b \<Longrightarrow> storage_read w' s b"
  by (auto simp: later_def storage_read_def)

lemma later_checked: "later w w' \<Longrightarrow> checked L V w k \<Longrightarrow> checked L V w' k"
  using later_read [of w w'] by (cases k) (auto simp: checked_def later_def)

lemma later_flight: "later w w' \<Longrightarrow> flight_ok w f \<Longrightarrow> flight_ok w' f"
  using later_read [of w w'] by (auto simp: flight_ok_def later_def split: flight.splits)

lemma relay_step_later: "relay_step L V feedIds w w' \<Longrightarrow> later w w'"
  by (induction rule: relay_step.induct) (auto simp: later_def)

lemma relay_okI:
  assumes "relay_ok L V feedIds w" "later w w'"
    and "\<forall>f \<in> set (rw_flights w') - set (rw_flights w). flight_ok w' f"
    and "\<And>at storage. rl_storage (rw_relay w') = Some (at, storage) \<Longrightarrow> rl_storage (rw_relay w) = Some (at, storage) \<or> (at, storage) \<in> set (rw_reads w') \<and> at \<le> rw_clock w'"
    and "\<forall>k \<in> set (rw_kept w') - set (rw_kept w). checked L V w' k"
    and "\<forall>f. rl_latest (rw_relay w') f = (if f \<in> set feedIds then newest_of L f (rw_kept w') else None)"
  shows "relay_ok L V feedIds w'"
proof -
  from assms(1) have w: "\<forall>f \<in> set (rw_flights w). flight_ok w f" "\<forall>k \<in> set (rw_kept w). checked L V w k"
    "\<forall>at storage. rl_storage (rw_relay w) = Some (at, storage) \<longrightarrow> (at, storage) \<in> set (rw_reads w) \<and> at \<le> rw_clock w"
    by (auto simp: relay_ok_def)
  have "set (rw_reads w) \<subseteq> set (rw_reads w')" "rw_clock w \<le> rw_clock w'" using assms(2) by (simp_all add: later_def)
  with assms(4) w(3) have "\<forall>at storage. rl_storage (rw_relay w') = Some (at, storage) \<longrightarrow> (at, storage) \<in> set (rw_reads w') \<and> at \<le> rw_clock w'"
    by (meson order_trans subsetD)
  moreover have "\<forall>f \<in> set (rw_flights w'). flight_ok w' f" using assms(3) w(1) later_flight [OF assms(2)] by blast
  moreover have "\<forall>k \<in> set (rw_kept w'). checked L V w' k" using assms(5) w(2) later_checked [OF assms(2)] by blast
  ultimately show ?thesis using assms(6) unfolding relay_ok_def by blast
qed

lemma markSeen_rest [simp]:
  "rl_latest (markSeen s r) = rl_latest r" "rl_storage (markSeen s r) = rl_storage r"
  by (simp_all add: markSeen_def Let_def)

lemma trusted_cached:
  assumes "\<not> trustedNeedsRead now r" "trusted now reading r = (Inr storage, r')"
  shows "r' = r" "\<exists>at. rl_storage r = Some (at, storage) \<and> now - at \<le> TRUSTED_MS"
  using assms by (auto simp: trusted_def trustedNeedsRead_def split: option.splits)

lemma relay_step_ok:
  assumes "relay_step L V feedIds w w'" "relay_ok L V feedIds w"
  shows "relay_ok L V feedIds w'"
proof -
  note later = relay_step_later [OF assms(1)]
  from assms(2) have holds: "\<forall>f. rl_latest (rw_relay w) f = (if f \<in> set feedIds then newest_of L f (rw_kept w) else None)"
    and read: "\<forall>at storage. rl_storage (rw_relay w) = Some (at, storage) \<longrightarrow> (at, storage) \<in> set (rw_reads w) \<and> at \<le> rw_clock w"
    and flights: "\<forall>f \<in> set (rw_flights w). flight_ok w f" by (auto simp: relay_ok_def)
  from assms(1) show ?thesis
  proof cases
    case (rs_cached s reading storage r m)
    from trusted_cached [OF rs_cached(2,3)] obtain at where
      r: "r = markSeen s (rw_relay w)" and at: "rl_storage (rw_relay w) = Some (at, storage)" "rw_clock w - at \<le> TRUSTED_MS" by auto
    from at read have "storage_read w' storage (rw_clock w)" by (auto simp: storage_read_def rs_cached(1) TRUSTED_MS_def)
    with holds show ?thesis
      by (intro relay_okI [OF assms(2) later]) (auto simp: rs_cached(1) r flight_ok_def)
  next
    case (rs_reading s m)
    with holds show ?thesis by (intro relay_okI [OF assms(2) later]) (auto simp: flight_ok_def)
  next
    case (rs_read s m t storage)
    with flights have "t \<le> rw_clock w" "(s, m, t) \<in> set (rw_begun w)" by (force simp: flight_ok_def)+
    moreover have "storage_read w' storage t" by (auto simp: storage_read_def rs_read(1) intro: exI [of _ t])
    ultimately show ?thesis using holds
      by (intro relay_okI [OF assms(2) later]) (auto simp: rs_read(1) flight_ok_def dest: notin_set_remove1)
  next
    case (rs_dropped f)
    with holds show ?thesis by (intro relay_okI [OF assms(2) later]) (auto dest: notin_set_remove1)
  next
    case (rs_kept s m storage b t u)
    from flights rs_kept(2) have "(s, m, b) \<in> set (rw_begun w)" "storage_read w storage b" "b \<le> t" "t \<le> rw_clock w"
      by (auto simp: flight_ok_def)
    with rs_kept(3) have "checked L V w (s, m, storage, b, t)" by (simp add: checked_def)
    then have now: "checked L V w' (s, m, storage, b, t)" by (rule later_checked [OF later])
    show ?thesis
    proof (rule relay_okI [OF assms(2) later])
      show "\<forall>f \<in> set (rw_flights w') - set (rw_flights w). flight_ok w' f" by (auto simp: rs_kept(1) dest: notin_set_remove1)
      show "\<forall>k \<in> set (rw_kept w') - set (rw_kept w). checked L V w' k" using now by (auto simp: rs_kept(1))
      show "\<forall>f. rl_latest (rw_relay w') f = (if f \<in> set feedIds then newest_of L f (rw_kept w') else None)"
        using holds by (simp add: rs_kept(1) keepStore_newer newest_of_def)
    qed (simp add: rs_kept(1) keepStore_newer)
  next
    case (rs_clock t)
    with holds show ?thesis by (intro relay_okI [OF assms(2) later]) auto
  next
    case rs_poll
    with holds show ?thesis by (intro relay_okI [OF assms(2) later]) auto
  qed
qed

lemma relay_run_ok: "relay_run L V feedIds w \<Longrightarrow> relay_ok L V feedIds w"
proof (induction rule: relay_run.induct)
  case run_start
  show ?case by (simp add: relay_ok_def newRelay_def newest_of_def)
next
  case (run_step w w')
  then show ?case by (blast intro: relay_step_ok)
qed

section \<open>What is handed out\<close>

lemma newer_cases:
  assumes "newer L s m f old = Some k"
  shows "old = Some k \<or> (tu_message k = m \<and> hasFeed L m f \<and> feedUpdatedAt L m f = Inr (Some (tu_updatedAt k)))"
  using assms by (auto simp: newer_def split: if_splits sum.splits option.splits)

lemma newer_newest:
  assumes "hasFeed L m f" "feedUpdatedAt L m f = Inr (Some t)"
  shows "\<exists>k. newer L s m f old = Some k \<and> t \<le> tu_updatedAt k"
  using assms by (auto simp: newer_def split: option.splits)

lemma newer_grows: "old = Some k \<Longrightarrow> \<exists>k'. newer L s m f old = Some k' \<and> tu_updatedAt k \<le> tu_updatedAt k'"
  by (auto simp: newer_def split: sum.splits option.splits)

lemma newest_of_kept:
  "newest_of L f kept = Some k \<Longrightarrow>
   \<exists>s c. (s, tu_message k, c) \<in> set kept \<and> hasFeed L (tu_message k) f \<and> feedUpdatedAt L (tu_message k) f = Inr (Some (tu_updatedAt k))"
proof (induction kept)
  case (Cons x rest)
  obtain s m c where x: "x = (s, m, c)" by (cases x)
  from Cons.prems newer_cases [of L s m f "newest_of L f rest" k] Cons.IH show ?case by (auto simp: newest_of_def x simp del: split_paired_Ex)
qed (simp add: newest_of_def)

lemma newest_of_newest:
  "(s, m, c) \<in> set kept \<Longrightarrow> hasFeed L m f \<Longrightarrow> feedUpdatedAt L m f = Inr (Some t) \<Longrightarrow>
   \<exists>k. newest_of L f kept = Some k \<and> t \<le> tu_updatedAt k"
proof (induction kept)
  case (Cons x rest)
  obtain s' m' c' where x: "x = (s', m', c')" by (cases x)
  have out: "newest_of L f (x # rest) = newer L s' m' f (newest_of L f rest)" by (simp add: newest_of_def x)
  show ?case
  proof (cases "(s, m, c) = x")
    case True
    with x newer_newest [OF Cons.prems(2,3)] show ?thesis unfolding out by auto
  next
    case False
    with Cons.prems(1) have "(s, m, c) \<in> set rest" by auto
    from Cons.IH [OF this Cons.prems(2,3)] obtain k where "newest_of L f rest = Some k" "t \<le> tu_updatedAt k" by blast
    with newer_grows [OF this(1), of L s' m' f] show ?thesis unfolding out by fastforce
  qed
qed simp

text \<open>
  C30: Over every run of the relay, however the posts being read interleave, an update handed out for an asset was
  kept from a post whose check began at a time of the run's clock, with a storage of the cluster whose read had begun
  at most ten minutes before that time, and whose signature was then verified against it; it names the feed's own
  time, is the newest of the feed among everything kept, and is at most 45 seconds old when it is handed out.
\<close>

theorem relay_hands_out_checked:
  assumes "relay_run L V feedIds w" "assetPass waitMs started feedId now clock (rw_relay w) = Handed update waited"
  shows "(\<exists>s storage b t. (s, tu_message update, storage, b, t) \<in> set (rw_kept w) \<and> (s, tu_message update, b) \<in> set (rw_begun w)
        \<and> (\<exists>at. (at, storage) \<in> set (rw_reads w) \<and> at \<le> b \<and> b - at \<le> 600000) \<and> b \<le> t \<and> t \<le> rw_clock w
        \<and> (\<exists>u. verifyPythUpdate L V (tu_message update) storage (t div 1000) = Inr u))
    \<and> hasFeed L (tu_message update) feedId
    \<and> feedUpdatedAt L (tu_message update) feedId = Inr (Some (tu_updatedAt update))
    \<and> now + waited div 1000 - tu_updatedAt update \<le> 45
    \<and> (\<forall>(s, m, _) \<in> set (rw_kept w). \<forall>t. hasFeed L m feedId \<longrightarrow> feedUpdatedAt L m feedId = Inr (Some t) \<longrightarrow> t \<le> tu_updatedAt update)"
proof -
  have ok: "relay_ok L V feedIds w" by (rule relay_run_ok [OF assms(1)])
  from assms(2) obtain k where k: "rl_latest (rw_relay w) feedId = Some k" "tu_message update = tu_message k"
    "tu_updatedAt update = tu_updatedAt k" "now + waited div 1000 - tu_updatedAt update \<le> 45"
    by (auto simp: assetPass_def freshUpdate_def asleep_def Let_def MAX_ASSET_UPDATE_AGE_SECONDS_def split: option.splits if_splits)
  have newest: "newest_of L feedId (rw_kept w) = Some k"
    using ok k(1) by (auto simp: relay_ok_def split: if_splits)
  from newest_of_kept [OF newest] obtain s storage b t where s: "(s, tu_message k, storage, b, t) \<in> set (rw_kept w)"
    "hasFeed L (tu_message k) feedId" "feedUpdatedAt L (tu_message k) feedId = Inr (Some (tu_updatedAt k))" by auto
  have "checked L V w (s, tu_message k, storage, b, t)" using ok s(1) by (auto simp: relay_ok_def)
  then have "\<exists>s storage b t. (s, tu_message k, storage, b, t) \<in> set (rw_kept w) \<and> (s, tu_message k, b) \<in> set (rw_begun w)
        \<and> (\<exists>at. (at, storage) \<in> set (rw_reads w) \<and> at \<le> b \<and> b - at \<le> 600000) \<and> b \<le> t \<and> t \<le> rw_clock w
        \<and> (\<exists>u. verifyPythUpdate L V (tu_message k) storage (t div 1000) = Inr u)"
    using s(1) unfolding checked_def storage_read_def prod.case by blast
  moreover have "t \<le> tu_updatedAt k" if "(s', m, c) \<in> set (rw_kept w)" "hasFeed L m feedId" "feedUpdatedAt L m feedId = Inr (Some t)" for s' m c t
    using newest_of_newest [OF that] newest by auto
  ultimately show ?thesis using s(2,3) k by auto
qed

text \<open>
  A poll of the sweep's own that keeps a fresh update does not wake it: it sleeps from after the poll on, until
  another post or its deadline, though a pass made then would have handed the update out.
\<close>

lemma own_poll_does_not_wake:
  assumes "freshUpdate r feedId now (clock - started) \<noteq> None" "0 < waitMs - waitedMs"
  shows "\<not> wakes (assetPolled waitMs waitedMs clock r) clock r
    \<and> (\<exists>update. assetPass waitMs started feedId now clock r = Handed update (clock - started))"
  using assms by (auto simp: wakes_def assetPolled_def asleep_def assetPass_def Let_def POLL_INTERVAL_MS_def)

section \<open>The payment token's update\<close>

text \<open>What is kept for the payment tokens was verified and names its time; what is handed out is at most 20 s old or was just verified.\<close>

definition payments_ok :: "lib \<Rightarrow> (address \<Rightarrow> bytes \<Rightarrow> bytes \<Rightarrow> bool) \<Rightarrow> (int \<Rightarrow> timed_update option) \<Rightarrow> bool" where
  "payments_ok L V latest \<longleftrightarrow> (\<forall>f k. latest f = Some k \<longrightarrow> feedUpdatedAt L (tu_message k) f = Inr (Some (tu_updatedAt k))
     \<and> (\<exists>storage now u. verifyPythUpdate L V (tu_message k) storage now = Inr u))"

lemma fetchPayment_ok:
  assumes "payments_ok L V latest" "fetchPayment L V fetched storage feedId now latest = (r, latest')"
  shows "payments_ok L V latest'"
    "r = Inr m \<Longrightarrow> fetched = Inr m \<and> (\<exists>s u. storage = Inr s \<and> verifyPythUpdate L V m s now = Inr u)"
proof -
  have all: "payments_ok L V latest' \<and> (\<forall>m. r = Inr m \<longrightarrow> fetched = Inr m \<and> (\<exists>s u. storage = Inr s \<and> verifyPythUpdate L V m s now = Inr u))"
  proof (cases "res_bind fetched (\<lambda>message. res_bind storage (\<lambda>s. res_bind (verifyPythUpdate L V message s now) (\<lambda>_.
             res_bind (feedUpdatedAt L message feedId) (\<lambda>t. Inr (message, t)))))")
    case (Inl e)
    with assms show ?thesis by (auto simp: fetchPayment_def)
  next
    case (Inr mt)
    obtain m t where mt: "mt = (m, t)" by (cases mt)
    from Inr obtain s u where facts: "fetched = Inr m" "storage = Inr s" "verifyPythUpdate L V m s now = Inr u" "feedUpdatedAt L m feedId = Inr t"
      by (auto simp: result_simps mt)
    have r: "r = Inr m" "latest' = (case t of None \<Rightarrow> latest | Some x \<Rightarrow> latest(feedId \<mapsto> \<lparr>tu_message = m, tu_updatedAt = x\<rparr>))"
      using assms(2) unfolding fetchPayment_def Inr mt by (auto split: option.splits)
    have "payments_ok L V latest'"
    proof (cases t)
      case (Some x)
      show ?thesis unfolding payments_ok_def r(2) Some option.case
      proof (intro allI impI)
        fix f k assume k: "(latest(feedId \<mapsto> \<lparr>tu_message = m, tu_updatedAt = x\<rparr>)) f = Some k"
        show "feedUpdatedAt L (tu_message k) f = Inr (Some (tu_updatedAt k)) \<and> (\<exists>storage now u. verifyPythUpdate L V (tu_message k) storage now = Inr u)"
        proof (cases "f = feedId")
          case True
          with k have "k = \<lparr>tu_message = m, tu_updatedAt = x\<rparr>" by simp
          moreover have "\<exists>storage now u. verifyPythUpdate L V m storage now = Inr u" using facts(3) by blast
          ultimately show ?thesis using facts(4) Some True by simp
        next
          case False
          with k assms(1) show ?thesis by (simp add: payments_ok_def)
        qed
      qed
    qed (use r assms(1) in simp)
    with facts r show ?thesis by auto
  qed
  then show "payments_ok L V latest'" by blast
  assume "r = Inr m"
  with all show "fetched = Inr m \<and> (\<exists>s u. storage = Inr s \<and> verifyPythUpdate L V m s now = Inr u)" by blast
qed

lemma payment_ok:
  assumes "payments_ok L V latest" "payment L V fetched storage feedId now latest = (r, latest')"
  shows "payments_ok L V latest'"
    "r = Inr m \<Longrightarrow> (\<exists>s t u. verifyPythUpdate L V m s t = Inr u)
       \<and> ((\<exists>t. feedUpdatedAt L m feedId = Inr (Some t) \<and> now - t \<le> 20) \<or> fetched = Inr m)"
proof -
  from assms show "payments_ok L V latest'"
    by (auto simp: payment_def split: option.splits if_splits dest: fetchPayment_ok(1))
  assume r: "r = Inr m"
  show "(\<exists>s t u. verifyPythUpdate L V m s t = Inr u) \<and> ((\<exists>t. feedUpdatedAt L m feedId = Inr (Some t) \<and> now - t \<le> 20) \<or> fetched = Inr m)"
  proof (cases "\<exists>k. latest feedId = Some k \<and> now - tu_updatedAt k \<le> 20")
    case True
    with assms r show ?thesis by (auto simp: payment_def payments_ok_def PAYMENT_UPDATE_REUSE_SECONDS_def)
  next
    case False
    with assms(2) have "fetchPayment L V fetched storage feedId now latest = (r, latest')"
      by (auto simp: payment_def PAYMENT_UPDATE_REUSE_SECONDS_def split: option.splits if_splits)
    from fetchPayment_ok(2) [OF assms(1) this r] show ?thesis by blast
  qed
qed

section \<open>Witness\<close>

text \<open>A post read, checked and kept at ten seconds past its feed's time, and handed out 30 seconds later.\<close>

definition demoStorage :: pyth_storage where
  "demoStorage = \<lparr>st_singleUpdateFeeInLamports = 1, st_topAuthority = ''T'', st_treasury = ''V'',
     st_trustedSigners = [(1800000000, decodeAddress demoLib (replicate 32 2))]\<rparr>"

definition demoKept :: relay_world where
  "demoKept = \<lparr>rw_relay = snd (keepStore demoLib [7, 9] ''sig'' demoMessage 1700000010000
       ((markSeen ''sig'' newRelay)\<lparr>rl_storage := Some (1700000010000, demoStorage)\<rparr>)),
     rw_clock = 1700000010000, rw_flights = [], rw_reads = [(1700000010000, demoStorage)],
     rw_begun = [(''sig'', demoMessage, 1700000010000)], rw_kept = [(''sig'', demoMessage, demoStorage, 1700000010000, 1700000010000)]\<rparr>"

lemma demoKept_run: "relay_run demoLib (\<lambda>_ _ _. True) [7, 9] demoKept"
proof -
  let ?run = "relay_run demoLib (\<lambda>_ _ _. True) [7, 9]"
  have "?run \<lparr>rw_relay = newRelay, rw_clock = 1700000010000, rw_flights = [], rw_reads = [], rw_begun = [], rw_kept = []\<rparr>"
    using run_step [OF run_start rs_clock [of _ 1700000010000]] by simp
  from run_step [OF this rs_reading [of _ "''sig''" _ _ _ demoMessage]]
  have "?run \<lparr>rw_relay = markSeen ''sig'' newRelay, rw_clock = 1700000010000,
      rw_flights = [Reading ''sig'' demoMessage 1700000010000], rw_reads = [], rw_begun = [(''sig'', demoMessage, 1700000010000)], rw_kept = []\<rparr>"
    by (simp add: trustedNeedsRead_def newRelay_def)
  from run_step [OF this rs_read [of "''sig''" demoMessage 1700000010000 _ _ _ _ demoStorage]]
  have read: "?run \<lparr>rw_relay = (markSeen ''sig'' newRelay)\<lparr>rl_storage := Some (1700000010000, demoStorage)\<rparr>, rw_clock = 1700000010000,
      rw_flights = [Verifying ''sig'' demoMessage demoStorage 1700000010000 1700000010000],
      rw_reads = [(1700000010000, demoStorage)],
      rw_begun = [(''sig'', demoMessage, 1700000010000)], rw_kept = []\<rparr>" by simp
  have "isl (verifyPythUpdate demoLib (\<lambda>_ _ _. True) demoMessage demoStorage (1700000010000 div 1000)) = False" by code_simp
  then obtain u where u: "verifyPythUpdate demoLib (\<lambda>_ _ _. True) demoMessage demoStorage (1700000010000 div 1000) = Inr u"
    by (cases "verifyPythUpdate demoLib (\<lambda>_ _ _. True) demoMessage demoStorage (1700000010000 div 1000)") simp_all
  from run_step [OF read rs_kept [of "''sig''" demoMessage demoStorage 1700000010000 1700000010000 _ demoLib _ u]] u
  show ?thesis by (simp add: demoKept_def)
qed

theorem relay_hands_out_checked_witness:
  "assetPass KAMINO_WAIT_MS 1700000040000 9 1700000040 1700000040000 (rw_relay demoKept)
     = Handed \<lparr>tu_message = demoMessage, tu_updatedAt = 1700000000\<rparr> 0
   \<and> (\<exists>s storage b t. (s, demoMessage, storage, b, t) \<in> set (rw_kept demoKept) \<and> (s, demoMessage, b) \<in> set (rw_begun demoKept)
         \<and> (\<exists>at. (at, storage) \<in> set (rw_reads demoKept) \<and> at \<le> b \<and> b - at \<le> 600000))"
proof -
  have handed: "assetPass KAMINO_WAIT_MS 1700000040000 9 1700000040 1700000040000 (rw_relay demoKept)
     = Handed \<lparr>tu_message = demoMessage, tu_updatedAt = 1700000000\<rparr> 0" by code_simp
  from relay_hands_out_checked [OF demoKept_run handed] have
    "\<exists>s storage b t. (s, demoMessage, storage, b, t) \<in> set (rw_kept demoKept) \<and> (s, demoMessage, b) \<in> set (rw_begun demoKept)
         \<and> (\<exists>at. (at, storage) \<in> set (rw_reads demoKept) \<and> at \<le> b \<and> b - at \<le> 600000)"
    unfolding timed_update.select_convs by blast
  with handed show ?thesis by (rule conjI)
qed

end
