(* ===== verification/Account_Roles.thy ===== *)
theory Account_Roles
  imports Jupiter
begin

text \<open>
  The roles of accounts as a semilattice: kit's \<open>AccountRole\<close> is two flags, one role is below another when it asks for no
  more, and an account named several times in a transaction gets the least role above all it was named with. So
  the signature of a sweep stays the crank's whatever its route names.
\<close>

section \<open>The semilattice\<close>

instantiation account_role :: "{order_bot, semilattice_sup}"
begin

definition less_eq_account_role :: "account_role \<Rightarrow> account_role \<Rightarrow> bool" where
  "less_eq_account_role r s \<longleftrightarrow> (isSignerRole r \<longrightarrow> isSignerRole s) \<and> (isWritableRole r \<longrightarrow> isWritableRole s)"

definition less_account_role :: "account_role \<Rightarrow> account_role \<Rightarrow> bool" where
  "less_account_role r s \<longleftrightarrow> r \<le> s \<and> \<not> s \<le> (r :: account_role)"

definition bot_account_role :: account_role where "bot_account_role = Readonly"

definition sup_account_role :: "account_role \<Rightarrow> account_role \<Rightarrow> account_role" where
  "sup_account_role r s =
     (if isSignerRole r \<or> isSignerRole s
      then if isWritableRole r \<or> isWritableRole s then WritableSigner else ReadonlySigner
      else if isWritableRole r \<or> isWritableRole s then Writable else Readonly)"

instance
proof
  fix r s t :: account_role
  show "r < s \<longleftrightarrow> r \<le> s \<and> \<not> s \<le> r" by (rule less_account_role_def)
  show "r \<le> r" by (simp add: less_eq_account_role_def)
  show "r \<le> t" if "r \<le> s" "s \<le> t" using that by (auto simp: less_eq_account_role_def)
  show "r = s" if "r \<le> s" "s \<le> r"
    using that by (cases r; cases s) (simp_all add: less_eq_account_role_def isSignerRole_def isWritableRole_def)
  show "bot \<le> r" by (simp add: less_eq_account_role_def bot_account_role_def isSignerRole_def isWritableRole_def)
  show "r \<le> sup r s" "s \<le> sup r s"
    by (simp_all add: less_eq_account_role_def sup_account_role_def isSignerRole_def isWritableRole_def)
  show "sup r s \<le> t" if "r \<le> t" "s \<le> t"
    using that by (auto simp: less_eq_account_role_def sup_account_role_def isSignerRole_def isWritableRole_def)
qed

end

lemma isSignerRole_sup [simp]: "isSignerRole (sup r s) \<longleftrightarrow> isSignerRole r \<or> isSignerRole s"
  by (simp add: sup_account_role_def isSignerRole_def)

lemma isSignerRole_bot [simp]: "\<not> isSignerRole bot"
  by (simp add: bot_account_role_def isSignerRole_def)

lemma isSignerRole_mono: "r \<le> s \<Longrightarrow> isSignerRole r \<Longrightarrow> isSignerRole s"
  by (simp add: less_eq_account_role_def)

section \<open>Accounts named several times\<close>

text \<open>The role an account has in a message: all it was named with.\<close>

definition mergedRole :: "account_meta list \<Rightarrow> address \<Rightarrow> account_role" where
  "mergedRole metas a = foldr sup (map meta_role (filter (\<lambda>m. meta_address m = a) metas)) bot"

lemma mergedRole_above: "m \<in> set metas \<Longrightarrow> meta_role m \<le> mergedRole metas (meta_address m)"
  by (induction metas) (auto simp: mergedRole_def intro: le_supI2)

lemma mergedRole_least:
  "(\<And>m. m \<in> set metas \<Longrightarrow> meta_address m = a \<Longrightarrow> meta_role m \<le> r) \<Longrightarrow> mergedRole metas a \<le> r"
  by (induction metas) (auto simp: mergedRole_def)

lemma mergedRole_signer: "isSignerRole (mergedRole metas a) \<longleftrightarrow> (\<exists>m \<in> set metas. meta_address m = a \<and> isSignerRole (meta_role m))"
  by (induction metas) (auto simp: mergedRole_def)

section \<open>A sweep's signers\<close>

text \<open>
  Of all the accounts a sweep names, however often its route names them, only the crank's is a signer; and no account
  of the route gets more from the route than the route asked for.
\<close>

lemma sweep_signer_is_crank:
  assumes "getSweepInstructions L sizeOf i = Inr b" "\<And>r. downgradeRoleToNonSigner L r \<le> r \<and> \<not> isSignerRole (downgradeRoleToNonSigner L r)"
  shows "isSignerRole (mergedRole (sweepMetas b) a) \<longleftrightarrow> a = in_crank i"
    "\<exists>own. sweepMetas b = own @ map (\<lambda>m. m\<lparr>meta_role := downgradeRoleToNonSigner L (meta_role m)\<rparr>) (route_accounts (in_route i))
       \<and> mergedRole (map (\<lambda>m. m\<lparr>meta_role := downgradeRoleToNonSigner L (meta_role m)\<rparr>) (route_accounts (in_route i))) a
         \<le> mergedRole (route_accounts (in_route i)) a"
proof -
  let ?lower = "\<lambda>m. m\<lparr>meta_role := downgradeRoleToNonSigner L (meta_role m)\<rparr>"
  from assms(1) obtain token asset where metas: "sweepMetas b =
      sweepAccounts L (in_state i) token asset (in_crank i) (in_pythTreasury i) @ map ?lower (route_accounts (in_route i))"
    by (rule getSweepInstructions_Inr) (simp add: sweepMetas_def)
  let ?own = "sweepAccounts L (in_state i) token asset (in_crank i) (in_pythTreasury i)"
  obtain rest where own: "?own = \<lparr>meta_address = in_crank i, meta_role = WritableSigner\<rparr> # rest"
    "\<And>m. m \<in> set rest \<Longrightarrow> \<not> isSignerRole (meta_role m)"
    using sweepAccounts_signers(1,3) [of L "in_state i" token asset "in_crank i" "in_pythTreasury i"]
      sweepAccounts_signers(2) [where s = "in_state i" and L = L and token = token and asset = asset and crank = "in_crank i" and treasury = "in_pythTreasury i"]
    by (cases ?own) auto
  have "isSignerRole WritableSigner" by (simp add: isSignerRole_def)
  then show "isSignerRole (mergedRole (sweepMetas b) a) \<longleftrightarrow> a = in_crank i"
    unfolding mergedRole_signer metas own(1) using own(2) assms(2) by auto
  have "mergedRole (map ?lower (route_accounts (in_route i))) a \<le> mergedRole (route_accounts (in_route i)) a"
  proof (rule mergedRole_least)
    fix m assume "m \<in> set (map ?lower (route_accounts (in_route i)))" "meta_address m = a"
    then obtain n where "n \<in> set (route_accounts (in_route i))" "meta_address n = a" "meta_role m = downgradeRoleToNonSigner L (meta_role n)" by auto
    with assms(2) mergedRole_above [of n "route_accounts (in_route i)"]
    show "meta_role m \<le> mergedRole (route_accounts (in_route i)) a" by (metis order_trans)
  qed
  with metas show "\<exists>own. sweepMetas b = own @ map ?lower (route_accounts (in_route i))
      \<and> mergedRole (map ?lower (route_accounts (in_route i))) a \<le> mergedRole (route_accounts (in_route i)) a" by blast
qed

end
