(* ===== verification/Crank_Routes.thy ===== *)
theory Crank_Routes
  imports Crank Checks Rate_Limits Client_Contracts
begin

text \<open>
  The crank's routes (\<open>services/operator/src/crank/routes.ts\<close>): Jupiter's, asked for at most four times, with the
  swap-authority accounts they need created within a daily bound, and the spacing of the requests. The lemmas show what
  was asked, what a returned route is, and that the bound holds over every run.
\<close>

section \<open>The code: rateLimitedFetch\<close>

definition JUPITER_REQUEST_INTERVAL_MS :: "int \<times> int" where "JUPITER_REQUEST_INTERVAL_MS = (1100, 2100)"

text \<open>\<open>sentAt\<close> is \<open>None\<close> for \<open>-Infinity\<close>.\<close>

record limiter =
  lm_sentAt :: "int option"
  lm_spacing :: int
  lm_requests :: nat

definition newLimiter :: limiter where
  "newLimiter = \<lparr>lm_sentAt = None, lm_spacing = 0, lm_requests = 0\<rparr>"

text \<open>A turn at \<open>now\<close>; a sleep that is needed ends \<open>late\<close> milliseconds after its time.\<close>

definition leave :: "int \<Rightarrow> nat \<Rightarrow> int \<Rightarrow> int \<Rightarrow> limiter \<Rightarrow> limiter" where
  "leave intervalMs attempt now late l =
     (let wait = (case lm_sentAt l of None \<Rightarrow> -1 | Some t \<Rightarrow> t + lm_spacing l - now)
      in l\<lparr>lm_sentAt := Some (if wait > 0 then now + wait + late else now), lm_spacing := intervalMs * 2 ^ attempt\<rparr>)"

text \<open>
  One fetch: the statuses its requests get, from the attempt \<open>attempt\<close> on, and the clock and lateness of each turn.
\<close>

fun limitedFetch :: "nat \<Rightarrow> int \<Rightarrow> (nat \<Rightarrow> int \<times> int \<times> nat outcome) \<Rightarrow> nat \<Rightarrow> limiter \<Rightarrow> nat outcome \<times> limiter" where
  "limitedFetch 0 intervalMs turns attempt l = (Inl TypeError, l)"
| "limitedFetch (Suc left) intervalMs turns attempt l =
     (let (now, late, response) = turns attempt;
          l = leave intervalMs attempt now late l;
          l = l\<lparr>lm_requests := lm_requests l + 1\<rparr>
      in case response of
           Inl e \<Rightarrow> (Inl e, l)
         | Inr status \<Rightarrow>
             if status \<noteq> 429 \<or> attempt = 5 then (Inr status, l) else limitedFetch left intervalMs turns (attempt + 1) l)"

section \<open>The code: jupiterRoutes\<close>

definition CLASSIC_VENUES :: "string list" where "CLASSIC_VENUES = [''Raydium CLMM'', ''Whirlpool'']"
definition MAX_ROUTE_AGE_SECONDS :: int where "MAX_ROUTE_AGE_SECONDS = 10"
definition ROUTE_ATTEMPTS :: nat where "ROUTE_ATTEMPTS = 4"

record swap_account_creation =
  sc_address :: address
  sc_mint :: address
  sc_signature :: string
  sc_tokenProgram :: address
  sc_createdAt :: int

text \<open>What creating accounts reads: the clock, the mints' owners, the transaction's outcome, and the time of its rows.\<close>

record create_env =
  ce_now :: int
  ce_mints :: "(address \<Rightarrow> address option) outcome"
  ce_send :: "string outcome"
  ce_insertedAt :: int

definition createdSince :: "int \<Rightarrow> swap_account_creation list \<Rightarrow> int" where
  "createdSince t rows = int (length (filter (\<lambda>r. sc_createdAt r > t) rows))"

definition noRoute :: "string \<Rightarrow> route_result" where "noRoute reason = RouteRefused (''No route: '' @ reason)"

definition boundPassed :: "int \<Rightarrow> route_result" where
  "boundPassed created = RouteRefused (''The crank created '' @ showInt created
     @ '' swap-authority accounts in 24 hours; a route needing more waits for an operator'')"

text \<open>\<open>onConflictDoNothing\<close>: an address that has a row keeps it.\<close>

definition insertCreation :: "swap_account_creation list \<Rightarrow> swap_account_creation \<Rightarrow> swap_account_creation list" where
  "insertCreation rows row = (if sc_address row \<in> sc_address ` set rows then rows else rows @ [row])"

definition createAccounts ::
    "create_env \<Rightarrow> (address \<times> address \<times> address) list \<Rightarrow> swap_account_creation list \<Rightarrow> route_result option \<times> swap_account_creation list" where
  "createAccounts env accounts rows =
     (let created = createdSince (ce_now env - 86400000) rows
      in if created + int (length accounts) > th_swapAccountCreationsPerDay THRESHOLDS then (Some (boundPassed created), rows)
         else case ce_mints env of
                Inl e \<Rightarrow> (Some (RouteThrew e), rows)
              | Inr mints \<Rightarrow>
                  (case find (\<lambda>(_, mint, tokenProgram). mints mint \<noteq> Some tokenProgram) accounts of
                     Some (_, mint, tokenProgram) \<Rightarrow> (Some (RouteThrew (PlainError (mint @ '' is not a mint of '' @ tokenProgram))), rows)
                   | None \<Rightarrow>
                       (case ce_send env of
                          Inl e \<Rightarrow> (Some (RouteThrew e), rows)
                        | Inr signature \<Rightarrow>
                            (None, foldl insertCreation rows
                               (map (\<lambda>(address, mint, tokenProgram).
                                  \<lparr>sc_address = address, sc_mint = mint, sc_signature = signature, sc_tokenProgram = tokenProgram,
                                   sc_createdAt = ce_insertedAt env\<rparr>) accounts)))))"

definition includesText :: "string \<Rightarrow> string \<Rightarrow> bool" where
  "includesText part s = list_ex (\<lambda>i. take (length part) (drop i s) = part) [0..<Suc (length s)]"

text \<open>The builder refused the route itself.\<close>

definition refusesRoute :: "js_error \<Rightarrow> bool" where
  "refusesRoute e = (case e of PlainError m \<Rightarrow> includesText ''names the crank'' m \<or> includesText ''another setup'' m | _ \<Rightarrow> False)"

record jupiter_env =
  je_jupiter :: "jupiter_build_params \<Rightarrow> jupiter_response outcome"
  je_cluster :: cluster
  je_now :: int
  je_create :: create_env

record routes_input =
  ri_parsers :: parsers
  ri_lib :: lib
  ri_programs :: token_programs
  ri_payer :: address

definition sweepRouteInput :: "routes_input \<Rightarrow> route_request \<Rightarrow> string list option \<Rightarrow> sweep_route_input" where
  "sweepRouteInput R q dexes =
     \<lparr>sr_amount = rq_amount q, sr_assetMint = asset_mint (rq_asset q), sr_crank = ri_payer R, sr_dexes = dexes,
      sr_excludeDexes = (if dexes \<noteq> None then None
                         else if rq_excludeVenues q \<noteq> [] then Some (rq_excludeVenues q) else None),
      sr_paymentMint = token_mint (rq_payment q), sr_swapAuthority = rq_swapAuthority q,
      sr_userAssetAccount = rq_userAssetAccount q\<rparr>"

text \<open>
  One attempt, asking with \<open>dexes\<close>: what it returns or throws, or that it is made again and with what. A quote's time
  is in seconds and the clock in milliseconds.
\<close>

datatype attempt_result = Settled route_result | Again "string list option"

definition routeAttempt ::
    "routes_input \<Rightarrow> route_request \<Rightarrow> jupiter_env \<Rightarrow> string list option \<Rightarrow> swap_account_creation list
     \<Rightarrow> attempt_result \<times> swap_account_creation list" where
  "routeAttempt R q e dexes rows =
     (case buildJupiterSweepRoute (ri_parsers R) (ri_lib R) (ri_programs R) (je_cluster e) (je_jupiter e) (sweepRouteInput R q dexes) of
        Inr built \<Rightarrow>
          if (case br_quotedAt built of None \<Rightarrow> False | Some t \<Rightarrow> je_now e - 1000 * t > 1000 * MAX_ROUTE_AGE_SECONDS)
          then (Again dexes, rows)
          else (Settled (RouteFound (br_route built) (br_outAmount built) (br_venues built)), rows)
      | Inl error \<Rightarrow>
          (case error of
             SwapAuthorityAccountsRequiredError accounts \<Rightarrow>
               (case createAccounts (je_create e) accounts rows of
                  (Some r, rows) \<Rightarrow> (Settled r, rows)
                | (None, rows) \<Rightarrow> (Again dexes, rows))
           | _ \<Rightarrow>
               if dexes = None \<and> refusesRoute error
               then (Again (Some (filter (\<lambda>v. v \<notin> set (rq_excludeVenues q)) CLASSIC_VENUES)), rows)
               else (Settled (RouteThrew error), rows)))"

text \<open>The loop: what it returns, the rows, and what it asked of the builder, in order.\<close>

fun routeAttempts ::
    "routes_input \<Rightarrow> route_request \<Rightarrow> (nat \<Rightarrow> jupiter_env) \<Rightarrow> nat \<Rightarrow> nat \<Rightarrow> string list option \<Rightarrow> swap_account_creation list
     \<Rightarrow> route_result \<times> swap_account_creation list \<times> sweep_route_input list" where
  "routeAttempts R q env 0 attempt dexes rows =
     (noRoute (''no fresh, usable Jupiter route in '' @ showInt (int ROUTE_ATTEMPTS) @ '' requests''), rows, [])"
| "routeAttempts R q env (Suc left) attempt dexes rows =
     (case routeAttempt R q (env attempt) dexes rows of
        (Settled r, rows) \<Rightarrow> (r, rows, [sweepRouteInput R q dexes])
      | (Again dexes', rows) \<Rightarrow>
          (case routeAttempts R q env left (attempt + 1) dexes' rows of
             (r, rows, asked) \<Rightarrow> (r, rows, sweepRouteInput R q dexes # asked)))"

definition jupiterRoutes ::
    "routes_input \<Rightarrow> (nat \<Rightarrow> jupiter_env) \<Rightarrow> route_request \<Rightarrow> swap_account_creation list
     \<Rightarrow> route_result \<times> swap_account_creation list \<times> sweep_route_input list" where
  "jupiterRoutes R env q rows = routeAttempts R q env ROUTE_ATTEMPTS 0 None rows"

section \<open>The bound on new accounts\<close>

definition createdAt :: "swap_account_creation \<Rightarrow> int option" where "createdAt r = Some (sc_createdAt r)"

definition accounts_step :: "int \<Rightarrow> swap_account_creation list \<Rightarrow> swap_account_creation list \<Rightarrow> bool" where
  "accounts_step now rows rows' \<longleftrightarrow>
     (\<exists>env accounts r. ce_now env = now \<and> now \<le> ce_insertedAt env \<and> createAccounts env accounts rows = (r, rows'))"

lemma since_created: "int (since t (times createdAt rows)) = createdSince t rows"
  by (induction rows) (simp_all add: since_def createdSince_def createdAt_def)

lemma insertCreation_times:
  "\<exists>n. n \<le> length new \<and> times createdAt (foldl insertCreation rows
      (map (\<lambda>(address, mint, tokenProgram). \<lparr>sc_address = address, sc_mint = mint, sc_signature = s, sc_tokenProgram = tokenProgram, sc_createdAt = t\<rparr>) new))
    = times createdAt rows + replicate_mset n t"
proof (induction new arbitrary: rows)
  case (Cons a new)
  let ?row = "(\<lambda>(address, mint, tokenProgram). \<lparr>sc_address = address, sc_mint = mint, sc_signature = s, sc_tokenProgram = tokenProgram, sc_createdAt = t\<rparr>)"
  from Cons obtain n where n: "n \<le> length new"
    "times createdAt (foldl insertCreation (insertCreation rows (?row a)) (map ?row new)) = times createdAt (insertCreation rows (?row a)) + replicate_mset n t"
    by blast
  have "sc_createdAt (?row a) = t" by (simp split: prod.split)
  then have "times createdAt (insertCreation rows (?row a)) = times createdAt rows
      \<or> times createdAt (insertCreation rows (?row a)) = times createdAt rows + replicate_mset 1 t"
    by (auto simp: insertCreation_def createdAt_def)
  then show ?case
  proof
    assume "times createdAt (insertCreation rows (?row a)) = times createdAt rows"
    with n show ?thesis by (intro exI [of _ n]) simp
  next
    assume "times createdAt (insertCreation rows (?row a)) = times createdAt rows + replicate_mset 1 t"
    with n show ?thesis by (intro exI [of _ "Suc n"]) simp
  qed
qed simp

lemma createAccounts_counts:
  assumes "createAccounts env accounts rows = (r, rows')"
  shows "rows' = rows \<or> (\<exists>n. createdSince (ce_now env - 86400000) rows + int n \<le> 5
    \<and> times createdAt rows' = times createdAt rows + replicate_mset n (ce_insertedAt env))"
proof (cases "rows' = rows")
  case False
  with assms have room: "createdSince (ce_now env - 86400000) rows + int (length accounts) \<le> 5"
    by (auto simp: createAccounts_def Let_def THRESHOLDS_def split: if_splits)
  from False assms obtain s where "rows' = foldl insertCreation rows (map (\<lambda>(address, mint, tokenProgram).
      \<lparr>sc_address = address, sc_mint = mint, sc_signature = s, sc_tokenProgram = tokenProgram, sc_createdAt = ce_insertedAt env\<rparr>) accounts)"
    by (auto simp: createAccounts_def Let_def split: if_splits sum.splits option.splits prod.splits)
  moreover obtain n where "n \<le> length accounts" "times createdAt (foldl insertCreation rows (map (\<lambda>(address, mint, tokenProgram).
      \<lparr>sc_address = address, sc_mint = mint, sc_signature = s, sc_tokenProgram = tokenProgram, sc_createdAt = ce_insertedAt env\<rparr>) accounts))
      = times createdAt rows + replicate_mset n (ce_insertedAt env)" using insertCreation_times by blast
  moreover from this(1) room have "createdSince (ce_now env - 86400000) rows + int n \<le> 5" by linarith
  ultimately show ?thesis by metis
qed simp

interpretation swap_accounts: batch_limited createdAt 86400000 5 accounts_step
proof
  fix now rows rows'
  assume "accounts_step now rows rows'"
  then obtain env accounts r where env: "ce_now env = now" "now \<le> ce_insertedAt env" "createAccounts env accounts rows = (r, rows')"
    unfolding accounts_step_def by blast
  from createAccounts_counts [OF env(3)] show "times createdAt rows' \<subseteq># times createdAt rows
      \<or> (\<exists>n t. now \<le> t \<and> since (now - 86400000) (times createdAt rows) + n \<le> 5 \<and> times createdAt rows' \<subseteq># times createdAt rows + replicate_mset n t)"
  proof (elim disjE exE conjE)
    assume "rows' = rows"
    then show ?thesis by simp
  next
    fix n assume "createdSince (ce_now env - 86400000) rows + int n \<le> 5"
      "times createdAt rows' = times createdAt rows + replicate_mset n (ce_insertedAt env)"
    moreover from this have "since (now - 86400000) (times createdAt rows) + n \<le> 5"
      using since_created [of "now - 86400000" rows] unfolding env(1) by linarith
    ultimately have "now \<le> ce_insertedAt env \<and> since (now - 86400000) (times createdAt rows) + n \<le> 5
        \<and> times createdAt rows' \<subseteq># times createdAt rows + replicate_mset n (ce_insertedAt env)" using env(2) by simp
    then show ?thesis by blast
  qed
qed

lemma routeAttempt_rows:
  assumes "routeAttempt R q e dexes rows = (r, rows')"
  shows "rows' = rows \<or> (\<exists>accounts out. createAccounts (je_create e) accounts rows = (out, rows'))"
  using assms by (auto simp: routeAttempt_def split: sum.splits js_error.splits option.splits prod.splits if_splits)

lemma routeAttempt_windowed:
  assumes "routeAttempt R q e dexes rows = (r, rows')" "ce_now (je_create e) \<le> ce_insertedAt (je_create e)"
    "windowed createdAt 86400000 5 rows"
  shows "windowed createdAt 86400000 5 rows'"
  using routeAttempt_rows [OF assms(1)]
proof (elim disjE exE)
  fix accounts out
  assume "createAccounts (je_create e) accounts rows = (out, rows')"
  then have "accounts_step (ce_now (je_create e)) rows rows'" using assms(2) unfolding accounts_step_def by blast
  then show ?thesis by (rule swap_accounts.keeps [OF assms(3)])
qed (use assms(3) in simp)

lemma routeAttempts_windowed:
  "(\<And>k. ce_now (je_create (env k)) \<le> ce_insertedAt (je_create (env k))) \<Longrightarrow> windowed createdAt 86400000 5 rows \<Longrightarrow>
   windowed createdAt 86400000 5 (fst (snd (routeAttempts R q env left attempt dexes rows)))"
proof (induction left arbitrary: attempt dexes rows)
  case (Suc left)
  obtain r rows' where r: "routeAttempt R q (env attempt) dexes rows = (r, rows')" by fastforce
  from routeAttempt_windowed [OF this Suc.prems] have "windowed createdAt 86400000 5 rows'" .
  with r Suc.IH [OF Suc.prems(1)] show ?case by (cases r) (simp_all add: case_prod_beta)
qed simp

text \<open>Requests, one after the other; the time a row is given is not before its bound was checked.\<close>

inductive routes_run :: "routes_input \<Rightarrow> swap_account_creation list \<Rightarrow> bool" for R where
  routes_start: "routes_run R []"
| routes_request: "routes_run R rows \<Longrightarrow> (\<And>k. ce_now (je_create (env k)) \<le> ce_insertedAt (je_create (env k))) \<Longrightarrow>
    jupiterRoutes R env q rows = (r, rows', asked) \<Longrightarrow> routes_run R rows'"

lemma windowed_created:
  "windowed createdAt 86400000 5 rows \<Longrightarrow> length (filter (\<lambda>r. t - 86400000 < sc_createdAt r \<and> sc_createdAt r \<le> t) rows) \<le> 5"
proof -
  have "size (filter_mset (\<lambda>s. t - 86400000 < s \<and> s \<le> t) (times createdAt rows))
      = length (filter (\<lambda>r. t - 86400000 < sc_createdAt r \<and> sc_createdAt r \<le> t) rows)"
    by (induction rows) (simp_all add: createdAt_def)
  moreover assume "windowed createdAt 86400000 5 rows"
  ultimately show ?thesis unfolding windowed_def by metis
qed

text \<open>
  C31: Over every run of the crank's route requests, in any 24 hours at most five swap-authority accounts are recorded
  as created, whatever Jupiter answers and however often a route is asked for again.
\<close>

theorem swap_accounts_bounded:
  "routes_run R rows \<Longrightarrow> length (filter (\<lambda>r. t - 86400000 < sc_createdAt r \<and> sc_createdAt r \<le> t) rows) \<le> 5"
proof (rule windowed_created, induction rule: routes_run.induct)
  case routes_start
  show ?case by simp
next
  case (routes_request rows env q r rows' asked)
  from routeAttempts_windowed [where env = env, OF routes_request(2) routes_request(4), where R = R and q = q and left = ROUTE_ATTEMPTS and attempt = 0 and dexes = None]
  show ?case unfolding routes_request(3) [unfolded jupiterRoutes_def] by simp
qed

section \<open>What is asked and returned\<close>

text \<open>What a request may ask: the whole of the pull, and either every venue but the excluded, or classic ones not excluded.\<close>

definition asks_for :: "route_request \<Rightarrow> sweep_route_input \<Rightarrow> bool" where
  "asks_for q i \<longleftrightarrow> sr_amount i = rq_amount q \<and> sr_userAssetAccount i = rq_userAssetAccount q \<and> sr_swapAuthority i = rq_swapAuthority q
     \<and> (case sr_dexes i of
          None \<Rightarrow> sr_excludeDexes i = (if rq_excludeVenues q = [] then None else Some (rq_excludeVenues q))
        | Some dexes \<Rightarrow> set dexes \<subseteq> set CLASSIC_VENUES - set (rq_excludeVenues q))"

definition dexes_ok :: "route_request \<Rightarrow> string list option \<Rightarrow> bool" where
  "dexes_ok q dexes \<longleftrightarrow> (case dexes of None \<Rightarrow> True | Some ds \<Rightarrow> set ds \<subseteq> set CLASSIC_VENUES - set (rq_excludeVenues q))"

lemma asks_sweepRouteInput: "dexes_ok q dexes \<Longrightarrow> asks_for q (sweepRouteInput R q dexes)"
  by (cases dexes) (simp_all add: asks_for_def sweepRouteInput_def dexes_ok_def)

lemma routeAttempt_again:
  "routeAttempt R q e dexes rows = (Again dexes', rows') \<Longrightarrow> dexes_ok q dexes \<Longrightarrow> dexes_ok q dexes'"
  by (auto simp: routeAttempt_def dexes_ok_def split: sum.splits js_error.splits option.splits prod.splits if_splits)

lemma routeAttempt_found:
  assumes "routeAttempt R q e dexes rows = (Settled (RouteFound instruction quoted venues), rows')"
  obtains built where
    "buildJupiterSweepRoute (ri_parsers R) (ri_lib R) (ri_programs R) (je_cluster e) (je_jupiter e) (sweepRouteInput R q dexes) = Inr built"
    "instruction = br_route built" "quoted = br_outAmount built" "venues = br_venues built"
    "\<forall>t. br_quotedAt built = Some t \<longrightarrow> je_now e \<le> 1000 * (t + MAX_ROUTE_AGE_SECONDS)"
proof -
  have no: "createAccounts env accounts rows \<noteq> (Some (RouteFound i n v), rows'')" for env accounts i n v rows''
    by (auto simp: createAccounts_def Let_def boundPassed_def split: sum.splits option.splits prod.splits)
  show thesis
  proof (cases "buildJupiterSweepRoute (ri_parsers R) (ri_lib R) (ri_programs R) (je_cluster e) (je_jupiter e) (sweepRouteInput R q dexes)")
    case (Inl error)
    with assms no show thesis
      by (cases error) (simp_all add: routeAttempt_def split: option.splits prod.splits if_splits)
  next
    case (Inr built)
    with assms have "br_route built = instruction \<and> br_outAmount built = quoted \<and> br_venues built = venues
      \<and> \<not> (case br_quotedAt built of None \<Rightarrow> False | Some t \<Rightarrow> je_now e - 1000 * t > 1000 * MAX_ROUTE_AGE_SECONDS)"
      by (simp add: routeAttempt_def split: if_splits)
    then have "instruction = br_route built" "quoted = br_outAmount built" "venues = br_venues built"
      "\<forall>t. br_quotedAt built = Some t \<longrightarrow> je_now e \<le> 1000 * (t + MAX_ROUTE_AGE_SECONDS)" by auto
    with Inr show thesis by (rule that)
  qed
qed

lemma routeAttempts_asked:
  "dexes_ok q dexes \<Longrightarrow> routeAttempts R q env left attempt dexes rows = (r, rows', asked) \<Longrightarrow>
   length asked \<le> left \<and> (\<forall>i \<in> set asked. asks_for q i)"
proof (induction left arbitrary: attempt dexes rows r rows' asked)
  case (Suc left)
  obtain o1 rows1 where o1: "routeAttempt R q (env attempt) dexes rows = (o1, rows1)" by fastforce
  note ask = asks_sweepRouteInput [OF Suc.prems(1), of R]
  show ?case
  proof (cases o1)
    case (Settled s)
    with o1 Suc.prems(2) ask show ?thesis by auto
  next
    case (Again dexes')
    obtain r2 rows2 asked2 where rest: "routeAttempts R q env left (attempt + 1) dexes' rows1 = (r2, rows2, asked2)" by (metis prod_cases3)
    from Suc.IH [OF routeAttempt_again [OF o1 [unfolded Again] Suc.prems(1)] rest] o1 Again Suc.prems(2) ask rest show ?thesis by auto
  qed
qed simp

lemma routeAttempts_crank:
  "routeAttempts R q env left attempt dexes rows = (r, rows', asked) \<Longrightarrow> \<forall>i \<in> set asked. sr_crank i = ri_payer R"
proof (induction left arbitrary: attempt dexes rows r rows' asked)
  case (Suc left)
  obtain o1 rows1 where o1: "routeAttempt R q (env attempt) dexes rows = (o1, rows1)" by fastforce
  show ?case
  proof (cases o1)
    case (Settled s)
    with o1 Suc.prems show ?thesis by (auto simp: sweepRouteInput_def)
  next
    case (Again dexes')
    obtain r2 rows2 asked2 where rest: "routeAttempts R q env left (attempt + 1) dexes' rows1 = (r2, rows2, asked2)" by (metis prod_cases3)
    from Suc.IH [OF rest] o1 Again Suc.prems rest show ?thesis by (auto simp: sweepRouteInput_def)
  qed
qed simp

lemma routeAttempts_found:
  "routeAttempts R q env left attempt dexes rows = (RouteFound instruction quoted venues, rows', asked) \<Longrightarrow>
   \<exists>k i built. k < left \<and> i = last asked \<and> asked \<noteq> [] \<and> length asked = k + 1
     \<and> buildJupiterSweepRoute (ri_parsers R) (ri_lib R) (ri_programs R) (je_cluster (env (attempt + k))) (je_jupiter (env (attempt + k))) i = Inr built
     \<and> instruction = br_route built \<and> quoted = br_outAmount built \<and> venues = br_venues built
     \<and> (\<forall>t. br_quotedAt built = Some t \<longrightarrow> je_now (env (attempt + k)) \<le> 1000 * (t + MAX_ROUTE_AGE_SECONDS))"
proof (induction left arbitrary: attempt dexes rows rows' asked)
  case 0
  then show ?case by (simp add: noRoute_def)
next
  case (Suc left)
  obtain o1 rows1 where o1: "routeAttempt R q (env attempt) dexes rows = (o1, rows1)" by fastforce
  show ?case
  proof (cases o1)
    case (Settled s)
    with o1 Suc.prems have found: "routeAttempt R q (env attempt) dexes rows = (Settled (RouteFound instruction quoted venues), rows1)"
      and asked: "asked = [sweepRouteInput R q dexes]" by auto
    from found obtain built where "buildJupiterSweepRoute (ri_parsers R) (ri_lib R) (ri_programs R) (je_cluster (env attempt))
        (je_jupiter (env attempt)) (sweepRouteInput R q dexes) = Inr built"
      "instruction = br_route built" "quoted = br_outAmount built" "venues = br_venues built"
      "\<forall>t. br_quotedAt built = Some t \<longrightarrow> je_now (env attempt) \<le> 1000 * (t + MAX_ROUTE_AGE_SECONDS)" by (rule routeAttempt_found)
    then show ?thesis by (intro exI [of _ 0] exI [of _ "sweepRouteInput R q dexes"] exI [of _ built]) (simp add: asked)
  next
    case (Again dexes')
    obtain r2 rows2 asked2 where rest: "routeAttempts R q env left (attempt + 1) dexes' rows1 = (r2, rows2, asked2)" by (metis prod_cases3)
    with o1 Again Suc.prems have r2: "r2 = RouteFound instruction quoted venues" "asked = sweepRouteInput R q dexes # asked2" by auto
    from Suc.IH [OF rest [unfolded r2(1)]] obtain k i built where k: "k < left" "i = last asked2" "asked2 \<noteq> []" "length asked2 = k + 1"
      "buildJupiterSweepRoute (ri_parsers R) (ri_lib R) (ri_programs R) (je_cluster (env (attempt + 1 + k))) (je_jupiter (env (attempt + 1 + k))) i = Inr built"
      "instruction = br_route built" "quoted = br_outAmount built" "venues = br_venues built"
      "\<forall>t. br_quotedAt built = Some t \<longrightarrow> je_now (env (attempt + 1 + k)) \<le> 1000 * (t + MAX_ROUTE_AGE_SECONDS)" by blast
    then show ?thesis by (intro exI [of _ "Suc k"] exI [of _ i] exI [of _ built]) (simp add: r2(2))
  qed
qed


text \<open>
  When every classic venue failed today the retry names an empty list of venues, and excludes none: Jupiter is told of
  no restriction at all.
\<close>

lemma classic_retry_unrestricted:
  assumes "set CLASSIC_VENUES \<subseteq> set (rq_excludeVenues q)"
    "buildJupiterSweepRoute (ri_parsers R) (ri_lib R) (ri_programs R) (je_cluster e) (je_jupiter e) (sweepRouteInput R q None) = Inl error"
    "refusesRoute error"
  shows "routeAttempt R q e None rows = (Again (Some []), rows)
    \<and> sr_dexes (sweepRouteInput R q (Some [])) = Some [] \<and> sr_excludeDexes (sweepRouteInput R q (Some [])) = None"
  using assms by (cases error) (auto simp: routeAttempt_def sweepRouteInput_def refusesRoute_def CLASSIC_VENUES_def)

section \<open>The spacing of the requests\<close>

text \<open>Turns are taken one after the other; a turn's clock is not before the previous request left.\<close>

lemma leave_spaced:
  assumes "0 \<le> late" "intervalMs \<le> lm_spacing l" "0 \<le> intervalMs" "lm_sentAt l = Some t"
  shows "\<exists>t'. lm_sentAt (leave intervalMs attempt now late l) = Some t' \<and> t + intervalMs \<le> t'"
    "intervalMs \<le> lm_spacing (leave intervalMs attempt now late l)"
proof -
  have "intervalMs * 1 \<le> intervalMs * 2 ^ attempt" using assms(3) by (intro mult_left_mono) simp_all
  then show "intervalMs \<le> lm_spacing (leave intervalMs attempt now late l)" by (simp add: leave_def Let_def)
  show "\<exists>t'. lm_sentAt (leave intervalMs attempt now late l) = Some t' \<and> t + intervalMs \<le> t'"
    using assms by (auto simp: leave_def Let_def)
qed

text \<open>A fetch makes at most six requests, and gives up on a 429 only then.\<close>

lemma limitedFetch_requests:
  "limitedFetch left intervalMs turns attempt l = (r, l') \<Longrightarrow> attempt + left = 6 \<Longrightarrow> 0 < left \<Longrightarrow>
   lm_requests l < lm_requests l' \<and> lm_requests l' \<le> lm_requests l + left
   \<and> (r = Inr 429 \<longrightarrow> lm_requests l' = lm_requests l + left)"
proof (induction left arbitrary: attempt l)
  case (Suc left)
  obtain now late response where t: "turns attempt = (now, late, response)" by (cases "turns attempt") auto
  let ?l = "(leave intervalMs attempt now late l)\<lparr>lm_requests := lm_requests (leave intervalMs attempt now late l) + 1\<rparr>"
  have n: "lm_requests ?l = lm_requests l + 1" by (simp add: leave_def Let_def)
  show ?case
  proof (cases "\<exists>s. response = Inr s \<and> \<not> (s \<noteq> 429 \<or> attempt = 5)")
    case False
    with Suc.prems t have "l' = ?l" "r = response" by (auto simp: Let_def split: sum.splits if_splits)
    with n Suc.prems(2) False show ?thesis by auto
  next
    case True
    with Suc.prems t have rest: "limitedFetch left intervalMs turns (attempt + 1) ?l = (r, l')" by (auto simp: Let_def)
    have "0 < left" using True Suc.prems(2) by auto
    from Suc.IH [OF rest _ this] Suc.prems(2) n show ?thesis by auto
  qed
qed simp

section \<open>Witnesses\<close>

text \<open>A route that writes an account of the swap authority which the cluster lacks: it is created, and the route built again.\<close>

definition demoWrites :: "jupiter_build_params \<Rightarrow> jupiter_response outcome" where
  "demoWrites params = map_sum id (\<lambda>r. r\<lparr>jr_swapInstruction := (jr_swapInstruction r)\<lparr>ai_accounts :=
      [\<lparr>aa_isSigner = True, aa_isWritable = False, aa_pubkey = ''SA''\<rparr>,
       \<lparr>aa_isSigner = False, aa_isWritable = True, aa_pubkey = ''SA/USDC''\<rparr>]\<rparr>\<rparr>) (demoJupiter params)"

definition demoRoutesInput :: routes_input where
  "demoRoutesInput = \<lparr>ri_parsers = demoParsers demoRouteData, ri_lib = demoLib, ri_programs = demoPrograms, ri_payer = ''CRANK''\<rparr>"

definition demoRoutesEnv :: "nat \<Rightarrow> jupiter_env" where
  "demoRoutesEnv k = \<lparr>je_jupiter = demoWrites,
     je_cluster = (if k = 0 then demoCluster else demoCluster(''SA/USDC'' \<mapsto> \<lparr>acc_programAddress = ''TOK'', acc_data = []\<rparr>)),
     je_now = 2005000,
     je_create = \<lparr>ce_now = 2001000, ce_mints = Inr (\<lambda>_. Some ''T22''), ce_send = Inr ''sig'', ce_insertedAt = 2003000\<rparr>\<rparr>"

definition demoRequest :: route_request where
  "demoRequest = \<lparr>rq_amount = 7000000, rq_asset = hd (cfg_assets demoConfig), rq_excludeVenues = [],
     rq_payment = hd (cfg_paymentTokens demoConfig), rq_swapAuthority = ''SA'', rq_userAssetAccount = ''U/SPYX''\<rparr>"

definition demoCreation :: swap_account_creation where
  "demoCreation = \<lparr>sc_address = ''SA/USDC'', sc_mint = ''USDC'', sc_signature = ''sig'', sc_tokenProgram = ''T22'', sc_createdAt = 2003000\<rparr>"

definition demoWritingRoute :: route_instruction where
  "demoWritingRoute = \<lparr>route_programAddress = JUPITER_PROGRAM_ADDRESS,
     route_accounts = [\<lparr>meta_address = ''SA'', meta_role = ReadonlySigner\<rparr>, writable ''SA/USDC''], route_data = demoRouteData\<rparr>"

lemma demo_routes:
  "jupiterRoutes demoRoutesInput demoRoutesEnv demoRequest []
   = (RouteFound demoWritingRoute 1140 [''Whirlpool''], [demoCreation],
      [sweepRouteInput demoRoutesInput demoRequest None, sweepRouteInput demoRoutesInput demoRequest None])"
  by code_simp

theorem swap_accounts_bounded_witness:
  "length (filter (\<lambda>r. 2003000 - 86400000 < sc_createdAt r \<and> sc_createdAt r \<le> 2003000) [demoCreation]) \<le> 5
   \<and> fst (snd (jupiterRoutes demoRoutesInput demoRoutesEnv demoRequest [])) = [demoCreation]"
proof -
  have "routes_run demoRoutesInput [demoCreation]"
    by (rule routes_request [OF routes_start _ demo_routes]) (simp add: demoRoutesEnv_def)
  from swap_accounts_bounded [OF this] demo_routes show ?thesis by simp
qed


end
