(* ===== verification/Devnet_Pools.thy ===== *)
theory Devnet_Pools
  imports Crank_Routes
begin

text \<open>
  Devnet's pools (\<open>packages/devnet/src/cpmm.ts\<close>, \<open>repeg.ts\<close>): the instruction of a swap, the curve's reserves, the output
  of a swap; the routes the crank takes there (\<open>cpmmRoutes\<close> of \<open>crank/routes.ts\<close>) and the re-pegging of the pools
  (\<open>crank/repeg.ts\<close>), whose floating-point prices are parameters.
\<close>

section \<open>The code: addresses.ts and the swap instruction\<close>

record devnet_token =
  dt_mint :: address
  dt_tokenProgram :: address
  dt_decimals :: int

record pool_info =
  pi_address :: address
  pi_base :: string
  pi_quote :: string
  pi_token0Mint :: address
  pi_token1Mint :: address
  pi_token0Vault :: address
  pi_token1Vault :: address
  pi_lpMint :: address
  pi_observation :: address

record devnet_addresses =
  da_ammConfig :: address
  da_tokens :: "string \<Rightarrow> devnet_token"
  da_pools :: "(string \<times> pool_info) list"

definition RAYDIUM_CP_SWAP_PROGRAM_ADDRESS :: address where
  "RAYDIUM_CP_SWAP_PROGRAM_ADDRESS = ''GVSWUkxEj83o4xmcNRDc4p6wSTE7mB3g8BXZRXq8Wcx3''"

definition findAuthorityPda :: "lib \<Rightarrow> address" where
  "findAuthorityPda L = getProgramDerivedAddress L RAYDIUM_CP_SWAP_PROGRAM_ADDRESS
     [[118, 97, 117, 108, 116, 95, 97, 110, 100, 95, 108, 112, 95, 109, 105, 110, 116, 95, 97, 117, 116, 104, 95, 115, 101, 101, 100]]"

definition SWAP_BASE_INPUT_DISCRIMINATOR :: bytes where
  "SWAP_BASE_INPUT_DISCRIMINATOR = [143, 190, 90, 218, 196, 30, 51, 222]"

definition getSwapBaseInputInstructionDataEncoder :: "lib \<Rightarrow> int \<Rightarrow> int \<Rightarrow> bytes" where
  "getSwapBaseInputInstructionDataEncoder L amountIn minimumAmountOut =
     SWAP_BASE_INPUT_DISCRIMINATOR @ encodeUint L 8 amountIn @ encodeUint L 8 minimumAmountOut"

record swap_base_input =
  sb_payer :: address
  sb_ammConfig :: address
  sb_poolState :: address
  sb_inputTokenAccount :: address
  sb_outputTokenAccount :: address
  sb_inputVault :: address
  sb_outputVault :: address
  sb_inputTokenProgram :: address
  sb_outputTokenProgram :: address
  sb_inputTokenMint :: address
  sb_outputTokenMint :: address
  sb_observationState :: address
  sb_amountIn :: int
  sb_minimumAmountOut :: int

definition getSwapBaseInputInstructionAsync :: "lib \<Rightarrow> swap_base_input \<Rightarrow> route_instruction" where
  "getSwapBaseInputInstructionAsync L i =
     \<lparr>route_programAddress = RAYDIUM_CP_SWAP_PROGRAM_ADDRESS,
      route_accounts =
        [\<lparr>meta_address = sb_payer i, meta_role = ReadonlySigner\<rparr>,
         readonly (findAuthorityPda L),
         readonly (sb_ammConfig i),
         writable (sb_poolState i),
         writable (sb_inputTokenAccount i),
         writable (sb_outputTokenAccount i),
         writable (sb_inputVault i),
         writable (sb_outputVault i),
         readonly (sb_inputTokenProgram i),
         readonly (sb_outputTokenProgram i),
         readonly (sb_inputTokenMint i),
         readonly (sb_outputTokenMint i),
         writable (sb_observationState i)],
      route_data = getSwapBaseInputInstructionDataEncoder L (sb_amountIn i) (sb_minimumAmountOut i)\<rparr>"

section \<open>The code: cpmm.ts\<close>

record pool_fees =
  pf_fundFeeRate :: int
  pf_protocolFeeRate :: int
  pf_tradeFeeRate :: int

definition POOL_FEES :: pool_fees where
  "POOL_FEES = \<lparr>pf_fundFeeRate = 40000, pf_protocolFeeRate = 120000, pf_tradeFeeRate = 2500\<rparr>"

definition cpmm_pda :: "lib \<Rightarrow> bytes list \<Rightarrow> address" where
  "cpmm_pda L seeds = getProgramDerivedAddress L RAYDIUM_CP_SWAP_PROGRAM_ADDRESS seeds"

definition AMM_CONFIG_INDEX :: int where "AMM_CONFIG_INDEX = 0"

text \<open>A text seed is its UTF-8; the index is encoded with the high byte first.\<close>

definition ascii_seed :: "string \<Rightarrow> bytes" where "ascii_seed s = map (\<lambda>c. word_of_int (of_char c)) s"

definition ammConfigAddress :: "lib \<Rightarrow> address" where
  "ammConfigAddress L = cpmm_pda L [ascii_seed ''amm_config'', rev (le_bytes 2 AMM_CONFIG_INDEX)]"

definition poolAddress :: "lib \<Rightarrow> address \<Rightarrow> address \<Rightarrow> address \<Rightarrow> address" where
  "poolAddress L ammConfig token0 token1 =
     cpmm_pda L [ascii_seed ''pool'', encodeAddress L ammConfig, encodeAddress L token0, encodeAddress L token1]"

definition supportMintAddress :: "lib \<Rightarrow> address \<Rightarrow> address" where
  "supportMintAddress L mint = cpmm_pda L [ascii_seed ''support_mint'', encodeAddress L mint]"

definition orderMints :: "lib \<Rightarrow> address \<Rightarrow> address \<Rightarrow> address \<times> address" where
  "orderMints L a b =
     (let x = encodeAddress L a; y = encodeAddress L b
      in case find (\<lambda>i. x ! i \<noteq> y ! i) [0..<32] of
           Some i \<Rightarrow> if x ! i < y ! i then (a, b) else (b, a)
         | None \<Rightarrow> (a, b))"

record pool_state =
  po_token0Mint :: address
  po_token0Vault :: address
  po_token1Vault :: address
  po_protocolFeesToken0 :: int
  po_protocolFeesToken1 :: int
  po_fundFeesToken0 :: int
  po_fundFeesToken1 :: int
  po_creatorFeesToken0 :: int
  po_creatorFeesToken1 :: int

record reserves =
  rs_base :: int
  rs_quote :: int

definition poolReserves ::
    "(address \<Rightarrow> pool_state outcome) \<Rightarrow> (address \<Rightarrow> int outcome) \<Rightarrow> pool_info \<Rightarrow> (string \<Rightarrow> devnet_token) \<Rightarrow> reserves outcome" where
  "poolReserves fetchPoolState balanceOf pool tokens =
     res_bind (fetchPoolState (pi_address pool)) (\<lambda>data.
     res_bind (balanceOf (po_token0Vault data)) (\<lambda>vault0.
     res_bind (balanceOf (po_token1Vault data)) (\<lambda>vault1.
     let reserve0 = vault0 - po_protocolFeesToken0 data - po_fundFeesToken0 data - po_creatorFeesToken0 data;
         reserve1 = vault1 - po_protocolFeesToken1 data - po_fundFeesToken1 data - po_creatorFeesToken1 data
     in Inr (if po_token0Mint data = dt_mint (tokens (pi_base pool))
             then \<lparr>rs_base = reserve0, rs_quote = reserve1\<rparr> else \<lparr>rs_base = reserve1, rs_quote = reserve0\<rparr>))))"

definition vaultOf :: "pool_info \<Rightarrow> devnet_token \<Rightarrow> address" where
  "vaultOf pool token = (if dt_mint token = pi_token0Mint pool then pi_token0Vault pool else pi_token1Vault pool)"

definition routeInstruction ::
    "lib \<Rightarrow> pool_info \<Rightarrow> (string \<Rightarrow> devnet_token) \<Rightarrow> address \<Rightarrow> address \<Rightarrow> address \<Rightarrow> int \<Rightarrow> route_instruction" where
  "routeInstruction L pool tokens ammConfig authority destination amountIn =
     (let input = tokens (pi_quote pool); output = tokens (pi_base pool)
      in getSwapBaseInputInstructionAsync L
           \<lparr>sb_payer = authority, sb_ammConfig = ammConfig, sb_poolState = pi_address pool,
            sb_inputTokenAccount = findAssociatedTokenPda L (dt_mint input) authority (dt_tokenProgram input),
            sb_outputTokenAccount = destination,
            sb_inputVault = vaultOf pool input, sb_outputVault = vaultOf pool output,
            sb_inputTokenProgram = dt_tokenProgram input, sb_outputTokenProgram = dt_tokenProgram output,
            sb_inputTokenMint = dt_mint input, sb_outputTokenMint = dt_mint output,
            sb_observationState = pi_observation pool, sb_amountIn = amountIn, sb_minimumAmountOut = 0\<rparr>)"

datatype swap_side = Buy | Sell

text \<open>The creation of the output account and the swap; kit's creation instruction is a parameter.\<close>

definition swapInstruction ::
    "lib \<Rightarrow> (address \<Rightarrow> address \<Rightarrow> address \<Rightarrow> address \<Rightarrow> 'i) \<Rightarrow> (route_instruction \<Rightarrow> 'i) \<Rightarrow> pool_info \<Rightarrow> (string \<Rightarrow> devnet_token) \<Rightarrow> address
     \<Rightarrow> address \<Rightarrow> address \<Rightarrow> swap_side \<Rightarrow> int \<Rightarrow> int \<Rightarrow> 'i list" where
  "swapInstruction L createAccount asInstruction pool tokens ammConfig owner payer side amountIn minimumAmountOut =
     (let input = tokens (if side = Buy then pi_quote pool else pi_base pool);
          output = tokens (if side = Buy then pi_base pool else pi_quote pool)
      in [createAccount (dt_mint output) owner payer (dt_tokenProgram output),
          asInstruction (getSwapBaseInputInstructionAsync L
            \<lparr>sb_payer = owner, sb_ammConfig = ammConfig, sb_poolState = pi_address pool,
             sb_inputTokenAccount = findAssociatedTokenPda L (dt_mint input) owner (dt_tokenProgram input),
             sb_outputTokenAccount = findAssociatedTokenPda L (dt_mint output) owner (dt_tokenProgram output),
             sb_inputVault = vaultOf pool input, sb_outputVault = vaultOf pool output,
             sb_inputTokenProgram = dt_tokenProgram input, sb_outputTokenProgram = dt_tokenProgram output,
             sb_inputTokenMint = dt_mint input, sb_outputTokenMint = dt_mint output,
             sb_observationState = pi_observation pool, sb_amountIn = amountIn, sb_minimumAmountOut = minimumAmountOut\<rparr>)])"

section \<open>The code: repeg.ts and the routes\<close>

definition FEE_RATE_DENOMINATOR :: int where "FEE_RATE_DENOMINATOR = 1000000"

definition expectedAmountOut :: "int \<Rightarrow> int \<Rightarrow> int \<Rightarrow> pool_fees \<Rightarrow> int outcome" where
  "expectedAmountOut x y amountIn fees =
     (let net = js_div (amountIn * (FEE_RATE_DENOMINATOR - pf_tradeFeeRate fees)) FEE_RATE_DENOMINATOR
      in res_guard (x + net = 0) RangeError (Inr (js_div (y * net) (x + net))))"

definition devnetPool :: "devnet_addresses \<Rightarrow> address \<Rightarrow> address \<Rightarrow> string option" where
  "devnetPool A asset payment =
     map_option fst (find (\<lambda>(_, pool). dt_mint (da_tokens A (pi_base pool)) = asset
                                      \<and> dt_mint (da_tokens A (pi_quote pool)) = payment) (da_pools A))"

definition cpmmRoutes ::
    "lib \<Rightarrow> devnet_addresses \<Rightarrow> (address \<Rightarrow> pool_state outcome) \<Rightarrow> (address \<Rightarrow> int outcome) \<Rightarrow> route_request \<Rightarrow> route_result" where
  "cpmmRoutes L A fetchPoolState balanceOf q =
     (case find (\<lambda>(_, pool). dt_mint (da_tokens A (pi_base pool)) = asset_mint (rq_asset q)
                           \<and> dt_mint (da_tokens A (pi_quote pool)) = token_mint (rq_payment q)) (da_pools A) of
        None \<Rightarrow> noRoute (''no devnet pool swaps '' @ token_mint (rq_payment q) @ '' into '' @ asset_mint (rq_asset q))
      | Some (name, info) \<Rightarrow>
          if name \<in> set (rq_excludeVenues q) then noRoute (name @ '' failed today'')
          else case poolReserves fetchPoolState balanceOf info (da_tokens A) of
                 Inl e \<Rightarrow> RouteThrew e
               | Inr r \<Rightarrow>
                   (case expectedAmountOut (rs_quote r) (rs_base r) (rq_amount q) POOL_FEES of
                      Inl e \<Rightarrow> RouteThrew e
                    | Inr quoted \<Rightarrow>
                        RouteFound (routeInstruction L info (da_tokens A) (da_ammConfig A) (rq_swapAuthority q)
                          (rq_userAssetAccount q) (rq_amount q)) quoted [name]))"

text \<open>
  \<open>repeg\<close>: the deviation's check and the order are computed in floating point from the reserves; \<open>refused\<close> and \<open>order\<close>
  are what they come to.
\<close>

record repeg_order =
  ro_side :: swap_side
  ro_amountIn :: int

definition repeg ::
    "lib \<Rightarrow> (address \<Rightarrow> address \<Rightarrow> address \<Rightarrow> address \<Rightarrow> 'i) \<Rightarrow> (route_instruction \<Rightarrow> 'i) \<Rightarrow> devnet_addresses
     \<Rightarrow> (address \<Rightarrow> pool_state outcome) \<Rightarrow> (address \<Rightarrow> int outcome) \<Rightarrow> (reserves \<Rightarrow> string option) \<Rightarrow> (reserves \<Rightarrow> repeg_order option)
     \<Rightarrow> ('i list \<Rightarrow> string outcome) \<Rightarrow> address \<Rightarrow> string \<Rightarrow> string option outcome" where
  "repeg L createAccount asInstruction A fetchPoolState balanceOf refused order send treasury name =
     (case map_of (da_pools A) name of
        None \<Rightarrow> Inl TypeError
      | Some pool \<Rightarrow>
          res_bind (poolReserves fetchPoolState balanceOf pool (da_tokens A)) (\<lambda>r.
          (case refused r of
             Some deviation \<Rightarrow> Inl (PlainError (name @ '' is '' @ deviation @ ''; refusing to re-peg''))
           | None \<Rightarrow>
               (case order r of
                  None \<Rightarrow> Inr None
                | Some swap \<Rightarrow>
                    let (x, y) = (if ro_side swap = Buy then (rs_quote r, rs_base r) else (rs_base r, rs_quote r))
                    in res_bind (expectedAmountOut x y (ro_amountIn swap) POOL_FEES) (\<lambda>out.
                       res_bind (send (swapInstruction L createAccount asInstruction pool (da_tokens A) (da_ammConfig A) treasury treasury
                          (ro_side swap) (ro_amountIn swap) (js_div (out * 99) 100))) (\<lambda>signature. Inr (Some signature)))))))"

section \<open>The code: Repegger\<close>

text \<open>Prices are a type of their own, with the operations the code makes on them.\<close>

record 'p price_ops =
  po_dollars :: "quote_data \<Rightarrow> 'p"
  po_ratio :: "'p \<Rightarrow> 'p \<Rightarrow> 'p"
  po_one :: 'p
  po_isZero :: "'p \<Rightarrow> bool"

definition freshQuote :: "lib \<Rightarrow> bytes option \<Rightarrow> int \<Rightarrow> int \<Rightarrow> quote_data option" where
  "freshQuote L message feedId now =
     (case message of
        None \<Rightarrow> None
      | Some m \<Rightarrow> (case quote L m feedId now MAX_ASSET_UPDATE_AGE_SECONDS of Inl _ \<Rightarrow> None | Inr q \<Rightarrow> Some q))"

text \<open>A pool's own target from fresh updates, if both its prices are known and the dollar's is not zero.\<close>

definition ownTarget ::
    "lib \<Rightarrow> 'p price_ops \<Rightarrow> (string \<Rightarrow> int) \<Rightarrow> (int \<Rightarrow> bytes option) \<Rightarrow> quote_data option \<Rightarrow> int \<Rightarrow> pool_info \<Rightarrow> 'p option" where
  "ownTarget L P feedOf updates usdt now pool =
     (let feedId = feedOf (pi_base pool);
          asset = freshQuote L (updates feedId) feedId now;
          dollar = (if pi_quote pool = ''USDC'' then Some (po_one P) else map_option (po_dollars P) usdt)
      in case (asset, dollar) of
           (Some a, Some d) \<Rightarrow> if po_isZero P d then None else Some (po_ratio P (po_dollars P a) d)
         | _ \<Rightarrow> None)"

definition usdtQuote ::
    "lib \<Rightarrow> devnet_addresses \<Rightarrow> (string \<Rightarrow> int) \<Rightarrow> bytes outcome \<Rightarrow> string list \<Rightarrow> int \<Rightarrow> quote_data option" where
  "usdtQuote L A feedOf usdtUpdate pools now =
     (if list_ex (\<lambda>p. map_option pi_quote (map_of (da_pools A) p) = Some ''USDT'') pools
      then freshQuote L (case usdtUpdate of Inl _ \<Rightarrow> None | Inr m \<Rightarrow> Some m) (feedOf ''USDT'') now else None)"

text \<open>The fallback's prices are fetched once, by the first pool that needs them.\<close>

definition targets ::
    "lib \<Rightarrow> 'p price_ops \<Rightarrow> devnet_addresses \<Rightarrow> (string \<Rightarrow> int) \<Rightarrow> (int \<Rightarrow> bytes option) \<Rightarrow> bytes outcome
     \<Rightarrow> (string \<Rightarrow> 'p) outcome \<Rightarrow> string list \<Rightarrow> int \<Rightarrow> (string \<times> 'p) list outcome" where
  "targets L P A feedOf updates usdtUpdate fallback pools now =
     (let usdt = usdtQuote L A feedOf usdtUpdate pools now
      in res_map (\<lambda>name.
           case map_of (da_pools A) name of
             None \<Rightarrow> Inl TypeError
           | Some pool \<Rightarrow>
               (case ownTarget L P feedOf updates usdt now pool of
                  Some t \<Rightarrow> Inr (name, t)
                | None \<Rightarrow> res_bind fallback (\<lambda>prices. Inr (name, prices name)))) pools)"

definition isRepegRefusal :: "js_error \<Rightarrow> string option" where
  "isRepegRefusal e = (case e of PlainError m \<Rightarrow> if includesText ''refusing to re-peg'' m then Some m else None | _ \<Rightarrow> None)"

fun repegAll :: "(string \<Rightarrow> 'p \<Rightarrow> string option outcome) \<Rightarrow> (string \<times> 'p) list \<Rightarrow> (string \<times> string option) list outcome" where
  "repegAll trade [] = Inr []"
| "repegAll trade ((name, target) # rest) =
     (case trade name target of
        Inr _ \<Rightarrow> res_bind (repegAll trade rest) (\<lambda>states. Inr ((''repeg-'' @ name, None) # states))
      | Inl e \<Rightarrow>
          (case isRepegRefusal e of
             None \<Rightarrow> Inl e
           | Some m \<Rightarrow> res_bind (repegAll trade rest) (\<lambda>states.
               Inr ((''repeg-'' @ name, Some (m @ '': the devnet pool is not traded; check the treasury's inventory and the price sources'')) # states))))"

definition repegTick ::
    "lib \<Rightarrow> 'p price_ops \<Rightarrow> devnet_addresses \<Rightarrow> (string \<Rightarrow> int) \<Rightarrow> (int \<Rightarrow> bytes option) \<Rightarrow> bytes outcome
     \<Rightarrow> (string \<Rightarrow> 'p) outcome \<Rightarrow> string list \<Rightarrow> (string \<Rightarrow> 'p \<Rightarrow> string option outcome) \<Rightarrow> int \<Rightarrow> (string \<times> string option) list outcome" where
  "repegTick L P A feedOf updates usdtUpdate fallback pools trade now =
     res_bind (targets L P A feedOf updates usdtUpdate fallback pools now) (repegAll trade)"

text \<open>Before a sweep, at the prices it carries; \<open>payment\<close> is \<open>None\<close> for a token at one dollar.\<close>

definition repegSweepPool ::
    "'p price_ops \<Rightarrow> devnet_addresses \<Rightarrow> (string \<Rightarrow> 'p \<Rightarrow> string option outcome) \<Rightarrow> address \<Rightarrow> address \<Rightarrow> quote_data \<Rightarrow> quote_data option
     \<Rightarrow> string option outcome" where
  "repegSweepPool P A trade assetMint paymentMint asset payment =
     (case devnetPool A assetMint paymentMint of
        None \<Rightarrow> Inl (PlainError (''No devnet pool swaps '' @ paymentMint @ '' into '' @ assetMint))
      | Some pool \<Rightarrow> trade pool (po_ratio P (po_dollars P asset) (case payment of Some p \<Rightarrow> po_dollars P p | None \<Rightarrow> po_one P)))"

section \<open>The curve\<close>

definition fees_ok :: "pool_fees \<Rightarrow> bool" where
  "fees_ok fees \<longleftrightarrow> 0 \<le> pf_tradeFeeRate fees \<and> pf_tradeFeeRate fees \<le> FEE_RATE_DENOMINATOR"

definition netOf :: "int \<Rightarrow> pool_fees \<Rightarrow> int" where
  "netOf amountIn fees = amountIn * (FEE_RATE_DENOMINATOR - pf_tradeFeeRate fees) div FEE_RATE_DENOMINATOR"

lemma netOf_bounds:
  assumes "0 \<le> amountIn" "fees_ok fees"
  shows "0 \<le> netOf amountIn fees" "netOf amountIn fees \<le> amountIn"
proof -
  have rate: "0 \<le> FEE_RATE_DENOMINATOR - pf_tradeFeeRate fees" "FEE_RATE_DENOMINATOR - pf_tradeFeeRate fees \<le> 1000000"
    using assms(2) by (simp_all add: fees_ok_def FEE_RATE_DENOMINATOR_def)
  with assms(1) show "0 \<le> netOf amountIn fees" by (simp add: netOf_def FEE_RATE_DENOMINATOR_def pos_imp_zdiv_nonneg_iff)
  have "amountIn * (FEE_RATE_DENOMINATOR - pf_tradeFeeRate fees) \<le> amountIn * 1000000"
    using rate assms(1) by (intro mult_left_mono) simp_all
  then have "netOf amountIn fees \<le> amountIn * 1000000 div 1000000"
    unfolding netOf_def FEE_RATE_DENOMINATOR_def by (intro zdiv_mono1) simp_all
  then show "netOf amountIn fees \<le> amountIn" by simp
qed

lemma expectedAmountOut_div:
  assumes "0 < x" "0 \<le> y" "0 \<le> amountIn" "fees_ok fees"
  shows "expectedAmountOut x y amountIn fees = Inr (y * netOf amountIn fees div (x + netOf amountIn fees))"
proof -
  have rate: "0 \<le> FEE_RATE_DENOMINATOR - pf_tradeFeeRate fees" using assms(4) by (simp add: fees_ok_def)
  then have net: "js_div (amountIn * (FEE_RATE_DENOMINATOR - pf_tradeFeeRate fees)) FEE_RATE_DENOMINATOR = netOf amountIn fees"
    unfolding netOf_def using assms(3) by (intro js_div_nonneg) (simp_all add: FEE_RATE_DENOMINATOR_def)
  have "0 \<le> netOf amountIn fees" by (rule netOf_bounds(1) [OF assms(3,4)])
  with assms(1,2) have "js_div (y * netOf amountIn fees) (x + netOf amountIn fees) = y * netOf amountIn fees div (x + netOf amountIn fees)"
    "x + netOf amountIn fees \<noteq> 0" by (auto intro!: js_div_nonneg)
  then show ?thesis by (simp add: expectedAmountOut_def net Let_def)
qed

text \<open>The output is the largest that keeps the product of the reserves with the net input.\<close>

lemma swap_largest:
  fixes x y z n :: int
  assumes "0 < x" "0 \<le> n"
  shows "z \<le> y * n div (x + n) \<longleftrightarrow> x * y \<le> (x + n) * (y - z)"
proof -
  have pos: "0 < x + n" using assms by simp
  have "z \<le> y * n div (x + n) \<longleftrightarrow> z * (x + n) \<le> y * n"
  proof
    assume "z \<le> y * n div (x + n)"
    then have "z * (x + n) \<le> (y * n div (x + n)) * (x + n)" using pos by (intro mult_right_mono) simp_all
    also have "\<dots> \<le> y * n" using pos div_mult_mod_eq [of "y * n" "x + n"] pos_mod_sign [OF pos, of "y * n"] by linarith
    finally show "z * (x + n) \<le> y * n" .
  next
    assume "z * (x + n) \<le> y * n"
    then have "z * (x + n) div (x + n) \<le> y * n div (x + n)" using pos by (intro zdiv_mono1)
    with pos show "z \<le> y * n div (x + n)" by simp
  qed
  also have "\<dots> \<longleftrightarrow> x * y \<le> (x + n) * (y - z)" by (simp add: algebra_simps)
  finally show ?thesis .
qed

lemma expectedAmountOut_curve:
  assumes "0 < x" "0 < y" "0 \<le> amountIn" "fees_ok fees" "expectedAmountOut x y amountIn fees = Inr out"
  shows "0 \<le> out" "out < y" "x * y \<le> (x + amountIn) * (y - out)"
    "x * y \<le> (x + netOf amountIn fees) * (y - z) \<longleftrightarrow> z \<le> out"
proof -
  let ?n = "netOf amountIn fees"
  note n = netOf_bounds [OF assms(3,4)]
  have out: "out = y * ?n div (x + ?n)" using expectedAmountOut_div [OF assms(1) _ assms(3,4)] assms(2,5) by simp
  show "0 \<le> out" using n assms(1,2) by (simp add: out pos_imp_zdiv_nonneg_iff)
  have largest: "z \<le> out \<longleftrightarrow> x * y \<le> (x + ?n) * (y - z)" for z unfolding out by (rule swap_largest [OF assms(1) n(1)])
  then show "x * y \<le> (x + ?n) * (y - z) \<longleftrightarrow> z \<le> out" by simp
  have "\<not> y \<le> out" unfolding largest using assms(1,2) by (simp add: not_le)
  then show less: "out < y" by simp
  have "x * y \<le> (x + ?n) * (y - out)" using largest by blast
  also have "\<dots> \<le> (x + amountIn) * (y - out)" using n less by (intro mult_right_mono) simp_all
  finally show "x * y \<le> (x + amountIn) * (y - out)" .
qed

lemma fees_ok_POOL_FEES [simp]: "fees_ok POOL_FEES"
  by (simp add: fees_ok_def POOL_FEES_def FEE_RATE_DENOMINATOR_def)

section \<open>The order of mints\<close>

text \<open>The order does not depend on how the two mints are given.\<close>

lemma orderMints_swap:
  assumes "is_address L a" "is_address L b"
  shows "orderMints L a b = orderMints L b a"
proof (cases "encodeAddress L a = encodeAddress L b")
  case True
  with assms have "a = b" using is_address_inject by blast
  then show ?thesis by simp
next
  case False
  let ?x = "encodeAddress L a" and ?y = "encodeAddress L b"
  have len: "length ?x = 32" "length ?y = 32" using assms by (simp_all add: is_address_def)
  with False obtain i where "i < 32" "?x ! i \<noteq> ?y ! i" by (metis nth_equalityI)
  then have "find (\<lambda>i. ?x ! i \<noteq> ?y ! i) [0..<32] \<noteq> None" by (auto simp: find_None_iff)
  then obtain j where j: "find (\<lambda>i. ?x ! i \<noteq> ?y ! i) [0..<32] = Some j" by auto
  moreover have "find (\<lambda>i. ?y ! i \<noteq> ?x ! i) [0..<32] = find (\<lambda>i. ?x ! i \<noteq> ?y ! i) [0..<32]"
    by (rule arg_cong [of _ _ "\<lambda>P. find P [0..<32]"]) auto
  moreover have "?x ! j \<noteq> ?y ! j" using j by (auto simp: find_Some_iff)
  ultimately show ?thesis by (auto simp: orderMints_def Let_def)
qed

section \<open>Routes through a pool\<close>


section \<open>Alarms of the re-peg\<close>

text \<open>A tick that returns names every pool once, and alarms exactly those a trade of which was refused; any other error ends it.\<close>

lemma repegAll_states:
  "repegAll trade pools = Inr states \<Longrightarrow>
   map fst states = map (\<lambda>(name, _). ''repeg-'' @ name) pools
   \<and> list_all2 (\<lambda>(name, target) (_, state). (state = None) = (\<exists>s. trade name target = Inr s)) pools states"
proof (induction trade pools arbitrary: states rule: repegAll.induct)
  case (2 trade name target rest)
  then show ?case by (cases "trade name target") (auto simp: result_simps split: option.splits)
qed simp

section \<open>Witness\<close>

definition demoPool :: pool_info where
  "demoPool = \<lparr>pi_address = ''POOL'', pi_base = ''SPYx'', pi_quote = ''USDC'', pi_token0Mint = ''SPYX'', pi_token1Mint = ''USDC'',
     pi_token0Vault = ''V0'', pi_token1Vault = ''V1'', pi_lpMint = ''LP'', pi_observation = ''OBS''\<rparr>"

definition demoDevnet :: devnet_addresses where
  "demoDevnet = \<lparr>da_ammConfig = ''AMM'',
     da_tokens = (\<lambda>s. if s = ''SPYx'' then \<lparr>dt_mint = ''SPYX'', dt_tokenProgram = ''T22'', dt_decimals = 8\<rparr>
                     else \<lparr>dt_mint = ''USDC'', dt_tokenProgram = ''TOK'', dt_decimals = 6\<rparr>),
     da_pools = [(''SPYx-USDC'', demoPool)]\<rparr>"

definition demoPoolState :: pool_state where
  "demoPoolState = \<lparr>po_token0Mint = ''SPYX'', po_token0Vault = ''V0'', po_token1Vault = ''V1'', po_protocolFeesToken0 = 10, po_protocolFeesToken1 = 20,
     po_fundFeesToken0 = 0, po_fundFeesToken1 = 0, po_creatorFeesToken0 = 0, po_creatorFeesToken1 = 0\<rparr>"

definition demoBalances :: "address \<Rightarrow> int outcome" where
  "demoBalances v = (if v = ''V0'' then Inr 1000000010 else Inr 6000000020)"

definition demoSwap :: route_instruction where
  "demoSwap = routeInstruction demoLib demoPool (da_tokens demoDevnet) ''AMM'' ''SA'' ''U/SPYX'' 7000000"


end
