(* ===== verification/Calendar_Load.thy ===== *)
theory Calendar_Load
  imports Market
begin

text \<open>
  Whether the market calendar on the chain is the committed one (\<open>packages/deployment/src/calendar.ts\<close>): the closures a
  load keeps and the comparison of the stored bitmaps with the dates. The lemmas show that the comparison holds
  exactly if the bits are the dates', so that every session the code computes from the chain is the dates' session.
\<close>

section \<open>The code\<close>

record market_calendar_days =
  cd_earlyCloses :: "int list"
  cd_holidays :: "int list"
  cd_validThrough :: int

text \<open>The file's ISO dates, with \<open>day\<close> the day number of one.\<close>

definition readMarketCalendar :: "(string \<Rightarrow> int) \<Rightarrow> string list \<Rightarrow> string list \<Rightarrow> string \<Rightarrow> market_calendar_days" where
  "readMarketCalendar day earlyDates holidayDates lastDate =
     \<lparr>cd_earlyCloses = map day earlyDates, cd_holidays = map day holidayDates, cd_validThrough = day lastDate\<rparr>"

definition marketCalendarArgs :: "market_calendar_days \<Rightarrow> int \<Rightarrow> market_calendar_days" where
  "marketCalendarArgs calendar today =
     \<lparr>cd_earlyCloses = filter (\<lambda>closure. closure \<ge> today) (cd_earlyCloses calendar),
      cd_holidays = filter (\<lambda>closure. closure \<ge> today) (cd_holidays calendar),
      cd_validThrough = cd_validThrough calendar\<rparr>"

text \<open>\<open>bitmap[index >> 3] |= 1 << (index & 7)\<close> of a typed array: a write past its end is ignored.\<close>

definition setDay :: "bytes \<Rightarrow> int \<Rightarrow> bytes" where
  "setDay bitmap index =
     (let k = nat (index div 8)
      in if k < length bitmap then bitmap[k := or (bitmap ! k) (push_bit (nat (index mod 8)) 1)] else bitmap)"

definition closureBits :: "market_calendar \<Rightarrow> int list \<Rightarrow> bytes" where
  "closureBits stored days =
     foldl (\<lambda>bitmap closure.
       let index = closure - firstDay stored
       in if index \<ge> 0 \<and> closure \<le> validThrough stored then setDay bitmap index else bitmap)
       (replicate (length (holidays stored)) 0) days"

text \<open>\<open>a.every((byte, index) => byte === b[index])\<close>\<close>

definition sameBytes :: "bytes \<Rightarrow> bytes \<Rightarrow> bool" where
  "sameBytes a b = list_all (\<lambda>i. i < length b \<and> a ! i = b ! i) [0..<length a]"

definition isMarketCalendarLoaded :: "market_calendar \<Rightarrow> market_calendar_days \<Rightarrow> bool" where
  "isMarketCalendarLoaded stored calendar =
     (if validThrough stored \<noteq> cd_validThrough calendar then False
      else sameBytes (closureBits stored (cd_holidays calendar)) (holidays stored)
           \<and> sameBytes (closureBits stored (cd_earlyCloses calendar)) (earlyCloses stored))"

section \<open>Bits\<close>

lemma setDay_length [simp]: "length (setDay bitmap index) = length bitmap"
  by (simp add: setDay_def Let_def)

lemma bit_one_day: "m < 8 \<Longrightarrow> k < 8 \<Longrightarrow> bit (2 ^ k :: u8) m \<longleftrightarrow> m = k"
  by (auto simp: bit_exp_iff)

lemma isSet_iff: "0 \<le> i \<Longrightarrow> isSet bits i \<longleftrightarrow> nat (i div 8) < length bits \<and> bit (bits ! nat (i div 8)) (nat (i mod 8))"
  by (auto simp: isSet_def nth_opt_def pos_imp_zdiv_nonneg_iff split: option.splits)

lemma same_position: "0 \<le> i \<Longrightarrow> 0 \<le> j \<Longrightarrow> nat (i div 8) = nat (j div 8) \<Longrightarrow> nat (i mod 8) = nat (j mod 8) \<Longrightarrow> i = (j :: int)"
  by (metis div_mult_mod_eq eq_nat_nat_iff pos_imp_zdiv_nonneg_iff pos_mod_sign zero_less_numeral)

lemma isSet_setDay:
  assumes "0 \<le> i" "0 \<le> j"
  shows "isSet (setDay bitmap j) i \<longleftrightarrow> isSet bitmap i \<or> (i = j \<and> nat (j div 8) < length bitmap)"
proof (cases "nat (i div 8) = nat (j div 8) \<and> nat (j div 8) < length bitmap")
  case False
  with assms show ?thesis by (auto simp: isSet_iff setDay_def Let_def)
next
  case True
  have small: "nat (i mod 8) < 8" "nat (j mod 8) < 8" by simp_all
  have "isSet (setDay bitmap j) i \<longleftrightarrow> bit (or (bitmap ! nat (j div 8)) (push_bit (nat (j mod 8)) 1)) (nat (i mod 8))"
    using True assms by (simp add: isSet_iff setDay_def Let_def)
  also have "\<dots> \<longleftrightarrow> isSet bitmap i \<or> nat (i mod 8) = nat (j mod 8)"
    using True assms by (simp add: bit_or_iff bit_one_day [OF small] isSet_iff)
  also have "\<dots> \<longleftrightarrow> isSet bitmap i \<or> (i = j \<and> nat (j div 8) < length bitmap)"
    using True same_position [OF assms] by auto
  finally show ?thesis .
qed

definition days_bits :: "market_calendar \<Rightarrow> bytes \<Rightarrow> int list \<Rightarrow> bool" where
  "days_bits stored bits days \<longleftrightarrow> (\<forall>i. 0 \<le> i \<and> i < 8 * int (length bits) \<longrightarrow>
     (isSet bits i \<longleftrightarrow> firstDay stored + i \<in> set days \<and> firstDay stored + i \<le> validThrough stored))"

lemma closureBits_length [simp]: "length (closureBits stored days) = length (holidays stored)"
proof -
  have "length (foldl (\<lambda>bitmap closure. let index = closure - firstDay stored
       in if index \<ge> 0 \<and> closure \<le> validThrough stored then setDay bitmap index else bitmap) bits days) = length bits" for bits
    by (induction days arbitrary: bits) (simp_all add: Let_def)
  then show ?thesis by (simp add: closureBits_def)
qed

lemma closureBits_days: "days_bits stored (closureBits stored days) days"
proof -
  let ?f = "\<lambda>bitmap closure. let index = closure - firstDay stored
       in if index \<ge> 0 \<and> closure \<le> validThrough stored then setDay bitmap index else bitmap"
  have fold: "isSet (foldl ?f bits days) i \<longleftrightarrow> isSet bits i \<or> (firstDay stored + i \<in> set days \<and> firstDay stored + i \<le> validThrough stored)"
    if i: "0 \<le> i" "nat (i div 8) < length bits" for bits i
    using i(2)
  proof (induction days arbitrary: bits)
    case (Cons d days)
    show ?case
    proof (cases "d - firstDay stored \<ge> 0 \<and> d \<le> validThrough stored")
      case True
      with Cons.IH [of "setDay bits (d - firstDay stored)"] Cons.prems isSet_setDay [OF i(1), of "d - firstDay stored" bits]
      show ?thesis by (auto simp: Let_def)
    next
      case False
      with Cons.IH [of bits] Cons.prems i(1) show ?thesis by (auto simp: Let_def)
    qed
  qed simp
  have zero: "\<not> isSet (replicate n 0) i" for n i by (auto simp: isSet_def nth_opt_def)
  show ?thesis
    unfolding days_bits_def
  proof (intro allI impI)
    fix i assume i: "0 \<le> i \<and> i < 8 * int (length (closureBits stored days))"
    then have "i div 8 < int (length (holidays stored))" using zdiv_mono_strict [of i "8 * int (length (holidays stored))" 8] by auto
    with i have "nat (i div 8) < length (replicate (length (holidays stored)) (0 :: u8))"
      by (simp add: nat_less_iff pos_imp_zdiv_nonneg_iff)
    from fold [OF _ this] i zero [of "length (holidays stored)" i]
    show "isSet (closureBits stored days) i \<longleftrightarrow> firstDay stored + i \<in> set days \<and> firstDay stored + i \<le> validThrough stored"
      by (simp add: closureBits_def)
  qed
qed

lemma bits_determine:
  assumes "length a = length (b :: bytes)" "\<And>i. 0 \<le> i \<Longrightarrow> i < 8 * int (length a) \<Longrightarrow> isSet a i = isSet b i"
  shows "a = b"
proof (rule nth_equalityI [OF assms(1)])
  fix k assume k: "k < length a"
  show "a ! k = b ! k"
  proof (rule bit_word_eqI)
    fix n assume n: "n < LENGTH(8)"
    have "isSet a (8 * int k + int n) = isSet b (8 * int k + int n)" using k n by (intro assms(2)) auto
    moreover have "nat ((8 * int k + int n) div 8) = k" "nat ((8 * int k + int n) mod 8) = n" using n by auto
    ultimately show "bit (a ! k) n = bit (b ! k) n" using k assms(1) by (simp add: isSet_iff)
  qed
qed

lemma sameBytes_iff: "length a = length b \<Longrightarrow> sameBytes a b \<longleftrightarrow> a = b"
  by (auto simp: sameBytes_def list_all_iff intro: nth_equalityI)

lemma closureBits_iff:
  assumes "length bits = length (holidays stored)"
  shows "closureBits stored days = bits \<longleftrightarrow> days_bits stored bits days"
proof
  assume "days_bits stored bits days"
  with closureBits_days [of stored days] assms show "closureBits stored days = bits"
    by (intro bits_determine) (auto simp: days_bits_def)
qed (use closureBits_days in blast)

lemma isMarketCalendarLoaded_iff:
  assumes "length (earlyCloses stored) = length (holidays stored)"
  shows "isMarketCalendarLoaded stored calendar \<longleftrightarrow> validThrough stored = cd_validThrough calendar
    \<and> days_bits stored (holidays stored) (cd_holidays calendar) \<and> days_bits stored (earlyCloses stored) (cd_earlyCloses calendar)"
  using assms by (auto simp: isMarketCalendarLoaded_def sameBytes_iff closureBits_iff)

section \<open>Sessions of the dates\<close>

text \<open>A day's session by the dates of the calendar alone.\<close>

definition datedSession :: "market_calendar_days \<Rightarrow> int \<Rightarrow> market_session option" where
  "datedSession calendar d =
     (if d > cd_validThrough calendar \<or> weekday d = 0 \<or> weekday d = 6 \<or> d \<in> set (cd_holidays calendar) then None
      else let start = d * DAY_SECONDS + (if daylightTime d (weekday d) then 4 * HOUR else 5 * HOUR)
           in Some \<lparr>session_close = start + (if d \<in> set (cd_earlyCloses calendar) then EARLY_CLOSE else CLOSE_TIME),
                    session_open = start + OPEN_TIME\<rparr>)"

lemma days_bits_at:
  assumes "days_bits stored bits days" "firstDay stored \<le> d" "d \<le> validThrough stored" "validThrough stored - firstDay stored < 8 * int (length bits)"
  shows "isSet bits (d - firstDay stored) \<longleftrightarrow> d \<in> set days"
proof -
  have "0 \<le> d - firstDay stored \<and> d - firstDay stored < 8 * int (length bits)" using assms(2-4) by simp
  with assms(1) have "isSet bits (d - firstDay stored) \<longleftrightarrow> firstDay stored + (d - firstDay stored) \<in> set days
      \<and> firstDay stored + (d - firstDay stored) \<le> validThrough stored" unfolding days_bits_def by blast
  with assms(3) show ?thesis by simp
qed

text \<open>Closures before the first day do not count.\<close>

lemma days_bits_kept:
  "days_bits stored bits (filter (\<lambda>d. d \<ge> firstDay stored) days) = days_bits stored bits days"
  by (auto simp: days_bits_def)

text \<open>
  C34: The check that the calendar is loaded is exact: when it passes, every day's session that the code computes from
  the chain is the session of the committed dates, from the first day stored on; it passes for the dates as loaded
  and for the whole file alike; and it passes whenever the stored bits are those of the dates.
\<close>

theorem calendar_loaded_exact:
  assumes "length (earlyCloses stored) = length (holidays stored)"
    and "validThrough stored - firstDay stored < 8 * int (length (holidays stored))"
  shows "(isMarketCalendarLoaded stored calendar \<longrightarrow>
      marketSession d stored = (if d < firstDay stored then None else datedSession calendar d))
    \<and> isMarketCalendarLoaded stored (marketCalendarArgs calendar (firstDay stored)) = isMarketCalendarLoaded stored calendar
    \<and> isMarketCalendarLoaded \<lparr>firstDay = firstDay stored, validThrough = cd_validThrough calendar,
         holidays = closureBits (stored\<lparr>validThrough := cd_validThrough calendar\<rparr>) (cd_holidays calendar),
         earlyCloses = closureBits (stored\<lparr>validThrough := cd_validThrough calendar\<rparr>) (cd_earlyCloses calendar)\<rparr> calendar"
proof (intro conjI impI)
  assume "isMarketCalendarLoaded stored calendar"
  then have loaded: "validThrough stored = cd_validThrough calendar"
    "days_bits stored (holidays stored) (cd_holidays calendar)" "days_bits stored (earlyCloses stored) (cd_earlyCloses calendar)"
    by (simp_all add: isMarketCalendarLoaded_iff [OF assms(1)])
  show "marketSession d stored = (if d < firstDay stored then None else datedSession calendar d)"
  proof (cases "firstDay stored \<le> d \<and> d \<le> validThrough stored")
    case True
    with days_bits_at [OF loaded(2)] days_bits_at [OF loaded(3)] assms
    have "isSet (holidays stored) (d - firstDay stored) \<longleftrightarrow> d \<in> set (cd_holidays calendar)"
      "isSet (earlyCloses stored) (d - firstDay stored) \<longleftrightarrow> d \<in> set (cd_earlyCloses calendar)" by simp_all
    with True loaded(1) show ?thesis by (simp add: marketSession_def datedSession_def Let_def)
  next
    case False
    with loaded(1) show ?thesis by (auto simp: marketSession_def datedSession_def)
  qed
next
  show "isMarketCalendarLoaded stored (marketCalendarArgs calendar (firstDay stored)) = isMarketCalendarLoaded stored calendar"
    by (simp add: isMarketCalendarLoaded_iff [OF assms(1)] marketCalendarArgs_def days_bits_kept)
next
  have same: "closureBits \<lparr>firstDay = firstDay stored, validThrough = v, holidays = closureBits (stored\<lparr>validThrough := v\<rparr>) h, earlyCloses = e\<rparr> days
      = closureBits (stored\<lparr>validThrough := v\<rparr>) days" for v h e days
    unfolding closureBits_def [of _ days] by simp
  show "isMarketCalendarLoaded \<lparr>firstDay = firstDay stored, validThrough = cd_validThrough calendar,
         holidays = closureBits (stored\<lparr>validThrough := cd_validThrough calendar\<rparr>) (cd_holidays calendar),
         earlyCloses = closureBits (stored\<lparr>validThrough := cd_validThrough calendar\<rparr>) (cd_earlyCloses calendar)\<rparr> calendar"
    by (simp add: isMarketCalendarLoaded_def same sameBytes_iff)
qed

section \<open>Witness\<close>

text \<open>A calendar of five weeks from 2026-06-22 with Independence Day observed on Friday 2026-07-03 and an early close.\<close>

definition demoDates :: market_calendar_days where
  "demoDates = \<lparr>cd_earlyCloses = [20500, 20635], cd_holidays = [20000, 20637], cd_validThrough = 20660\<rparr>"

definition demoStored :: market_calendar where
  "demoStored = \<lparr>firstDay = 20626, validThrough = 20660, holidays = [0, 8, 0, 0, 0], earlyCloses = [0, 2, 0, 0, 0]\<rparr>"

theorem calendar_loaded_exact_witness:
  "isMarketCalendarLoaded demoStored demoDates \<and> marketSession 20637 demoStored = None
   \<and> marketSession 20635 demoStored = datedSession demoDates 20635 \<and> marketSession 20635 demoStored \<noteq> None"
proof -
  have loaded: "isMarketCalendarLoaded demoStored demoDates" by code_simp
  have sizes: "length (earlyCloses demoStored) = length (holidays demoStored)"
    "validThrough demoStored - firstDay demoStored < 8 * int (length (holidays demoStored))" by code_simp+
  have dates: "datedSession demoDates 20637 = None" "datedSession demoDates 20635 \<noteq> None" "\<not> (20637 :: int) < firstDay demoStored"
    "\<not> (20635 :: int) < firstDay demoStored" by code_simp+
  note exact = calendar_loaded_exact [OF sizes, of demoDates]
  have "marketSession 20637 demoStored = datedSession demoDates 20637" "marketSession 20635 demoStored = datedSession demoDates 20635"
    using exact loaded dates(3,4) by presburger+
  with loaded dates(1,2) show ?thesis by simp
qed

end
