(* ===== verification/Eligibility.thy ===== *)
theory Eligibility
  imports Telegram_Links Sponsor_Routes
begin

text \<open>
  Eligibility declarations (\<open>apps/app/app/api/eligibility/route.ts\<close>, \<open>isDeclared\<close> of \<open>lib/db.ts\<close>): the route that records a
  wallet's signed declaration, and the check the sponsor's and the faucet's routes make. A row is a wallet's own
  fresh signature of the current text, from a region that is not blocked.
\<close>

section \<open>The code\<close>

record declaration_row =
  dl_wallet :: string
  dl_version :: string
  dl_country :: "string option"
  dl_declaredAt :: int
  dl_message :: string
  dl_signature :: string

definition isDeclared :: "declaration_row list \<Rightarrow> string \<Rightarrow> bool" where
  "isDeclared rows wallet = list_ex (\<lambda>r. dl_wallet r = wallet \<and> dl_version r = DECLARATION_VERSION) rows"

definition MAX_DECLARATION_BODY :: int where "MAX_DECLARATION_BODY = 4096"

datatype declaration_reply = Declaration_Refused string int | Declaration_Status bool string int | Declaration_Threw

definition declarationStatus :: "signing \<Rightarrow> string option \<Rightarrow> declaration_row list \<Rightarrow> declaration_reply" where
  "declarationStatus K wallet rows =
     (case wallet of
        Some w \<Rightarrow>
          if w = [] \<or> \<not> sg_isAddress K w then Declaration_Refused ''wallet is not an address'' 400
          else Declaration_Status (isDeclared rows w) DECLARATION_VERSION 200
      | None \<Rightarrow> Declaration_Refused ''wallet is not an address'' 400)"

text \<open>
  The route, checked at \<open>now\<close>, its row at \<open>later\<close>. The country's column holds two characters; a wallet's second row of a
  version is not inserted.
\<close>

definition declareEligibility ::
    "signing \<Rightarrow> translator \<Rightarrow> request_region \<Rightarrow> link_http \<Rightarrow> int \<Rightarrow> int \<Rightarrow> declaration_row list \<Rightarrow> declaration_reply \<times> declaration_row list" where
  "declareEligibility K t region r now later rows =
     (if isBlocked region then (Declaration_Refused ''unavailable'' 451, rows)
      else if lh_length r > MAX_DECLARATION_BODY then (Declaration_Refused ''the body is too large'' 413, rows)
      else case lh_body r of
        None \<Rightarrow> (Declaration_Refused ''the body is not JSON'' 400, rows)
      | Some b \<Rightarrow>
          (case Option.bind (sb_locale b) isLocale of
             None \<Rightarrow> (Declaration_Refused ''locale is not supported'' 400, rows)
           | Some lang \<Rightarrow>
               (case (sb_wallet b, sb_issuedAt b, sb_signature b) of
                  (Some wallet, Some issuedAt, Some signature) \<Rightarrow>
                    let domain = (case lh_host r of Some h \<Rightarrow> h | None \<Rightarrow> lh_urlHost r)
                    in (case declarationProblem K t lang domain wallet issuedAt signature now of
                          Some problem \<Rightarrow> (Declaration_Refused problem 400, rows)
                        | None \<Rightarrow>
                            if (case rr_country region of None \<Rightarrow> False | Some c \<Rightarrow> length c > 2) then (Declaration_Threw, rows)
                            else (Declaration_Status True DECLARATION_VERSION 201,
                                  if list_ex (\<lambda>x. dl_wallet x = wallet \<and> dl_version x = DECLARATION_VERSION) rows then rows
                                  else rows @ [\<lparr>dl_wallet = wallet, dl_version = DECLARATION_VERSION, dl_country = rr_country region,
                                                dl_declaredAt = later, dl_message = declarationMessage t lang domain wallet issuedAt,
                                                dl_signature = signature\<rparr>]))
                | _ \<Rightarrow> (Declaration_Refused ''wallet, issuedAt and signature are required'' 400, rows))))"

section \<open>What a declaration is\<close>

text \<open>A row is of a text of the wallet's that the wallet signed, at most ten minutes away from when it was checked.\<close>

definition declared_by :: "signing \<Rightarrow> translator \<Rightarrow> declaration_row \<Rightarrow> bool" where
  "declared_by K t row \<longleftrightarrow> (\<exists>lang domain issuedAt issued now bytes.
     dl_message row = declarationMessage t lang domain (dl_wallet row) issuedAt \<and> sg_isAddress K (dl_wallet row)
     \<and> isoTime issuedAt = Some issued \<and> \<bar>now - issued\<bar> \<le> SIGNATURE_MAX_AGE_MS
     \<and> sg_base58 K (dl_signature row) = Some bytes \<and> sg_verifies K (dl_wallet row) bytes (dl_message row))
     \<and> (\<forall>c. dl_country row = Some c \<longrightarrow> c \<notin> set BLOCKED_COUNTRIES)"

inductive declaration_run :: "signing \<Rightarrow> translator \<Rightarrow> declaration_row list \<Rightarrow> bool" for K t where
  declaration_start: "declaration_run K t []"
| declaration_post: "declaration_run K t rows \<Longrightarrow> declareEligibility K t region r now later rows = (reply, rows') \<Longrightarrow>
    declaration_run K t rows'"

lemma declareEligibility_rows:
  assumes "declareEligibility K t region r now later rows = (reply, rows')"
  shows "rows' = rows
    \<or> (\<exists>row. rows' = rows @ [row] \<and> declared_by K t row \<and> dl_version row = DECLARATION_VERSION
         \<and> \<not> isDeclared rows (dl_wallet row) \<and> reply = Declaration_Status True DECLARATION_VERSION 201)"
proof (cases "rows' = rows")
  case False
  with assms obtain b lang wallet issuedAt signature where b: "\<not> isBlocked region" "lh_body r = Some b"
    "Option.bind (sb_locale b) isLocale = Some lang" "sb_wallet b = Some wallet" "sb_issuedAt b = Some issuedAt" "sb_signature b = Some signature"
    by (auto simp: declareEligibility_def split: if_splits option.splits)
  let ?domain = "case lh_host r of Some h \<Rightarrow> h | None \<Rightarrow> lh_urlHost r"
  let ?row = "\<lparr>dl_wallet = wallet, dl_version = DECLARATION_VERSION, dl_country = rr_country region, dl_declaredAt = later,
     dl_message = declarationMessage t lang ?domain wallet issuedAt, dl_signature = signature\<rparr>"
  from assms b False have ok: "declarationProblem K t lang ?domain wallet issuedAt signature now = None"
    and rows': "rows' = rows @ [?row]" "\<not> isDeclared rows wallet" "reply = Declaration_Status True DECLARATION_VERSION 201"
    by (auto simp: declareEligibility_def Let_def isDeclared_def split: if_splits option.splits)
  have "\<forall>c. rr_country region = Some c \<longrightarrow> c \<notin> set BLOCKED_COUNTRIES" using b(1) by (auto simp: isBlocked_def)
  with ok have "declared_by K t ?row"
    unfolding declarationProblem_def signatureProblem_None declared_by_def declaration_row.select_convs by blast
  with rows' show ?thesis by auto
qed simp


text \<open>A wallet that declared stays declared, and a wallet whose declaration was answered with 201 is.\<close>

lemma declaration_stays:
  assumes "declareEligibility K t region r now later rows = (reply, rows')"
  shows "isDeclared rows wallet \<Longrightarrow> isDeclared rows' wallet"
  using declareEligibility_rows [OF assms] by (auto simp: isDeclared_def)

section \<open>Witness\<close>

definition demoDeclare :: link_http where
  "demoDeclare = \<lparr>lh_length = 300, lh_body = Some \<lparr>sb_locale = Some ''en'', sb_wallet = Some ''W'', sb_issuedAt = Some demoIssued,
     sb_signature = Some ''sig''\<rparr>, lh_host = Some ''laterite.app'', lh_urlHost = ''x''\<rparr>"

definition demoDeclared :: "declaration_row list" where
  "demoDeclared = snd (declareEligibility demoSigning plainTranslator \<lparr>rr_country = Some ''AR'', rr_region = None\<rparr> demoDeclare
     (the (isoTime demoIssued)) (the (isoTime demoIssued)) [])"


end
